(* ===== verification/Prelude.thy ===== *)
theory Prelude
  imports Main "HOL-Library.Word" "HOL-Library.AList" "HOL-Library.Multiset"
begin

text \<open>
  The shared base of the development: the machine integers and byte strings of the Go sources,
  the outcome of a Go call that may panic, Go's built-in maps as association lists, and the
  generic list lemmas the components use.

  A Go \<^verbatim>\<open>map[K]V\<close> is an association list with distinct keys. Go leaves the order in which
  \<^verbatim>\<open>range\<close> yields the entries open, so a loop over a map takes the entries in the order
  of this run as a further argument, and the theorems hold for every order that
  \<open>range_order\<close> admits.
\<close>

section \<open>Types\<close>

type_synonym u8 = "8 word"
type_synonym u16 = "16 word"
type_synonym u32 = "32 word"
type_synonym u64 = "64 word"
type_synonym i32 = "32 word"
type_synonym i64 = "64 word"
type_synonym bytes = "u8 list"

text \<open>The outcome of a Go call: it returns, or it panics with a message.\<close>

datatype 'a go = Ret 'a | Panic string

fun go_bind :: "'a go \<Rightarrow> ('a \<Rightarrow> 'b go) \<Rightarrow> 'b go" where
  "go_bind (Ret a) f = f a"
| "go_bind (Panic s) f = Panic s"

fun returns :: "'a go \<Rightarrow> bool" where
  "returns (Ret a) = True"
| "returns (Panic s) = False"

text \<open>A loop whose body may panic: the first panic ends it.\<close>

fun go_fold :: "('a \<Rightarrow> 's \<Rightarrow> 's go) \<Rightarrow> 'a list \<Rightarrow> 's \<Rightarrow> 's go" where
  "go_fold f [] s = Ret s"
| "go_fold f (x # xs) s = go_bind (f x s) (go_fold f xs)"

text \<open>Dereferencing nil, and a call of \<^verbatim>\<open>math/big\<close> that reads a number through a pointer.\<close>

definition nil_deref :: "'a go" where
  "nil_deref = Panic ''nil pointer dereference''"

definition big_val :: "int option \<Rightarrow> int go" where
  "big_val i = (case i of Some n \<Rightarrow> Ret n | None \<Rightarrow> nil_deref)"

text \<open>Stateful code that returns a value or an error: the state changes also when it fails, and the
  caller that passes an error on does nothing more.\<close>

type_synonym ('e, 's, 'a) exec = "'s \<Rightarrow> (('e + 'a) \<times> 's) go"

definition ex_ret :: "'a \<Rightarrow> ('e, 's, 'a) exec" where
  "ex_ret x s = Ret (Inr x, s)"

definition ex_err :: "'e \<Rightarrow> ('e, 's, 'a) exec" where
  "ex_err e s = Ret (Inl e, s)"

definition ex_go :: "'a go \<Rightarrow> ('e, 's, 'a) exec" where
  "ex_go m s = go_bind m (\<lambda>x. Ret (Inr x, s))"

definition ex_bind :: "('e, 's, 'a) exec \<Rightarrow> ('a \<Rightarrow> ('e, 's, 'b) exec) \<Rightarrow> ('e, 's, 'b) exec" where
  "ex_bind m k s = go_bind (m s) (\<lambda>(r, s'). case r of Inl e \<Rightarrow> Ret (Inl e, s') | Inr x \<Rightarrow> k x s')"

section \<open>Go maps\<close>

type_synonym ('k, 'v) gomap = "('k \<times> 'v) list"

abbreviation gm_empty :: "('k, 'v) gomap" where
  "gm_empty \<equiv> []"

abbreviation gm_get :: "('k, 'v) gomap \<Rightarrow> 'k \<Rightarrow> 'v option" where
  "gm_get m k \<equiv> map_of m k"

abbreviation gm_set :: "'k \<Rightarrow> 'v \<Rightarrow> ('k, 'v) gomap \<Rightarrow> ('k, 'v) gomap" where
  "gm_set k v m \<equiv> AList.update k v m"

abbreviation gm_del :: "'k \<Rightarrow> ('k, 'v) gomap \<Rightarrow> ('k, 'v) gomap" where
  "gm_del k m \<equiv> AList.delete k m"

abbreviation gm_len :: "('k, 'v) gomap \<Rightarrow> nat" where
  "gm_len m \<equiv> length m"

definition gm_wf :: "('k, 'v) gomap \<Rightarrow> bool" where
  "gm_wf m \<longleftrightarrow> distinct (map fst m)"

definition gm_has :: "('k, 'v) gomap \<Rightarrow> 'k \<Rightarrow> bool" where
  "gm_has m k \<longleftrightarrow> gm_get m k \<noteq> None"

text \<open>\<open>range_order es m\<close>: a \<^verbatim>\<open>range\<close> loop over \<open>m\<close> may yield the entries \<open>es\<close> in this order.\<close>

definition range_order :: "('k \<times> 'v) list \<Rightarrow> ('k, 'v) gomap \<Rightarrow> bool" where
  "range_order es m \<longleftrightarrow> mset es = mset m"

section \<open>Lemma collections\<close>

named_theorems go_simps \<open>evaluation of the Go library models\<close>
named_theorems inv_intros \<open>preservation of the component invariants\<close>

section \<open>Lemmas on outcomes and maps\<close>

lemma go_bind_Ret_iff [simp]:
  "go_bind m f = Ret b \<longleftrightarrow> (\<exists>a. m = Ret a \<and> f a = Ret b)"
  by (cases m) auto

lemma go_bind_Panic_iff:
  "go_bind m f = Panic s \<longleftrightarrow> m = Panic s \<or> (\<exists>a. m = Ret a \<and> f a = Panic s)"
  by (cases m) auto

lemma big_val_Some [simp]: "big_val (Some n) = Ret n"
  by (simp add: big_val_def)

lemma big_val_Ret_iff: "big_val i = Ret n \<longleftrightarrow> i = Some n"
  by (simp add: big_val_def nil_deref_def split: option.splits)

lemma ex_simps [simp]:
  "ex_ret x s = Ret (Inr x, s)"
  "ex_err e s = Ret (Inl e, s)"
  "ex_go (Ret x) s = Ret (Inr x, s)"
  "ex_go (Panic p) s = Panic p"
  by (simp_all add: ex_ret_def ex_err_def ex_go_def)

lemma ex_bind_steps [simp]:
  "m s = Ret (Inr x, s') \<Longrightarrow> ex_bind m k s = k x s'"
  "m s = Ret (Inl e, s') \<Longrightarrow> ex_bind m k s = Ret (Inl e, s')"
  "m s = Panic p \<Longrightarrow> ex_bind m k s = Panic p"
  by (simp_all add: ex_bind_def)

lemma ex_bind_go [simp]:
  "ex_bind (ex_go (Ret x)) k s = k x s"
  "ex_bind (ex_go (Panic p)) k s = Panic p"
  by (simp_all add: ex_bind_def)

lemma ex_bind_Inr_iff:
  "ex_bind m k s = Ret (Inr y, t) \<longleftrightarrow> (\<exists>x s'. m s = Ret (Inr x, s') \<and> k x s' = Ret (Inr y, t))"
proof (cases "m s")
  case (Ret rs)
  then show ?thesis by (cases rs; cases "fst rs") auto
qed simp

lemma returns_iff: "returns m \<longleftrightarrow> (\<exists>a. m = Ret a)"
  by (cases m) auto

lemma go_fold_append:
  "go_fold f (xs @ ys) s = go_bind (go_fold f xs s) (go_fold f ys)"
proof (induction xs arbitrary: s)
  case (Cons x xs)
  then show ?case by (cases "f x s") auto
qed simp

text \<open>A loop whose body keeps an invariant and never panics under it returns with the invariant.\<close>

lemma go_fold_inv:
  assumes "I s"
    and "\<And>x s. x \<in> set xs \<Longrightarrow> I s \<Longrightarrow> \<exists>s'. f x s = Ret s' \<and> I s'"
  shows "\<exists>s'. go_fold f xs s = Ret s' \<and> I s'"
  using assms
proof (induction xs arbitrary: s)
  case (Cons x xs)
  then obtain s' where "f x s = Ret s'" and "I s'"
    by (meson list.set_intros(1))
  with Cons show ?case by auto
qed simp

lemma gm_wf_empty [simp, intro]: "gm_wf gm_empty"
  by (simp add: gm_wf_def)

lemma gm_wf_set [simp, intro]: "gm_wf m \<Longrightarrow> gm_wf (gm_set k v m)"
  by (simp add: gm_wf_def distinct_update)

lemma gm_wf_del [simp, intro]: "gm_wf m \<Longrightarrow> gm_wf (gm_del k m)"
  by (simp add: gm_wf_def distinct_delete)

lemma gm_get_set: "gm_get (gm_set k v m) k' = (if k' = k then Some v else gm_get m k')"
  by (simp add: update_conv)

lemma gm_get_set_eq [simp]: "gm_get (gm_set k v m) k = Some v"
  by (simp add: gm_get_set)

lemma gm_get_set_neq [simp]: "k' \<noteq> k \<Longrightarrow> gm_get (gm_set k v m) k' = gm_get m k'"
  by (simp add: gm_get_set)

lemma gm_get_del: "gm_get (gm_del k m) k' = (if k' = k then None else gm_get m k')"
  by (simp add: delete_conv)

lemma gm_get_del_eq [simp]: "gm_get (gm_del k m) k = None"
  by (simp add: gm_get_del)

lemma gm_get_del_neq [simp]: "k' \<noteq> k \<Longrightarrow> gm_get (gm_del k m) k' = gm_get m k'"
  by (simp add: gm_get_del)

lemma gm_has_set [simp]: "gm_has (gm_set k v m) k' \<longleftrightarrow> k' = k \<or> gm_has m k'"
  by (auto simp: gm_has_def gm_get_set)

lemma gm_has_del [simp]: "gm_has (gm_del k m) k' \<longleftrightarrow> k' \<noteq> k \<and> gm_has m k'"
  by (auto simp: gm_has_def gm_get_del)

lemma gm_has_empty [simp]: "\<not> gm_has gm_empty k"
  by (simp add: gm_has_def)

lemma gm_has_iff_dom: "gm_has m k \<longleftrightarrow> k \<in> fst ` set m"
  by (simp add: gm_has_def map_of_eq_None_iff)

lemma gm_get_in: "gm_wf m \<Longrightarrow> gm_get m k = Some v \<longleftrightarrow> (k, v) \<in> set m"
  by (simp add: gm_wf_def)

lemma gm_len_dom: "gm_wf m \<Longrightarrow> gm_len m = card (dom (gm_get m))"
  by (metis gm_wf_def dom_map_of_conv_image_fst distinct_card length_map set_map)

lemma range_order_refl [simp, intro]: "range_order m m"
  by (simp add: range_order_def)

lemma range_order_set: "range_order es m \<Longrightarrow> set es = set m"
  by (metis range_order_def set_mset_mset)

lemma range_order_length: "range_order es m \<Longrightarrow> length es = length m"
  by (metis range_order_def size_mset)

lemma range_order_wf: "range_order es m \<Longrightarrow> gm_wf m \<Longrightarrow> gm_wf es"
  unfolding range_order_def gm_wf_def
  by (metis mset_eq_imp_distinct_iff mset_map)

lemma range_order_get: "range_order es m \<Longrightarrow> gm_wf m \<Longrightarrow> gm_get es = gm_get m"
  by (metis gm_wf_def map_of_eqI range_order_set range_order_wf set_map ext gm_get_in
      not_None_eq)

section \<open>Lemmas on words\<close>

lemma unat_u8_less: "unat (b :: u8) < 256"
  using unsigned_less [of b, where ?'a = nat] by simp

lemma unat_u32_less: "unat (n :: u32) < 2 ^ 32"
  using unsigned_less [of n, where ?'a = nat] by simp

lemma unat_u64_less: "unat (n :: u64) < 2 ^ 64"
  using unsigned_less [of n, where ?'a = nat] by simp

lemma word_of_nat_unat [simp]: "word_of_nat (unat w) = w"
  by (simp add: of_nat_unat)

lemma ucast_via_unat: "ucast w = word_of_nat (unat w)"
  by (simp only: of_nat_unat)

lemma unat_word_of_nat_u64: "n < 2 ^ 64 \<Longrightarrow> unat (word_of_nat n :: u64) = n"
  by (simp add: unat_of_nat)

lemma unat_word_of_nat_u32: "n < 2 ^ 32 \<Longrightarrow> unat (word_of_nat n :: u32) = n"
  by (simp add: unat_of_nat)

section \<open>Lemmas on lists\<close>

lemma filter_neq_id: "x \<notin> f ` set xs \<Longrightarrow> filter (\<lambda>y. f y \<noteq> x) xs = xs"
  by (induction xs) auto

lemma distinct_map_filter_neq:
  "distinct (map f xs) \<Longrightarrow> x \<in> set xs \<Longrightarrow>
     mset xs = add_mset x (mset (filter (\<lambda>y. f y \<noteq> f x) xs))"
proof (induction xs)
  case (Cons y ys)
  show ?case
  proof (cases "x = y")
    case True
    with Cons.prems have "f x \<notin> f ` set ys" by auto
    with True show ?thesis by (simp add: filter_neq_id)
  next
    case False
    with Cons.prems have "x \<in> set ys" "f y \<noteq> f x" by auto
    with Cons show ?thesis by simp
  qed
qed simp

lemma distinct_map_eqD: "distinct (map f xs) \<Longrightarrow> x \<in> set xs \<Longrightarrow> y \<in> set xs \<Longrightarrow> f x = f y \<Longrightarrow> x = y"
  by (simp add: distinct_map inj_on_def)

lemma sum_list_filter_split:
  "sum_list (map f xs) =
     sum_list (map f (filter P xs)) + (sum_list (map f (filter (\<lambda>x. \<not> P x) xs)) :: 'a :: comm_monoid_add)"
  by (induction xs) (auto simp: ac_simps)

end
