(* ===== verification/Encoding.thy ===== *)
theory Encoding
  imports Prelude
begin

unbundle bit_operations_syntax

text \<open>
  The wire format of the program (\<^verbatim>\<open>components/utils\<close>): the variable-length integers of
  \<^verbatim>\<open>varlen.go\<close>, the byte and hex conversions of \<^verbatim>\<open>data_convert.go\<close> and \<^verbatim>\<open>json.go\<close>, and the
  reflective encoder and decoder of \<^verbatim>\<open>encoding.go\<close>.

  A reader is the bytes it still holds. A Go value that the encoder walks by reflection is
  a \<open>gval\<close> and its type a \<open>gty\<close>; the record types of the other components translate
  themselves into these. A decoder returns the value, the error it returns (if any) and
  the bytes left.
\<close>

section \<open>Little- and big-endian bytes\<close>

fun le_put :: "nat \<Rightarrow> nat \<Rightarrow> bytes" where
  "le_put 0 n = []"
| "le_put (Suc k) n = word_of_nat n # le_put k (n div 256)"

fun le_get :: "bytes \<Rightarrow> nat" where
  "le_get [] = 0"
| "le_get (b # bs) = unat b + 256 * le_get bs"

text \<open>\<^verbatim>\<open>big.Int.Bytes\<close> (of the absolute value) and \<^verbatim>\<open>big.Int.SetBytes\<close>.\<close>

fun be_bytes :: "nat \<Rightarrow> bytes" where
  "be_bytes n = (if n = 0 then [] else be_bytes (n div 256) @ [word_of_nat n])"

declare be_bytes.simps [simp del]

definition be_get :: "bytes \<Rightarrow> nat" where
  "be_get bs = foldl (\<lambda>a b. a * 256 + unat b) 0 bs"

section \<open>Readers\<close>

datatype rerr = EOF | ErrUnexpectedEOF | ErrArrayLen

text \<open>\<^verbatim>\<open>io.ReadFull\<close> into a buffer of \<open>k\<close> zero bytes: the buffer, the number of bytes read, the error
  and the reader afterwards.\<close>

definition read_full :: "nat \<Rightarrow> bytes \<Rightarrow> bytes \<times> nat \<times> rerr option \<times> bytes" where
  "read_full k r =
     (let got = take k r; n = length got
      in (got @ replicate (k - n) 0, n,
          (if n = k then None else if n = 0 then Some EOF else Some ErrUnexpectedEOF),
          drop k r))"

section \<open>Variable-length integers\<close>

definition VarInt :: "u64 \<Rightarrow> bytes" where
  "VarInt n =
     (if n < 0xFD then [ucast n]
      else if n \<le> 0xFFFF then 0xFD # le_put 2 (unat n)
      else if n \<le> 0xFFFFFFFF then 0xFE # le_put 4 (unat n)
      else 0xFF # le_put 8 (unat n))"

definition ReadVarInt :: "bytes \<Rightarrow> u64 \<times> rerr option \<times> bytes" where
  "ReadVarInt r =
     (case r of
        [] \<Rightarrow> (0, Some EOF, [])
      | c # r' \<Rightarrow>
          if c = 0xFD then (case read_full 2 r' of (buf, _, err, r'') \<Rightarrow> (word_of_nat (le_get buf), err, r''))
          else if c = 0xFE then (case read_full 4 r' of (buf, _, err, r'') \<Rightarrow> (word_of_nat (le_get buf), err, r''))
          else if c = 0xFF then (case read_full 8 r' of (buf, _, err, r'') \<Rightarrow> (word_of_nat (le_get buf), err, r''))
          else (ucast c, None, r'))"

section \<open>Conversions\<close>

definition Uint32ToBytes :: "u32 \<Rightarrow> bytes" where
  "Uint32ToBytes src = le_put 4 (unat src)"

text \<open>\<^verbatim>\<open>binary.LittleEndian.Uint32\<close> reads the first four bytes and panics on a shorter slice.\<close>

definition BytesToUint32 :: "bytes \<Rightarrow> u32 go" where
  "BytesToUint32 src =
     (if length src < 4 then Panic ''index out of range'' else Ret (word_of_nat (le_get (take 4 src))))"

fun u32_items :: "u32 list \<Rightarrow> bytes" where
  "u32_items [] = []"
| "u32_items (v # vs) = VarInt (word_of_nat (length (Uint32ToBytes v))) @ Uint32ToBytes v @ u32_items vs"

definition Uint32ArrayToBytes :: "u32 list \<Rightarrow> bytes" where
  "Uint32ArrayToBytes arrary = VarInt (word_of_nat (length arrary)) @ u32_items arrary"

fun read_u32_items :: "nat \<Rightarrow> bytes \<Rightarrow> u32 list \<Rightarrow> u32 list go" where
  "read_u32_items 0 r array = Ret array"
| "read_u32_items (Suc n) r array =
     (case ReadVarInt r of (uint32Len, _, r1) \<Rightarrow>
      case read_full (unat uint32Len) r1 of (buf, _, _, r2) \<Rightarrow>
        go_bind (BytesToUint32 buf) (\<lambda>v. read_u32_items n r2 (array @ [v])))"

definition BytesToUint32Arrary :: "bytes \<Rightarrow> u32 list go" where
  "BytesToUint32Arrary src = (case ReadVarInt src of (len, _, r) \<Rightarrow> read_u32_items (unat len) r [])"

text \<open>The conversions between strings and byte slices.\<close>

definition str_bytes :: "string \<Rightarrow> bytes" where
  "str_bytes s = map of_char s"

definition bytes_str :: "bytes \<Rightarrow> string" where
  "bytes_str bs = map (\<lambda>b. char_of (unat b)) bs"

section \<open>Hex\<close>

text \<open>\<^verbatim>\<open>encoding/hex\<close>: lower-case digits on encoding; decoding accepts both cases and fails on an odd
  length or a character that is no digit. \<^verbatim>\<open>HexToBytes\<close> drops the error; \<^verbatim>\<open>hex.DecodeString\<close>
  returns no bytes then.\<close>

definition hex_digit :: "nat \<Rightarrow> char" where
  "hex_digit n = (if n < 10 then char_of (48 + n) else char_of (87 + n))"

definition hex_byte :: "u8 \<Rightarrow> string" where
  "hex_byte b = [hex_digit (unat b div 16), hex_digit (unat b mod 16)]"

definition BytesToHex :: "bytes \<Rightarrow> string" where
  "BytesToHex bs = concat (map hex_byte bs)"

definition nibble :: "char \<Rightarrow> nat option" where
  "nibble c =
     (let n = of_char c :: nat in
      if 48 \<le> n \<and> n \<le> 57 then Some (n - 48)
      else if 97 \<le> n \<and> n \<le> 102 then Some (n - 87)
      else if 65 \<le> n \<and> n \<le> 70 then Some (n - 55)
      else None)"

fun hex_decode :: "string \<Rightarrow> bytes option" where
  "hex_decode [] = Some []"
| "hex_decode [c] = None"
| "hex_decode (c # d # cs) =
     (case (nibble c, nibble d, hex_decode cs) of
        (Some a, Some b, Some bs) \<Rightarrow> Some (word_of_nat (a * 16 + b) # bs)
      | _ \<Rightarrow> None)"

definition HexToBytes :: "string \<Rightarrow> bytes" where
  "HexToBytes s = (case hex_decode s of Some h \<Rightarrow> h | None \<Rightarrow> [])"

datatype jerr = ErrNonString | ErrOddLength | ErrSyntax | ErrLength

definition badNibble :: u64 where
  "badNibble = NOT 0"

definition decodeNibble :: "char \<Rightarrow> u64" where
  "decodeNibble c =
     (let n = of_char c :: nat in
      if 48 \<le> n \<and> n \<le> 57 then word_of_nat (n - 48)
      else if 65 \<le> n \<and> n \<le> 70 then word_of_nat (n - 65 + 10)
      else if 97 \<le> n \<and> n \<le> 102 then word_of_nat (n - 97 + 10)
      else badNibble)"

definition isString :: "string \<Rightarrow> bool" where
  "isString input \<longleftrightarrow> 2 \<le> length input \<and> hd input = CHR 0x22 \<and> last input = CHR 0x22"

definition checkText :: "string \<Rightarrow> jerr + string" where
  "checkText input = (if length input mod 2 \<noteq> 0 then Inl ErrOddLength else Inr input)"

definition MarshalText :: "bytes \<Rightarrow> string" where
  "MarshalText b = BytesToHex b"

definition UnmarshalText :: "string \<Rightarrow> jerr + bytes" where
  "UnmarshalText input =
     (case checkText input of
        Inl e \<Rightarrow> Inl e
      | Inr raw \<Rightarrow> (case hex_decode raw of None \<Rightarrow> Inl ErrSyntax | Some dec \<Rightarrow> Inr dec))"

definition UnmarshalJSON :: "string \<Rightarrow> jerr + bytes" where
  "UnmarshalJSON input =
     (if \<not> isString input then Inl ErrNonString else UnmarshalText (butlast (tl input)))"

text \<open>\<^verbatim>\<open>UnmarshalFixedText\<close> writes into a buffer of \<open>n\<close> bytes: the new contents, or the error.\<close>

definition UnmarshalFixedText :: "string \<Rightarrow> nat \<Rightarrow> jerr + bytes" where
  "UnmarshalFixedText input n =
     (case checkText input of
        Inl e \<Rightarrow> Inl e
      | Inr raw \<Rightarrow>
          if length raw div 2 \<noteq> n then Inl ErrLength
          else if \<exists>b \<in> set raw. decodeNibble b = badNibble then Inl ErrSyntax
          else Inr (HexToBytes raw))"

section \<open>Values and types seen by reflection\<close>

text \<open>\<open>TOther\<close> stands for every kind that both the encoder and the decoder skip (interfaces, maps,
  channels, functions, and with them the caches of type \<^verbatim>\<open>atomic.Value\<close>). \<open>TBytes\<close> is a slice
  and \<open>TArray n\<close> an array of \<open>n\<close> bytes; no type of the program has an array of anything else.
  A length that exceeds the memory of the machine is outside the model.\<close>

datatype gty =
    TStruct "gty list"
  | TPtr gty
  | TBig
  | TUint nat
  | TInt nat
  | TBytes
  | TSlice gty
  | TArray nat
  | TString
  | TBool
  | TOther

datatype gval =
    VStruct "gval list"
  | VPtr "gval option"
  | VBig "int option"
  | VUint u64
  | VInt i64
  | VBytes bytes
  | VSlice "gval list"
  | VArray bytes
  | VString bytes
  | VBool bool
  | VOther

fun zero :: "gty \<Rightarrow> gval" where
  "zero (TStruct ts) = VStruct (map zero ts)"
| "zero (TPtr t) = VPtr None"
| "zero TBig = VBig None"
| "zero (TUint w) = VUint 0"
| "zero (TInt w) = VInt 0"
| "zero TBytes = VBytes []"
| "zero (TSlice t) = VSlice []"
| "zero (TArray n) = VArray (replicate n 0)"
| "zero TString = VString []"
| "zero TBool = VBool False"
| "zero TOther = VOther"

text \<open>Lengths are written as \<^verbatim>\<open>uint64\<close>.\<close>

abbreviation len64 :: "'a list \<Rightarrow> u64" where
  "len64 xs \<equiv> word_of_nat (length xs)"

fun recursiveEncode :: "gval \<Rightarrow> bytes" where
  "recursiveEncode (VStruct vs) = concat (map recursiveEncode vs)"
| "recursiveEncode (VPtr None) = VarInt 0"
| "recursiveEncode (VPtr (Some v)) = recursiveEncode v"
| "recursiveEncode (VBig None) = VarInt 0"
| "recursiveEncode (VBig (Some i)) = VarInt (len64 (be_bytes (nat \<bar>i\<bar>))) @ be_bytes (nat \<bar>i\<bar>)"
| "recursiveEncode (VUint n) = VarInt n"
| "recursiveEncode (VInt n) = VarInt n"
| "recursiveEncode (VBytes bs) = VarInt (len64 bs) @ bs"
| "recursiveEncode (VSlice vs) = VarInt (len64 vs) @ concat (map recursiveEncode vs)"
| "recursiveEncode (VArray bs) = VarInt (len64 bs) @ bs"
| "recursiveEncode (VString bs) = VarInt (len64 bs) @ bs"
| "recursiveEncode (VBool b) = [if b then 1 else 0]"
| "recursiveEncode VOther = []"

definition Serialize :: "gval \<Rightarrow> bytes" where
  "Serialize obj = recursiveEncode obj"

section \<open>Decoding\<close>

text \<open>\<^verbatim>\<open>SetUint\<close> and \<^verbatim>\<open>SetInt\<close> keep the low bits of the kind's width.\<close>

definition set_uint :: "nat \<Rightarrow> u64 \<Rightarrow> u64" where
  "set_uint w l = take_bit w l"

definition set_int :: "nat \<Rightarrow> u64 \<Rightarrow> i64" where
  "set_int w l = signed_take_bit (w - 1) l"

text \<open>
  \<open>dec t cur r\<close> decodes from \<open>r\<close> into a variable of type \<open>t\<close> that holds \<open>cur\<close>: every branch that
  reads a length or a value of 0 leaves the variable as it is. A structure ignores the
  errors of its fields. A slice is filled from fresh zero values; its error is the one of
  the last element.
\<close>

fun dec :: "gty \<Rightarrow> gval \<Rightarrow> bytes \<Rightarrow> gval \<times> rerr option \<times> bytes"
  and dec_fields :: "gty list \<Rightarrow> gval list \<Rightarrow> bytes \<Rightarrow> gval list \<times> bytes"
  and dec_items :: "gty \<Rightarrow> nat \<Rightarrow> rerr option \<Rightarrow> bytes \<Rightarrow> gval list \<times> rerr option \<times> bytes" where
  "dec (TStruct ts) cur r =
     (case dec_fields ts (case cur of VStruct vs \<Rightarrow> vs | _ \<Rightarrow> []) r of (vs, r') \<Rightarrow> (VStruct vs, None, r'))"
| "dec (TPtr t) cur r =
     (case cur of
        VPtr (Some v) \<Rightarrow> (case dec t v r of (v', err, r') \<Rightarrow> (VPtr (Some v'), err, r'))
      | _ \<Rightarrow> (case dec t (zero t) r of (v', err, r') \<Rightarrow>
                (if err = None then VPtr (Some v') else cur, err, r')))"
| "dec TBig cur r =
     (case ReadVarInt r of (l, err, r1) \<Rightarrow>
        if l > 0 then
          (case read_full (unat l) r1 of (buf, n, err', r2) \<Rightarrow>
             (if n = unat l then VBig (Some (int (be_get buf))) else cur, err', r2))
        else (VBig (Some 0), err, r1))"
| "dec (TUint w) cur r =
     (case ReadVarInt r of (l, err, r1) \<Rightarrow> (if l > 0 then VUint (set_uint w l) else cur, err, r1))"
| "dec (TInt w) cur r =
     (case ReadVarInt r of (l, err, r1) \<Rightarrow> (if l > 0 then VInt (set_int w l) else cur, err, r1))"
| "dec TBytes cur r =
     (case ReadVarInt r of (l, err, r1) \<Rightarrow>
        if l > 0 then
          (case read_full (unat l) r1 of (buf, n, err', r2) \<Rightarrow>
             (if n = unat l \<and> err' = None then VBytes buf else cur, err', r2))
        else (cur, err, r1))"
| "dec (TSlice t) cur r =
     (case ReadVarInt r of (l, err, r1) \<Rightarrow>
        if l > 0 then (case dec_items t (unat l) err r1 of (vs, err', r2) \<Rightarrow> (VSlice vs, err', r2))
        else (cur, err, r1))"
| "dec (TArray k) cur r =
     (case ReadVarInt r of (l, err, r1) \<Rightarrow>
        if l > 0 \<and> unat l = k then
          (case read_full (unat l) r1 of (buf, n, err', r2) \<Rightarrow>
             (if n > 0 \<and> err' = None then VArray buf else cur, err', r2))
        else (cur, Some ErrArrayLen, r1))"
| "dec TString cur r =
     (case ReadVarInt r of (l, err, r1) \<Rightarrow>
        if l > 0 then (case read_full (unat l) r1 of (buf, _, _, r2) \<Rightarrow> (VString buf, err, r2))
        else (cur, err, r1))"
| "dec TBool cur r =
     (case r of
        [] \<Rightarrow> (cur, Some EOF, [])
      | b # r' \<Rightarrow> (if b = 1 then VBool True else cur, None, r'))"
| "dec TOther cur r = (cur, None, r)"
| "dec_fields [] cs r = ([], r)"
| "dec_fields (t # ts) cs r =
     (case dec t (case cs of [] \<Rightarrow> zero t | c # _ \<Rightarrow> c) r of (v, _, r1) \<Rightarrow>
      case dec_fields ts (tl cs) r1 of (vs, r2) \<Rightarrow> (v # vs, r2))"
| "dec_items t 0 err r = ([], err, r)"
| "dec_items t (Suc n) err r =
     (case dec t (zero t) r of (v, err1, r1) \<Rightarrow>
      case dec_items t n err1 r1 of (vs, err2, r2) \<Rightarrow> (v # vs, err2, r2))"

text \<open>\<^verbatim>\<open>utils.Deserialize\<close> into a fresh object of type \<open>t\<close>.\<close>

definition Deserialize :: "gty \<Rightarrow> bytes \<Rightarrow> gval \<times> rerr option" where
  "Deserialize t data = (case dec t (zero t) data of (v, err, _) \<Rightarrow> (v, err))"

section \<open>The interface of a codec\<close>

text \<open>
  What a client of an encoder and its decoder relies on: decoding what was encoded gives the
  value back, without error, and leaves what follows untouched.
\<close>

locale codec =
  fixes enc :: "'a \<Rightarrow> bytes"
    and dec :: "bytes \<Rightarrow> 'a \<times> rerr option \<times> bytes"
    and ok :: "'a \<Rightarrow> bool"
  assumes dec_enc: "ok x \<Longrightarrow> dec (enc x @ r) = (x, None, r)"
begin

lemma prefix_free:
  assumes "ok x" and "ok y" and "enc x @ r = enc y @ s"
  shows "x = y \<and> r = s"
  by (metis assms dec_enc prod.inject)

lemma enc_inj: "ok x \<Longrightarrow> ok y \<Longrightarrow> enc x = enc y \<Longrightarrow> x = y"
  using prefix_free [of x y "[]" "[]"] by simp

text \<open>A sequence of encodings can be cut in only one way.\<close>

lemma concat_inj:
  "\<forall>x \<in> set xs. ok x \<Longrightarrow> \<forall>y \<in> set ys. ok y \<Longrightarrow> length xs = length ys \<Longrightarrow>
     concat (map enc xs) = concat (map enc ys) \<Longrightarrow> xs = ys"
proof (induction xs arbitrary: ys)
  case (Cons x xs)
  obtain y ys' where ys: "ys = y # ys'" using Cons.prems(3) by (cases ys) auto
  have ok: "ok x" "ok y" using Cons.prems ys by simp_all
  have "enc x @ concat (map enc xs) = enc y @ concat (map enc ys')"
    using Cons.prems(4) by (simp only: ys list.map concat.simps)
  from prefix_free [OF ok this] have eq: "x = y" "concat (map enc xs) = concat (map enc ys')" by blast+
  have "xs = ys'" by (rule Cons.IH [OF _ _ _ eq(2)]) (use Cons.prems(1-3) ys in simp_all)
  with eq(1) ys show ?case by simp
qed simp

end

section \<open>Laws of the byte conversions\<close>

lemma length_le_put [simp]: "length (le_put k n) = k"
  by (induction k n rule: le_put.induct) auto

lemma unat_byte: "unat (word_of_nat n :: u8) = n mod 256"
  by (simp add: unat_of_nat)

lemma le_get_put: "n < 256 ^ k \<Longrightarrow> le_get (le_put k n) = n"
proof (induction k n rule: le_put.induct)
  case (2 k n)
  then have "n div 256 < 256 ^ k" by (simp add: less_mult_imp_div_less)
  with 2 show ?case by (simp add: unat_byte)
qed simp

lemma le_get_bound: "le_get bs < 256 ^ length bs"
proof (induction bs)
  case (Cons b bs)
  have "unat b < 256" by (rule unat_u8_less)
  with Cons show ?case by simp
qed simp

lemma le_put_get: "le_put (length bs) (le_get bs) = bs"
proof (induction bs)
  case (Cons b bs)
  have b: "unat b < 256" by (rule unat_u8_less)
  then have "(unat b + 256 * le_get bs) div 256 = le_get bs" by simp
  moreover have "(word_of_nat (unat b + 256 * le_get bs) :: u8) = b"
    unfolding word_unat_eq_iff unat_byte using b by simp
  ultimately show ?case using Cons by simp
qed simp

lemma be_get_snoc [simp]: "be_get (bs @ [b]) = be_get bs * 256 + unat b"
  by (simp add: be_get_def)

lemma be_get_bytes: "be_get (be_bytes n) = n"
proof (induction n rule: be_bytes.induct)
  case (1 n)
  show ?case
  proof (cases "n = 0")
    case False
    with 1 show ?thesis by (subst be_bytes.simps) (simp add: unat_byte)
  qed (simp add: be_bytes.simps be_get_def)
qed

lemma be_bytes_eq_Nil_iff [simp]: "be_bytes n = [] \<longleftrightarrow> n = 0"
  by (subst be_bytes.simps) simp

lemma read_full_append: "length bs = k \<Longrightarrow> read_full k (bs @ r) = (bs, k, None, r)"
  by (simp add: read_full_def Let_def)

lemma read_le_put:
  "unat n < 256 ^ k \<Longrightarrow>
     (case read_full k (le_put k (unat n) @ r) of (buf, _, err, r') \<Rightarrow> (word_of_nat (le_get buf) :: u64, err, r'))
       = (n, None, r)"
  by (simp add: read_full_append le_get_put)

lemma ReadVarInt_VarInt [simp]: "ReadVarInt (VarInt n @ r) = (n, None, r)"
proof -
  consider (one) "n < 0xFD" | (three) "\<not> n < 0xFD" "n \<le> 0xFFFF"
    | (five) "\<not> n < 0xFD" "\<not> n \<le> 0xFFFF" "n \<le> 0xFFFFFFFF"
    | (nine) "\<not> n < 0xFD" "\<not> n \<le> 0xFFFF" "\<not> n \<le> 0xFFFFFFFF" by blast
  then show ?thesis
  proof cases
    case one
    then have u: "unat n < 253" by (simp add: word_less_nat_alt)
    then have c: "unat (ucast n :: u8) = unat n"
      by (simp add: unsigned_ucast_eq unsigned_take_bit_eq take_bit_nat_eq_self)
    have "(ucast (ucast n :: u8) :: u64) = n"
      by (simp only: ucast_via_unat [of "ucast n :: u8"] c word_of_nat_unat)
    moreover have neq: "(ucast n :: u8) \<noteq> k" if "253 \<le> unat k" for k
      by (metis c u that not_le)
    have "(ucast n :: u8) \<noteq> 0xFD" "(ucast n :: u8) \<noteq> 0xFE" "(ucast n :: u8) \<noteq> 0xFF"
      by (rule neq, simp)+
    ultimately show ?thesis using one by (simp add: VarInt_def ReadVarInt_def)
  next
    case three
    then have "unat n < 256 ^ 2" by (simp add: word_le_nat_alt)
    from read_le_put [OF this] three show ?thesis
      by (simp add: VarInt_def ReadVarInt_def del: le_put.simps)
  next
    case five
    then have "unat n < 256 ^ 4" by (simp add: word_le_nat_alt)
    from read_le_put [OF this] five show ?thesis
      by (simp add: VarInt_def ReadVarInt_def del: le_put.simps)
  next
    case nine
    have "unat n < 256 ^ 8" using unat_u64_less [of n] by simp
    from read_le_put [OF this] nine show ?thesis
      by (simp add: VarInt_def ReadVarInt_def del: le_put.simps)
  qed
qed

interpretation varint: codec VarInt ReadVarInt "\<lambda>_. True"
  by unfold_locales simp

lemma length_VarInt: "length (VarInt n) \<in> {1, 3, 5, 9}"
  by (simp add: VarInt_def del: le_put.simps)


end
