(* ===== verification/Encoding_Laws.thy ===== *)
theory Encoding_Laws
  imports Encoding
begin

unbundle bit_operations_syntax

text \<open>
  Round trips of the wire format: the fixed-width conversions, the hex texts and the
  reflective encoding of whole Go values.
\<close>

section \<open>Laws of the fixed-width conversions\<close>

lemma BytesToUint32_Uint32ToBytes [simp]: "BytesToUint32 (Uint32ToBytes n) = Ret n"
proof -
  have "unat n < 256 ^ 4" using unat_u32_less [of n] by simp
  then have "le_get (le_put 4 (unat n)) = unat n" by (rule le_get_put)
  then show ?thesis
    by (simp add: BytesToUint32_def Uint32ToBytes_def del: le_put.simps)
qed

lemma length_Uint32ToBytes [simp]: "length (Uint32ToBytes n) = 4"
  by (simp add: Uint32ToBytes_def del: le_put.simps)

lemma Uint32ToBytes_inj [simp]: "Uint32ToBytes m = Uint32ToBytes n \<longleftrightarrow> m = n"
  by (metis BytesToUint32_Uint32ToBytes go.inject(1))

lemma read_u32_items_items:
  "read_u32_items (length vs) (u32_items vs @ r) acc = Ret (acc @ vs)"
proof (induction vs arbitrary: acc)
  case (Cons v vs)
  then show ?case
    by (simp add: read_full_append del: read_u32_items.simps(1))
qed simp

section \<open>Laws of the hex conversions\<close>

lemma bytes_str_str_bytes [simp]: "bytes_str (str_bytes s) = s"
proof -
  have "unat (of_char c :: u8) = of_char c" for c
    by (metis of_nat_of_char unat_byte nat_of_char_less_256 mod_less)
  then show ?thesis by (simp add: bytes_str_def str_bytes_def comp_def)
qed

lemma str_bytes_inj [simp]: "str_bytes a = str_bytes b \<longleftrightarrow> a = b"
  by (metis bytes_str_str_bytes)

lemma length_str_bytes [simp]: "length (str_bytes s) = length s"
  by (simp add: str_bytes_def)

lemma nibble_hex_digit: "n < 16 \<Longrightarrow> nibble (hex_digit n) = Some n"
  by (auto simp: nibble_def hex_digit_def Let_def)

lemma hex_decode_append: "hex_decode (hex_byte b @ cs) = map_option (Cons b) (hex_decode cs)"
proof -
  have "unat b div 16 < 16" using unat_u8_less [of b] by simp
  moreover have "(word_of_nat (unat b div 16 * 16 + unat b mod 16) :: u8) = b"
    by (simp only: div_mult_mod_eq word_of_nat_unat)
  ultimately show ?thesis
    by (cases "hex_decode cs") (simp_all add: hex_byte_def nibble_hex_digit)
qed

lemma hex_decode_BytesToHex [simp]: "hex_decode (BytesToHex bs) = Some bs"
  by (induction bs) (simp_all add: BytesToHex_def hex_decode_append)

lemma HexToBytes_BytesToHex [simp]: "HexToBytes (BytesToHex bs) = bs"
  by (simp add: HexToBytes_def)

lemma BytesToHex_inj [simp]: "BytesToHex a = BytesToHex b \<longleftrightarrow> a = b"
  by (metis HexToBytes_BytesToHex)

lemma length_BytesToHex [simp]: "length (BytesToHex bs) = 2 * length bs"
  by (induction bs) (simp_all add: BytesToHex_def hex_byte_def)

lemma decodeNibble_nibble:
  "decodeNibble c = (case nibble c of None \<Rightarrow> badNibble | Some n \<Rightarrow> word_of_nat n)"
proof -
  have "n - 65 + 10 = n - 55" if "65 \<le> n" for n :: nat using that by simp
  moreover have "n - 97 + 10 = n - 87" if "97 \<le> n" for n :: nat using that by simp
  ultimately show ?thesis by (simp add: decodeNibble_def nibble_def Let_def del: of_nat_add)
qed

lemma nibble_lt: "nibble c = Some n \<Longrightarrow> n < 16"
  by (auto simp: nibble_def Let_def split: if_splits)

lemma decodeNibble_bad_iff: "decodeNibble c = badNibble \<longleftrightarrow> nibble c = None"
proof (cases "nibble c")
  case (Some n)
  then have "n < 16" by (rule nibble_lt)
  then have "unat (word_of_nat n :: u64) = n" by (intro unat_word_of_nat_u64) simp
  moreover have "unat badNibble = 2 ^ 64 - 1" by (simp add: badNibble_def unsigned_minus_1_eq_mask mask_eq_exp_minus_1)
  ultimately have "(word_of_nat n :: u64) \<noteq> badNibble" using \<open>n < 16\<close> by auto
  with Some show ?thesis by (simp add: decodeNibble_nibble)
qed (simp add: decodeNibble_nibble)

lemma hex_decode_Some_iff:
  "(\<exists>bs. hex_decode cs = Some bs) \<longleftrightarrow> even (length cs) \<and> (\<forall>c \<in> set cs. nibble c \<noteq> None)"
  by (induction cs rule: hex_decode.induct) (auto split: option.splits)

lemma length_hex_decode: "hex_decode cs = Some bs \<Longrightarrow> length bs = length cs div 2"
  by (induction cs arbitrary: bs rule: hex_decode.induct) (auto split: option.splits)

section \<open>Laws of the reflective encoding\<close>

text \<open>
  \<open>good v t\<close>: \<open>v\<close> is a value of type \<open>t\<close> that survives the wire. Numbers fit their width; arrays
  are not empty; a nil pointer stands only where the decoder takes it for one, in a field
  whose type is a pointer to a byte array (the single zero byte the encoder writes for nil
  reads as an array of the wrong length). \<open>norm v\<close> is what comes out: a big integer loses its
  sign and a nil one becomes 0.
\<close>

fun good :: "gval \<Rightarrow> gty \<Rightarrow> bool" where
  "good (VStruct vs) t = (case t of TStruct ts \<Rightarrow> list_all2 good vs ts | _ \<Rightarrow> False)"
| "good (VPtr None) t = (case t of TPtr (TArray k) \<Rightarrow> 0 < k | _ \<Rightarrow> False)"
| "good (VPtr (Some v)) t = (case t of TPtr t' \<Rightarrow> good v t' \<and> v \<noteq> VPtr None | _ \<Rightarrow> False)"
| "good (VBig None) t = (t = TBig)"
| "good (VBig (Some i)) t = (t = TBig \<and> length (be_bytes (nat \<bar>i\<bar>)) < 2 ^ 64)"
| "good (VUint n) t = (case t of TUint w \<Rightarrow> take_bit w n = n | _ \<Rightarrow> False)"
| "good (VInt n) t = (case t of TInt w \<Rightarrow> signed_take_bit (w - 1) n = n | _ \<Rightarrow> False)"
| "good (VBytes bs) t = (t = TBytes \<and> length bs < 2 ^ 64)"
| "good (VSlice vs) t = (case t of
     TSlice t' \<Rightarrow> length vs < 2 ^ 64 \<and> list_all (\<lambda>v. good v t') vs \<and> VPtr None \<notin> set vs
   | _ \<Rightarrow> False)"
| "good (VArray bs) t = (t = TArray (length bs) \<and> bs \<noteq> [] \<and> length bs < 2 ^ 64)"
| "good (VString bs) t = (t = TString \<and> length bs < 2 ^ 64)"
| "good (VBool b) t = (t = TBool)"
| "good VOther t = (t = TOther)"

fun norm :: "gval \<Rightarrow> gval" where
  "norm (VStruct vs) = VStruct (map norm vs)"
| "norm (VPtr None) = VPtr None"
| "norm (VPtr (Some v)) = VPtr (Some (norm v))"
| "norm (VBig None) = VBig (Some 0)"
| "norm (VBig (Some i)) = VBig (Some \<bar>i\<bar>)"
| "norm (VSlice vs) = VSlice (map norm vs)"
| "norm v = v"

lemma unat_len64: "length xs < 2 ^ 64 \<Longrightarrow> unat (len64 xs) = length xs"
  by (rule unat_word_of_nat_u64) simp

lemma len64_pos_iff: "length xs < 2 ^ 64 \<Longrightarrow> 0 < len64 xs \<longleftrightarrow> xs \<noteq> []"
  using unat_len64 [of xs] by (simp add: word_less_nat_alt)

lemma len64_0_iff: "length xs < 2 ^ 64 \<Longrightarrow> len64 xs = 0 \<longleftrightarrow> xs = []"
  using len64_pos_iff [of xs] by (metis word_neq_0_conv)

lemma not_pos_u64: "\<not> 0 < n \<longleftrightarrow> n = 0" for n :: u64
  by (simp add: word_neq_0_conv [symmetric])

lemmas len64_simps = unat_len64 len64_pos_iff len64_0_iff read_full_append

text \<open>The two list walks of the decoder, given the round trip of each element.\<close>

lemma dec_fields_enc:
  assumes "list_all2 (\<lambda>v t. \<forall>r. \<exists>e. dec t (zero t) (recursiveEncode v @ r) = (norm v, e, r)) vs ts"
  shows "dec_fields ts (map zero ts) (concat (map recursiveEncode vs) @ r) = (map norm vs, r)"
  using assms
proof (induction vs ts arbitrary: r rule: list_all2_induct)
  case (Cons v vs t ts)
  obtain e where "dec t (zero t) (recursiveEncode v @ (concat (map recursiveEncode vs) @ r)) =
      (norm v, e, concat (map recursiveEncode vs) @ r)"
    using Cons.hyps by blast
  with Cons.IH show ?case by simp
qed simp

lemma dec_items_enc:
  assumes "\<And>v r. v \<in> set vs \<Longrightarrow> dec t (zero t) (recursiveEncode v @ r) = (norm v, None, r)"
  shows "dec_items t (length vs) None (concat (map recursiveEncode vs) @ r) = (map norm vs, None, r)"
  using assms by (induction vs arbitrary: r) auto

lemma dec_recursiveEncode:
  "good v t \<Longrightarrow> dec t (zero t) (recursiveEncode v @ r) =
     (norm v, if v = VPtr None then Some ErrArrayLen else None, r)"
proof (induction v t arbitrary: r rule: good.induct)
  case (1 vs t)
  then obtain ts where t: "t = TStruct ts" and g: "list_all2 good vs ts" by (cases t) auto
  have "list_all2 (\<lambda>v t. \<forall>r. \<exists>e. dec t (zero t) (recursiveEncode v @ r) = (norm v, e, r)) vs ts"
    using g by (rule list.rel_mono_strong) (use 1(1) t in blast)
  from dec_fields_enc [OF this] t show ?case by simp
next
  case (9 vs t)
  then obtain u where t: "t = TSlice u" and b: "length vs < 2 ^ 64"
    and g: "\<forall>v \<in> set vs. good v u" and n: "VPtr None \<notin> set vs"
    by (cases t) (auto simp: list_all_iff)
  have "dec u (zero u) (recursiveEncode v @ r) = (norm v, None, r)" if "v \<in> set vs" for v r
    using 9(1) [OF t that] g n that by auto
  from dec_items_enc [of vs u, OF this] t b show ?case
    by (cases "vs = []") (auto simp: len64_simps)
qed (auto simp: len64_simps set_uint_def set_int_def be_get_bytes be_bytes_eq_Nil_iff not_pos_u64
      split: gty.splits)

text \<open>The values that come out unchanged: their big integers are set and not negative.\<close>

fun keeps :: "gval \<Rightarrow> bool" where
  "keeps (VStruct vs) = list_all keeps vs"
| "keeps (VPtr None) = True"
| "keeps (VPtr (Some v)) = keeps v"
| "keeps (VBig i) = (case i of Some n \<Rightarrow> 0 \<le> n | None \<Rightarrow> False)"
| "keeps (VSlice vs) = list_all keeps vs"
| "keeps _ = True"

lemma Deserialize_good: "good v t \<Longrightarrow> v \<noteq> VPtr None \<Longrightarrow> Deserialize t (Serialize v) = (norm v, None)"
  using dec_recursiveEncode [of v t "[]"] by (simp add: Deserialize_def Serialize_def)

lemma norm_id: "keeps v \<Longrightarrow> norm v = v"
  by (induction v rule: keeps.induct) (auto simp: list_all_iff map_idI split: option.splits)

interpretation reflective: codec recursiveEncode "dec t (zero t)"
  "\<lambda>v. good v t \<and> keeps v \<and> v \<noteq> VPtr None" for t
  by unfold_locales (auto simp: dec_recursiveEncode norm_id)

section \<open>Properties of the wire format\<close>



text \<open>A \<^verbatim>\<open>VarInt\<close> occupies 1, 3, 5 or 9 bytes and reads back as the same number, leaving exactly what
  followed it; so two sequences of such numbers of one length are equal if their encodings are.\<close>

theorem varint_roundtrip:
  "ReadVarInt (VarInt n @ r) = (n, None, r) \<and> length (VarInt n) \<in> {1, 3, 5, 9} \<and>
   (concat (map VarInt ns) = concat (map VarInt ms) \<and> length ns = length ms \<longleftrightarrow> ns = ms)"
  using length_VarInt [of n] varint.concat_inj [of ns ms] by auto

text \<open>The hex text of a fixed-size value is accepted exactly when it has two digits for each of the
  \<open>n\<close> bytes, and what is read is what the digits denote; the text that \<^verbatim>\<open>MarshalText\<close> writes reads back.\<close>

theorem UnmarshalFixedText_iff:
  "(UnmarshalFixedText input n = Inr bs \<longleftrightarrow> length input = 2 * n \<and> hex_decode input = Some bs) \<and>
   UnmarshalFixedText (MarshalText cs) (length cs) = Inr cs"
proof -
  have bad: "(\<exists>b \<in> set xs. decodeNibble b = badNibble) \<longleftrightarrow> hex_decode xs = None"
    if "even (length xs)" for xs
    using hex_decode_Some_iff [of xs] that by (auto simp: decodeNibble_bad_iff)
  have "even (length (BytesToHex cs))" by simp
  from bad [OF this] have "UnmarshalFixedText (MarshalText cs) (length cs) = Inr cs"
    by (simp add: UnmarshalFixedText_def checkText_def MarshalText_def)
  moreover have "UnmarshalFixedText input n = Inr bs \<longleftrightarrow> length input = 2 * n \<and> hex_decode input = Some bs"
  proof (cases "even (length input)")
    case True
    from bad [OF this] True show ?thesis
      by (auto simp: UnmarshalFixedText_def checkText_def HexToBytes_def)
  next
    case False
    then have "length input mod 2 \<noteq> 0" by presburger
    with False show ?thesis by (auto simp: UnmarshalFixedText_def checkText_def)
  qed
  ultimately show ?thesis by blast
qed

text \<open>An array of 32-bit numbers survives the wire, and the reader does not panic on it.\<close>

lemma Uint32Array_roundtrip:
  assumes "length vs < 2 ^ 64"
  shows "BytesToUint32Arrary (Uint32ArrayToBytes vs) = Ret vs"
  using read_u32_items_items [of vs "[]" "[]"] unat_len64 [OF assms]
  by (simp add: BytesToUint32Arrary_def Uint32ArrayToBytes_def)

lemma VarInt_not_Nil [simp]: "VarInt n \<noteq> []"
  by (simp add: VarInt_def)

lemma Uint32ArrayToBytes_not_Nil [simp]: "Uint32ArrayToBytes vs \<noteq> []"
  by (simp add: Uint32ArrayToBytes_def)

lemma Uint32ToBytes_not_Nil [simp]: "Uint32ToBytes n \<noteq> []"
  using length_Uint32ToBytes [of n] by (metis length_0_conv zero_neq_numeral)

end
