(* ===== verification/Crypto.thy ===== *)
theory Crypto
  imports Encoding_Laws
begin

unbundle bit_operations_syntax

text \<open>
  Hashes, Merkle roots and signatures (\<^verbatim>\<open>components/crypto/hash.go\<close>, \<^verbatim>\<open>crypto.go\<close>). The two algorithms the
  sources only call are parameters, gathered in a record: the digest of \<^verbatim>\<open>crypto/sha256\<close> and
  the public-key recovery of the third-party package \<^verbatim>\<open>secp256k1\<close>, together with the order of
  its group. Nothing is assumed of them unless a theorem says so.
\<close>

section \<open>Parameters\<close>

record crypto_env =
  sum256 :: "bytes \<Rightarrow> bytes"
  RecoverPubkey :: "bytes \<Rightarrow> bytes \<Rightarrow> bytes option"
  curve_N :: nat

text \<open>\<^verbatim>\<open>sha256.Sum256\<close> returns an array of 32 bytes.\<close>

definition digest_ok :: "crypto_env \<Rightarrow> bool" where
  "digest_ok c \<longleftrightarrow> (\<forall>b. length (sum256 c b) = 32)"

section \<open>Hashes\<close>

abbreviation HashSize :: nat where
  "HashSize \<equiv> 32"

type_synonym Hash = bytes

definition zero_hash :: Hash where
  "zero_hash = replicate HashSize 0"

definition hash_SetBytes :: "Hash \<Rightarrow> bytes \<Rightarrow> Hash" where
  "hash_SetBytes h b = (if length h = length b then take HashSize b else h)"

definition NewHash :: "bytes \<Rightarrow> Hash" where
  "NewHash data = hash_SetBytes zero_hash data"

definition hash_String :: "Hash \<Rightarrow> string" where
  "hash_String h = BytesToHex h"

definition HexToHash :: "string \<Rightarrow> Hash" where
  "HexToHash s = NewHash (HexToBytes s)"

definition hash_Xor :: "Hash \<Rightarrow> Hash \<Rightarrow> Hash" where
  "hash_Xor h h1 = map2 (XOR) h h1"

text \<open>The loop swaps the bytes \<open>i\<close> and \<open>31 - i\<close> for the \<open>i\<close> of the first half.\<close>

definition hash_Reverse :: "Hash \<Rightarrow> Hash" where
  "hash_Reverse h =
     fold (\<lambda>i h. h[i := h ! (HashSize - 1 - i), HashSize - 1 - i := h ! i]) [0 ..< HashSize div 2] h"

fun prefix_bits :: "nat \<Rightarrow> bool list \<Rightarrow> nat" where
  "prefix_bits n [] = HashSize * 8 - 1"
| "prefix_bits n (b # bs) = (if b then n else prefix_bits (Suc n) bs)"

definition hash_bits :: "Hash \<Rightarrow> bool list" where
  "hash_bits h = concat (map (\<lambda>b. map (\<lambda>j. (drop_bit (7 - j) b) AND 1 \<noteq> 0) [0 ..< 8]) h)"

definition PrefixLen :: "Hash \<Rightarrow> nat" where
  "PrefixLen h = prefix_bits 0 (hash_bits h)"

definition hash_Equal :: "Hash \<Rightarrow> Hash \<Rightarrow> bool" where
  "hash_Equal h h1 \<longleftrightarrow> (\<forall>i < HashSize. h ! i = h1 ! i)"

definition Sha256 :: "crypto_env \<Rightarrow> bytes \<Rightarrow> Hash" where
  "Sha256 c data = NewHash (sum256 c data)"

definition DoubleSha256 :: "crypto_env \<Rightarrow> bytes \<Rightarrow> Hash" where
  "DoubleSha256 c data = NewHash (sum256 c (sum256 c data))"

text \<open>The function named \<^verbatim>\<open>Keccak256\<close> computes SHA-256 of the concatenation.\<close>

definition Keccak256 :: "crypto_env \<Rightarrow> bytes list \<Rightarrow> bytes" where
  "Keccak256 c data = sum256 c (concat data)"

section \<open>Merkle roots\<close>

definition CalcHash :: "crypto_env \<Rightarrow> Hash \<Rightarrow> Hash \<Rightarrow> Hash" where
  "CalcHash c a b = Sha256 c (hash_Reverse a @ hash_Reverse b)"

fun merkle_level :: "crypto_env \<Rightarrow> Hash list \<Rightarrow> Hash list" where
  "merkle_level c (a # b # data) = hash_Reverse (CalcHash c a b) # merkle_level c data"
| "merkle_level c [a] = [hash_Reverse (CalcHash c a a)]"
| "merkle_level c [] = []"

lemma length_merkle_level [simp]: "length (merkle_level c data) = (length data + 1) div 2"
  by (induction c data rule: merkle_level.induct) auto

function ComputeMerkleHash :: "crypto_env \<Rightarrow> Hash list \<Rightarrow> Hash list" where
  "ComputeMerkleHash c data =
     (if length data \<le> 1 then data else ComputeMerkleHash c (merkle_level c data))"
  by pat_completeness auto
termination by (relation "measure (\<lambda>(c, data). length data)") auto

declare ComputeMerkleHash.simps [simp del]

definition GetMerkleHash :: "crypto_env \<Rightarrow> Hash list \<Rightarrow> Hash go" where
  "GetMerkleHash c data =
     (case ComputeMerkleHash c data of [] \<Rightarrow> Panic ''index out of range'' | h # _ \<Rightarrow> Ret h)"

section \<open>Signatures\<close>

abbreviation SignatureSize :: nat where
  "SignatureSize \<equiv> 65"

type_synonym Signature = bytes

definition sig_SetBytes :: "Signature \<Rightarrow> bytes \<Rightarrow> bool \<Rightarrow> Signature" where
  "sig_SetBytes sig data compressed =
     (let sig1 = (if length data = 65 then data else sig);
          sig2 = sig1[64 := sig1 ! 64 + 27]
      in if compressed then sig2[64 := sig2 ! 64 + 4] else sig2)"

definition sig_v :: "Signature \<Rightarrow> u8" where
  "sig_v sig = (sig ! 64 - 27) AND NOT 4"

definition Ecrecover :: "crypto_env \<Rightarrow> bytes \<Rightarrow> bytes \<Rightarrow> bytes option" where
  "Ecrecover c hash sig = RecoverPubkey c hash sig"

definition sig_Ecrecover :: "crypto_env \<Rightarrow> Signature \<Rightarrow> bytes \<Rightarrow> bytes option" where
  "sig_Ecrecover c sig hash = Ecrecover c hash (sig[64 := sig_v sig])"

text \<open>
  A public key is kept as the bytes it was read from. \<^verbatim>\<open>elliptic.Unmarshal\<close> accepts 65 bytes with
  the tag 4 and \<^verbatim>\<open>Bytes\<close> writes the same bytes again; for anything else the coordinates
  are nil and \<^verbatim>\<open>Bytes\<close> returns nil.
\<close>

definition pub_Bytes :: "bytes \<Rightarrow> bytes" where
  "pub_Bytes pub = (if length pub = 65 \<and> hd pub = 4 then pub else [])"

text \<open>\<open>None\<close> is a recovery error; a recovered key of no bytes is the nil key.\<close>

definition sig_RecoverPublicKey :: "crypto_env \<Rightarrow> Signature \<Rightarrow> bytes \<Rightarrow> bytes option option" where
  "sig_RecoverPublicKey c sig hash =
     (case sig_Ecrecover c sig hash of
        None \<Rightarrow> None
      | Some s \<Rightarrow> Some (if s = [] then None else Some s))"

definition sig_Verify :: "crypto_env \<Rightarrow> Signature \<Rightarrow> bytes \<Rightarrow> bytes option \<Rightarrow> bool" where
  "sig_Verify c sig hash pub =
     (case sig_Ecrecover c sig hash of
        None \<Rightarrow> False
      | Some sigPub \<Rightarrow> sigPub = (case pub of None \<Rightarrow> [] | Some p \<Rightarrow> pub_Bytes p))"

definition sig_VRS :: "Signature \<Rightarrow> u8 \<times> nat \<times> nat" where
  "sig_VRS sig = (sig_v sig, be_get (take 32 sig), be_get (take 32 (drop 32 sig)))"

definition sig_Validate :: "crypto_env \<Rightarrow> Signature \<Rightarrow> bool" where
  "sig_Validate c sig =
     (case sig_VRS sig of (v, r, s) \<Rightarrow>
        if r < 1 \<or> s < 1 then False
        else if s > curve_N c div 2 then False
        else r < curve_N c \<and> s < curve_N c \<and> (v = 0 \<or> v = 1))"

section \<open>Laws of hashes\<close>

lemma reverse_step:
  assumes "length h = 32" and "k \<le> 16"
  shows "length (fold (\<lambda>i h. h[i := h ! (HashSize - 1 - i), HashSize - 1 - i := h ! i]) [0 ..< k] h) = 32 \<and>
    (\<forall>i < 32. fold (\<lambda>i h. h[i := h ! (HashSize - 1 - i), HashSize - 1 - i := h ! i]) [0 ..< k] h ! i =
       (if i < k \<or> 32 - k \<le> i then h ! (31 - i) else h ! i))"
  using assms(2)
proof (induction k)
  case (Suc k)
  let ?r = "fold (\<lambda>i h. h[i := h ! (HashSize - 1 - i), HashSize - 1 - i := h ! i]) [0 ..< k] h"
  have l: "length ?r = 32" and n: "\<And>i. i < 32 \<Longrightarrow> ?r ! i = (if i < k \<or> 32 - k \<le> i then h ! (31 - i) else h ! i)"
    using Suc by simp_all
  have "?r[k := ?r ! (31 - k), 31 - k := ?r ! k] ! i =
      (if i < Suc k \<or> 32 - Suc k \<le> i then h ! (31 - i) else h ! i)" if "i < 32" for i
  proof -
    consider "i = k" | "i = 31 - k" "i \<noteq> k" | "i \<noteq> k" "i \<noteq> 31 - k" by blast
    then show ?thesis
    proof cases
      case 1
      have "\<not> (31 - k < k \<or> 32 - k \<le> 31 - k)" "31 - k < 32" "k \<noteq> 31 - k" using Suc.prems by linarith+
      then have "?r ! (31 - k) = h ! (31 - k)" using n [of "31 - k"] by simp
      with 1 \<open>k \<noteq> 31 - k\<close> that l show ?thesis by simp
    next
      case 2
      have "\<not> 32 - k \<le> k" "k < 32" using Suc.prems by linarith+
      then have "?r ! k = h ! k" using n [of k] by simp
      with 2 l \<open>k < 32\<close> show ?thesis by simp
    next
      case 3
      then have "i < Suc k \<or> 32 - Suc k \<le> i \<longleftrightarrow> i < k \<or> 32 - k \<le> i" using that by linarith
      with 3 n [OF that] show ?thesis by simp
    qed
  qed
  with l show ?case by simp
qed (simp add: assms)

lemma hash_Reverse_rev: "length h = 32 \<Longrightarrow> hash_Reverse h = rev h"
  unfolding hash_Reverse_def using reverse_step [of h 16]
  by (intro nth_equalityI) (auto simp: rev_nth)

lemma length_zero_hash [simp]: "length zero_hash = 32"
  by (simp add: zero_hash_def)

lemma length_NewHash [simp]: "length (NewHash b) = 32"
  by (simp add: NewHash_def hash_SetBytes_def)

lemma NewHash_id: "length b = 32 \<Longrightarrow> NewHash b = b"
  by (simp add: NewHash_def hash_SetBytes_def)

lemma length_Sha256 [simp]: "length (Sha256 c b) = 32" "length (DoubleSha256 c b) = 32"
  by (simp_all add: Sha256_def DoubleSha256_def)

lemma HexToHash_String: "length h = 32 \<Longrightarrow> HexToHash (hash_String h) = h"
  by (simp add: HexToHash_def hash_String_def NewHash_id)

lemma hash_String_inj [simp]: "hash_String a = hash_String b \<longleftrightarrow> a = b"
  by (simp add: hash_String_def)

lemma hash_Equal_iff: "length a = 32 \<Longrightarrow> length b = 32 \<Longrightarrow> hash_Equal a b \<longleftrightarrow> a = b"
  by (auto simp: hash_Equal_def intro: nth_equalityI)

lemma length_CalcHash [simp]: "length (CalcHash c a b) = 32"
  by (simp add: CalcHash_def)

section \<open>Laws of Merkle roots\<close>

text \<open>A collision of the digest on two blocks of 64 bytes.\<close>

definition collision :: "crypto_env \<Rightarrow> bool" where
  "collision c \<longleftrightarrow> (\<exists>a b. length a = 64 \<and> length b = 64 \<and> a \<noteq> b \<and> Sha256 c a = Sha256 c b)"

lemma CalcHash_inj:
  assumes "\<not> collision c" and "length a = 32" "length b = 32" "length a' = 32" "length b' = 32"
    and "CalcHash c a b = CalcHash c a' b'"
  shows "a = a' \<and> b = b'"
proof -
  let ?x = "rev a @ rev b" and ?y = "rev a' @ rev b'"
  have "Sha256 c ?x = Sha256 c ?y" and "length ?x = 64" and "length ?y = 64"
    using assms by (simp_all add: CalcHash_def hash_Reverse_rev)
  then have "?x = ?y" using assms(1) unfolding collision_def by blast
  with assms show ?thesis by simp
qed

lemma merkle_level_hashes: "\<forall>h \<in> set (merkle_level c xs). length h = 32"
  by (induction c xs rule: merkle_level.induct) (auto simp: hash_Reverse_rev)

lemma merkle_level_inj:
  "\<not> collision c \<Longrightarrow> \<forall>h \<in> set xs \<union> set ys. length h = 32 \<Longrightarrow> length xs = length ys \<Longrightarrow>
    merkle_level c xs = merkle_level c ys \<Longrightarrow> xs = ys"
proof (induction c xs arbitrary: ys rule: merkle_level.induct)
  case (1 c a b data)
  obtain a' b' data' where ys: "ys = a' # b' # data'"
    using 1(4) by (cases ys; cases "tl ys") auto
  have "rev (CalcHash c a b) = rev (CalcHash c a' b')"
    using 1(5) ys by (simp add: hash_Reverse_rev)
  with 1(2-3) ys have "a = a' \<and> b = b'" by (intro CalcHash_inj [of c]) simp_all
  moreover have "data = data'" by (rule 1(1)) (use 1(2-5) ys in simp_all)
  ultimately show ?case using ys by simp
next
  case (2 c a)
  obtain a' where ys: "ys = [a']" using 2(3) by (cases ys) auto
  with 2(4) have "rev (CalcHash c a a) = rev (CalcHash c a' a')" by (simp add: hash_Reverse_rev)
  with 2(1-3) ys CalcHash_inj [of c a a a' a'] show ?case by simp
qed simp

lemma ComputeMerkleHash_inj:
  "\<not> collision c \<Longrightarrow> \<forall>h \<in> set xs \<union> set ys. length h = 32 \<Longrightarrow> length xs = length ys \<Longrightarrow>
    ComputeMerkleHash c xs = ComputeMerkleHash c ys \<Longrightarrow> xs = ys"
proof (induction c xs arbitrary: ys rule: ComputeMerkleHash.induct)
  case (1 c xs)
  show ?case
  proof (cases "length xs \<le> 1")
    case True
    with 1(4,5) show ?thesis by (simp add: ComputeMerkleHash.simps)
  next
    case False
    have "merkle_level c xs = merkle_level c ys"
    proof (rule 1(1) [OF False 1(2)])
      show "ComputeMerkleHash c (merkle_level c xs) = ComputeMerkleHash c (merkle_level c ys)"
        using False 1(4,5) by (simp add: ComputeMerkleHash.simps [of c xs] ComputeMerkleHash.simps [of c ys])
    qed (use merkle_level_hashes [of c xs] merkle_level_hashes [of c ys] 1(4) in auto)
    with 1(2-4) show ?thesis by (rule merkle_level_inj)
  qed
qed

lemma length_ComputeMerkleHash: "xs \<noteq> [] \<Longrightarrow> length (ComputeMerkleHash c xs) = 1"
proof (induction c xs rule: ComputeMerkleHash.induct)
  case (1 c xs)
  show ?case
  proof (cases "length xs \<le> 1")
    case True
    with 1(2) show ?thesis by (cases xs) (simp_all add: ComputeMerkleHash.simps)
  next
    case False
    then have "0 < length (merkle_level c xs)" by simp
    then have "merkle_level c xs \<noteq> []" by (metis less_irrefl list.size(3))
    from 1(1) [OF False this] show ?thesis
      using False by (simp add: ComputeMerkleHash.simps [of c xs])
  qed
qed

lemma merkle_level_dup: "odd (length xs) \<Longrightarrow> merkle_level c (xs @ [last xs]) = merkle_level c xs"
  by (induction c xs rule: merkle_level.induct) auto

section \<open>Laws of signatures\<close>

lemma sig_v_SetBytes:
  assumes "length data = 65" and "data ! 64 < 4"
  shows "sig_v (sig_SetBytes sig data compressed) = data ! 64"
proof -
  have "unat (data ! 64) < 4" using assms(2) by (simp add: word_less_nat_alt)
  then consider "unat (data ! 64) = 0" | "unat (data ! 64) = 1" | "unat (data ! 64) = 2" | "unat (data ! 64) = 3"
    by linarith
  then have "data ! 64 \<in> {0, 1, 2, 3}"
    by cases (simp_all add: word_unat_eq_iff)
  then show ?thesis
    using assms(1) by (auto simp: sig_v_def sig_SetBytes_def Let_def)
qed

section \<open>Properties of hashes and signatures\<close>


text \<open>A digest that is constant gives one root to two lists, so it has a collision.\<close>

definition const_c :: crypto_env where
  "const_c = \<lparr>sum256 = \<lambda>b. replicate 32 7, RecoverPubkey = \<lambda>h s. None, curve_N = 5\<rparr>"


text \<open>The root does not commit to the length: a list of an odd number (at least 3) of hashes and the
  list with its last hash repeated have the same root.\<close>

theorem merkle_duplicate_last:
  assumes "odd (length xs)" and "3 \<le> length xs"
  shows "GetMerkleHash c (xs @ [last xs]) = GetMerkleHash c xs"
  using assms merkle_level_dup [OF assms(1), of c]
  by (cases "xs = []") (simp_all add: GetMerkleHash_def ComputeMerkleHash.simps [of c xs] ComputeMerkleHash.simps [of c "xs @ [last xs]"])

theorem merkle_duplicate_last_witness:
  "\<forall>c. GetMerkleHash c [zero_hash, replicate 32 1, replicate 32 2, replicate 32 2] =
     GetMerkleHash c [zero_hash, replicate 32 1, replicate 32 2]"
  using merkle_duplicate_last [of "[zero_hash, replicate 32 1, replicate 32 2]"] by simp

end
