(* ===== verification/Go_List.thy ===== *)
theory Go_List
  imports Prelude
begin

text \<open>
  Go's doubly linked list (\<^verbatim>\<open>container/list\<close>), as far as the sources use it. An
  \<^verbatim>\<open>*list.Element\<close> is its address and its value: the sources never assign to
  \<^verbatim>\<open>Element.Value\<close>, so the value is fixed when the element is made, and the address gives
  the pointer its identity. A list is its elements from front to back and the next
  free address.

  \<^verbatim>\<open>Remove\<close> and \<^verbatim>\<open>InsertAfter\<close> do nothing for an element that is not of the list, and
  \<^verbatim>\<open>Next\<close> and \<^verbatim>\<open>Prev\<close> of such an element are nil, as in the Go library.
\<close>

type_synonym 'a element = "nat \<times> 'a"

record 'a golist =
  elems :: "'a element list"
  fresh :: nat

abbreviation eaddr :: "'a element \<Rightarrow> nat" where
  "eaddr e \<equiv> fst e"

abbreviation evalue :: "'a element \<Rightarrow> 'a" where
  "evalue e \<equiv> snd e"

definition gl_new :: "'a golist" where
  "gl_new = \<lparr>elems = [], fresh = 0\<rparr>"

definition gl_Init :: "'a golist \<Rightarrow> 'a golist" where
  "gl_Init l = l\<lparr>elems := []\<rparr>"

definition gl_Len :: "'a golist \<Rightarrow> nat" where
  "gl_Len l = length (elems l)"

definition gl_vals :: "'a golist \<Rightarrow> 'a list" where
  "gl_vals l = map evalue (elems l)"

definition gl_in :: "'a golist \<Rightarrow> 'a element \<Rightarrow> bool" where
  "gl_in l e \<longleftrightarrow> eaddr e \<in> set (map eaddr (elems l))"

definition gl_PushBack :: "'a golist \<Rightarrow> 'a \<Rightarrow> 'a element \<times> 'a golist" where
  "gl_PushBack l v =
     (let e = (fresh l, v) in (e, l\<lparr>elems := elems l @ [e], fresh := Suc (fresh l)\<rparr>))"

definition gl_PushFront :: "'a golist \<Rightarrow> 'a \<Rightarrow> 'a element \<times> 'a golist" where
  "gl_PushFront l v =
     (let e = (fresh l, v) in (e, l\<lparr>elems := e # elems l, fresh := Suc (fresh l)\<rparr>))"

fun insert_after :: "nat \<Rightarrow> 'a element \<Rightarrow> 'a element list \<Rightarrow> 'a element list" where
  "insert_after a e [] = []"
| "insert_after a e (x # xs) = (if eaddr x = a then x # e # xs else x # insert_after a e xs)"

definition gl_InsertAfter :: "'a golist \<Rightarrow> 'a \<Rightarrow> 'a element \<Rightarrow> 'a element option \<times> 'a golist" where
  "gl_InsertAfter l v mark =
     (if gl_in l mark then
        (let e = (fresh l, v)
         in (Some e, l\<lparr>elems := insert_after (eaddr mark) e (elems l), fresh := Suc (fresh l)\<rparr>))
      else (None, l))"

definition gl_Remove :: "'a golist \<Rightarrow> 'a element \<Rightarrow> 'a golist" where
  "gl_Remove l e = l\<lparr>elems := filter (\<lambda>x. eaddr x \<noteq> eaddr e) (elems l)\<rparr>"

definition gl_Front :: "'a golist \<Rightarrow> 'a element option" where
  "gl_Front l = (case elems l of [] \<Rightarrow> None | x # _ \<Rightarrow> Some x)"

definition gl_Back :: "'a golist \<Rightarrow> 'a element option" where
  "gl_Back l = (case rev (elems l) of [] \<Rightarrow> None | x # _ \<Rightarrow> Some x)"

fun succ_of :: "nat \<Rightarrow> 'a element list \<Rightarrow> 'a element option" where
  "succ_of a [] = None"
| "succ_of a (x # xs) =
     (if eaddr x = a then (case xs of [] \<Rightarrow> None | y # _ \<Rightarrow> Some y) else succ_of a xs)"

definition gl_Next :: "'a golist \<Rightarrow> 'a element \<Rightarrow> 'a element option" where
  "gl_Next l e = succ_of (eaddr e) (elems l)"

definition gl_Prev :: "'a golist \<Rightarrow> 'a element \<Rightarrow> 'a element option" where
  "gl_Prev l e = succ_of (eaddr e) (rev (elems l))"

text \<open>Addresses of the elements are distinct and below the next free one.\<close>

definition gl_wf :: "'a golist \<Rightarrow> bool" where
  "gl_wf l \<longleftrightarrow> distinct (map eaddr (elems l)) \<and> (\<forall>e \<in> set (elems l). eaddr e < fresh l)"

section \<open>Lemmas\<close>

lemma insert_after_split:
  "a \<notin> eaddr ` set xs \<Longrightarrow> insert_after a e (xs @ (a, v) # ys) = xs @ (a, v) # e # ys"
  by (induction xs) auto

lemma set_insert_after: "set (insert_after a e xs) \<subseteq> insert e (set xs)"
  by (induction xs) auto

lemma mset_insert_after: "a \<in> eaddr ` set xs \<Longrightarrow> mset (insert_after a e xs) = add_mset e (mset xs)"
  by (induction xs) auto

lemma succ_of_split:
  "a \<notin> eaddr ` set xs \<Longrightarrow>
     succ_of a (xs @ (a, v) # ys) = (case ys of [] \<Rightarrow> None | y # _ \<Rightarrow> Some y)"
  by (induction xs) (auto split: list.splits)

lemma succ_of_notin: "a \<notin> eaddr ` set xs \<Longrightarrow> succ_of a xs = None"
  by (induction xs) auto

lemma gl_wf_new [simp, intro]: "gl_wf gl_new"
  by (simp add: gl_wf_def gl_new_def)

lemma gl_wf_Init [simp, intro]: "gl_wf (gl_Init l)"
  by (simp add: gl_wf_def gl_Init_def)

lemma gl_wf_fresh: "gl_wf l \<Longrightarrow> fresh l \<notin> eaddr ` set (elems l)"
  by (auto simp: gl_wf_def)

lemma gl_wf_PushBack [intro]: "gl_wf l \<Longrightarrow> gl_wf (snd (gl_PushBack l v))"
  using gl_wf_fresh [of l] by (auto simp: gl_wf_def gl_PushBack_def Let_def)

lemma gl_wf_PushFront [intro]: "gl_wf l \<Longrightarrow> gl_wf (snd (gl_PushFront l v))"
  using gl_wf_fresh [of l] by (auto simp: gl_wf_def gl_PushFront_def Let_def)

lemma gl_wf_Remove [intro]: "gl_wf l \<Longrightarrow> gl_wf (gl_Remove l e)"
  by (auto simp: gl_wf_def gl_Remove_def distinct_map_filter)

lemma mset_eaddr_insert_after:
  "a \<in> eaddr ` set xs \<Longrightarrow> mset (map eaddr (insert_after a e xs)) = add_mset (eaddr e) (mset (map eaddr xs))"
  by (simp add: mset_insert_after)

lemma gl_wf_InsertAfter [intro]:
  assumes "gl_wf l"
  shows "gl_wf (snd (gl_InsertAfter l v mark))"
proof (cases "gl_in l mark")
  case True
  let ?e = "(fresh l, v)"
  let ?xs = "insert_after (eaddr mark) ?e (elems l)"
  from True have m: "mset (map eaddr ?xs) = mset (fresh l # map eaddr (elems l))"
    by (simp add: gl_in_def mset_insert_after)
  have "distinct (fresh l # map eaddr (elems l))"
    using assms gl_wf_fresh [OF assms] by (simp add: gl_wf_def)
  then have d: "distinct (map eaddr ?xs)"
    by (metis m mset_eq_imp_distinct_iff)
  have "eaddr x < Suc (fresh l)" if "x \<in> set ?xs" for x
    using that set_insert_after [of "eaddr mark" ?e "elems l"] assms
    by (fastforce simp: gl_wf_def)
  with d True show ?thesis
    by (simp add: gl_wf_def gl_InsertAfter_def Let_def)
next
  case False
  with assms show ?thesis by (simp add: gl_InsertAfter_def)
qed

lemma gl_vals_PushBack [simp]: "gl_vals (snd (gl_PushBack l v)) = gl_vals l @ [v]"
  by (simp add: gl_vals_def gl_PushBack_def Let_def)

lemma gl_vals_PushFront [simp]: "gl_vals (snd (gl_PushFront l v)) = v # gl_vals l"
  by (simp add: gl_vals_def gl_PushFront_def Let_def)

lemma gl_vals_new [simp]: "gl_vals gl_new = []"
  by (simp add: gl_vals_def gl_new_def)

lemma gl_vals_Init [simp]: "gl_vals (gl_Init l) = []"
  by (simp add: gl_vals_def gl_Init_def)

lemma gl_Len_vals: "gl_Len l = length (gl_vals l)"
  by (simp add: gl_Len_def gl_vals_def)

lemma elems_PushBack: "elems (snd (gl_PushBack l v)) = elems l @ [fst (gl_PushBack l v)]"
  by (simp add: gl_PushBack_def Let_def)

lemma elems_PushFront: "elems (snd (gl_PushFront l v)) = fst (gl_PushFront l v) # elems l"
  by (simp add: gl_PushFront_def Let_def)

lemma evalue_PushBack [simp]: "evalue (fst (gl_PushBack l v)) = v"
  by (simp add: gl_PushBack_def Let_def)

lemma evalue_PushFront [simp]: "evalue (fst (gl_PushFront l v)) = v"
  by (simp add: gl_PushFront_def Let_def)

lemma elems_Remove: "elems (gl_Remove l e) = filter (\<lambda>x. eaddr x \<noteq> eaddr e) (elems l)"
  by (simp add: gl_Remove_def)

text \<open>Where an element stands in a well-formed list: everything before it, itself, the rest.\<close>

lemma gl_split:
  assumes "gl_wf l" and "e \<in> set (elems l)"
  obtains xs ys where "elems l = xs @ e # ys" and "eaddr e \<notin> eaddr ` set xs"
    and "eaddr e \<notin> eaddr ` set ys"
proof -
  from assms(2) obtain xs ys where *: "elems l = xs @ e # ys"
    by (meson split_list)
  with assms(1) have "eaddr e \<notin> eaddr ` set xs" "eaddr e \<notin> eaddr ` set ys"
    by (auto simp: gl_wf_def)
  with * that show thesis by blast
qed

lemma gl_Next_split:
  "gl_wf l \<Longrightarrow> elems l = xs @ e # ys \<Longrightarrow>
     gl_Next l e = (case ys of [] \<Rightarrow> None | y # _ \<Rightarrow> Some y)"
  by (cases e) (auto simp: gl_Next_def gl_wf_def intro!: succ_of_split)

lemma gl_Prev_split:
  assumes "gl_wf l" and "elems l = xs @ e # ys"
  shows "gl_Prev l e = (case rev xs of [] \<Rightarrow> None | y # _ \<Rightarrow> Some y)"
proof -
  from assms have "eaddr e \<notin> eaddr ` set (rev ys)"
    by (auto simp: gl_wf_def)
  then show ?thesis
    using assms(2) by (cases e) (simp add: gl_Prev_def succ_of_split)
qed

lemma gl_Remove_split:
  assumes "gl_wf l" and "elems l = xs @ e # ys"
  shows "elems (gl_Remove l e) = xs @ ys"
proof -
  from assms have "eaddr e \<notin> eaddr ` set xs" "eaddr e \<notin> eaddr ` set ys"
    by (auto simp: gl_wf_def)
  with assms(2) show ?thesis by (simp add: elems_Remove filter_neq_id)
qed

lemma gl_InsertAfter_split:
  assumes "gl_wf l" and "elems l = xs @ e # ys"
  shows "gl_InsertAfter l v e =
    (Some (fresh l, v), l\<lparr>elems := xs @ e # (fresh l, v) # ys, fresh := Suc (fresh l)\<rparr>)"
proof -
  from assms have "eaddr e \<notin> eaddr ` set xs"
    by (auto simp: gl_wf_def)
  with assms(2) show ?thesis
    by (cases e) (simp add: gl_InsertAfter_def gl_in_def insert_after_split Let_def)
qed

lemma gl_Remove_notin: "eaddr e \<notin> eaddr ` set (elems l) \<Longrightarrow> gl_Remove l e = l"
  by (simp add: gl_Remove_def filter_neq_id)

end
