(* ===== verification/Pool_Spec.thy ===== *)
theory Pool_Spec
  imports Go_List
begin

text \<open>
  The interface of the element containers (\<^verbatim>\<open>LinkedList\<close>, the transaction pool list and
  \<^verbatim>\<open>SortedLinkedList\<close>): a container holds elements with pairwise different keys, an insertion
  of an element whose key is taken changes nothing, and a removal goes by key. The first
  locale states what all three promise, the other two add where a new element is put.
\<close>

text \<open>The elements of a list whose key did not occur before, in their order.\<close>

fun first_by_key :: "('a \<Rightarrow> 'k) \<Rightarrow> 'a list \<Rightarrow> 'a list" where
  "first_by_key key [] = []"
| "first_by_key key (x # xs) = x # filter (\<lambda>y. key y \<noteq> key x) (first_by_key key xs)"

lemma keys_filter_neq: "insert (key x) (key ` {y \<in> A. key y \<noteq> key x}) = insert (key x) (key ` A)"
  by auto

lemma keys_first_by_key: "key ` set (first_by_key key xs) = key ` set xs"
  by (induction xs) (simp_all add: keys_filter_neq)

lemma first_by_key_filter:
  "first_by_key key (filter (\<lambda>y. P (key y)) xs) = filter (\<lambda>y. P (key y)) (first_by_key key xs)"
proof (induction xs)
  case (Cons x xs)
  show ?case
  proof (cases "P (key x)")
    case True
    with Cons show ?thesis by (auto simp: filter_filter intro: filter_cong)
  next
    case False
    then have "filter (\<lambda>y. P (key y)) (filter (\<lambda>y. key y \<noteq> key x) (first_by_key key xs)) =
        filter (\<lambda>y. P (key y)) (first_by_key key xs)"
      by (auto simp: filter_filter intro!: filter_cong)
    with False Cons show ?thesis by simp
  qed
qed simp

locale keyed_pool =
  fixes inv :: "'l \<Rightarrow> bool"
    and vals :: "'l \<Rightarrow> 'a list"
    and key :: "'a \<Rightarrow> 'k"
    and new :: 'l
    and add :: "'a \<Rightarrow> 'l \<Rightarrow> 'l"
    and remove :: "'a \<Rightarrow> 'l \<Rightarrow> 'l"
    and find :: "'l \<Rightarrow> 'k \<Rightarrow> 'a option"
  assumes inv_new: "inv new"
    and vals_new: "vals new = []"
    and inv_add: "inv l \<Longrightarrow> inv (add x l)"
    and inv_remove: "inv l \<Longrightarrow> inv (remove x l)"
    and distinct_keys: "inv l \<Longrightarrow> distinct (map key (vals l))"
    and mset_add: "inv l \<Longrightarrow> key x \<notin> key ` set (vals l) \<Longrightarrow>
           mset (vals (add x l)) = add_mset x (mset (vals l))"
    and add_dup: "inv l \<Longrightarrow> key x \<in> key ` set (vals l) \<Longrightarrow> add x l = l"
    and vals_remove: "inv l \<Longrightarrow> vals (remove x l) = filter (\<lambda>y. key y \<noteq> key x) (vals l)"
    and find_iff: "inv l \<Longrightarrow> find l k = Some x \<longleftrightarrow> x \<in> set (vals l) \<and> key x = k"
begin

lemma find_None_iff:
  assumes "inv l"
  shows "find l k = None \<longleftrightarrow> k \<notin> key ` set (vals l)"
proof (cases "find l k")
  case None
  with find_iff [OF assms, of k] show ?thesis by auto
next
  case (Some x)
  with find_iff [OF assms, of k x] have "x \<in> set (vals l)" "key x = k" by simp_all
  with Some show ?thesis by auto
qed

lemma set_add:
  assumes "inv l"
  shows "set (vals (add x l)) =
     (if key x \<in> key ` set (vals l) then set (vals l) else insert x (set (vals l)))"
proof (cases "key x \<in> key ` set (vals l)")
  case False
  then have "mset (vals (add x l)) = mset (x # vals l)"
    using assms by (simp add: mset_add)
  then have "set (vals (add x l)) = set (x # vals l)"
    by (rule mset_eq_setD)
  with False show ?thesis by simp
qed (simp add: assms add_dup)

text \<open>Two states with the same elements of a key agree on looking it up.\<close>

lemma find_cong:
  assumes "inv l" and "inv l'"
    and "\<And>x. key x = k \<Longrightarrow> x \<in> set (vals l) \<longleftrightarrow> x \<in> set (vals l')"
  shows "find l k = find l' k"
proof -
  have "find l k = Some x \<longleftrightarrow> find l' k = Some x" for x
    using assms by (auto simp: find_iff)
  then show ?thesis by (metis not_None_eq)
qed

lemma find_add_same:
  "inv l \<Longrightarrow> find (add x l) (key x) = (case find l (key x) of None \<Rightarrow> Some x | Some y \<Rightarrow> Some y)"
  using find_iff [OF inv_add, of l x "key x"] find_None_iff [of l "key x"]
  by (cases "find l (key x)") (auto simp: set_add add_dup split: if_splits)

lemma find_add_other: "inv l \<Longrightarrow> k \<noteq> key x \<Longrightarrow> find (add x l) k = find l k"
  by (rule find_cong) (auto simp: inv_add set_add split: if_splits)

lemma find_remove_same: "inv l \<Longrightarrow> find (remove x l) (key x) = None"
  using find_None_iff [OF inv_remove, of l x "key x"] by (auto simp: vals_remove)

lemma find_remove_other: "inv l \<Longrightarrow> k \<noteq> key x \<Longrightarrow> find (remove x l) k = find l k"
  by (rule find_cong) (auto simp: inv_remove vals_remove)

lemma remove_add:
  assumes "inv l" and "key x \<notin> key ` set (vals l)"
  shows "mset (vals (remove x (add x l))) = mset (vals l)"
proof -
  have "filter_mset (\<lambda>y. key y \<noteq> key x) (mset (vals l)) = mset (vals l)"
    using assms(2) by (auto simp: filter_neq_id simp flip: mset_filter)
  then show ?thesis
    using assms by (simp add: vals_remove inv_add mset_filter mset_add)
qed

lemma inv_fold_add: "inv l \<Longrightarrow> inv (fold add xs l)"
  by (induction xs arbitrary: l) (auto intro: inv_add)

lemma inv_fold_remove: "inv l \<Longrightarrow> inv (fold remove xs l)"
  by (induction xs arbitrary: l) (auto intro: inv_remove)

lemma vals_fold_remove:
  "inv l \<Longrightarrow> vals (fold remove xs l) = filter (\<lambda>y. key y \<notin> key ` set xs) (vals l)"
  by (induction xs arbitrary: l)
    (auto simp: inv_remove vals_remove filter_filter intro!: filter_cong)

lemma keys_fold_add:
  "inv l \<Longrightarrow> key ` set (vals (fold add xs l)) = key ` set (vals l) \<union> key ` set xs"
proof (induction xs arbitrary: l)
  case (Cons x xs)
  then show ?case using Cons.IH [OF inv_add [OF Cons.prems], of x] by (auto simp: set_add)
qed simp

end

text \<open>A container that appends.\<close>

locale fifo_pool = keyed_pool +
  assumes vals_add: "inv l \<Longrightarrow> key x \<notin> key ` set (vals l) \<Longrightarrow> vals (add x l) = vals l @ [x]"
begin

lemma vals_fold_add:
  assumes "inv l"
  shows "vals (fold add xs l) =
    vals l @ filter (\<lambda>y. key y \<notin> key ` set (vals l)) (first_by_key key xs)"
  using assms
proof (induction xs arbitrary: l)
  case (Cons x xs)
  show ?case
  proof (cases "key x \<in> key ` set (vals l)")
    case True
    then have "filter (\<lambda>y. key y \<notin> key ` set (vals l))
        (filter (\<lambda>y. key y \<noteq> key x) (first_by_key key xs)) =
        filter (\<lambda>y. key y \<notin> key ` set (vals l)) (first_by_key key xs)"
      by (auto simp: filter_filter intro!: filter_cong)
    with True Cons show ?thesis by (simp add: add_dup)
  next
    case False
    with Cons.prems have v: "vals (add x l) = vals l @ [x]" by (rule vals_add)
    from False Cons.IH [OF inv_add [OF Cons.prems], of x] show ?thesis
      by (auto simp: v filter_filter intro!: filter_cong)
  qed
qed simp

text \<open>A fresh container filled from a list holds the first element of every key, in order.\<close>

lemma vals_fill: "vals (fold add xs new) = first_by_key key xs"
  by (simp add: vals_fold_add inv_new vals_new)

end

text \<open>A container that keeps its elements in order of a preorder \<open>le\<close>.\<close>

locale sorted_pool = keyed_pool +
  fixes le :: "'a \<Rightarrow> 'a \<Rightarrow> bool"
  assumes sorted_vals: "inv l \<Longrightarrow> sorted_wrt le (vals l)"
begin

lemma sorted_fill: "sorted_wrt le (vals (fold add xs new))"
  by (intro sorted_vals inv_fold_add inv_new)

end

end
