(* ===== verification/Linked_List.thy ===== *)
theory Linked_List
  imports Pool_Spec Encoding_Laws
begin

text \<open>
  The linked list with a key index of \<^verbatim>\<open>components/utils/linkedlist/linkedlist.go\<close>. The elements are
  values of a type \<open>'a\<close> (an interface value in Go, so \<open>=\<close> on \<open>'a\<close> is the comparison of two
  interface values), and every operation takes the function \<open>key\<close> that the method \<^verbatim>\<open>key\<close>
  computes: here the hex text of a hash of the serialised element. The transaction pool of
  \<^verbatim>\<open>core/blockchain/txpool.go\<close> has the same methods with another \<open>key\<close>.

  The methods take the lock of the list, so each is one step on the state.
\<close>

section \<open>State and operations\<close>

record 'a LinkedList =
  ll_list :: "'a golist"
  ll_mapping :: "(string, 'a element) gomap"

definition ll_key :: "(bytes \<Rightarrow> bytes) \<Rightarrow> ('a \<Rightarrow> bytes) \<Rightarrow> 'a \<Rightarrow> string" where
  "ll_key sha256 serialize element = BytesToHex (sha256 (serialize element))"

definition ll_Clear :: "'a LinkedList \<Rightarrow> 'a LinkedList" where
  "ll_Clear lst = lst\<lparr>ll_mapping := gm_empty, ll_list := gl_Init (ll_list lst)\<rparr>"

definition NewLinkedList :: "'a LinkedList" where
  "NewLinkedList = ll_Clear \<lparr>ll_list = gl_new, ll_mapping = gm_empty\<rparr>"

definition ll_Len :: "'a LinkedList \<Rightarrow> nat" where
  "ll_Len lst = gl_Len (ll_list lst)"

definition ll_find :: "'a LinkedList \<Rightarrow> string \<Rightarrow> 'a option" where
  "ll_find lst k = map_option evalue (gm_get (ll_mapping lst) k)"

definition ll_Has :: "('a \<Rightarrow> string) \<Rightarrow> 'a LinkedList \<Rightarrow> 'a \<Rightarrow> 'a option" where
  "ll_Has key lst element = ll_find lst (key element)"

definition ll_Add :: "('a \<Rightarrow> string) \<Rightarrow> 'a \<Rightarrow> 'a LinkedList \<Rightarrow> 'a LinkedList" where
  "ll_Add key element lst =
     (let k = key element in
      if gm_has (ll_mapping lst) k then lst
      else (case gl_PushBack (ll_list lst) element of (e, l) \<Rightarrow>
              lst\<lparr>ll_list := l, ll_mapping := gm_set k e (ll_mapping lst)\<rparr>))"

definition ll_drop :: "string \<Rightarrow> 'a element \<Rightarrow> 'a LinkedList \<Rightarrow> 'a LinkedList" where
  "ll_drop k e lst =
     lst\<lparr>ll_list := gl_Remove (ll_list lst) e, ll_mapping := gm_del k (ll_mapping lst)\<rparr>"

definition ll_Remove :: "('a \<Rightarrow> string) \<Rightarrow> 'a \<Rightarrow> 'a LinkedList \<Rightarrow> 'a LinkedList" where
  "ll_Remove key element lst =
     (let k = key element in
      case gm_get (ll_mapping lst) k of None \<Rightarrow> lst | Some e \<Rightarrow> ll_drop k e lst)"

definition ll_Removes :: "('a \<Rightarrow> string) \<Rightarrow> 'a list \<Rightarrow> 'a LinkedList \<Rightarrow> 'a LinkedList" where
  "ll_Removes key elements lst =
     fold (\<lambda>element lst. case gm_get (ll_mapping lst) (key element) of
             Some e \<Rightarrow> ll_drop (key element) e lst
           | None \<Rightarrow> lst) elements lst"

text \<open>The loops of \<^verbatim>\<open>RemoveBefore\<close> and \<^verbatim>\<open>RemoveAll\<close> look the element up without testing that it is
  there: \<^verbatim>\<open>list.Remove(nil)\<close> panics.\<close>

definition ll_must_remove :: "('a \<Rightarrow> string) \<Rightarrow> 'a \<Rightarrow> 'a LinkedList \<Rightarrow> 'a LinkedList go" where
  "ll_must_remove key element lst =
     (case gm_get (ll_mapping lst) (key element) of
        None \<Rightarrow> Panic ''nil pointer dereference''
      | Some e \<Rightarrow> Ret (ll_drop (key element) e lst))"

definition ll_RemoveBefore :: "('a \<Rightarrow> string) \<Rightarrow> 'a \<Rightarrow> 'a LinkedList \<Rightarrow> ('a list \<times> 'a LinkedList) go" where
  "ll_RemoveBefore key element lst =
     (case gm_get (ll_mapping lst) (key element) of
        None \<Rightarrow> Ret ([], lst)
      | Some telement \<Rightarrow>
          let elements = takeWhile (\<lambda>v. v \<noteq> evalue telement) (gl_vals (ll_list lst))
          in go_bind (go_fold (ll_must_remove key) elements lst) (\<lambda>lst'. Ret (elements, lst')))"

definition ll_RemoveAll :: "('a \<Rightarrow> string) \<Rightarrow> 'a LinkedList \<Rightarrow> ('a list \<times> 'a LinkedList) go" where
  "ll_RemoveAll key lst =
     (let elements = gl_vals (ll_list lst)
      in go_bind (go_fold (ll_must_remove key) elements lst) (\<lambda>lst'. Ret (elements, lst')))"

fun ll_get_loop :: "int \<Rightarrow> int \<Rightarrow> 'a list \<Rightarrow> 'a list" where
  "ll_get_loop n cnt [] = []"
| "ll_get_loop n cnt (v # vs) = v # (if cnt + 1 = n then [] else ll_get_loop n (cnt + 1) vs)"

definition ll_Get :: "int \<Rightarrow> 'a LinkedList \<Rightarrow> 'a list" where
  "ll_Get n lst = ll_get_loop n 0 (gl_vals (ll_list lst))"

text \<open>The callback may have effects, on a state \<open>'s\<close> of its own; it ends the walk by returning true.\<close>

fun ll_iter_loop :: "('a \<Rightarrow> 's \<Rightarrow> bool \<times> 's) \<Rightarrow> 'a list \<Rightarrow> 's \<Rightarrow> bool \<times> 's" where
  "ll_iter_loop f [] s = (False, s)"
| "ll_iter_loop f (v # vs) s = (case f v s of (stop, s') \<Rightarrow> if stop then (True, s') else ll_iter_loop f vs s')"

definition ll_IterElement :: "('a \<Rightarrow> 's \<Rightarrow> bool \<times> 's) \<Rightarrow> 'a LinkedList \<Rightarrow> 's \<Rightarrow> bool \<times> 's" where
  "ll_IterElement f lst s = ll_iter_loop f (gl_vals (ll_list lst)) s"

text \<open>\<^verbatim>\<open>Iter\<close> returns a closure; its variable \<^verbatim>\<open>elem\<close> is the state of the iteration.\<close>

definition ll_Iter :: "'a LinkedList \<Rightarrow> 'a element option" where
  "ll_Iter lst = gl_Front (ll_list lst)"

definition ll_Iter_next :: "'a LinkedList \<Rightarrow> 'a element option \<Rightarrow> 'a option \<times> 'a element option" where
  "ll_Iter_next lst elem =
     (case elem of
        Some e \<Rightarrow> (Some (evalue e), gl_Next (ll_list lst) e)
      | None \<Rightarrow> (None, None))"

fun ll_iterate :: "'a LinkedList \<Rightarrow> nat \<Rightarrow> 'a element option \<Rightarrow> 'a option list" where
  "ll_iterate lst 0 elem = []"
| "ll_iterate lst (Suc n) elem =
     (case ll_Iter_next lst elem of (v, elem') \<Rightarrow> v # ll_iterate lst n elem')"

section \<open>Invariant\<close>

text \<open>The index holds exactly the elements of the list, each under its key.\<close>

definition ll_vals :: "'a LinkedList \<Rightarrow> 'a list" where
  "ll_vals lst = gl_vals (ll_list lst)"

definition ll_inv :: "('a \<Rightarrow> string) \<Rightarrow> 'a LinkedList \<Rightarrow> bool" where
  "ll_inv key lst \<longleftrightarrow> gl_wf (ll_list lst) \<and> gm_wf (ll_mapping lst) \<and>
     (\<forall>k e. gm_get (ll_mapping lst) k = Some e \<longleftrightarrow> e \<in> set (elems (ll_list lst)) \<and> key (evalue e) = k)"

declare split_paired_All [simp del] split_paired_Ex [simp del]

lemma ll_inv_get:
  "ll_inv key lst \<Longrightarrow> gm_get (ll_mapping lst) k = Some e \<longleftrightarrow> e \<in> set (elems (ll_list lst)) \<and> key (evalue e) = k"
  by (simp add: ll_inv_def)

lemma ll_inv_same:
  assumes "ll_inv key lst" and "x \<in> set (elems (ll_list lst))" and "y \<in> set (elems (ll_list lst))"
    and "key (evalue x) = key (evalue y)"
  shows "x = y"
proof -
  have "gm_get (ll_mapping lst) (key (evalue x)) = Some x"
    "gm_get (ll_mapping lst) (key (evalue x)) = Some y"
    using assms by (simp_all add: ll_inv_get [OF assms(1)])
  then show ?thesis by simp
qed

lemma ll_has_iff: "ll_inv key lst \<Longrightarrow> gm_has (ll_mapping lst) k \<longleftrightarrow> k \<in> key ` set (ll_vals lst)"
  using ll_inv_get [of key lst k] by (auto simp: gm_has_def ll_vals_def gl_vals_def image_iff)

lemma ll_distinct_keys:
  assumes "ll_inv key lst"
  shows "distinct (map key (ll_vals lst))"
proof -
  have "inj_on (\<lambda>e. key (evalue e)) (set (elems (ll_list lst)))"
    by (rule inj_onI) (rule ll_inv_same [OF assms])
  moreover have "distinct (elems (ll_list lst))"
    using assms by (auto simp: ll_inv_def gl_wf_def distinct_map)
  ultimately show ?thesis by (simp add: ll_vals_def gl_vals_def distinct_map comp_def inj_on_def)
qed

lemma ll_inv_New [simp, intro, inv_intros]: "ll_inv key NewLinkedList"
  by (simp add: ll_inv_def NewLinkedList_def ll_Clear_def gl_Init_def gl_new_def gl_wf_def)

lemma ll_inv_Clear [simp, intro, inv_intros]: "ll_inv key (ll_Clear lst)"
  by (simp add: ll_inv_def ll_Clear_def gl_Init_def gl_wf_def)

lemma ll_vals_New [simp]: "ll_vals NewLinkedList = []"
  by (simp add: ll_vals_def NewLinkedList_def ll_Clear_def)

lemma ll_inv_Add [intro, inv_intros]:
  assumes "ll_inv key lst"
  shows "ll_inv key (ll_Add key x lst)"
proof (cases "gm_has (ll_mapping lst) (key x)")
  case False
  then have "key (evalue e) \<noteq> key x" if "e \<in> set (elems (ll_list lst))" for e
    using that ll_inv_get [OF assms] by (auto simp: gm_has_def)
  with False assms gl_wf_PushBack [of "ll_list lst" x] show ?thesis
    by (auto simp: ll_inv_def ll_Add_def gl_PushBack_def Let_def gm_get_set)
qed (simp add: assms ll_Add_def)

lemma ll_vals_Add:
  "ll_inv key lst \<Longrightarrow> key x \<notin> key ` set (ll_vals lst) \<Longrightarrow> ll_vals (ll_Add key x lst) = ll_vals lst @ [x]"
  using ll_has_iff [of key lst "key x"]
  by (simp add: ll_Add_def ll_vals_def gl_PushBack_def gl_vals_def Let_def)

lemma ll_Add_dup: "ll_inv key lst \<Longrightarrow> key x \<in> key ` set (ll_vals lst) \<Longrightarrow> ll_Add key x lst = lst"
  by (simp add: ll_Add_def ll_has_iff)

text \<open>Taking out the element that the index names.\<close>

lemma ll_drop_inv:
  assumes "ll_inv key lst" and "gm_get (ll_mapping lst) k = Some e"
  shows "ll_inv key (ll_drop k e lst)"
    and "ll_vals (ll_drop k e lst) = filter (\<lambda>y. key y \<noteq> k) (ll_vals lst)"
proof -
  have e: "e \<in> set (elems (ll_list lst))" "key (evalue e) = k"
    using assms ll_inv_get by blast+
  have same: "eaddr x = eaddr e \<longleftrightarrow> key (evalue x) = k" if "x \<in> set (elems (ll_list lst))" for x
  proof
    assume "eaddr x = eaddr e"
    with that e(1) assms(1) have "x = e"
      by (auto simp: ll_inv_def gl_wf_def intro: distinct_map_eqD)
    with e show "key (evalue x) = k" by simp
  next
    assume "key (evalue x) = k"
    with e have "key (evalue x) = key (evalue e)" by simp
    with ll_inv_same [OF assms(1) that e(1)] show "eaddr x = eaddr e" by simp
  qed
  then show "ll_inv key (ll_drop k e lst)"
    using assms(1) by (auto simp: ll_inv_def ll_drop_def elems_Remove gm_get_del)
  show "ll_vals (ll_drop k e lst) = filter (\<lambda>y. key y \<noteq> k) (ll_vals lst)"
    using same by (auto simp: ll_vals_def gl_vals_def ll_drop_def elems_Remove filter_map comp_def
        intro!: filter_cong arg_cong [where f = "map evalue"])
qed

lemma ll_inv_Remove [intro, inv_intros]: "ll_inv key lst \<Longrightarrow> ll_inv key (ll_Remove key x lst)"
  by (simp add: ll_Remove_def Let_def ll_drop_inv split: option.split)

lemma ll_vals_Remove:
  assumes "ll_inv key lst"
  shows "ll_vals (ll_Remove key x lst) = filter (\<lambda>y. key y \<noteq> key x) (ll_vals lst)"
proof (cases "gm_get (ll_mapping lst) (key x)")
  case None
  with assms have "key x \<notin> key ` set (ll_vals lst)"
    using ll_has_iff [OF assms, of "key x"] by (simp add: gm_has_def)
  with None show ?thesis by (simp add: ll_Remove_def filter_neq_id)
qed (simp add: ll_Remove_def ll_drop_inv [OF assms])

lemma ll_find_iff:
  "ll_inv key lst \<Longrightarrow> ll_find lst k = Some x \<longleftrightarrow> x \<in> set (ll_vals lst) \<and> key x = k"
  using ll_inv_get [of key lst k] by (auto simp: ll_find_def ll_vals_def gl_vals_def image_iff)

text \<open>The list is a pool that appends, whatever the key.\<close>

interpretation ll: fifo_pool "ll_inv key" ll_vals key NewLinkedList "ll_Add key" "ll_Remove key" ll_find
  for key
  by unfold_locales
    (simp_all add: ll_vals_Add ll_vals_Remove ll_distinct_keys ll_find_iff ll_Add_dup ll_inv_Add
      ll_inv_Remove)

section \<open>The compound operations\<close>

lemma ll_Removes_fold: "ll_Removes key xs lst = fold (ll_Remove key) xs lst"
  unfolding ll_Removes_def
  by (rule fold_cong) (auto simp: ll_Remove_def Let_def split: option.split)

lemma ll_must_remove_ok:
  assumes "ll_inv key lst" and "x \<in> set (ll_vals lst)"
  shows "ll_must_remove key x lst = Ret (ll_Remove key x lst)"
proof -
  have "gm_has (ll_mapping lst) (key x)"
    using assms by (simp add: ll_has_iff)
  then show ?thesis by (auto simp: gm_has_def ll_must_remove_def ll_Remove_def Let_def)
qed

text \<open>The unchecked look-ups of the removal loops succeed: the elements come from the list itself.\<close>

lemma ll_must_remove_fold:
  "ll_inv key lst \<Longrightarrow> distinct (map key xs) \<Longrightarrow> set xs \<subseteq> set (ll_vals lst) \<Longrightarrow>
     go_fold (ll_must_remove key) xs lst = Ret (fold (ll_Remove key) xs lst)"
proof (induction xs arbitrary: lst)
  case (Cons x xs)
  then have "set xs \<subseteq> set (ll_vals (ll_Remove key x lst))"
    by (intro subsetI) (auto simp: ll_vals_Remove image_iff)
  with Cons.IH [OF ll_inv_Remove [OF Cons.prems(1)]] Cons.prems show ?case
    by (simp add: ll_must_remove_ok)
qed simp

lemma ll_remove_prefix:
  assumes "ll_inv key lst" and "ll_vals lst = xs @ ys"
  shows "\<exists>lst'. go_fold (ll_must_remove key) xs lst = Ret lst' \<and> ll_inv key lst' \<and> ll_vals lst' = ys"
proof -
  have d: "distinct (map key (xs @ ys))"
    using ll_distinct_keys [OF assms(1)] assms(2) by simp
  then have "filter (\<lambda>y. key y \<notin> key ` set xs) (xs @ ys) = ys"
    by (auto simp: filter_id_conv)
  with d assms show ?thesis
    by (auto simp: ll_must_remove_fold ll.inv_fold_remove ll.vals_fold_remove)
qed

lemma ll_RemoveAll_ok:
  assumes "ll_inv key lst"
  shows "\<exists>lst'. ll_RemoveAll key lst = Ret (ll_vals lst, lst') \<and> ll_inv key lst' \<and> ll_vals lst' = []"
  using ll_remove_prefix [OF assms, of "ll_vals lst" "[]"]
  by (auto simp: ll_RemoveAll_def ll_vals_def)

lemma ll_RemoveBefore_absent:
  "ll_inv key lst \<Longrightarrow> key x \<notin> key ` set (ll_vals lst) \<Longrightarrow> ll_RemoveBefore key x lst = Ret ([], lst)"
  using ll_has_iff [of key lst "key x"] by (simp add: gm_has_def ll_RemoveBefore_def)

lemma takeWhile_distinct: "y \<notin> set xs \<Longrightarrow> takeWhile (\<lambda>v. v \<noteq> y) (xs @ y # ys) = xs"
  by (induction xs) auto

lemma ll_RemoveBefore_ok:
  assumes "ll_inv key lst" and "ll_vals lst = xs @ y # ys" and "key y = key x"
  shows "\<exists>lst'. ll_RemoveBefore key x lst = Ret (xs, lst') \<and> ll_inv key lst' \<and> ll_vals lst' = y # ys"
proof -
  have "ll_find lst (key x) = Some y"
    using assms by (simp add: ll_find_iff)
  then obtain e where e: "gm_get (ll_mapping lst) (key x) = Some e" "evalue e = y"
    by (auto simp: ll_find_def)
  have "y \<notin> set xs"
    using ll_distinct_keys [OF assms(1)] assms(2) by auto
  then have "takeWhile (\<lambda>v. v \<noteq> evalue e) (gl_vals (ll_list lst)) = xs"
    using assms(2) e by (simp add: takeWhile_distinct flip: ll_vals_def)
  with ll_remove_prefix [OF assms(1,2)] e show ?thesis
    by (auto simp: ll_RemoveBefore_def)
qed

lemma ll_get_loop_take:
  "ll_get_loop n cnt vs = (if n \<le> cnt then vs else take (nat (n - cnt)) vs)"
proof (induction vs arbitrary: cnt)
  case (Cons v vs)
  have "nat (n - cnt) = Suc (nat (n - (cnt + 1)))" if "cnt < n"
    using that by simp
  with Cons.IH [of "cnt + 1"] show ?case by (cases "cnt < n") (simp_all del: nat_diff_distrib')
qed simp

lemma ll_Get_eq: "ll_Get n lst = (if n \<le> 0 then ll_vals lst else take (nat n) (ll_vals lst))"
  by (simp add: ll_Get_def ll_get_loop_take ll_vals_def)

lemma ll_iterate_rest:
  assumes "gl_wf (ll_list lst)" and "elems (ll_list lst) = xs @ ys"
  shows "ll_iterate lst (length ys + n) (case ys of [] \<Rightarrow> None | y # _ \<Rightarrow> Some y) =
    map (Some \<circ> evalue) ys @ replicate n None"
  using assms(2)
proof (induction ys arbitrary: xs)
  case Nil
  show ?case by (induction n) (simp_all add: ll_Iter_next_def)
next
  case (Cons y ys)
  from Cons.IH [of "xs @ [y]"] Cons.prems show ?case
    by (simp add: ll_Iter_next_def gl_Next_split [OF assms(1) Cons.prems])
qed

text \<open>Calling the iterator yields the elements from front to back, and nil ever after.\<close>

lemma ll_iterate_all:
  "ll_inv key lst \<Longrightarrow>
     ll_iterate lst (ll_Len lst + n) (ll_Iter lst) = map Some (ll_vals lst) @ replicate n None"
  using ll_iterate_rest [of lst "[]" "elems (ll_list lst)" n]
  by (simp add: ll_inv_def ll_Iter_def gl_Front_def ll_Len_def gl_Len_def ll_vals_def gl_vals_def)

section \<open>Properties of the linked list\<close>

text \<open>Every sequence of additions into a new list followed by every sequence of removals keeps the
  index and the list in agreement: the list then holds the first element of every key that
  was not removed, in order of arrival, \<^verbatim>\<open>Has\<close> finds exactly these and \<^verbatim>\<open>Len\<close> counts them.\<close>

theorem LinkedList_correct:
  "let lst = ll_Removes key ys (fold (ll_Add key) xs NewLinkedList) in
    ll_inv key lst \<and>
    ll_vals lst = filter (\<lambda>v. key v \<notin> key ` set ys) (first_by_key key xs) \<and>
    ll_Len lst = length (filter (\<lambda>v. key v \<notin> key ` set ys) (first_by_key key xs)) \<and>
    (ll_Has key lst x = Some v \<longleftrightarrow>
       v \<in> set (first_by_key key xs) \<and> key v \<notin> key ` set ys \<and> key v = key x)"
proof -
  let ?lst = "ll_Removes key ys (fold (ll_Add key) xs NewLinkedList)"
  have 1: "ll_inv key (fold (ll_Add key) xs NewLinkedList)"
    by (intro ll.inv_fold_add ll_inv_New)
  then have inv: "ll_inv key ?lst"
    unfolding ll_Removes_fold by (rule ll.inv_fold_remove)
  moreover have v: "ll_vals ?lst = filter (\<lambda>v. key v \<notin> key ` set ys) (first_by_key key xs)"
    unfolding ll_Removes_fold by (simp only: ll.vals_fold_remove [OF 1] ll.vals_fill)
  moreover have "ll_Len ?lst = length (ll_vals ?lst)"
    by (simp add: ll_Len_def gl_Len_vals ll_vals_def)
  ultimately show ?thesis
    by (auto simp: Let_def ll_Has_def ll_find_iff)
qed

text \<open>\<^verbatim>\<open>RemoveBefore\<close> of an element that is in the list does not panic, returns everything in front of
  it and leaves it at the head; \<^verbatim>\<open>RemoveAll\<close> does not panic, returns everything and leaves the list
  empty.\<close>

theorem LinkedList_RemoveBefore:
  assumes "ll_inv key lst" and "ll_vals lst = xs @ y # ys" and "key y = key x"
  shows "\<exists>lst' lst''. ll_RemoveBefore key x lst = Ret (xs, lst') \<and> ll_inv key lst' \<and>
      ll_vals lst' = y # ys \<and>
      ll_RemoveAll key lst' = Ret (y # ys, lst'') \<and> ll_inv key lst'' \<and> ll_vals lst'' = []"
  using ll_RemoveBefore_ok [OF assms] ll_RemoveAll_ok by metis

theorem LinkedList_RemoveBefore_witness:
  "\<exists>lst' lst''. ll_RemoveBefore id ''b'' (fold (ll_Add id) [''a'', ''b'', ''c''] NewLinkedList) =
       Ret ([''a''], lst') \<and> ll_inv id lst' \<and> ll_vals lst' = [''b'', ''c''] \<and>
       ll_RemoveAll id lst' = Ret ([''b'', ''c''], lst'') \<and> ll_inv id lst'' \<and> ll_vals lst'' = []"
proof (rule LinkedList_RemoveBefore)
  show "ll_inv id (fold (ll_Add id) [''a'', ''b'', ''c''] NewLinkedList)"
    by (intro ll.inv_fold_add ll_inv_New)
  show "ll_vals (fold (ll_Add id) [''a'', ''b'', ''c''] NewLinkedList) = [''a''] @ ''b'' # [''c'']"
    unfolding ll.vals_fill by simp
qed simp

text \<open>\<^verbatim>\<open>Get(n)\<close> returns the first \<open>n\<close> elements for a positive \<open>n\<close> and all of them otherwise (the
  loop tests its counter after it has taken an element), and the iterator yields the
  elements in the same order and then nil.\<close>

theorem LinkedList_Get:
  assumes "ll_inv key lst"
  shows "ll_Get n lst = (if n \<le> 0 then ll_vals lst else take (nat n) (ll_vals lst)) \<and>
    ll_iterate lst (ll_Len lst + k) (ll_Iter lst) = map Some (ll_vals lst) @ replicate k None"
  using ll_Get_eq ll_iterate_all [OF assms] by blast

theorem LinkedList_Get_witness:
  "ll_Get 0 (fold (ll_Add id) [''a'', ''b''] NewLinkedList) = [''a'', ''b'']"
proof -
  have "ll_inv id (fold (ll_Add id) [''a'', ''b''] NewLinkedList)"
    by (intro ll.inv_fold_add ll_inv_New)
  from LinkedList_Get [OF this, of 0 0] show ?thesis
    unfolding ll.vals_fill by simp
qed

end
