(* ===== verification/Sorted_List.thy ===== *)
theory Sorted_List
  imports Linked_List
begin

text \<open>
  The sorted list of \<^verbatim>\<open>components/utils/sortedlinkedlist/sortedlinkedlist.go\<close>. Its structure and most of
  its methods are those of the linked list; an addition searches the place of the new
  element from the back. The order is the method \<^verbatim>\<open>Compare\<close> of the elements, here \<open>cmp\<close>.
\<close>

section \<open>Operations\<close>

type_synonym 'a SortedLinkedList = "'a LinkedList"

definition NewSortedLinkedList :: "'a SortedLinkedList" where
  "NewSortedLinkedList = NewLinkedList"

definition sll_Clear :: "'a SortedLinkedList \<Rightarrow> 'a SortedLinkedList" where
  "sll_Clear sll = sll\<lparr>ll_mapping := gm_empty, ll_list := gl_Init (ll_list sll)\<rparr>"

definition sll_Len :: "'a SortedLinkedList \<Rightarrow> nat" where
  "sll_Len sll = gl_Len (ll_list sll)"

definition sll_index :: "('a \<Rightarrow> 'a \<Rightarrow> int) \<Rightarrow> 'a \<Rightarrow> 'a golist \<Rightarrow> 'a element option" where
  "sll_index cmp element l = List.find (\<lambda>elem. cmp element (evalue elem) = 1) (rev (elems l))"

text \<open>\<open>sll_index\<close> yields an element of the list, so \<^verbatim>\<open>InsertAfter\<close> never returns nil here.\<close>

definition sll_Add :: "('a \<Rightarrow> 'a \<Rightarrow> int) \<Rightarrow> ('a \<Rightarrow> string) \<Rightarrow> 'a \<Rightarrow> 'a SortedLinkedList \<Rightarrow> 'a SortedLinkedList" where
  "sll_Add cmp key element sll =
     (let k = key element in
      if gm_has (ll_mapping sll) k then sll
      else (case sll_index cmp element (ll_list sll) of
              Some indexElement \<Rightarrow>
                (case gl_InsertAfter (ll_list sll) element indexElement of
                   (Some e, l) \<Rightarrow> sll\<lparr>ll_list := l, ll_mapping := gm_set k e (ll_mapping sll)\<rparr>
                 | (None, l) \<Rightarrow> sll)
            | None \<Rightarrow>
                (case gl_PushFront (ll_list sll) element of
                   (e, l) \<Rightarrow> sll\<lparr>ll_list := l, ll_mapping := gm_set k e (ll_mapping sll)\<rparr>)))"

definition sll_Remove :: "('a \<Rightarrow> string) \<Rightarrow> 'a \<Rightarrow> 'a SortedLinkedList \<Rightarrow> 'a SortedLinkedList" where
  "sll_Remove key element sll =
     (let k = key element in
      case gm_get (ll_mapping sll) k of Some e \<Rightarrow> ll_drop k e sll | None \<Rightarrow> sll)"

definition sll_Removes :: "('a \<Rightarrow> string) \<Rightarrow> 'a list \<Rightarrow> 'a SortedLinkedList \<Rightarrow> 'a SortedLinkedList" where
  "sll_Removes key elements sll = fold (sll_Remove key) elements sll"

definition sll_RemoveBefore :: "('a \<Rightarrow> 'a \<Rightarrow> int) \<Rightarrow> ('a \<Rightarrow> string) \<Rightarrow> 'a \<Rightarrow> 'a SortedLinkedList
    \<Rightarrow> ('a list \<times> 'a SortedLinkedList) go" where
  "sll_RemoveBefore cmp key element sll =
     (let elements = filter (\<lambda>v. cmp element v \<noteq> -1) (gl_vals (ll_list sll))
      in go_bind (go_fold (ll_must_remove key) elements sll) (\<lambda>sll'. Ret (elements, sll')))"

definition sll_RemoveAll :: "('a \<Rightarrow> string) \<Rightarrow> 'a SortedLinkedList \<Rightarrow> ('a list \<times> 'a SortedLinkedList) go" where
  "sll_RemoveAll key sll =
     (let elements = gl_vals (ll_list sll)
      in go_bind (go_fold (ll_must_remove key) elements sll) (\<lambda>sll'. Ret (elements, sll')))"

definition sll_IterElement :: "('a \<Rightarrow> 's \<Rightarrow> bool \<times> 's) \<Rightarrow> 'a SortedLinkedList \<Rightarrow> 's \<Rightarrow> 's" where
  "sll_IterElement f sll s = snd (ll_iter_loop f (gl_vals (ll_list sll)) s)"

fun sll_sorted_loop :: "('a \<Rightarrow> 'a \<Rightarrow> int) \<Rightarrow> 'a option \<Rightarrow> 'a list \<Rightarrow> bool" where
  "sll_sorted_loop cmp pre [] = True"
| "sll_sorted_loop cmp None (v # vs) = sll_sorted_loop cmp (Some v) vs"
| "sll_sorted_loop cmp (Some p) (v # vs) =
     (if cmp p v = 1 then False else sll_sorted_loop cmp (Some v) vs)"

definition isSorted :: "('a \<Rightarrow> 'a \<Rightarrow> int) \<Rightarrow> 'a SortedLinkedList \<Rightarrow> bool" where
  "isSorted cmp sll = sll_sorted_loop cmp None (gl_vals (ll_list sll))"

section \<open>The contract of \<^verbatim>\<open>Compare\<close>\<close>

text \<open>What the list relies on: \<^verbatim>\<open>Compare\<close> is the sign of a weak order.\<close>

locale comparison =
  fixes cmp :: "'a \<Rightarrow> 'a \<Rightarrow> int"
  assumes cmp_range: "cmp x y \<in> {-1, 0, 1}"
    and cmp_swap: "cmp y x = - cmp x y"
    and cmp_trans: "cmp x y \<noteq> 1 \<Longrightarrow> cmp y z \<noteq> 1 \<Longrightarrow> cmp x z \<noteq> 1"
begin

lemma cmp_refl: "cmp x x = 0"
  using cmp_swap [of x x] by simp

lemma cmp_minus_iff: "cmp x y = -1 \<longleftrightarrow> cmp y x = 1"
  using cmp_swap [of x y] by simp

lemma cmp_le_iff: "cmp x y \<noteq> 1 \<longleftrightarrow> cmp y x \<noteq> -1"
  using cmp_minus_iff [of y x] by simp

text \<open>A walk over adjacent elements decides sortedness.\<close>

lemma sorted_loop_Some:
  "sll_sorted_loop cmp (Some p) vs \<longleftrightarrow> sorted_wrt (\<lambda>x y. cmp x y \<noteq> 1) (p # vs)"
proof (induction vs arbitrary: p)
  case (Cons v vs)
  have "(\<forall>x \<in> set vs. cmp p x \<noteq> 1)" if "cmp p v \<noteq> 1" "\<forall>x \<in> set vs. cmp v x \<noteq> 1"
    using that cmp_trans by blast
  with Cons show ?case by auto
qed simp

lemma isSorted_iff: "isSorted cmp sll \<longleftrightarrow> sorted_wrt (\<lambda>x y. cmp x y \<noteq> 1) (ll_vals sll)"
  unfolding isSorted_def ll_vals_def
  by (cases "gl_vals (ll_list sll)") (simp_all add: sorted_loop_Some del: sorted_wrt.simps(2))

lemma sorted_insert:
  assumes "sorted_wrt (\<lambda>x y. cmp x y \<noteq> 1) (xs @ ys)" and "xs = [] \<or> cmp v (last xs) = 1"
    and "\<forall>y \<in> set ys. cmp v y \<noteq> 1"
  shows "sorted_wrt (\<lambda>x y. cmp x y \<noteq> 1) (xs @ v # ys)"
proof -
  have "cmp x v \<noteq> 1" if "x \<in> set xs" for x
  proof -
    from that obtain xs' where xs: "xs = xs' @ [last xs]" by (metis append_butlast_last_id empty_iff empty_set)
    have "cmp (last xs) v \<noteq> 1" using assms(2) that cmp_swap [of "last xs" v] by auto
    moreover have "cmp x (last xs) \<noteq> 1" if "x \<noteq> last xs"
    proof -
      have "x \<in> set xs'" using \<open>x \<in> set xs\<close> that xs by (metis Un_iff empty_iff empty_set set_ConsD set_append)
      moreover have "sorted_wrt (\<lambda>x y. cmp x y \<noteq> 1) (xs' @ [last xs])"
        using assms(1) xs by (simp add: sorted_wrt_append)
      ultimately show ?thesis by (simp add: sorted_wrt_append)
    qed
    ultimately show ?thesis using cmp_trans by blast
  qed
  with assms show ?thesis by (auto simp: sorted_wrt_append)
qed

end

section \<open>Invariant\<close>

definition sll_inv :: "('a \<Rightarrow> 'a \<Rightarrow> int) \<Rightarrow> ('a \<Rightarrow> string) \<Rightarrow> 'a SortedLinkedList \<Rightarrow> bool" where
  "sll_inv cmp key sll \<longleftrightarrow> ll_inv key sll \<and> sorted_wrt (\<lambda>x y. cmp x y \<noteq> 1) (ll_vals sll)"

declare split_paired_All [simp del] split_paired_Ex [simp del]

lemma find_rev_split:
  "List.find P (rev xs) = Some x \<Longrightarrow> \<exists>ys zs. xs = ys @ x # zs \<and> P x \<and> (\<forall>z \<in> set zs. \<not> P z)"
proof (induction xs rule: rev_induct)
  case (snoc y xs)
  show ?case
  proof (cases "P y")
    case True
    with snoc.prems have "xs @ [y] = xs @ x # [] \<and> P x" by simp
    then show ?thesis by (metis empty_iff empty_set)
  next
    case False
    with snoc obtain ys zs where "xs = ys @ x # zs" "P x" "\<forall>z \<in> set zs. \<not> P z" by auto
    with False have "xs @ [y] = ys @ x # (zs @ [y])" "P x" "\<forall>z \<in> set (zs @ [y]). \<not> P z" by auto
    then show ?thesis by blast
  qed
qed simp

text \<open>An addition puts one fresh element somewhere into the list and indexes it.\<close>

lemma ll_inv_insert:
  assumes "ll_inv key lst" and "\<not> gm_has (ll_mapping lst) (key v)"
    and "elems (ll_list lst) = xs @ ys"
  shows "ll_inv key (lst\<lparr>ll_list := (ll_list lst)\<lparr>elems := xs @ (fresh (ll_list lst), v) # ys,
      fresh := Suc (fresh (ll_list lst))\<rparr>, ll_mapping := gm_set (key v) (fresh (ll_list lst), v) (ll_mapping lst)\<rparr>)"
proof -
  have "key (evalue e) \<noteq> key v" if "e \<in> set (elems (ll_list lst))" for e
    using that assms(2) ll_inv_get [OF assms(1)] by (auto simp: gm_has_def)
  moreover have "gl_wf (ll_list lst)" using assms(1) by (simp add: ll_inv_def)
  moreover from this have "eaddr e < Suc (fresh (ll_list lst))" if "e \<in> set (elems (ll_list lst))" for e
    using that by (simp add: gl_wf_def less_SucI)
  ultimately show ?thesis
    using assms gl_wf_fresh [of "ll_list lst"]
    by (auto simp: ll_inv_def gm_get_set gl_wf_def)
qed

lemma sll_Add_cases:
  assumes "ll_inv key sll" and "\<not> gm_has (ll_mapping sll) (key v)"
  obtains xs ys where "ll_vals sll = xs @ ys" and "ll_vals (sll_Add cmp key v sll) = xs @ v # ys"
    and "ll_inv key (sll_Add cmp key v sll)" and "xs = [] \<or> cmp v (last xs) = 1"
    and "\<forall>y \<in> set ys. cmp v y \<noteq> 1"
proof (cases "sll_index cmp v (ll_list sll)")
  case None
  then have "\<forall>y \<in> set (ll_vals sll). cmp v y \<noteq> 1"
    by (auto simp: sll_index_def find_None_iff ll_vals_def gl_vals_def)
  with None assms ll_inv_insert [OF assms, of "[]" "elems (ll_list sll)"]
    that [of "[]" "ll_vals sll"] show thesis
    by (simp add: sll_Add_def gl_PushFront_def ll_vals_def gl_vals_def Let_def)
next
  case (Some e)
  then obtain as bs where e: "elems (ll_list sll) = as @ e # bs" "cmp v (evalue e) = 1"
    "\<forall>b \<in> set bs. cmp v (evalue b) \<noteq> 1"
    unfolding sll_index_def by (auto dest: find_rev_split)
  have wf: "gl_wf (ll_list sll)" using assms(1) by (simp add: ll_inv_def)
  have app: "elems (ll_list sll) = (as @ [e]) @ bs" using e by simp
  show thesis
    using that [of "map evalue (as @ [e])" "map evalue bs"] e assms(2) Some
      ll_inv_insert [OF assms app]
    by (simp add: sll_Add_def gl_InsertAfter_split [OF wf e(1)] Let_def ll_vals_def gl_vals_def)
qed

lemma sll_Remove_eq: "sll_Remove = ll_Remove"
  by (auto simp: fun_eq_iff sll_Remove_def ll_Remove_def Let_def split: option.split)

context comparison
begin

lemma sll_inv_Add:
  assumes "sll_inv cmp key sll"
  shows "sll_inv cmp key (sll_Add cmp key v sll)"
proof (cases "gm_has (ll_mapping sll) (key v)")
  case True
  with assms show ?thesis by (simp add: sll_Add_def)
next
  case False
  from assms have i: "ll_inv key sll" by (simp add: sll_inv_def)
  show ?thesis
    by (rule sll_Add_cases [OF i False, of cmp])
      (use assms sorted_insert in \<open>auto simp: sll_inv_def\<close>)
qed

lemma mset_sll_Add:
  assumes "sll_inv cmp key sll" and "key v \<notin> key ` set (ll_vals sll)"
  shows "mset (ll_vals (sll_Add cmp key v sll)) = add_mset v (mset (ll_vals sll))"
proof -
  have i: "ll_inv key sll" using assms by (simp add: sll_inv_def)
  then have "\<not> gm_has (ll_mapping sll) (key v)" using assms by (simp add: ll_has_iff)
  from sll_Add_cases [OF i this, of cmp] show ?thesis by fastforce
qed

lemma sll_inv_Remove: "sll_inv cmp key sll \<Longrightarrow> sll_inv cmp key (sll_Remove key v sll)"
  by (simp add: sll_inv_def sll_Remove_eq ll_inv_Remove ll_vals_Remove sorted_wrt_filter)

end

sublocale comparison < sll: sorted_pool "sll_inv cmp key" ll_vals key NewSortedLinkedList
    "sll_Add cmp key" "sll_Remove key" ll_find "\<lambda>x y. cmp x y \<noteq> 1" for key
proof unfold_locales
  fix l x
  assume "sll_inv cmp key l" "key x \<in> key ` set (ll_vals l)"
  then show "sll_Add cmp key x l = l"
    by (simp add: sll_Add_def sll_inv_def ll_has_iff [of key] Let_def)
qed (simp_all add: sll_inv_Add sll_inv_Remove mset_sll_Add,
    simp_all add: sll_inv_def NewSortedLinkedList_def ll_distinct_keys ll_find_iff sll_Remove_eq
      ll_vals_Remove)

context comparison
begin

lemma sll_inv_fill: "sll_inv cmp key (fold (sll_Add cmp key) xs NewSortedLinkedList)"
  by (intro sll.inv_fold_add sll.inv_new)

lemma sorted_rest:
  assumes "sorted_wrt (\<lambda>x y. cmp x y \<noteq> 1) vs" and "x \<in> set (dropWhile (\<lambda>x. cmp x v \<noteq> 1) vs)"
  shows "cmp x v = 1"
proof -
  from assms(2) obtain h t where ht: "dropWhile (\<lambda>x. cmp x v \<noteq> 1) vs = h # t"
    by (cases "dropWhile (\<lambda>x. cmp x v \<noteq> 1) vs") auto
  then have "cmp h v = 1" by (simp add: dropWhile_eq_Cons_conv)
  moreover have "sorted_wrt (\<lambda>x y. cmp x y \<noteq> 1) (h # t)"
    using assms(1) ht by (metis sorted_wrt_append takeWhile_dropWhile_id)
  then have "x = h \<or> cmp h x \<noteq> 1" using assms(2) ht by auto
  ultimately show ?thesis using cmp_trans [of h x v] by blast
qed

text \<open>In a sorted list the elements up to \<open>v\<close> are a prefix.\<close>

lemma sorted_prefix:
  "sorted_wrt (\<lambda>x y. cmp x y \<noteq> 1) vs \<Longrightarrow> filter (\<lambda>x. cmp v x \<noteq> -1) vs = takeWhile (\<lambda>x. cmp v x \<noteq> -1) vs"
proof (induction vs)
  case (Cons x vs)
  show ?case
  proof (cases "cmp v x = -1")
    case True
    have "cmp v y = -1" if "y \<in> set vs" for y
    proof -
      have "cmp x y \<noteq> 1" using Cons.prems that by simp
      moreover have "cmp x v = 1" using True cmp_minus_iff by simp
      ultimately have "cmp y v = 1" using cmp_trans [of x y v] by blast
      then show ?thesis using cmp_minus_iff by simp
    qed
    with True show ?thesis by simp
  qed (use Cons in simp)
qed simp

lemma sll_RemoveBefore_ok:
  assumes "sll_inv cmp key sll"
  shows "\<exists>sll'. sll_RemoveBefore cmp key v sll = Ret (takeWhile (\<lambda>x. cmp x v \<noteq> 1) (ll_vals sll), sll') \<and>
    sll_inv cmp key sll' \<and> ll_vals sll' = dropWhile (\<lambda>x. cmp x v \<noteq> 1) (ll_vals sll)"
proof -
  have P: "(\<lambda>x. cmp x v \<noteq> 1) = (\<lambda>x. cmp v x \<noteq> -1)" using cmp_le_iff by blast
  have i: "ll_inv key sll" and s: "sorted_wrt (\<lambda>x y. cmp x y \<noteq> 1) (ll_vals sll)"
    using assms by (simp_all add: sll_inv_def)
  let ?t = "takeWhile (\<lambda>x. cmp v x \<noteq> -1) (ll_vals sll)" and ?d = "dropWhile (\<lambda>x. cmp v x \<noteq> -1) (ll_vals sll)"
  have e: "filter (\<lambda>x. cmp v x \<noteq> -1) (gl_vals (ll_list sll)) = ?t"
    using sorted_prefix [OF s] by (simp add: ll_vals_def)
  have td: "ll_vals sll = ?t @ ?d" by simp
  from ll_remove_prefix [OF i td] obtain sll' where r: "go_fold (ll_must_remove key) ?t sll = Ret sll'"
    "ll_inv key sll'" "ll_vals sll' = ?d" by blast
  have "sorted_wrt (\<lambda>x y. cmp x y \<noteq> 1) ?d"
    using s td by (metis sorted_wrt_append)
  with r e show ?thesis by (simp add: P sll_RemoveBefore_def sll_inv_def)
qed

end

section \<open>Properties of the sorted list\<close>

text \<open>C39: with a \<^verbatim>\<open>Compare\<close> that is the sign of a weak order, a list filled by \<^verbatim>\<open>Add\<close> is sorted in the sense of
  \<^verbatim>\<open>isSorted\<close>, and \<^verbatim>\<open>RemoveBefore(v)\<close> does not panic, returns exactly the elements that are not
  greater than \<open>v\<close>, which are the front of the list, and leaves the others, still sorted.\<close>

theorem SortedLinkedList_correct:
  assumes "comparison cmp"
  shows "\<exists>sll'. isSorted cmp (fold (sll_Add cmp key) xs NewSortedLinkedList) \<and>
    sll_RemoveBefore cmp key v (fold (sll_Add cmp key) xs NewSortedLinkedList) =
      Ret (takeWhile (\<lambda>x. cmp x v \<noteq> 1) (ll_vals (fold (sll_Add cmp key) xs NewSortedLinkedList)), sll') \<and>
    isSorted cmp sll' \<and>
    ll_vals sll' = dropWhile (\<lambda>x. cmp x v \<noteq> 1) (ll_vals (fold (sll_Add cmp key) xs NewSortedLinkedList)) \<and>
    (\<forall>x \<in> set (ll_vals sll'). cmp x v = 1)"
proof -
  let ?s = "fold (sll_Add cmp key) xs NewSortedLinkedList"
  have i: "sll_inv cmp key ?s"
    by (rule comparison.sll_inv_fill [OF assms])
  from comparison.sll_RemoveBefore_ok [OF assms this, of v] obtain sll' where
    r: "sll_RemoveBefore cmp key v ?s = Ret (takeWhile (\<lambda>x. cmp x v \<noteq> 1) (ll_vals ?s), sll')"
    "sll_inv cmp key sll'" "ll_vals sll' = dropWhile (\<lambda>x. cmp x v \<noteq> 1) (ll_vals ?s)" by blast
  have "\<forall>x \<in> set (ll_vals sll'). cmp x v = 1"
    using comparison.sorted_rest [OF assms] i r(3) by (metis sll_inv_def)
  with r i show ?thesis
    by (metis comparison.isSorted_iff [OF assms] sll_inv_def)
qed

theorem SortedLinkedList_correct_witness:
  "\<exists>sll'. isSorted (\<lambda>x y. sgn (x - y)) (fold (sll_Add (\<lambda>x y. sgn (x - y)) (\<lambda>n. replicate (nat n) CHR ''i'')) [3, 1, 2 :: int] NewSortedLinkedList) \<and>
    sll_RemoveBefore (\<lambda>x y. sgn (x - y)) (\<lambda>n. replicate (nat n) CHR ''i'') 2
      (fold (sll_Add (\<lambda>x y. sgn (x - y)) (\<lambda>n. replicate (nat n) CHR ''i'')) [3, 1, 2 :: int] NewSortedLinkedList) = Ret ([1, 2], sll') \<and>
    ll_vals sll' = [3]"
proof -
  have c: "comparison (\<lambda>x y :: int. sgn (x - y))"
    by unfold_locales (auto simp: sgn_if split: if_splits)
  have "ll_vals (fold (sll_Add (\<lambda>x y. sgn (x - y)) (\<lambda>n. replicate (nat n) CHR ''i'')) [3, 1, 2 :: int] NewSortedLinkedList) = [1, 2, 3]"
    by code_simp
  with SortedLinkedList_correct [OF c, of "\<lambda>n. replicate (nat n) CHR ''i''" "[3, 1, 2]" 2]
  show ?thesis by auto
qed

end
