(* ===== verification/Types.thy ===== *)
theory Types
  imports Crypto Sorted_List
begin

text \<open>
  Chain coordinates, addresses, transactions and blocks (\<^verbatim>\<open>core/coordinate\<close>, \<^verbatim>\<open>core/accounts/address.go\<close>,
  \<^verbatim>\<open>core/types\<close>). A \<^verbatim>\<open>*Transaction\<close> is the record of its fields together with the address of the
  object, \<open>tx_ptr\<close>, so that equality of records is equality of pointers: two objects decoded
  from the same bytes differ in it. The two caches of type \<^verbatim>\<open>atomic.Value\<close> are options.
\<close>

section \<open>Chain coordinates\<close>

type_synonym ChainCoordinate = bytes

definition NewChainCoordinate :: "bytes \<Rightarrow> ChainCoordinate" where
  "NewChainCoordinate c = c"

definition cc_String :: "ChainCoordinate \<Rightarrow> string" where
  "cc_String cc = BytesToHex cc"

definition HexToChainCoordinate :: "string \<Rightarrow> ChainCoordinate" where
  "HexToChainCoordinate hex = NewChainCoordinate (HexToBytes hex)"

definition cc_UnmarshalText :: "ChainCoordinate \<Rightarrow> string \<Rightarrow> jerr + ChainCoordinate" where
  "cc_UnmarshalText cc input = UnmarshalFixedText input (length cc)"

definition ParentCoorinate :: "ChainCoordinate \<Rightarrow> ChainCoordinate go" where
  "ParentCoorinate cc =
     (if cc = [] then Panic ''slice bounds out of range'' else Ret (NewChainCoordinate (butlast cc)))"

section \<open>Addresses\<close>

abbreviation AddressLength :: nat where
  "AddressLength \<equiv> 20"

type_synonym Address = bytes

definition zero_addr :: Address where
  "zero_addr = replicate AddressLength 0"

definition NewAddress :: "bytes \<Rightarrow> Address go" where
  "NewAddress b = (if length b < 20 then Panic ''slice bounds out of range'' else Ret (take 20 b))"

definition addr_String :: "Address \<Rightarrow> string" where
  "addr_String a = ''0x'' @ BytesToHex a"

definition addr_SetBytes :: "Address \<Rightarrow> bytes \<Rightarrow> Address" where
  "addr_SetBytes a b0 =
     (let b = (if length b0 > length a then drop (length b0 - AddressLength) b0 else b0)
      in take (AddressLength - length b) a @ b)"

definition HexToAddress :: "string \<Rightarrow> Address" where
  "HexToAddress hex =
     addr_SetBytes zero_addr
       (if length hex > 1 then HexToBytes (if take 2 hex = ''0x'' then drop 2 hex else hex) else [])"

definition addr_Equal :: "Address \<Rightarrow> Address \<Rightarrow> bool" where
  "addr_Equal a a1 \<longleftrightarrow> (\<forall>i < AddressLength. a ! i = a1 ! i)"

definition PublicKeyToAddress :: "crypto_env \<Rightarrow> bytes \<Rightarrow> Address go" where
  "PublicKeyToAddress c p =
     (let pubBytes = pub_Bytes p in
      if pubBytes = [] then Panic ''slice bounds out of range''
      else Ret (addr_SetBytes zero_addr (drop 12 (Keccak256 c [tl pubBytes]))))"

definition ChainCoordinateToAddress :: "crypto_env \<Rightarrow> ChainCoordinate \<Rightarrow> Address go" where
  "ChainCoordinateToAddress c cc =
     (if cc = [] then Panic ''slice bounds out of range''
      else Ret (addr_SetBytes zero_addr (last cc # drop 13 (Keccak256 c [cc]))))"

section \<open>Transactions\<close>

record txdata =
  td_FromChain :: ChainCoordinate
  td_ToChain :: ChainCoordinate
  td_Type :: u32
  td_Nonce :: u32
  td_Sender :: Address
  td_Recipient :: Address
  td_Amount :: "int option"
  td_Fee :: "int option"
  td_Signature :: "Signature option"
  td_CreateTime :: u32

record Transaction =
  tx_ptr :: nat
  tx_Data :: txdata
  tx_Payload :: bytes
  tx_hash_cache :: "Hash option"
  tx_sender_cache :: "Address option"

definition TypeAtomic :: u32 where "TypeAtomic = 0"
definition TypeAcrossChain :: u32 where "TypeAcrossChain = 1"
definition TypeMerged :: u32 where "TypeMerged = 2"
definition TypeBackfront :: u32 where "TypeBackfront = 3"
definition TypeDistribut :: u32 where "TypeDistribut = 4"
definition TypeIssue :: u32 where "TypeIssue = 5"
definition TypeJSContractInit :: u32 where "TypeJSContractInit = 6"
definition TypeLuaContractInit :: u32 where "TypeLuaContractInit = 7"
definition TypeContractInvoke :: u32 where "TypeContractInvoke = 8"
definition TypeContractQuery :: u32 where "TypeContractQuery = 9"

lemmas Type_defs = TypeAtomic_def TypeAcrossChain_def TypeMerged_def TypeBackfront_def
  TypeDistribut_def TypeIssue_def TypeJSContractInit_def TypeLuaContractInit_def
  TypeContractInvoke_def TypeContractQuery_def

text \<open>\<open>p\<close> is the address of the object that is made.\<close>

definition NewTransaction :: "nat \<Rightarrow> ChainCoordinate \<Rightarrow> ChainCoordinate \<Rightarrow> u32 \<Rightarrow> u32 \<Rightarrow> Address \<Rightarrow> Address
    \<Rightarrow> int option \<Rightarrow> int option \<Rightarrow> u32 \<Rightarrow> Transaction" where
  "NewTransaction p fromChain toChain txType nonce sender reciepent amount fee createTime =
     \<lparr>tx_ptr = p,
      tx_Data = \<lparr>td_FromChain = fromChain, td_ToChain = toChain, td_Type = txType, td_Nonce = nonce,
        td_Sender = sender, td_Recipient = reciepent, td_Amount = amount, td_Fee = fee,
        td_Signature = None, td_CreateTime = createTime\<rparr>,
      tx_Payload = [], tx_hash_cache = None, tx_sender_cache = None\<rparr>"

text \<open>What reflection sees of a transaction. The caches hold an interface and write nothing.\<close>

definition txdata_ty :: gty where
  "txdata_ty = TStruct [TBytes, TBytes, TUint 32, TUint 32, TArray 20, TArray 20, TBig, TBig,
     TPtr (TArray 65), TUint 32]"

definition tx_ty :: gty where
  "tx_ty = TStruct [txdata_ty, TBytes, TStruct [TOther], TStruct [TOther]]"

definition txdata_val :: "txdata \<Rightarrow> gval" where
  "txdata_val d = VStruct [VBytes (td_FromChain d), VBytes (td_ToChain d), VUint (ucast (td_Type d)),
     VUint (ucast (td_Nonce d)), VArray (td_Sender d), VArray (td_Recipient d), VBig (td_Amount d),
     VBig (td_Fee d), VPtr (map_option VArray (td_Signature d)), VUint (ucast (td_CreateTime d))]"

definition tx_val :: "Transaction \<Rightarrow> gval" where
  "tx_val tx = VStruct [txdata_val (tx_Data tx), VBytes (tx_Payload tx), VStruct [VOther], VStruct [VOther]]"

text \<open>Reading the fields back out of a decoded value; the decoder yields the kind that the type says.\<close>

definition as_bytes :: "gval \<Rightarrow> bytes" where
  "as_bytes v = (case v of VBytes b \<Rightarrow> b | VArray b \<Rightarrow> b | VString b \<Rightarrow> b | _ \<Rightarrow> [])"

definition as_uint :: "gval \<Rightarrow> u64" where
  "as_uint v = (case v of VUint n \<Rightarrow> n | _ \<Rightarrow> 0)"

definition as_big :: "gval \<Rightarrow> int option" where
  "as_big v = (case v of VBig i \<Rightarrow> i | _ \<Rightarrow> None)"

definition as_ptr :: "gval \<Rightarrow> gval option" where
  "as_ptr v = (case v of VPtr p \<Rightarrow> p | _ \<Rightarrow> None)"

definition as_fields :: "gval \<Rightarrow> gval list" where
  "as_fields v = (case v of VStruct vs \<Rightarrow> vs | VSlice vs \<Rightarrow> vs | _ \<Rightarrow> [])"

definition val_txdata :: "gval \<Rightarrow> txdata" where
  "val_txdata v = (let f = as_fields v in
     \<lparr>td_FromChain = as_bytes (f ! 0), td_ToChain = as_bytes (f ! 1), td_Type = ucast (as_uint (f ! 2)),
      td_Nonce = ucast (as_uint (f ! 3)), td_Sender = as_bytes (f ! 4), td_Recipient = as_bytes (f ! 5),
      td_Amount = as_big (f ! 6), td_Fee = as_big (f ! 7),
      td_Signature = map_option as_bytes (as_ptr (f ! 8)), td_CreateTime = ucast (as_uint (f ! 9))\<rparr>)"

definition val_tx :: "nat \<Rightarrow> gval \<Rightarrow> Transaction" where
  "val_tx p v = (let f = as_fields v in
     \<lparr>tx_ptr = p, tx_Data = val_txdata (f ! 0), tx_Payload = as_bytes (f ! 1),
      tx_hash_cache = None, tx_sender_cache = None\<rparr>)"

definition tx_Serialize :: "Transaction \<Rightarrow> bytes" where
  "tx_Serialize tx = Serialize (tx_val tx)"

text \<open>Into a fresh object at address \<open>p\<close>.\<close>

definition tx_Deserialize :: "nat \<Rightarrow> bytes \<Rightarrow> Transaction \<times> rerr option" where
  "tx_Deserialize p data = (case Deserialize tx_ty data of (v, err) \<Rightarrow> (val_tx p v, err))"

definition tx_Hash :: "crypto_env \<Rightarrow> Transaction \<Rightarrow> Hash \<times> Transaction" where
  "tx_Hash c tx =
     (case tx_hash_cache tx of
        Some h \<Rightarrow> (h, tx)
      | None \<Rightarrow> let v = DoubleSha256 c (tx_Serialize tx) in (v, tx\<lparr>tx_hash_cache := Some v\<rparr>))"

abbreviation tx_hash :: "crypto_env \<Rightarrow> Transaction \<Rightarrow> Hash" where
  "tx_hash c tx \<equiv> fst (tx_Hash c tx)"

definition SignHash :: "crypto_env \<Rightarrow> Transaction \<Rightarrow> Hash" where
  "SignHash c tx =
     (let d = tx_Data tx;
          rawTx = (NewTransaction 0 (td_FromChain d) (td_ToChain d) (td_Type d) (td_Nonce d)
                    (td_Sender d) (td_Recipient d) (td_Amount d) (td_Fee d) (td_CreateTime d))
                  \<lparr>tx_Payload := tx_Payload tx\<rparr>
      in tx_hash c rawTx)"

datatype tx_error = ErrEmptySignature | ErrRecover

text \<open>The cases of the switch that fall through to the check of the signature.\<close>

definition signed_type :: "u32 \<Rightarrow> bool" where
  "signed_type ty \<longleftrightarrow> ty \<in> {TypeAtomic, TypeBackfront, TypeDistribut, TypeAcrossChain,
     TypeJSContractInit, TypeLuaContractInit, TypeContractInvoke, TypeIssue}"

definition Verfiy :: "crypto_env \<Rightarrow> Transaction \<Rightarrow> ((Address \<times> tx_error option) \<times> Transaction) go" where
  "Verfiy c tx =
     (if signed_type (td_Type (tx_Data tx)) then
        (case td_Signature (tx_Data tx) of
           Some sig \<Rightarrow>
             (case tx_sender_cache tx of
                Some sender \<Rightarrow> Ret ((sender, None), tx)
              | None \<Rightarrow>
                  (case sig_RecoverPublicKey c sig (SignHash c tx) of
                     None \<Rightarrow> Ret ((zero_addr, Some ErrRecover), tx)
                   | Some None \<Rightarrow> Panic ''nil pointer dereference''
                   | Some (Some p) \<Rightarrow>
                       go_bind (PublicKeyToAddress c p)
                         (\<lambda>a. Ret ((a, None), tx\<lparr>tx_sender_cache := Some a\<rparr>))))
         | None \<Rightarrow> Ret ((zero_addr, Some ErrEmptySignature), tx))
      else if td_Type (tx_Data tx) = TypeMerged then
        go_bind (ChainCoordinateToAddress c (HexToChainCoordinate (cc_String (td_FromChain (tx_Data tx)))))
          (\<lambda>a. Ret ((a, None), tx))
      else Ret ((zero_addr, None), tx))"

definition tx_FromChain :: "Transaction \<Rightarrow> string" where
  "tx_FromChain tx = cc_String (td_FromChain (tx_Data tx))"

definition tx_ToChain :: "Transaction \<Rightarrow> string" where
  "tx_ToChain tx = cc_String (td_ToChain (tx_Data tx))"

definition IsLocalChain :: "Transaction \<Rightarrow> bool" where
  "IsLocalChain tx \<longleftrightarrow> tx_FromChain tx = tx_ToChain tx"

definition WithSignature :: "Signature option \<Rightarrow> Transaction \<Rightarrow> Transaction" where
  "WithSignature sig tx = tx\<lparr>tx_Data := (tx_Data tx)\<lparr>td_Signature := sig\<rparr>\<rparr>"

definition WithPayload :: "bytes \<Rightarrow> Transaction \<Rightarrow> Transaction" where
  "WithPayload data tx = tx\<lparr>tx_Payload := data\<rparr>"

definition tx_Compare :: "Transaction \<Rightarrow> Transaction \<Rightarrow> int" where
  "tx_Compare tx v = 0"

definition txs_Less :: "Transaction list \<Rightarrow> nat \<Rightarrow> nat \<Rightarrow> bool" where
  "txs_Less s i j \<longleftrightarrow> td_Nonce (tx_Data (s ! i)) < td_Nonce (tx_Data (s ! j))"

definition txs_Swap :: "Transaction list \<Rightarrow> nat \<Rightarrow> nat \<Rightarrow> Transaction list" where
  "txs_Swap s i j = s[i := s ! j, j := s ! i]"

abbreviation tx_Type :: "Transaction \<Rightarrow> u32" where "tx_Type tx \<equiv> td_Type (tx_Data tx)"
abbreviation tx_Nonce :: "Transaction \<Rightarrow> u32" where "tx_Nonce tx \<equiv> td_Nonce (tx_Data tx)"
abbreviation tx_Sender :: "Transaction \<Rightarrow> Address" where "tx_Sender tx \<equiv> td_Sender (tx_Data tx)"
abbreviation tx_Recipient :: "Transaction \<Rightarrow> Address" where "tx_Recipient tx \<equiv> td_Recipient (tx_Data tx)"
abbreviation tx_Amount :: "Transaction \<Rightarrow> int option" where "tx_Amount tx \<equiv> td_Amount (tx_Data tx)"
abbreviation tx_Fee :: "Transaction \<Rightarrow> int option" where "tx_Fee tx \<equiv> td_Fee (tx_Data tx)"

section \<open>Blocks\<close>

record BlockHeader =
  bh_PreviousHash :: Hash
  bh_TimeStamp :: u32
  bh_Nonce :: u32
  bh_TxsMerkleHash :: Hash
  bh_Height :: u32

record Block =
  bk_Header :: BlockHeader
  bk_Transactions :: "Transaction list"
  bk_hash_cache :: "Hash option"

definition NewBlockHeader :: "Hash \<Rightarrow> u32 \<Rightarrow> u32 \<Rightarrow> u32 \<Rightarrow> Hash \<Rightarrow> BlockHeader" where
  "NewBlockHeader prvHash timeStamp height nonce txsHash =
     \<lparr>bh_PreviousHash = prvHash, bh_TimeStamp = timeStamp, bh_Nonce = nonce,
      bh_TxsMerkleHash = txsHash, bh_Height = height\<rparr>"

definition NewBlock :: "Hash \<Rightarrow> u32 \<Rightarrow> u32 \<Rightarrow> u32 \<Rightarrow> Hash \<Rightarrow> Transaction list \<Rightarrow> Block" where
  "NewBlock prvHash timeStamp height nonce txsHash Txs =
     \<lparr>bk_Header = NewBlockHeader prvHash timeStamp height nonce txsHash, bk_Transactions = Txs,
      bk_hash_cache = None\<rparr>"

definition bh_ty :: gty where
  "bh_ty = TStruct [TArray 32, TUint 32, TUint 32, TArray 32, TUint 32]"

definition bh_val :: "BlockHeader \<Rightarrow> gval" where
  "bh_val h = VStruct [VArray (bh_PreviousHash h), VUint (ucast (bh_TimeStamp h)),
     VUint (ucast (bh_Nonce h)), VArray (bh_TxsMerkleHash h), VUint (ucast (bh_Height h))]"

definition val_bh :: "gval \<Rightarrow> BlockHeader" where
  "val_bh v = (let f = as_fields v in
     \<lparr>bh_PreviousHash = as_bytes (f ! 0), bh_TimeStamp = ucast (as_uint (f ! 1)),
      bh_Nonce = ucast (as_uint (f ! 2)), bh_TxsMerkleHash = as_bytes (f ! 3),
      bh_Height = ucast (as_uint (f ! 4))\<rparr>)"

definition bh_Serialize :: "BlockHeader \<Rightarrow> bytes" where
  "bh_Serialize h = Serialize (bh_val h)"

text \<open>The error of the decoder is dropped.\<close>

definition bh_Deserialize :: "bytes \<Rightarrow> BlockHeader" where
  "bh_Deserialize data = val_bh (fst (Deserialize bh_ty data))"

definition bh_Hash :: "crypto_env \<Rightarrow> BlockHeader \<Rightarrow> Hash" where
  "bh_Hash c h = DoubleSha256 c (bh_Serialize h)"

definition bk_Hash :: "crypto_env \<Rightarrow> Block \<Rightarrow> Hash \<times> Block" where
  "bk_Hash c b =
     (case bk_hash_cache b of
        Some h \<Rightarrow> (h, b)
      | None \<Rightarrow> let v = bh_Hash c (bk_Header b) in (v, b\<lparr>bk_hash_cache := Some v\<rparr>))"

definition bk_val :: "Block \<Rightarrow> gval" where
  "bk_val b = VStruct [VPtr (Some (bh_val (bk_Header b))),
     VSlice (map (\<lambda>tx. VPtr (Some (tx_val tx))) (bk_Transactions b)), VStruct [VOther]]"

definition bk_ty :: gty where
  "bk_ty = TStruct [TPtr bh_ty, TSlice (TPtr tx_ty), TStruct [TOther]]"

definition bk_Serialize :: "Block \<Rightarrow> bytes" where
  "bk_Serialize b = Serialize (bk_val b)"

text \<open>The objects of the transactions get the addresses from \<open>p\<close> on.\<close>

definition val_bk :: "nat \<Rightarrow> gval \<Rightarrow> Block" where
  "val_bk p v = (let f = as_fields v in
     \<lparr>bk_Header = (case as_ptr (f ! 0) of Some h \<Rightarrow> val_bh h | None \<Rightarrow> val_bh (zero bh_ty)),
      bk_Transactions = map2 (\<lambda>i t. val_tx (p + i) (case as_ptr t of Some u \<Rightarrow> u | None \<Rightarrow> zero tx_ty))
        [0 ..< length (as_fields (f ! 1))] (as_fields (f ! 1)),
      bk_hash_cache = None\<rparr>)"

definition bk_Deserialize :: "nat \<Rightarrow> bytes \<Rightarrow> Block \<times> rerr option" where
  "bk_Deserialize p data = (case Deserialize bk_ty data of (v, err) \<Rightarrow> (val_bk p v, err))"

definition GetTransactions :: "Block \<Rightarrow> u32 \<Rightarrow> Transaction list option" where
  "GetTransactions b transactionType =
     (if transactionType < 0 \<or> transactionType > 5 then None
      else Some (filter (\<lambda>tx. tx_Type tx = transactionType) (bk_Transactions b)))"

definition SerializeTxs :: "Transaction list \<Rightarrow> bytes" where
  "SerializeTxs txs =
     VarInt (len64 txs) @ concat (map (\<lambda>tx. VarInt (len64 (tx_Serialize tx)) @ tx_Serialize tx) txs)"

text \<open>The objects made by the loop get the addresses \<open>p\<close>, \<open>p + 1\<close>, ...\<close>

fun read_txs :: "nat \<Rightarrow> nat \<Rightarrow> bytes \<Rightarrow> Transaction list" where
  "read_txs p 0 r = []"
| "read_txs p (Suc n) r =
     (case ReadVarInt r of (txLen, _, r1) \<Rightarrow>
      case read_full (unat txLen) r1 of (buf, _, _, r2) \<Rightarrow>
        fst (tx_Deserialize p buf) # read_txs (Suc p) n r2)"

definition DeserializeTxs :: "nat \<Rightarrow> bytes \<Rightarrow> Transaction list" where
  "DeserializeTxs p r = (case ReadVarInt r of (txsNum, _, r1) \<Rightarrow> read_txs p (unat txsNum) r1)"

section \<open>Well-formed transactions and blocks\<close>

definition amount_fits :: "int option \<Rightarrow> bool" where
  "amount_fits i = (case i of None \<Rightarrow> True | Some n \<Rightarrow> length (be_bytes (nat \<bar>n\<bar>)) < 2 ^ 64)"

definition txdata_wf :: "txdata \<Rightarrow> bool" where
  "txdata_wf d \<longleftrightarrow> length (td_FromChain d) < 2 ^ 64 \<and> length (td_ToChain d) < 2 ^ 64 \<and>
     length (td_Sender d) = AddressLength \<and> length (td_Recipient d) = AddressLength \<and>
     amount_fits (td_Amount d) \<and> amount_fits (td_Fee d) \<and>
     (case td_Signature d of None \<Rightarrow> True | Some s \<Rightarrow> length s = SignatureSize)"

definition tx_wf :: "Transaction \<Rightarrow> bool" where
  "tx_wf tx \<longleftrightarrow> txdata_wf (tx_Data tx) \<and> length (tx_Payload tx) < 2 ^ 64"

definition bh_wf :: "BlockHeader \<Rightarrow> bool" where
  "bh_wf h \<longleftrightarrow> length (bh_PreviousHash h) = HashSize \<and> length (bh_TxsMerkleHash h) = HashSize"

definition bk_wf :: "Block \<Rightarrow> bool" where
  "bk_wf b \<longleftrightarrow> bh_wf (bk_Header b) \<and> length (bk_Transactions b) < 2 ^ 64 \<and> list_all tx_wf (bk_Transactions b)"

text \<open>What a transaction is after the wire: a new object at \<open>p\<close>, without caches, with the absolute values
  of its amounts.\<close>

definition big_norm :: "int option \<Rightarrow> int option" where
  "big_norm i = (case i of None \<Rightarrow> Some 0 | Some n \<Rightarrow> Some \<bar>n\<bar>)"

definition tx_norm :: "nat \<Rightarrow> Transaction \<Rightarrow> Transaction" where
  "tx_norm p tx = tx\<lparr>tx_ptr := p, tx_hash_cache := None, tx_sender_cache := None,
     tx_Data := (tx_Data tx)\<lparr>td_Amount := big_norm (tx_Amount tx), td_Fee := big_norm (tx_Fee tx)\<rparr>\<rparr>"

section \<open>Laws of coordinates and addresses\<close>

lemma HexToChainCoordinate_String [simp]: "HexToChainCoordinate (cc_String cc) = cc"
  by (simp add: HexToChainCoordinate_def cc_String_def NewChainCoordinate_def)

lemma cc_String_inj [simp]: "cc_String a = cc_String b \<longleftrightarrow> a = b"
  by (simp add: cc_String_def)

lemma length_zero_addr [simp]: "length zero_addr = 20"
  by (simp add: zero_addr_def)

lemma length_addr_SetBytes [simp]: "length a = 20 \<Longrightarrow> length (addr_SetBytes a b) = 20"
  by (simp add: addr_SetBytes_def Let_def)

lemma addr_SetBytes_id: "length a = 20 \<Longrightarrow> length b = 20 \<Longrightarrow> addr_SetBytes a b = b"
  by (simp add: addr_SetBytes_def)

lemma HexToAddress_String:
  assumes "length a = 20"
  shows "HexToAddress (addr_String a) = a"
  using assms by (simp add: HexToAddress_def addr_String_def addr_SetBytes_id)

lemma addr_String_inj [simp]: "addr_String a = addr_String b \<longleftrightarrow> a = b"
  by (simp add: addr_String_def)

lemma addr_Equal_iff: "length a = 20 \<Longrightarrow> length b = 20 \<Longrightarrow> addr_Equal a b \<longleftrightarrow> a = b"
  by (auto simp: addr_Equal_def intro: nth_equalityI)

lemma IsLocalChain_iff: "IsLocalChain tx \<longleftrightarrow> td_FromChain (tx_Data tx) = td_ToChain (tx_Data tx)"
  by (simp add: IsLocalChain_def tx_FromChain_def tx_ToChain_def)

lemma length_ChainCoordinateToAddress:
  "ChainCoordinateToAddress c cc = Ret a \<Longrightarrow> length a = 20"
  by (auto simp: ChainCoordinateToAddress_def split: if_splits)

text \<open>The address of a chain ends in the digest of its coordinate and starts with its last byte.\<close>

lemma ChainCoordinateToAddress_eq:
  "digest_ok c \<Longrightarrow> cc \<noteq> [] \<Longrightarrow>
     ChainCoordinateToAddress c cc = Ret (last cc # drop 13 (sum256 c cc))"
  by (simp add: ChainCoordinateToAddress_def addr_SetBytes_id digest_ok_def Keccak256_def)

interpretation tx_order: comparison tx_Compare
  by unfold_locales (simp_all add: tx_Compare_def)

section \<open>Laws of the encodings\<close>

lemma take_bit_ucast_u32 [simp]: "take_bit 32 (ucast (n :: u32) :: u64) = ucast n"
  by (rule bit_word_eqI) (auto simp: bit_take_bit_iff bit_unsigned_iff dest: bit_imp_le_length)

lemma ucast_ucast_u32 [simp]: "(ucast (ucast (n :: u32) :: u64) :: u32) = n"
  by (rule bit_word_eqI) (auto simp: bit_unsigned_iff dest: bit_imp_le_length)

lemma good_big: "amount_fits i \<Longrightarrow> good (VBig i) TBig"
  by (cases i) (simp_all add: amount_fits_def)

lemma good_sig: "(case s of None \<Rightarrow> True | Some s \<Rightarrow> length s = 65) \<Longrightarrow>
    good (VPtr (map_option VArray s)) (TPtr (TArray 65))"
  by (cases s) auto

lemma good_tx: "tx_wf tx \<Longrightarrow> good (tx_val tx) tx_ty"
  by (auto simp: tx_wf_def txdata_wf_def tx_val_def tx_ty_def txdata_val_def txdata_ty_def
      good_big good_sig simp del: good.simps(2-5) intro!: good_big good_sig)

lemma good_bh: "bh_wf h \<Longrightarrow> good (bh_val h) bh_ty"
  by (auto simp: bh_wf_def bh_val_def bh_ty_def)

lemma norm_big: "norm (VBig i) = VBig (big_norm i)"
  by (cases i) (simp_all add: big_norm_def)

lemma norm_sig: "norm (VPtr (map_option VArray s)) = VPtr (map_option VArray s)"
  by (cases s) simp_all

lemma val_tx_val: "val_tx p (norm (tx_val tx)) = tx_norm p tx"
  by (simp add: tx_val_def txdata_val_def val_tx_def val_txdata_def as_fields_def as_bytes_def as_uint_def
      as_big_def as_ptr_def norm_big norm_sig tx_norm_def option.map_comp comp_def option.map_ident
      del: norm.simps(2-5))

lemma norm_bh: "norm (bh_val h) = bh_val h"
  by (simp add: bh_val_def)

lemma val_bh_val [simp]: "val_bh (bh_val h) = h"
  by (simp add: val_bh_def bh_val_def as_fields_def as_bytes_def as_uint_def)

lemma not_nil [simp]: "tx_val tx \<noteq> VPtr p" "bh_val h \<noteq> VPtr p" "bk_val b \<noteq> VPtr p"
  by (simp_all add: tx_val_def bh_val_def bk_val_def)

lemma tx_Deserialize_Serialize:
  assumes "tx_wf tx"
  shows "tx_Deserialize p (tx_Serialize tx @ r) = (tx_norm p tx, None)"
  using dec_recursiveEncode [OF good_tx [OF assms], of r]
  by (simp add: tx_Deserialize_def Deserialize_def tx_Serialize_def Serialize_def val_tx_val)

lemma good_bk: "bk_wf b \<Longrightarrow> good (bk_val b) bk_ty"
  by (auto simp: bk_wf_def bk_val_def bk_ty_def list_all_iff good_bh intro: good_tx)

lemma val_bk_val:
  "val_bk p (norm (bk_val b)) =
     b\<lparr>bk_Transactions := map2 (\<lambda>i tx. tx_norm (p + i) tx) [0 ..< length (bk_Transactions b)] (bk_Transactions b),
       bk_hash_cache := None\<rparr>"
  by (simp add: val_bk_def bk_val_def as_fields_def as_ptr_def norm_bh zip_map2 comp_def val_tx_val
      case_prod_unfold)

lemma read_txs_items:
  "list_all tx_wf txs \<Longrightarrow> list_all (\<lambda>tx. length (tx_Serialize tx) < 2 ^ 64) txs \<Longrightarrow>
   read_txs p (length txs) (concat (map (\<lambda>tx. VarInt (len64 (tx_Serialize tx)) @ tx_Serialize tx) txs) @ r) =
     map2 (\<lambda>i tx. tx_norm i tx) [p ..< p + length txs] txs"
proof (induction txs arbitrary: p)
  case (Cons tx txs)
  have "tx_Deserialize p (tx_Serialize tx) = (tx_norm p tx, None)"
    using tx_Deserialize_Serialize [of tx p "[]"] Cons.prems by simp
  moreover have "[p ..< p + length (tx # txs)] = p # [Suc p ..< Suc p + length txs]"
    by (simp add: upt_conv_Cons del: upt_Suc)
  ultimately show ?case
    using Cons by (simp add: len64_simps del: upt_Suc)
qed simp

section \<open>Laws of the caches\<close>

text \<open>The caches agree with the contents.\<close>

definition tx_cache_ok :: "crypto_env \<Rightarrow> Transaction \<Rightarrow> bool" where
  "tx_cache_ok c tx \<longleftrightarrow>
     (\<forall>h. tx_hash_cache tx = Some h \<longrightarrow> h = DoubleSha256 c (tx_Serialize tx)) \<and>
     (\<forall>a. tx_sender_cache tx = Some a \<longrightarrow>
        (\<exists>sig p. td_Signature (tx_Data tx) = Some sig \<and>
           sig_RecoverPublicKey c sig (SignHash c tx) = Some (Some p) \<and> PublicKeyToAddress c p = Ret a))"

lemma tx_val_caches [simp]: "tx_val (tx_hash_cache_update f tx) = tx_val tx"
  "tx_val (tx_sender_cache_update g tx) = tx_val tx" "tx_val (tx_ptr_update h tx) = tx_val tx"
  by (simp_all add: tx_val_def)

lemma SignHash_caches [simp]: "SignHash c (tx_hash_cache_update f tx) = SignHash c tx"
  "SignHash c (tx_sender_cache_update g tx) = SignHash c tx"
  by (simp_all add: SignHash_def Let_def)

lemma tx_hash_eq: "tx_cache_ok c tx \<Longrightarrow> tx_hash c tx = DoubleSha256 c (tx_Serialize tx)"
  by (auto simp: tx_cache_ok_def tx_Hash_def Let_def split: option.split)

lemma tx_cache_ok_Hash [intro]: "tx_cache_ok c tx \<Longrightarrow> tx_cache_ok c (snd (tx_Hash c tx))"
  by (auto simp: tx_cache_ok_def tx_Hash_def Let_def tx_Serialize_def split: option.split)

lemma SignHash_WithSignature [simp]: "SignHash c (WithSignature sig tx) = SignHash c tx"
  by (simp add: SignHash_def WithSignature_def Let_def)

section \<open>Properties of transactions and blocks\<close>

text \<open>A transaction that is serialised, sent and deserialised is the same transaction in a new object:
  only the caches are dropped and the amounts lose their sign; whatever follows it on the
  wire is not touched. So its hash is preserved if its amounts are set and not negative.\<close>

theorem tx_roundtrip:
  assumes "tx_wf tx"
  shows "tx_Deserialize p (tx_Serialize tx @ r) = (tx_norm p tx, None) \<and>
    (tx_cache_ok c tx \<and> big_norm (tx_Amount tx) = tx_Amount tx \<and> big_norm (tx_Fee tx) = tx_Fee tx \<longrightarrow>
       tx_hash c (tx_norm p tx) = tx_hash c tx)"
proof -
  have "tx_Serialize (tx_norm p tx) = tx_Serialize tx"
    if "big_norm (tx_Amount tx) = tx_Amount tx" "big_norm (tx_Fee tx) = tx_Fee tx"
    using that by (simp add: tx_norm_def tx_Serialize_def tx_val_def txdata_val_def)
  moreover have "tx_hash c (tx_norm p tx) = DoubleSha256 c (tx_Serialize (tx_norm p tx))"
    by (simp add: tx_Hash_def tx_norm_def Let_def)
  ultimately show ?thesis
    using tx_Deserialize_Serialize [OF assms] by (auto simp: tx_hash_eq)
qed

theorem tx_roundtrip_witness:
  "tx_Deserialize 9 (tx_Serialize (NewTransaction 1 [0] [0] TypeAtomic 7 zero_addr zero_addr (Some 5) (Some (- 1)) 3)) =
     (NewTransaction 9 [0] [0] TypeAtomic 7 zero_addr zero_addr (Some 5) (Some 1) 3, None)"
proof -
  let ?tx = "NewTransaction 1 [0] [0] TypeAtomic 7 zero_addr zero_addr (Some 5) (Some (- 1)) 3"
  have "tx_wf ?tx"
    by (simp add: tx_wf_def txdata_wf_def NewTransaction_def amount_fits_def be_bytes.simps)
  from tx_roundtrip [OF this, of 9 "[]"] show ?thesis
    by (simp add: tx_norm_def NewTransaction_def big_norm_def)
qed



text \<open>The hash that is signed does not depend on the signature or on a cache, \<^verbatim>\<open>Hash\<close> and \<^verbatim>\<open>Verfiy\<close> keep the
  caches right, and with right caches they answer as a computation from scratch would.\<close>

theorem tx_caches:
  assumes "tx_cache_ok c tx"
  shows "tx_cache_ok c (snd (tx_Hash c tx)) \<and> tx_hash c tx = DoubleSha256 c (tx_Serialize tx) \<and>
    SignHash c (WithSignature sig tx) = SignHash c tx \<and>
    (Verfiy c tx = Ret (res, tx') \<longrightarrow> tx_cache_ok c tx' \<and>
       (\<exists>tx''. Verfiy c (tx\<lparr>tx_sender_cache := None\<rparr>) = Ret (res, tx'')))"
proof -
  have "tx_cache_ok c tx' \<and> (\<exists>tx''. Verfiy c (tx\<lparr>tx_sender_cache := None\<rparr>) = Ret (res, tx''))"
    if "Verfiy c tx = Ret (res, tx')"
    using that assms
    by (auto simp: Verfiy_def tx_cache_ok_def tx_Serialize_def split: if_splits option.splits)
  with assms show ?thesis by (simp add: tx_hash_eq tx_cache_ok_Hash)
qed

theorem tx_caches_witness:
  "\<exists>a. Verfiy \<lparr>sum256 = \<lambda>b. replicate 32 7, RecoverPubkey = \<lambda>h s. Some (4 # replicate 64 1), curve_N = 5\<rparr>
     (WithSignature (Some (replicate 65 0)) (NewTransaction 1 [0] [0] TypeAtomic 7 zero_addr zero_addr (Some 5) (Some 1) 3)) =
     Ret ((a, None), (WithSignature (Some (replicate 65 0))
       (NewTransaction 1 [0] [0] TypeAtomic 7 zero_addr zero_addr (Some 5) (Some 1) 3))\<lparr>tx_sender_cache := Some a\<rparr>) \<and>
     tx_cache_ok \<lparr>sum256 = \<lambda>b. replicate 32 7, RecoverPubkey = \<lambda>h s. Some (4 # replicate 64 1), curve_N = 5\<rparr>
       ((WithSignature (Some (replicate 65 0))
       (NewTransaction 1 [0] [0] TypeAtomic 7 zero_addr zero_addr (Some 5) (Some 1) 3))\<lparr>tx_sender_cache := Some a\<rparr>)"
proof -
  let ?c = "\<lparr>sum256 = \<lambda>b. replicate 32 7, RecoverPubkey = \<lambda>h s. Some (4 # replicate 64 1), curve_N = 5\<rparr>"
  let ?tx = "WithSignature (Some (replicate 65 0)) (NewTransaction 1 [0] [0] TypeAtomic 7 zero_addr zero_addr (Some 5) (Some 1) 3)"
  have k: "tx_cache_ok ?c ?tx"
    by (simp add: tx_cache_ok_def WithSignature_def NewTransaction_def)
  have "\<exists>a. Verfiy ?c ?tx = Ret ((a, None), ?tx\<lparr>tx_sender_cache := Some a\<rparr>)"
    by (simp add: Verfiy_def WithSignature_def NewTransaction_def signed_type_def sig_RecoverPublicKey_def
        sig_Ecrecover_def Ecrecover_def PublicKeyToAddress_def pub_Bytes_def Let_def)
  then obtain a where "Verfiy ?c ?tx = Ret ((a, None), ?tx\<lparr>tx_sender_cache := Some a\<rparr>)" by blast
  with tx_caches [OF k] show ?thesis by blast
qed

end
