(* ===== verification/Tx_Pool.thy ===== *)
theory Tx_Pool
  imports Types
begin

text \<open>
  The transaction list of \<^verbatim>\<open>core/blockchain/txpool.go\<close>: the linked list again, with the text of the
  transaction hash as key. Look-ups take the key itself.
\<close>

definition tp_key :: "crypto_env \<Rightarrow> Transaction \<Rightarrow> string" where
  "tp_key c tx = hash_String (tx_hash c tx)"

definition tp_New :: "Transaction LinkedList" where
  "tp_New = NewLinkedList"

definition tp_Clear :: "Transaction LinkedList \<Rightarrow> Transaction LinkedList" where
  "tp_Clear lst = ll_Clear lst"

definition tp_Len :: "Transaction LinkedList \<Rightarrow> nat" where
  "tp_Len lst = ll_Len lst"

definition tp_Has :: "Transaction LinkedList \<Rightarrow> string \<Rightarrow> Transaction option" where
  "tp_Has lst key = map_option evalue (gm_get (ll_mapping lst) key)"

definition tp_Contains :: "Transaction LinkedList \<Rightarrow> string \<Rightarrow> bool" where
  "tp_Contains lst key = gm_has (ll_mapping lst) key"

definition tp_Add :: "crypto_env \<Rightarrow> Transaction \<Rightarrow> Transaction LinkedList \<Rightarrow> Transaction LinkedList" where
  "tp_Add c = ll_Add (tp_key c)"

definition tp_Remove :: "crypto_env \<Rightarrow> Transaction \<Rightarrow> Transaction LinkedList \<Rightarrow> Transaction LinkedList" where
  "tp_Remove c = ll_Remove (tp_key c)"

definition tp_Removes :: "crypto_env \<Rightarrow> Transaction list \<Rightarrow> Transaction LinkedList \<Rightarrow> Transaction LinkedList" where
  "tp_Removes c = ll_Removes (tp_key c)"

definition tp_RemoveBefore :: "crypto_env \<Rightarrow> Transaction \<Rightarrow> Transaction LinkedList
    \<Rightarrow> (Transaction list \<times> Transaction LinkedList) go" where
  "tp_RemoveBefore c = ll_RemoveBefore (tp_key c)"

definition tp_RemoveAll :: "crypto_env \<Rightarrow> Transaction LinkedList \<Rightarrow> (Transaction list \<times> Transaction LinkedList) go" where
  "tp_RemoveAll c = ll_RemoveAll (tp_key c)"

definition tp_Get :: "int \<Rightarrow> Transaction LinkedList \<Rightarrow> Transaction list" where
  "tp_Get = ll_Get"

definition tp_IterElement :: "(Transaction \<Rightarrow> 's \<Rightarrow> bool \<times> 's) \<Rightarrow> Transaction LinkedList \<Rightarrow> 's \<Rightarrow> 's" where
  "tp_IterElement f lst s = snd (ll_iter_loop f (gl_vals (ll_list lst)) s)"

definition tp_Iter :: "Transaction LinkedList \<Rightarrow> Transaction element option" where
  "tp_Iter = ll_Iter"

interpretation tp: fifo_pool "ll_inv (tp_key c)" ll_vals "tp_key c" tp_New "tp_Add c" "tp_Remove c" tp_Has
  for c
  unfolding tp_New_def tp_Add_def tp_Remove_def tp_Has_def [abs_def] ll_find_def [abs_def, symmetric]
  by (rule ll.fifo_pool_axioms)

lemma tp_key_eq [simp]: "tp_key c x = tp_key c y \<longleftrightarrow> tx_hash c x = tx_hash c y"
  by (simp add: tp_key_def)

lemma tp_key_mem: "tp_key c x \<in> tp_key c ` A \<longleftrightarrow> tx_hash c x \<in> tx_hash c ` A"
  by (auto simp: image_iff)

lemma first_by_tp_key: "first_by_key (tp_key c) xs = first_by_key (tx_hash c) xs"
  by (induction xs) simp_all

text \<open>C37: the pool holds at most one transaction of a hash, the one that came first; removing a committed
  batch leaves exactly the transactions whose hash is not in the batch, in order of arrival,
  and \<^verbatim>\<open>Contains\<close> tells which hashes are left.\<close>

theorem txpool_correct:
  "let lst = tp_Removes c ys (fold (tp_Add c) xs tp_New) in
     ll_vals lst = filter (\<lambda>tx. tx_hash c tx \<notin> tx_hash c ` set ys) (first_by_key (tx_hash c) xs) \<and>
     distinct (map (tx_hash c) (ll_vals lst)) \<and>
     (tp_Contains lst (hash_String h) \<longleftrightarrow> h \<in> tx_hash c ` set xs - tx_hash c ` set ys)"
proof -
  let ?lst = "tp_Removes c ys (fold (tp_Add c) xs tp_New)"
  have 1: "ll_inv (tp_key c) (fold (tp_Add c) xs tp_New)"
    by (intro tp.inv_fold_add tp.inv_new)
  have eq: "?lst = fold (tp_Remove c) ys (fold (tp_Add c) xs tp_New)"
    by (simp add: tp_Removes_def tp_Remove_def ll_Removes_fold)
  have inv: "ll_inv (tp_key c) ?lst"
    unfolding eq by (rule tp.inv_fold_remove [OF 1])
  have v: "ll_vals ?lst = filter (\<lambda>tx. tx_hash c tx \<notin> tx_hash c ` set ys) (first_by_key (tx_hash c) xs)"
    unfolding eq tp.vals_fold_remove [OF 1] tp.vals_fill tp_key_mem first_by_tp_key ..
  have "distinct (map (tx_hash c) (ll_vals ?lst))"
    using ll_distinct_keys [OF inv] by (auto simp: distinct_map inj_on_def)
  moreover have "tp_Contains ?lst (hash_String h) \<longleftrightarrow> h \<in> tx_hash c ` set (ll_vals ?lst)"
    unfolding tp_Contains_def ll_has_iff [OF inv] by (auto simp: tp_key_def)
  moreover have "tx_hash c ` set (ll_vals ?lst) = tx_hash c ` set xs - tx_hash c ` set ys"
  proof -
    have "tx_hash c ` set (ll_vals ?lst) = tx_hash c ` set (first_by_key (tx_hash c) xs) - tx_hash c ` set ys"
      unfolding v by auto
    then show ?thesis by (simp only: keys_first_by_key)
  qed
  ultimately show ?thesis using v by (simp add: Let_def)
qed

end
