(* ===== verification/Vote.thy ===== *)
theory Vote
  imports Encoding_Laws
begin

text \<open>
  The vote counter of \<^verbatim>\<open>components/utils/vote/vote.go\<close>: one ticket for each voter, the tickets by their key and
  the number of voters for each key. As in the linked list, \<open>key\<close> is the hex text of a hash of the
  serialised ticket, and every method is one step under the lock. Loops over a map take the
  order of the walk as an argument.
\<close>

section \<open>State and operations\<close>

record 't Vote =
  v_tickets :: "(string, 't) gomap"
  v_hashes :: "(string, 't) gomap"
  v_statistics :: "(string, nat) gomap"

definition vote_key :: "(bytes \<Rightarrow> bytes) \<Rightarrow> ('t \<Rightarrow> bytes) \<Rightarrow> 't \<Rightarrow> string" where
  "vote_key sha256 serialize ticket = BytesToHex (sha256 (serialize ticket))"

definition vote_Clear :: "'t Vote \<Rightarrow> 't Vote" where
  "vote_Clear v = v\<lparr>v_tickets := gm_empty, v_hashes := gm_empty, v_statistics := gm_empty\<rparr>"

definition NewVote :: "'t Vote" where
  "NewVote = vote_Clear \<lparr>v_tickets = gm_empty, v_hashes = gm_empty, v_statistics = gm_empty\<rparr>"

definition vote_Size :: "'t Vote \<Rightarrow> nat" where
  "vote_Size v = gm_len (v_tickets v)"

text \<open>A missing entry of \<^verbatim>\<open>map[string]int\<close> reads as 0.\<close>

definition stat :: "'t Vote \<Rightarrow> string \<Rightarrow> nat" where
  "stat v h = (case gm_get (v_statistics v) h of None \<Rightarrow> 0 | Some n \<Rightarrow> n)"

definition vote_Add :: "('t \<Rightarrow> string) \<Rightarrow> string \<Rightarrow> 't \<Rightarrow> 't Vote \<Rightarrow> 't Vote" where
  "vote_Add key voter ticket v =
     (if gm_has (v_tickets v) voter then v
      else
        let hash = key ticket
        in v\<lparr>v_tickets := gm_set voter ticket (v_tickets v), v_hashes := gm_set hash ticket (v_hashes v),
             v_statistics := gm_set hash (stat v hash + 1) (v_statistics v)\<rparr>)"

fun voter_loop :: "nat \<Rightarrow> string \<Rightarrow> (string \<times> nat) list \<Rightarrow> nat \<times> string" where
  "voter_loop mx hash [] = (mx, hash)"
| "voter_loop mx hash ((h, n) # es) = (if mx < n then voter_loop n h es else voter_loop mx hash es)"

definition vote_Voter :: "(string \<times> nat) list \<Rightarrow> 't Vote \<Rightarrow> nat \<times> 't option" where
  "vote_Voter es v =
     (if gm_len (v_statistics v) = 0 then (0, None)
      else (case voter_loop 0 [] es of (mx, hash) \<Rightarrow> (mx, gm_get (v_hashes v) hash)))"

definition vote_VoterByVoter :: "('t \<Rightarrow> string) \<Rightarrow> 't Vote \<Rightarrow> string \<Rightarrow> nat \<times> 't option" where
  "vote_VoterByVoter key v voter =
     (case gm_get (v_tickets v) voter of
        None \<Rightarrow> (0, None)
      | Some ticket \<Rightarrow> (stat v (key ticket), Some ticket))"

definition vote_VoterByTicket :: "('t \<Rightarrow> string) \<Rightarrow> 't Vote \<Rightarrow> 't \<Rightarrow> nat" where
  "vote_VoterByTicket key v ticket = stat v (key ticket)"

definition vote_IterVoter :: "(string \<Rightarrow> 't \<Rightarrow> 's \<Rightarrow> 's) \<Rightarrow> (string \<times> 't) list \<Rightarrow> 's \<Rightarrow> 's" where
  "vote_IterVoter f es s = fold (\<lambda>(voter, ticket). f voter ticket) es s"

definition vote_IterTicket :: "('t option \<Rightarrow> nat \<Rightarrow> 's \<Rightarrow> 's) \<Rightarrow> (string \<times> nat) list \<Rightarrow> 't Vote \<Rightarrow> 's \<Rightarrow> 's" where
  "vote_IterTicket f es v s = fold (\<lambda>(hash, num). f (gm_get (v_hashes v) hash) num) es s"

section \<open>Invariant\<close>

text \<open>The voters who gave a ticket of key \<open>h\<close>.\<close>

definition voters :: "('t \<Rightarrow> string) \<Rightarrow> 't Vote \<Rightarrow> string \<Rightarrow> string set" where
  "voters key v h = {w. \<exists>t. gm_get (v_tickets v) w = Some t \<and> key t = h}"

definition vote_inv :: "('t \<Rightarrow> string) \<Rightarrow> 't Vote \<Rightarrow> bool" where
  "vote_inv key v \<longleftrightarrow> gm_wf (v_tickets v) \<and> gm_wf (v_statistics v) \<and>
     (\<forall>h. gm_has (v_statistics v) h \<longleftrightarrow> voters key v h \<noteq> {}) \<and>
     (\<forall>h. stat v h = card (voters key v h)) \<and>
     (\<forall>h. gm_has (v_statistics v) h \<longrightarrow> (\<exists>t. gm_get (v_hashes v) h = Some t \<and> key t = h))"

lemma finite_voters [simp]: "finite (voters key v h)"
proof -
  have "voters key v h \<subseteq> dom (gm_get (v_tickets v))" by (auto simp: voters_def)
  then show ?thesis by (rule finite_subset) (simp add: finite_dom_map_of)
qed

lemma vote_inv_New [simp, intro, inv_intros]: "vote_inv key NewVote"
  by (simp add: vote_inv_def NewVote_def vote_Clear_def voters_def stat_def)

lemma vote_inv_Clear [simp, intro, inv_intros]: "vote_inv key (vote_Clear v)"
  by (simp add: vote_inv_def vote_Clear_def voters_def stat_def)

lemma voters_Add:
  "\<not> gm_has (v_tickets v) w \<Longrightarrow>
     voters key (vote_Add key w t v) h = (if h = key t then insert w (voters key v h) else voters key v h)"
  by (auto simp: voters_def vote_Add_def Let_def gm_get_set gm_has_def split: if_splits)

lemma stat_Add:
  "\<not> gm_has (v_tickets v) w \<Longrightarrow> stat (vote_Add key w t v) h = (if h = key t then Suc (stat v h) else stat v h)"
  by (simp add: stat_def vote_Add_def Let_def gm_get_set)

lemma vote_inv_Add [intro, inv_intros]:
  assumes "vote_inv key v"
  shows "vote_inv key (vote_Add key w t v)"
proof (cases "gm_has (v_tickets v) w")
  case False
  then have w: "w \<notin> voters key v h" for h by (auto simp: voters_def gm_has_def)
  let ?v = "vote_Add key w t v"
  have s: "v_statistics ?v = gm_set (key t) (stat v (key t) + 1) (v_statistics v)"
    "v_hashes ?v = gm_set (key t) t (v_hashes v)" "v_tickets ?v = gm_set w t (v_tickets v)"
    using False by (simp_all add: vote_Add_def Let_def)
  show ?thesis
    using assms w unfolding vote_inv_def s voters_Add [OF False] stat_Add [OF False]
    by (auto simp: gm_get_set)
qed (simp add: assms vote_Add_def)

text \<open>Each voter counts once, for one key.\<close>

lemma voters_disjoint: "h \<noteq> k \<Longrightarrow> voters key v h \<inter> voters key v k = {}"
  by (auto simp: voters_def)

lemma voters_bound:
  assumes "vote_inv key v" and "h \<noteq> k"
  shows "stat v h + stat v k \<le> vote_Size v"
proof -
  have "voters key v h \<union> voters key v k \<subseteq> dom (gm_get (v_tickets v))"
    by (auto simp: voters_def)
  then have "card (voters key v h \<union> voters key v k) \<le> vote_Size v"
    using assms(1) by (simp add: vote_inv_def vote_Size_def gm_len_dom card_mono finite_dom_map_of)
  with assms voters_disjoint [OF assms(2), of key v] show ?thesis
    by (simp add: vote_inv_def card_Un_disjoint)
qed

lemma voter_loop_spec:
  "voter_loop m0 h0 es = (mx, hash) \<Longrightarrow>
     m0 \<le> mx \<and> (\<forall>e \<in> set es. snd e \<le> mx) \<and> ((hash, mx) = (h0, m0) \<or> (hash, mx) \<in> set es)"
  by (induction m0 h0 es rule: voter_loop.induct) (auto split: if_splits)

lemma voter_loop_max:
  assumes "voter_loop 0 [] es = (mx, hash)" and "es \<noteq> []" and "\<forall>e \<in> set es. 0 < snd e"
  shows "(hash, mx) \<in> set es \<and> (\<forall>e \<in> set es. snd e \<le> mx)"
  using voter_loop_spec [OF assms(1)] assms(2,3) by (cases es) auto

lemma vote_tickets_fold:
  "gm_get (v_tickets (fold (\<lambda>(w, t). vote_Add key w t) bs v)) w =
     (case gm_get (v_tickets v) w of Some t \<Rightarrow> Some t | None \<Rightarrow> map_of bs w)"
proof (induction bs arbitrary: v)
  case (Cons b bs)
  obtain w' t' where b: "b = (w', t')" by (cases b)
  have "gm_get (v_tickets (vote_Add key w' t' v)) w =
      (case gm_get (v_tickets v) w of Some t \<Rightarrow> Some t | None \<Rightarrow> if w = w' then Some t' else None)"
    by (auto simp: vote_Add_def Let_def gm_get_set gm_has_def split: option.split)
  with Cons.IH [of "vote_Add key w' t' v"] show ?case
    by (simp add: b split: option.split if_split)
qed (simp split: option.split)

lemma vote_inv_fold: "vote_inv key v \<Longrightarrow> vote_inv key (fold (\<lambda>(w, t). vote_Add key w t) bs v)"
  by (induction bs arbitrary: v) (auto intro: vote_inv_Add)

section \<open>Properties of the vote counter\<close>

text \<open>After any sequence of votes the counter of a ticket is the number of voters whose first ticket it was
  (a second ticket of a voter is ignored), and two different tickets never have more votes together
  than there are voters.\<close>

theorem vote_counts:
  "let v = fold (\<lambda>(w, t). vote_Add key w t) bs NewVote in
     vote_inv key v \<and>
     vote_VoterByTicket key v t = card {w. \<exists>t'. map_of bs w = Some t' \<and> key t' = key t} \<and>
     vote_VoterByVoter key v w = (case map_of bs w of None \<Rightarrow> (0, None)
        | Some t' \<Rightarrow> (vote_VoterByTicket key v t', Some t')) \<and>
     (key t \<noteq> key u \<longrightarrow> vote_VoterByTicket key v t + vote_VoterByTicket key v u \<le> vote_Size v)"
proof -
  let ?v = "fold (\<lambda>(w, t). vote_Add key w t) bs NewVote"
  have inv: "vote_inv key ?v" by (intro vote_inv_fold vote_inv_New)
  have get: "gm_get (v_tickets ?v) x = map_of bs x" for x
    using vote_tickets_fold [of key bs NewVote x] by (simp add: NewVote_def vote_Clear_def)
  have "voters key ?v (key t) = {w. \<exists>t'. map_of bs w = Some t' \<and> key t' = key t}"
    unfolding voters_def get ..
  moreover have "stat ?v h = card (voters key ?v h)" for h using inv by (simp add: vote_inv_def)
  ultimately show ?thesis
    using inv voters_bound [OF inv, of "key t" "key u"] get [of w]
    by (simp add: Let_def vote_VoterByTicket_def vote_VoterByVoter_def split: option.split)
qed

theorem vote_counts_witness:
  "let v = fold (\<lambda>(w, t). vote_Add id w t) [(''a'', ''x''), (''b'', ''y''), (''a'', ''y'')] NewVote in
     vote_VoterByTicket id v ''x'' + vote_VoterByTicket id v ''y'' \<le> vote_Size v"
  using vote_counts [of id "[(''a'', ''x''), (''b'', ''y''), (''a'', ''y'')]" "''x''" "''a''" "''y''"]
  unfolding Let_def by simp

lemma vote_Voter_ticket:
  assumes "vote_inv key v" and "range_order es (v_statistics v)" and "v_statistics v \<noteq> []"
  shows "\<exists>n t. vote_Voter es v = (n, Some t) \<and> stat v (key t) = n \<and> 0 < n \<and> (\<forall>h. stat v h \<le> n)"
proof -
  obtain mx hash where l: "voter_loop 0 [] es = (mx, hash)" by (cases "voter_loop 0 [] es")
  have wf: "gm_wf (v_statistics v)" using assms(1) by (simp add: vote_inv_def)
  have set: "set es = set (v_statistics v)" by (rule range_order_set [OF assms(2)])
  have st: "stat v h = n" if "(h, n) \<in> set es" for h n
    using that gm_get_in [OF wf, of h n] set by (simp add: stat_def)
  have pos: "0 < n" if "(h, n) \<in> set es" for h n
  proof -
    have "gm_has (v_statistics v) h" using that gm_get_in [OF wf, of h n] set by (simp add: gm_has_def)
    then have "0 < stat v h" using assms(1) by (simp add: vote_inv_def card_gt_0_iff)
    with st [OF that] show ?thesis by simp
  qed
  have "es \<noteq> []" using assms(3) range_order_length [OF assms(2)] by auto
  moreover have "\<forall>e \<in> set es. 0 < snd e" using pos by (metis prod.collapse)
  ultimately have m: "(hash, mx) \<in> set es" "\<forall>e \<in> set es. snd e \<le> mx"
    using voter_loop_max [OF l] by blast+
  then have "gm_has (v_statistics v) hash"
    using gm_get_in [OF wf, of hash mx] set by (simp add: gm_has_def)
  then obtain t where t: "gm_get (v_hashes v) hash = Some t" "key t = hash"
    using assms(1) unfolding vote_inv_def by blast
  have le: "stat v h \<le> mx" for h
  proof (cases "gm_get (v_statistics v) h")
    case (Some n)
    then have "(h, n) \<in> set es" using gm_get_in [OF wf] set by blast
    with m(2) Some show ?thesis by (auto simp: stat_def)
  qed (simp add: stat_def)
  with l t st [OF m(1)] pos [OF m(1)] le assms(3) show ?thesis
    by (intro exI [of _ mx] exI [of _ t]) (simp add: vote_Voter_def)
qed

text \<open>\<^verbatim>\<open>Voter\<close> returns, whatever the order of the walk, the largest number of votes any ticket has and a
  ticket that has it; a ticket held by more than half of the voters is always the one returned.\<close>

theorem vote_Voter_correct:
  assumes "vote_inv key v" and "range_order es (v_statistics v)" and "v_statistics v \<noteq> []"
  shows "\<exists>n t. vote_Voter es v = (n, Some t) \<and> vote_VoterByTicket key v t = n \<and> 0 < n \<and>
    (\<forall>u. vote_VoterByTicket key v u \<le> n) \<and>
    (\<forall>u. vote_Size v < 2 * vote_VoterByTicket key v u \<longrightarrow> key t = key u)"
proof -
  obtain n t where t: "vote_Voter es v = (n, Some t)" "stat v (key t) = n" "0 < n" "\<forall>h. stat v h \<le> n"
    using vote_Voter_ticket [OF assms] by blast
  have "key t = key u" if "vote_Size v < 2 * stat v (key u)" for u
  proof (rule ccontr)
    assume "key t \<noteq> key u"
    from voters_bound [OF assms(1) this] that t(2,4) show False
      by (metis add_le_mono1 le_trans mult_2 not_le)
  qed
  with t show ?thesis by (simp add: vote_VoterByTicket_def)
qed

theorem vote_Voter_correct_witness:
  "let v = fold (\<lambda>(w, t). vote_Add id w t) [(''a'', ''x''), (''b'', ''y''), (''c'', ''y'')] NewVote in
     \<exists>n t. vote_Voter (rev (v_statistics v)) v = (n, Some t) \<and> vote_VoterByTicket id v t = n \<and> 0 < n"
proof -
  let ?v = "fold (\<lambda>(w, t). vote_Add id w t) [(''a'', ''x''), (''b'', ''y''), (''c'', ''y'')] NewVote"
  have i: "vote_inv id ?v" by (intro vote_inv_fold vote_inv_New)
  have r: "range_order (rev (v_statistics ?v)) (v_statistics ?v)" by (simp add: range_order_def)
  have "v_statistics ?v \<noteq> []"
    by (simp add: vote_Add_def NewVote_def vote_Clear_def Let_def stat_def gm_has_def)
  from vote_Voter_correct [OF i r this] show ?thesis unfolding Let_def by blast
qed

end
