(* ===== verification/Lbft_Message.thy ===== *)
theory Lbft_Message
  imports Types Vote
begin

text \<open>
  The options and messages of the LBFT consensus (\<^verbatim>\<open>core/consensus/lbft\<close>: \<^verbatim>\<open>options.go\<close>, \<^verbatim>\<open>message.go\<close>,
  \<^verbatim>\<open>serialize.go\<close>, \<^verbatim>\<open>util.go\<close>): the records, what reflection sees of them, their wire form, the keys of
  batches, and the serialisations by which votes are compared.

  \<^verbatim>\<open>Prepare\<close> and \<^verbatim>\<open>Commit\<close> have the same fields and share a record. The pointers to requests and
  transactions of a batch are never nil: the code sets them when it makes a request and the
  decoder always makes the object. \<open>p\<close> is the address at which the objects of a decoded message are
  placed.
\<close>

section \<open>Options\<close>

text \<open>Durations are in nanoseconds.\<close>

record Options =
  op_Chain :: string
  op_ID :: string
  op_Primary :: string
  op_AutoVote :: bool
  op_N :: int
  op_Q :: int
  op_K :: int
  op_BlockSize :: int
  op_BlockTimeout :: int
  op_BlockInterval :: int
  op_BlockDelay :: int
  op_ViewChange :: int
  op_ResendViewChange :: int
  op_ViewChangePeriod :: int
  op_NullRequest :: int
  op_BufferSize :: int
  op_MaxConcurrentNumFrom :: int
  op_MaxConcurrentNumTo :: int

definition second :: int where
  "second = 1000000000"

definition zero_Options :: Options where
  "zero_Options = \<lparr>op_Chain = [], op_ID = [], op_Primary = [], op_AutoVote = False, op_N = 0, op_Q = 0, op_K = 0,
     op_BlockSize = 0, op_BlockTimeout = 0, op_BlockInterval = 0, op_BlockDelay = 0, op_ViewChange = 0,
     op_ResendViewChange = 0, op_ViewChangePeriod = 0, op_NullRequest = 0, op_BufferSize = 0,
     op_MaxConcurrentNumFrom = 0, op_MaxConcurrentNumTo = 0\<rparr>"

definition NewDefaultOptions :: Options where
  "NewDefaultOptions = zero_Options\<lparr>op_Chain := ''0'', op_ID := ''0'', op_N := 4, op_Q := 3, op_K := 20,
     op_BlockSize := 2000, op_BlockTimeout := 8 * second, op_BlockInterval := 10 * second,
     op_BlockDelay := 10 * second, op_ViewChange := 5 * second, op_ResendViewChange := 5 * second,
     op_ViewChangePeriod := 0, op_NullRequest := 4 * second, op_BufferSize := 100,
     op_MaxConcurrentNumFrom := 1, op_MaxConcurrentNumTo := 1\<rparr>"

abbreviation vstr :: "string \<Rightarrow> gval" where
  "vstr s \<equiv> VString (str_bytes s)"

definition Options_val :: "Options \<Rightarrow> gval" where
  "Options_val opt = VStruct [vstr (op_Chain opt), vstr (op_ID opt), vstr (op_Primary opt), VBool (op_AutoVote opt),
     VInt (word_of_int (op_N opt)), VInt (word_of_int (op_Q opt)), VInt (word_of_int (op_K opt)),
     VInt (word_of_int (op_BlockSize opt)), VInt (word_of_int (op_BlockTimeout opt)), VInt (word_of_int (op_BlockInterval opt)),
     VInt (word_of_int (op_BlockDelay opt)), VInt (word_of_int (op_ViewChange opt)),
     VInt (word_of_int (op_ResendViewChange opt)), VInt (word_of_int (op_ViewChangePeriod opt)),
     VInt (word_of_int (op_NullRequest opt)), VInt (word_of_int (op_BufferSize opt)),
     VInt (word_of_int (op_MaxConcurrentNumFrom opt)), VInt (word_of_int (op_MaxConcurrentNumTo opt))]"

definition Options_Hash :: "Options \<Rightarrow> bytes" where
  "Options_Hash this = Serialize (Options_val
     (zero_Options\<lparr>op_N := op_N this, op_Q := op_Q this, op_BlockSize := op_BlockSize this,
        op_BlockInterval := op_BlockInterval this, op_BlockTimeout := op_BlockTimeout this,
        op_ViewChange := op_ViewChange this, op_ResendViewChange := op_ResendViewChange this,
        op_ViewChangePeriod := op_ViewChangePeriod this, op_NullRequest := op_NullRequest this\<rparr>))"

section \<open>Batches of requests\<close>

record Request =
  rq_Transaction :: Transaction

record RequestBatch =
  rb_Time :: u32
  rb_Requests :: "Request list"
  rb_ID :: i64
  rb_Index :: u32
  rb_Height :: u32

definition rq_Time :: "Request \<Rightarrow> u32" where
  "rq_Time m = td_CreateTime (tx_Data (rq_Transaction m))"

definition rq_FromChain :: "Request \<Rightarrow> string" where
  "rq_FromChain m = tx_FromChain (rq_Transaction m)"

definition rq_ToChain :: "Request \<Rightarrow> string" where
  "rq_ToChain m = tx_ToChain (rq_Transaction m)"

definition rq_Nonce :: "Request \<Rightarrow> u32" where
  "rq_Nonce m = td_Nonce (tx_Data (rq_Transaction m))"

text \<open>The loops of \<^verbatim>\<open>fromChain\<close> and \<^verbatim>\<open>toChain\<close> leave after the first request, so the map they fill has one
  entry and they never panic.\<close>

definition rb_fromChain :: "RequestBatch \<Rightarrow> string" where
  "rb_fromChain msg = (case rb_Requests msg of [] \<Rightarrow> [] | req # _ \<Rightarrow> rq_FromChain req)"

definition rb_toChain :: "RequestBatch \<Rightarrow> string" where
  "rb_toChain msg =
     (case rb_Requests msg of
        [] \<Rightarrow> []
      | req # _ \<Rightarrow> if rb_Index msg = 0 then rb_fromChain msg else rq_ToChain req)"

definition rb_ty :: gty where
  "rb_ty = TStruct [TUint 32, TSlice (TPtr (TStruct [TPtr tx_ty])), TInt 64, TUint 32, TUint 32]"

definition rb_val :: "RequestBatch \<Rightarrow> gval" where
  "rb_val msg = VStruct [VUint (ucast (rb_Time msg)),
     VSlice (map (\<lambda>req. VPtr (Some (VStruct [VPtr (Some (tx_val (rq_Transaction req)))]))) (rb_Requests msg)),
     VInt (rb_ID msg), VUint (ucast (rb_Index msg)), VUint (ucast (rb_Height msg))]"

definition as_int :: "gval \<Rightarrow> i64" where
  "as_int v = (case v of VInt n \<Rightarrow> n | _ \<Rightarrow> 0)"

definition as_str :: "gval \<Rightarrow> string" where
  "as_str v = bytes_str (as_bytes v)"

definition val_rq :: "nat \<Rightarrow> gval \<Rightarrow> Request" where
  "val_rq p v = \<lparr>rq_Transaction = val_tx p (the (as_ptr (as_fields (the (as_ptr v)) ! 0)))\<rparr>"

definition val_rb :: "nat \<Rightarrow> gval \<Rightarrow> RequestBatch" where
  "val_rb p v = (let f = as_fields v in
     \<lparr>rb_Time = ucast (as_uint (f ! 0)),
      rb_Requests = map2 (\<lambda>i r. val_rq (p + i) r) [0 ..< length (as_fields (f ! 1))] (as_fields (f ! 1)),
      rb_ID = as_int (f ! 2), rb_Index = ucast (as_uint (f ! 3)), rb_Height = ucast (as_uint (f ! 4))\<rparr>)"

definition rq_Serialize :: "Request \<Rightarrow> bytes" where
  "rq_Serialize req = Serialize (VStruct [VPtr (Some (tx_val (rq_Transaction req)))])"

definition rb_Serialize :: "RequestBatch \<Rightarrow> bytes" where
  "rb_Serialize msg = Serialize (rb_val msg)"

text \<open>\<^verbatim>\<open>hash\<close> of \<^verbatim>\<open>util.go\<close>, of an object that serialises to \<open>bs\<close>.\<close>

definition lbft_hash :: "crypto_env \<Rightarrow> bytes \<Rightarrow> string" where
  "lbft_hash c bs = BytesToHex (sum256 c bs)"

definition rb_hash :: "crypto_env \<Rightarrow> RequestBatch \<Rightarrow> string" where
  "rb_hash c msg = lbft_hash c (rb_Serialize msg)"

definition rb_key :: "crypto_env \<Rightarrow> RequestBatch \<Rightarrow> string" where
  "rb_key c msg = rb_fromChain msg @ ''-'' @ rb_toChain msg @ ''-'' @ rb_hash c msg"

section \<open>Messages\<close>

record PrePrepare =
  pp_Name :: string
  pp_PrimaryID :: string
  pp_Chain :: string
  pp_ReplicaID :: string
  pp_SeqNo :: u64
  pp_Digest :: string
  pp_Quorum :: u64
  pp_Requests :: RequestBatch

record Prepare =
  pr_Name :: string
  pr_PrimaryID :: string
  pr_Chain :: string
  pr_ReplicaID :: string
  pr_SeqNo :: u64
  pr_Digest :: string
  pr_Quorum :: u64

type_synonym Commit = Prepare

record Committed =
  cd_Name :: string
  cd_PrimaryID :: string
  cd_Chain :: string
  cd_ReplicaID :: string
  cd_SeqNo :: u64
  cd_RequestBatch :: RequestBatch

record FetchCommitted =
  fc_Chain :: string
  fc_ReplicaID :: string
  fc_SeqNo :: u64

record ViewChange =
  vc_ReplicaID :: string
  vc_Chain :: string
  vc_Priority :: i64
  vc_PrimaryID :: string
  vc_SeqNo :: u64
  vc_Height :: u32
  vc_OptHash :: bytes

record NullRequest =
  nr_ReplicaID :: string
  nr_Chain :: string
  nr_PrimaryID :: string
  nr_SeqNo :: u64
  nr_Height :: u32
  nr_OptHash :: bytes

definition MESSAGEUNDEFINED :: u32 where "MESSAGEUNDEFINED = 0"
definition MESSAGEREQUESTBATCH :: u32 where "MESSAGEREQUESTBATCH = 1"
definition MESSAGEPREPREPARE :: u32 where "MESSAGEPREPREPARE = 2"
definition MESSAGEPREPARE :: u32 where "MESSAGEPREPARE = 3"
definition MESSAGECOMMIT :: u32 where "MESSAGECOMMIT = 4"
definition MESSAGECOMMITTED :: u32 where "MESSAGECOMMITTED = 5"
definition MESSAGEFETCHCOMMITTED :: u32 where "MESSAGEFETCHCOMMITTED = 6"
definition MESSAGEVIEWCHANGE :: u32 where "MESSAGEVIEWCHANGE = 11"
definition MESSAGENULLREQUEST :: u32 where "MESSAGENULLREQUEST = 12"

lemmas MESSAGE_defs = MESSAGEUNDEFINED_def MESSAGEREQUESTBATCH_def MESSAGEPREPREPARE_def
  MESSAGEPREPARE_def MESSAGECOMMIT_def MESSAGECOMMITTED_def MESSAGEFETCHCOMMITTED_def
  MESSAGEVIEWCHANGE_def MESSAGENULLREQUEST_def

record Message =
  mg_Type :: u32
  mg_Payload :: bytes

text \<open>The types that are valid to be assigned to the payload of a message.\<close>

datatype payload =
    PRequestBatch RequestBatch
  | PPrePrepare PrePrepare
  | PPrepare Prepare
  | PCommit Commit
  | PCommitted Committed
  | PFetchCommitted FetchCommitted
  | PViewChange ViewChange
  | PNullRequest NullRequest

section \<open>Wire form\<close>

definition pp_ty :: gty where
  "pp_ty = TStruct [TString, TString, TString, TString, TUint 64, TString, TUint 64, TPtr rb_ty]"

definition pp_val :: "PrePrepare \<Rightarrow> gval" where
  "pp_val m = VStruct [vstr (pp_Name m), vstr (pp_PrimaryID m), vstr (pp_Chain m), vstr (pp_ReplicaID m),
     VUint (pp_SeqNo m), vstr (pp_Digest m), VUint (pp_Quorum m), VPtr (Some (rb_val (pp_Requests m)))]"

definition val_pp :: "nat \<Rightarrow> gval \<Rightarrow> PrePrepare" where
  "val_pp p v = (let f = as_fields v in
     \<lparr>pp_Name = as_str (f ! 0), pp_PrimaryID = as_str (f ! 1), pp_Chain = as_str (f ! 2),
      pp_ReplicaID = as_str (f ! 3), pp_SeqNo = as_uint (f ! 4), pp_Digest = as_str (f ! 5),
      pp_Quorum = as_uint (f ! 6), pp_Requests = val_rb p (the (as_ptr (f ! 7)))\<rparr>)"

definition pr_ty :: gty where
  "pr_ty = TStruct [TString, TString, TString, TString, TUint 64, TString, TUint 64]"

definition pr_val :: "Prepare \<Rightarrow> gval" where
  "pr_val m = VStruct [vstr (pr_Name m), vstr (pr_PrimaryID m), vstr (pr_Chain m), vstr (pr_ReplicaID m),
     VUint (pr_SeqNo m), vstr (pr_Digest m), VUint (pr_Quorum m)]"

definition val_pr :: "gval \<Rightarrow> Prepare" where
  "val_pr v = (let f = as_fields v in
     \<lparr>pr_Name = as_str (f ! 0), pr_PrimaryID = as_str (f ! 1), pr_Chain = as_str (f ! 2),
      pr_ReplicaID = as_str (f ! 3), pr_SeqNo = as_uint (f ! 4), pr_Digest = as_str (f ! 5),
      pr_Quorum = as_uint (f ! 6)\<rparr>)"

definition cd_ty :: gty where
  "cd_ty = TStruct [TString, TString, TString, TString, TUint 64, TPtr rb_ty]"

definition cd_val :: "Committed \<Rightarrow> gval" where
  "cd_val m = VStruct [vstr (cd_Name m), vstr (cd_PrimaryID m), vstr (cd_Chain m), vstr (cd_ReplicaID m),
     VUint (cd_SeqNo m), VPtr (Some (rb_val (cd_RequestBatch m)))]"

definition val_cd :: "nat \<Rightarrow> gval \<Rightarrow> Committed" where
  "val_cd p v = (let f = as_fields v in
     \<lparr>cd_Name = as_str (f ! 0), cd_PrimaryID = as_str (f ! 1), cd_Chain = as_str (f ! 2),
      cd_ReplicaID = as_str (f ! 3), cd_SeqNo = as_uint (f ! 4), cd_RequestBatch = val_rb p (the (as_ptr (f ! 5)))\<rparr>)"

definition fc_ty :: gty where
  "fc_ty = TStruct [TString, TString, TUint 64]"

definition fc_val :: "FetchCommitted \<Rightarrow> gval" where
  "fc_val m = VStruct [vstr (fc_Chain m), vstr (fc_ReplicaID m), VUint (fc_SeqNo m)]"

definition val_fc :: "gval \<Rightarrow> FetchCommitted" where
  "val_fc v = (let f = as_fields v in
     \<lparr>fc_Chain = as_str (f ! 0), fc_ReplicaID = as_str (f ! 1), fc_SeqNo = as_uint (f ! 2)\<rparr>)"

definition vc_ty :: gty where
  "vc_ty = TStruct [TString, TString, TInt 64, TString, TUint 64, TUint 32, TBytes]"

definition vc_val :: "ViewChange \<Rightarrow> gval" where
  "vc_val m = VStruct [vstr (vc_ReplicaID m), vstr (vc_Chain m), VInt (vc_Priority m), vstr (vc_PrimaryID m),
     VUint (vc_SeqNo m), VUint (ucast (vc_Height m)), VBytes (vc_OptHash m)]"

definition val_vc :: "gval \<Rightarrow> ViewChange" where
  "val_vc v = (let f = as_fields v in
     \<lparr>vc_ReplicaID = as_str (f ! 0), vc_Chain = as_str (f ! 1), vc_Priority = as_int (f ! 2),
      vc_PrimaryID = as_str (f ! 3), vc_SeqNo = as_uint (f ! 4), vc_Height = ucast (as_uint (f ! 5)),
      vc_OptHash = as_bytes (f ! 6)\<rparr>)"

definition nr_ty :: gty where
  "nr_ty = TStruct [TString, TString, TString, TUint 64, TUint 32, TBytes]"

definition nr_val :: "NullRequest \<Rightarrow> gval" where
  "nr_val m = VStruct [vstr (nr_ReplicaID m), vstr (nr_Chain m), vstr (nr_PrimaryID m),
     VUint (nr_SeqNo m), VUint (ucast (nr_Height m)), VBytes (nr_OptHash m)]"

definition val_nr :: "gval \<Rightarrow> NullRequest" where
  "val_nr v = (let f = as_fields v in
     \<lparr>nr_ReplicaID = as_str (f ! 0), nr_Chain = as_str (f ! 1), nr_PrimaryID = as_str (f ! 2),
      nr_SeqNo = as_uint (f ! 3), nr_Height = ucast (as_uint (f ! 4)), nr_OptHash = as_bytes (f ! 5)\<rparr>)"

definition mg_ty :: gty where
  "mg_ty = TStruct [TUint 32, TBytes]"

definition mg_val :: "Message \<Rightarrow> gval" where
  "mg_val m = VStruct [VUint (ucast (mg_Type m)), VBytes (mg_Payload m)]"

definition mg_Serialize :: "Message \<Rightarrow> bytes" where
  "mg_Serialize msg = Serialize (mg_val msg)"

definition mg_Deserialize :: "bytes \<Rightarrow> Message \<times> rerr option" where
  "mg_Deserialize payload =
     (case Deserialize mg_ty payload of (v, err) \<Rightarrow>
        (\<lparr>mg_Type = ucast (as_uint (as_fields v ! 0)), mg_Payload = as_bytes (as_fields v ! 1)\<rparr>, err))"

text \<open>A message made by a replica: type and serialised contents.\<close>

fun mk_msg :: "payload \<Rightarrow> Message" where
  "mk_msg (PRequestBatch m) = \<lparr>mg_Type = MESSAGEREQUESTBATCH, mg_Payload = Serialize (rb_val m)\<rparr>"
| "mk_msg (PPrePrepare m) = \<lparr>mg_Type = MESSAGEPREPREPARE, mg_Payload = Serialize (pp_val m)\<rparr>"
| "mk_msg (PPrepare m) = \<lparr>mg_Type = MESSAGEPREPARE, mg_Payload = Serialize (pr_val m)\<rparr>"
| "mk_msg (PCommit m) = \<lparr>mg_Type = MESSAGECOMMIT, mg_Payload = Serialize (pr_val m)\<rparr>"
| "mk_msg (PCommitted m) = \<lparr>mg_Type = MESSAGECOMMITTED, mg_Payload = Serialize (cd_val m)\<rparr>"
| "mk_msg (PFetchCommitted m) = \<lparr>mg_Type = MESSAGEFETCHCOMMITTED, mg_Payload = Serialize (fc_val m)\<rparr>"
| "mk_msg (PViewChange m) = \<lparr>mg_Type = MESSAGEVIEWCHANGE, mg_Payload = Serialize (vc_val m)\<rparr>"
| "mk_msg (PNullRequest m) = \<lparr>mg_Type = MESSAGENULLREQUEST, mg_Payload = Serialize (nr_val m)\<rparr>"

text \<open>Every \<^verbatim>\<open>Get\<close> method: nil for another type, a panic if the payload does not decode.\<close>

definition get_as :: "u32 \<Rightarrow> gty \<Rightarrow> (gval \<Rightarrow> 'm) \<Rightarrow> Message \<Rightarrow> 'm option go" where
  "get_as tp t f m =
     (if mg_Type m = tp then
        (case Deserialize t (mg_Payload m) of
           (v, Some err) \<Rightarrow> Panic ''decode error''
         | (v, None) \<Rightarrow> Ret (Some (f v)))
      else Ret None)"

definition GetRequestBatch :: "nat \<Rightarrow> Message \<Rightarrow> RequestBatch option go" where
  "GetRequestBatch p m = get_as MESSAGEREQUESTBATCH rb_ty (val_rb p) m"

definition GetPrePrepare :: "nat \<Rightarrow> Message \<Rightarrow> PrePrepare option go" where
  "GetPrePrepare p m = get_as MESSAGEPREPREPARE pp_ty (val_pp p) m"

definition GetPrepare :: "Message \<Rightarrow> Prepare option go" where
  "GetPrepare m = get_as MESSAGEPREPARE pr_ty val_pr m"

definition GetCommit :: "Message \<Rightarrow> Commit option go" where
  "GetCommit m = get_as MESSAGECOMMIT pr_ty val_pr m"

definition GetCommitted :: "nat \<Rightarrow> Message \<Rightarrow> Committed option go" where
  "GetCommitted p m = get_as MESSAGECOMMITTED cd_ty (val_cd p) m"

definition GetFetchCommitted :: "Message \<Rightarrow> FetchCommitted option go" where
  "GetFetchCommitted m = get_as MESSAGEFETCHCOMMITTED fc_ty val_fc m"

definition GetViewChange :: "Message \<Rightarrow> ViewChange option go" where
  "GetViewChange m = get_as MESSAGEVIEWCHANGE vc_ty val_vc m"

definition GetNullRequest :: "Message \<Rightarrow> NullRequest option go" where
  "GetNullRequest m = get_as MESSAGENULLREQUEST nr_ty val_nr m"

section \<open>What a vote compares\<close>

text \<open>The \<^verbatim>\<open>Serialize\<close> methods of the messages that are tickets of a vote: a copy is made over the wire form
  and the fields that do not count are cleared.\<close>

definition pp_Serialize :: "PrePrepare \<Rightarrow> bytes" where
  "pp_Serialize msg =
     Serialize (pp_val ((val_pp 0 (fst (Deserialize pp_ty (Serialize (pp_val msg)))))\<lparr>pp_ReplicaID := []\<rparr>))"

definition pr_Serialize :: "Prepare \<Rightarrow> bytes" where
  "pr_Serialize msg =
     Serialize (pr_val ((val_pr (fst (Deserialize pr_ty (Serialize (pr_val msg)))))\<lparr>pr_ReplicaID := []\<rparr>))"

definition cd_Serialize :: "Committed \<Rightarrow> bytes" where
  "cd_Serialize msg =
     Serialize (cd_val ((val_cd 0 (fst (Deserialize cd_ty (Serialize (cd_val msg)))))\<lparr>cd_ReplicaID := []\<rparr>))"

definition vc_Serialize :: "ViewChange \<Rightarrow> bytes" where
  "vc_Serialize msg =
     Serialize (vc_val ((val_vc (fst (Deserialize vc_ty (Serialize (vc_val msg)))))
       \<lparr>vc_ReplicaID := [], vc_Priority := 0, vc_SeqNo := 0, vc_Height := 0, vc_OptHash := []\<rparr>))"

definition pr_key :: "crypto_env \<Rightarrow> Prepare \<Rightarrow> string" where
  "pr_key c = vote_key (sum256 c) pr_Serialize"

definition cd_key :: "crypto_env \<Rightarrow> Committed \<Rightarrow> string" where
  "cd_key c = vote_key (sum256 c) cd_Serialize"

definition vc_key :: "crypto_env \<Rightarrow> ViewChange \<Rightarrow> string" where
  "vc_key c = vote_key (sum256 c) vc_Serialize"

section \<open>Laws\<close>

text \<open>A structure swallows the errors of its fields, so no decoding of a message ever fails.\<close>

lemma Deserialize_struct: "snd (Deserialize (TStruct ts) d) = None"
  by (simp add: Deserialize_def split: prod.splits)

lemma get_as_struct: "get_as tp (TStruct ts) f m =
    Ret (if mg_Type m = tp then Some (f (fst (Deserialize (TStruct ts) (mg_Payload m)))) else None)"
  using Deserialize_struct [of ts "mg_Payload m"]
  by (cases "Deserialize (TStruct ts) (mg_Payload m)") (simp add: get_as_def)

lemmas msg_tys = rb_ty_def pp_ty_def pr_ty_def cd_ty_def fc_ty_def vc_ty_def nr_ty_def
lemmas Get_defs = GetRequestBatch_def GetPrePrepare_def GetPrepare_def GetCommit_def GetCommitted_def
  GetFetchCommitted_def GetViewChange_def GetNullRequest_def

lemma get_as_eq:
  "t \<in> {rb_ty, pp_ty, pr_ty, cd_ty, fc_ty, vc_ty, nr_ty} \<Longrightarrow>
     get_as tp t f m = Ret (if mg_Type m = tp then Some (f (fst (Deserialize t (mg_Payload m)))) else None)"
  by (elim insertE emptyE; simp only: msg_tys get_as_struct)

text \<open>What the wire can carry, and what comes out of it.\<close>

abbreviation fits :: "'a list \<Rightarrow> bool" where
  "fits xs \<equiv> length xs < 2 ^ 64"

definition rb_wf :: "RequestBatch \<Rightarrow> bool" where
  "rb_wf m \<longleftrightarrow> fits (rb_Requests m) \<and> list_all (\<lambda>r. tx_wf (rq_Transaction r)) (rb_Requests m)"

definition pr_wf :: "Prepare \<Rightarrow> bool" where
  "pr_wf m \<longleftrightarrow> fits (pr_Name m) \<and> fits (pr_PrimaryID m) \<and> fits (pr_Chain m) \<and> fits (pr_ReplicaID m) \<and> fits (pr_Digest m)"

definition cd_wf :: "Committed \<Rightarrow> bool" where
  "cd_wf m \<longleftrightarrow> fits (cd_Name m) \<and> fits (cd_PrimaryID m) \<and> fits (cd_Chain m) \<and> fits (cd_ReplicaID m) \<and>
     rb_wf (cd_RequestBatch m)"

definition vc_wf :: "ViewChange \<Rightarrow> bool" where
  "vc_wf m \<longleftrightarrow> fits (vc_ReplicaID m) \<and> fits (vc_Chain m) \<and> fits (vc_PrimaryID m) \<and> fits (vc_OptHash m)"

fun payload_wf :: "payload \<Rightarrow> bool" where
  "payload_wf (PRequestBatch m) = rb_wf m"
| "payload_wf (PPrePrepare m) = (fits (pp_Name m) \<and> fits (pp_PrimaryID m) \<and> fits (pp_Chain m) \<and>
     fits (pp_ReplicaID m) \<and> fits (pp_Digest m) \<and> rb_wf (pp_Requests m))"
| "payload_wf (PPrepare m) = pr_wf m"
| "payload_wf (PCommit m) = pr_wf m"
| "payload_wf (PCommitted m) = cd_wf m"
| "payload_wf (PFetchCommitted m) = (fits (fc_Chain m) \<and> fits (fc_ReplicaID m))"
| "payload_wf (PViewChange m) = vc_wf m"
| "payload_wf (PNullRequest m) = (fits (nr_ReplicaID m) \<and> fits (nr_Chain m) \<and> fits (nr_PrimaryID m) \<and> fits (nr_OptHash m))"

definition rb_norm :: "nat \<Rightarrow> RequestBatch \<Rightarrow> RequestBatch" where
  "rb_norm p m = m\<lparr>rb_Requests := map2 (\<lambda>i r. \<lparr>rq_Transaction = tx_norm (p + i) (rq_Transaction r)\<rparr>)
     [0 ..< length (rb_Requests m)] (rb_Requests m)\<rparr>"

fun payload_norm :: "nat \<Rightarrow> payload \<Rightarrow> payload" where
  "payload_norm p (PRequestBatch m) = PRequestBatch (rb_norm p m)"
| "payload_norm p (PPrePrepare m) = PPrePrepare (m\<lparr>pp_Requests := rb_norm p (pp_Requests m)\<rparr>)"
| "payload_norm p (PCommitted m) = PCommitted (m\<lparr>cd_RequestBatch := rb_norm p (cd_RequestBatch m)\<rparr>)"
| "payload_norm p m = m"

lemma as_simps [simp]:
  "as_str (vstr s) = s" "as_uint (VUint n) = n" "as_int (VInt i) = i" "as_bytes (VBytes b) = b"
  "as_ptr (VPtr q) = q" "as_fields (VStruct vs) = vs" "as_fields (VSlice vs) = vs"
  by (simp_all add: as_str_def as_uint_def as_int_def as_bytes_def as_ptr_def as_fields_def)

lemma signed_take_bit_u64 [simp]: "signed_take_bit 63 (n :: u64) = n"
proof (rule bit_word_eqI)
  fix i assume "i < LENGTH(64)"
  then have "min i 63 = i" by simp
  then show "bit (signed_take_bit 63 n) i = bit n i" using \<open>i < _\<close> by (simp add: bit_signed_take_bit_iff)
qed

lemma take_bit_u64 [simp]: "take_bit 64 (n :: u64) = n"
  by (rule bit_word_eqI) (simp add: bit_take_bit_iff)

lemma good_rb: "rb_wf m \<Longrightarrow> good (rb_val m) rb_ty"
  by (auto simp: rb_wf_def rb_val_def rb_ty_def list_all_iff good_tx)

lemma val_rb_norm: "val_rb p (norm (rb_val m)) = rb_norm p m"
  by (simp add: val_rb_def rb_val_def rb_norm_def val_rq_def comp_def zip_map2 case_prod_unfold val_tx_val)

lemma get_as_good:
  "good v t \<Longrightarrow> v \<noteq> VPtr None \<Longrightarrow> get_as tp t f \<lparr>mg_Type = tp, mg_Payload = Serialize v\<rparr> = Ret (Some (f (norm v)))"
  by (simp add: get_as_def Deserialize_good)

lemma msg_not_nil [simp]: "rb_val m1 \<noteq> VPtr q" "pp_val m2 \<noteq> VPtr q" "pr_val m3 \<noteq> VPtr q" "cd_val m4 \<noteq> VPtr q"
    "fc_val m5 \<noteq> VPtr q" "vc_val m6 \<noteq> VPtr q" "nr_val m7 \<noteq> VPtr q"
  by (simp_all add: rb_val_def pp_val_def pr_val_def cd_val_def fc_val_def vc_val_def nr_val_def)

lemma good_pp: "payload_wf (PPrePrepare m) \<Longrightarrow> good (pp_val m) pp_ty"
  by (simp add: pp_val_def pp_ty_def good_rb)

lemma good_pr: "pr_wf m \<Longrightarrow> good (pr_val m) pr_ty"
  by (simp add: pr_wf_def pr_val_def pr_ty_def)

lemma good_cd: "cd_wf m \<Longrightarrow> good (cd_val m) cd_ty"
  by (simp add: cd_wf_def cd_val_def cd_ty_def good_rb)

lemma good_fc: "payload_wf (PFetchCommitted m) \<Longrightarrow> good (fc_val m) fc_ty"
  by (simp add: fc_val_def fc_ty_def)

lemma good_vc: "vc_wf m \<Longrightarrow> good (vc_val m) vc_ty"
  by (simp add: vc_wf_def vc_val_def vc_ty_def)

lemma good_nr: "payload_wf (PNullRequest m) \<Longrightarrow> good (nr_val m) nr_ty"
  by (simp add: nr_val_def nr_ty_def)

lemma val_norms:
  "val_pp p (norm (pp_val m1)) = m1\<lparr>pp_Requests := rb_norm p (pp_Requests m1)\<rparr>"
  "val_pr (norm (pr_val m2)) = m2"
  "val_cd p (norm (cd_val m3)) = m3\<lparr>cd_RequestBatch := rb_norm p (cd_RequestBatch m3)\<rparr>"
  "val_fc (norm (fc_val m4)) = m4" "val_vc (norm (vc_val m5)) = m5" "val_nr (norm (nr_val m6)) = m6"
  by (simp_all add: val_pp_def pp_val_def val_pr_def pr_val_def val_cd_def cd_val_def val_fc_def fc_val_def
      val_vc_def vc_val_def val_nr_def nr_val_def val_rb_norm)

section \<open>Properties of the messages\<close>

text \<open>Every message a replica sends is understood by the replica that receives it: the bytes decode to a
  message of the same type, whose \<^verbatim>\<open>Get\<close> method returns the contents (with the transactions as new
  objects, as a transaction comes out of the wire).\<close>

definition decoded :: "nat \<Rightarrow> Message \<Rightarrow> payload option go" where
  "decoded p m =
     (if mg_Type m = MESSAGEREQUESTBATCH then go_bind (GetRequestBatch p m) (\<lambda>x. Ret (map_option PRequestBatch x))
      else if mg_Type m = MESSAGEPREPREPARE then go_bind (GetPrePrepare p m) (\<lambda>x. Ret (map_option PPrePrepare x))
      else if mg_Type m = MESSAGEPREPARE then go_bind (GetPrepare m) (\<lambda>x. Ret (map_option PPrepare x))
      else if mg_Type m = MESSAGECOMMIT then go_bind (GetCommit m) (\<lambda>x. Ret (map_option PCommit x))
      else if mg_Type m = MESSAGECOMMITTED then go_bind (GetCommitted p m) (\<lambda>x. Ret (map_option PCommitted x))
      else if mg_Type m = MESSAGEFETCHCOMMITTED then go_bind (GetFetchCommitted m) (\<lambda>x. Ret (map_option PFetchCommitted x))
      else if mg_Type m = MESSAGEVIEWCHANGE then go_bind (GetViewChange m) (\<lambda>x. Ret (map_option PViewChange x))
      else if mg_Type m = MESSAGENULLREQUEST then go_bind (GetNullRequest m) (\<lambda>x. Ret (map_option PNullRequest x))
      else Ret None)"

lemma decoded_mk_msg:
  assumes "payload_wf x"
  shows "decoded p (mk_msg x) = Ret (Some (payload_norm p x))"
  using assms
  by (cases x) (auto simp: decoded_def MESSAGE_defs Get_defs get_as_good good_rb good_pp good_pr good_cd
      good_fc good_vc good_nr val_rb_norm val_norms)

lemma mg_Deserialize_Serialize: "fits (mg_Payload m) \<Longrightarrow> mg_Deserialize (mg_Serialize m) = (m, None)"
  by (simp add: mg_Deserialize_def mg_Serialize_def Deserialize_good mg_val_def mg_ty_def)

text \<open>C32: A message that a replica sends is read back: the envelope exactly, and its contents up to what the wire
  loses of a transaction (caches, the address of the object, the sign of amounts).\<close>

theorem message_roundtrip:
  assumes "payload_wf x" and "fits (mg_Payload (mk_msg x))"
  shows "mg_Deserialize (mg_Serialize (mk_msg x)) = (mk_msg x, None) \<and>
    decoded p (mk_msg x) = Ret (Some (payload_norm p x))"
  using mg_Deserialize_Serialize [OF assms(2)] decoded_mk_msg [OF assms(1)] by blast

definition sample_vc :: ViewChange where
  "sample_vc = \<lparr>vc_ReplicaID = ''a'', vc_Chain = ''0'', vc_Priority = 7, vc_PrimaryID = ''b'', vc_SeqNo = 3,
     vc_Height = 2, vc_OptHash = [1]\<rparr>"

theorem message_roundtrip_witness:
  "mg_Deserialize (mg_Serialize (mk_msg (PViewChange sample_vc))) = (mk_msg (PViewChange sample_vc), None) \<and>
   decoded 0 (mk_msg (PViewChange sample_vc)) = Ret (Some (PViewChange sample_vc))"
proof -
  have "fits (mg_Payload (mk_msg (PViewChange sample_vc)))"
    by (simp add: sample_vc_def vc_val_def Serialize_def VarInt_def)
  moreover have "payload_wf (PViewChange sample_vc)" by (simp add: sample_vc_def vc_wf_def)
  ultimately show ?thesis using message_roundtrip [of "PViewChange sample_vc" 0] by simp
qed

text \<open>The checks for undecodable messages are never met: every byte string decodes without error to some
  message, and every payload to some contents of the type that the message names. A replica
  cannot tell a damaged message from one whose fields are empty.\<close>

theorem decoding_never_fails:
  "snd (mg_Deserialize bs) = None \<and> decoded p m \<noteq> Panic e \<and>
   (decoded p m = Ret None \<longleftrightarrow> mg_Type m \<notin> {1, 2, 3, 4, 5, 6, 11, 12}) \<and>
   mg_Deserialize [] = (\<lparr>mg_Type = MESSAGEUNDEFINED, mg_Payload = []\<rparr>, None)"
proof -
  have "snd (mg_Deserialize bs) = None"
    using Deserialize_struct [of "[TUint 32, TBytes]" bs]
    by (cases "Deserialize mg_ty bs") (simp add: mg_Deserialize_def mg_ty_def)
  moreover have "decoded p m \<noteq> Panic e"
    by (simp add: decoded_def Get_defs get_as_eq)
  moreover have "decoded p m = Ret None \<longleftrightarrow> mg_Type m \<notin> {1, 2, 3, 4, 5, 6, 11, 12}"
    by (simp add: decoded_def Get_defs get_as_eq MESSAGE_defs)
  moreover have "mg_Deserialize [] = (\<lparr>mg_Type = MESSAGEUNDEFINED, mg_Payload = []\<rparr>, None)"
    by (simp add: mg_Deserialize_def Deserialize_def mg_ty_def ReadVarInt_def MESSAGE_defs)
  ultimately show ?thesis by blast
qed

text \<open>Two prepare (or commit) messages count as the same ticket exactly when they agree on everything but
  the sender; two committed messages when, apart from the sender, their wire forms agree; two
  view changes when they name the same primary of the same chain.\<close>

lemma pr_Serialize_eq: "pr_wf m \<Longrightarrow> pr_Serialize m = Serialize (pr_val (m\<lparr>pr_ReplicaID := []\<rparr>))"
  by (simp add: pr_Serialize_def Deserialize_good good_pr val_norms)

lemma vc_Serialize_eq: "vc_wf m \<Longrightarrow> vc_Serialize m = Serialize (vc_val (m
    \<lparr>vc_ReplicaID := [], vc_Priority := 0, vc_SeqNo := 0, vc_Height := 0, vc_OptHash := []\<rparr>))"
  by (simp add: vc_Serialize_def Deserialize_good good_vc val_norms)

lemma Serialize_inj:
  assumes "good v t" "good w t" "v \<noteq> VPtr None" "w \<noteq> VPtr None" "Serialize v = Serialize w"
  shows "norm v = norm w"
  using Deserialize_good [OF assms(1,3)] Deserialize_good [OF assms(2,4)] assms(5) by simp

lemma pr_val_inj: "pr_wf a \<Longrightarrow> pr_wf b \<Longrightarrow> Serialize (pr_val a) = Serialize (pr_val b) \<longleftrightarrow> a = b"
proof
  assume w: "pr_wf a" "pr_wf b" and e: "Serialize (pr_val a) = Serialize (pr_val b)"
  have "norm (pr_val a) = norm (pr_val b)"
    by (rule Serialize_inj [OF good_pr [OF w(1)] good_pr [OF w(2)] msg_not_nil(3) msg_not_nil(3) e])
  then have "val_pr (norm (pr_val a)) = val_pr (norm (pr_val b))" by (rule arg_cong)
  then show "a = b" by (simp only: val_norms)
qed simp

lemma vc_val_inj: "vc_wf a \<Longrightarrow> vc_wf b \<Longrightarrow> Serialize (vc_val a) = Serialize (vc_val b) \<longleftrightarrow> a = b"
proof
  assume w: "vc_wf a" "vc_wf b" and e: "Serialize (vc_val a) = Serialize (vc_val b)"
  have "norm (vc_val a) = norm (vc_val b)"
    by (rule Serialize_inj [OF good_vc [OF w(1)] good_vc [OF w(2)] msg_not_nil(6) msg_not_nil(6) e])
  then have "val_vc (norm (vc_val a)) = val_vc (norm (vc_val b))" by (rule arg_cong)
  then show "a = b" by (simp only: val_norms)
qed simp

text \<open>C33: When two votes count as the same ticket: two prepare (or commit) messages exactly when they agree on
  everything but the replica, and two view changes exactly when they name the same chain and the same
  primary, whatever their priority, sequence number, height and options.\<close>

theorem ticket_equality:
  assumes "pr_wf a" "pr_wf b" "vc_wf x" "vc_wf y"
  shows "(pr_Serialize a = pr_Serialize b \<longleftrightarrow> a\<lparr>pr_ReplicaID := pr_ReplicaID b\<rparr> = b) \<and>
    (vc_Serialize x = vc_Serialize y \<longleftrightarrow> vc_Chain x = vc_Chain y \<and> vc_PrimaryID x = vc_PrimaryID y)"
proof -
  have "pr_wf (a\<lparr>pr_ReplicaID := []\<rparr>)" "pr_wf (b\<lparr>pr_ReplicaID := []\<rparr>)" using assms by (simp_all add: pr_wf_def)
  note p = pr_val_inj [OF this]
  let ?z = "\<lambda>v. v\<lparr>vc_ReplicaID := [], vc_Priority := 0, vc_SeqNo := 0, vc_Height := 0, vc_OptHash := []\<rparr>"
  have "vc_wf (?z x)" "vc_wf (?z y)" using assms by (simp_all add: vc_wf_def)
  note v = vc_val_inj [OF this]
  have "a\<lparr>pr_ReplicaID := []\<rparr> = b\<lparr>pr_ReplicaID := []\<rparr> \<longleftrightarrow> a\<lparr>pr_ReplicaID := pr_ReplicaID b\<rparr> = b"
    by (cases a; cases b) simp
  moreover have "?z x = ?z y \<longleftrightarrow> vc_Chain x = vc_Chain y \<and> vc_PrimaryID x = vc_PrimaryID y"
    by (cases x; cases y) simp
  ultimately show ?thesis
    by (simp only: pr_Serialize_eq [OF assms(1)] pr_Serialize_eq [OF assms(2)] vc_Serialize_eq [OF assms(3)]
        vc_Serialize_eq [OF assms(4)] p v)
qed

theorem ticket_equality_witness:
  "vc_Serialize sample_vc = vc_Serialize (sample_vc\<lparr>vc_SeqNo := 9, vc_ReplicaID := ''c''\<rparr>) \<and>
   vc_Serialize sample_vc \<noteq> vc_Serialize (sample_vc\<lparr>vc_PrimaryID := ''c''\<rparr>)"
proof -
  let ?p = "\<lparr>pr_Name = [], pr_PrimaryID = [], pr_Chain = [], pr_ReplicaID = [], pr_SeqNo = 0, pr_Digest = [], pr_Quorum = 0\<rparr>"
  have p: "pr_wf ?p" by (simp add: pr_wf_def)
  have v: "vc_wf sample_vc" "vc_wf (sample_vc\<lparr>vc_SeqNo := 9, vc_ReplicaID := ''c''\<rparr>)"
    "vc_wf (sample_vc\<lparr>vc_PrimaryID := ''c''\<rparr>)" by (simp_all add: vc_wf_def sample_vc_def)
  from ticket_equality [OF p p v(1,2)] ticket_equality [OF p p v(1,3)] show ?thesis
    by (simp add: sample_vc_def)
qed

end
