(* ===== verification/Async_Seq.thy ===== *)
theory Async_Seq
  imports Prelude
begin

text \<open>
  The ordering of goroutines by sequence number (\<^verbatim>\<open>core/consensus/lbft/asyncseqno.go\<close>). A goroutine that
  calls \<^verbatim>\<open>wait(n, f)\<close> registers a channel for \<open>n\<close>, blocks on the channel of \<open>n - 1\<close> and, after \<open>f\<close>, closes
  its own. A channel is an index into the store \<open>as_chans\<close> of closed flags. \<^verbatim>\<open>wait\<close> is split where it
  blocks: \<open>wait_enter\<close> returns the channel it waits for, \<open>wait_ready\<close> says when it goes on, and
  \<open>wait_leave\<close> is what it does after the function. Any number of goroutines inside \<^verbatim>\<open>wait\<close> interleave
  with calls of \<^verbatim>\<open>notify\<close> and \<^verbatim>\<open>notifyAll\<close> in the runs of \<open>as_run\<close>.
\<close>

section \<open>State and operations\<close>

record asyncSeqNo =
  as_start :: u64
  as_seqNo :: "(u64, nat option) gomap"
  as_chans :: "bool list"

definition newAsyncSeqNo :: "u64 \<Rightarrow> asyncSeqNo" where
  "newAsyncSeqNo start = \<lparr>as_start = start, as_seqNo = gm_empty, as_chans = []\<rparr>"

text \<open>\<^verbatim>\<open>make(chan struct{})\<close> stored under a number, and \<^verbatim>\<open>close\<close> of the channel stored under a number, which
  is then set to nil. Closing a closed channel panics.\<close>

definition as_make :: "u64 \<Rightarrow> asyncSeqNo \<Rightarrow> asyncSeqNo" where
  "as_make k as = as\<lparr>as_seqNo := gm_set k (Some (length (as_chans as))) (as_seqNo as),
     as_chans := as_chans as @ [False]\<rparr>"

definition as_close :: "u64 \<Rightarrow> asyncSeqNo \<Rightarrow> asyncSeqNo go" where
  "as_close k as =
     (case gm_get (as_seqNo as) k of
        Some (Some c) \<Rightarrow>
          if as_chans as ! c then Panic ''close of closed channel''
          else Ret (as\<lparr>as_chans := (as_chans as)[c := True], as_seqNo := gm_set k None (as_seqNo as)\<rparr>)
      | _ \<Rightarrow> Ret as)"

definition wait_enter :: "u64 \<Rightarrow> asyncSeqNo \<Rightarrow> (nat option \<times> asyncSeqNo) go" where
  "wait_enter seqNo as =
     (if seqNo \<le> as_start as then Panic ''wrong seqNo''
      else
        let as1 = (if gm_has (as_seqNo as) seqNo then as else as_make seqNo as);
            as2 = (if gm_has (as_seqNo as1) (seqNo - 1) then as1 else as_make (seqNo - 1) as1)
        in Ret (the (gm_get (as_seqNo as2) (seqNo - 1)), as2))"

definition wait_ready :: "u64 \<Rightarrow> nat option \<Rightarrow> asyncSeqNo \<Rightarrow> bool" where
  "wait_ready seqNo c as \<longleftrightarrow> seqNo = as_start as + 1 \<or> (case c of None \<Rightarrow> True | Some i \<Rightarrow> as_chans as ! i)"

definition wait_leave :: "u64 \<Rightarrow> asyncSeqNo \<Rightarrow> asyncSeqNo go" where
  "wait_leave seqNo as = as_close seqNo (as\<lparr>as_seqNo := gm_del (seqNo - 1) (as_seqNo as)\<rparr>)"

definition notify :: "u64 \<Rightarrow> asyncSeqNo \<Rightarrow> asyncSeqNo go" where
  "notify seqNo as = as_close (seqNo - 1) as"

fun notify_upto :: "u64 \<Rightarrow> u64 list \<Rightarrow> asyncSeqNo \<Rightarrow> asyncSeqNo go" where
  "notify_upto seqNo [] as = Ret as"
| "notify_upto seqNo (n # ns) as =
     (if n > seqNo then Ret as else go_bind (as_close n as) (notify_upto seqNo ns))"

definition notifyAll :: "u64 \<Rightarrow> asyncSeqNo \<Rightarrow> asyncSeqNo go" where
  "notifyAll seqNo as = notify_upto seqNo (sort (map fst (as_seqNo as))) as"

section \<open>Runs\<close>

datatype as_event = AEnter u64 | ARun u64 | ANotify u64 | ANotifyAll u64

text \<open>\<open>as_run s tr as ws\<close>: the events \<open>tr\<close> lead from a new object to \<open>as\<close>, with the goroutines \<open>ws\<close> inside
  \<^verbatim>\<open>wait\<close> (their number and the channel they block on). \<open>ARun n\<close> is the call of the function.\<close>

inductive as_run :: "u64 \<Rightarrow> as_event list \<Rightarrow> asyncSeqNo \<Rightarrow> (u64 \<times> nat option) list \<Rightarrow> bool" for s :: u64 where
  run_new: "as_run s [] (newAsyncSeqNo s) []"
| run_enter: "as_run s tr as ws \<Longrightarrow> wait_enter n as = Ret (c, as') \<Longrightarrow>
    as_run s (tr @ [AEnter n]) as' (ws @ [(n, c)])"
| run_run: "as_run s tr as ws \<Longrightarrow> (n, c) \<in> set ws \<Longrightarrow> wait_ready n c as \<Longrightarrow> wait_leave n as = Ret as' \<Longrightarrow>
    as_run s (tr @ [ARun n]) as' (remove1 (n, c) ws)"
| run_notify: "as_run s tr as ws \<Longrightarrow> notify n as = Ret as' \<Longrightarrow> as_run s (tr @ [ANotify n]) as' ws"
| run_notifyAll: "as_run s tr as ws \<Longrightarrow> notifyAll n as = Ret as' \<Longrightarrow> as_run s (tr @ [ANotifyAll n]) as' ws"

text \<open>The events that let the successor of \<open>k\<close> go on.\<close>

fun releases :: "u64 \<Rightarrow> as_event \<Rightarrow> bool" where
  "releases k (AEnter n) = False"
| "releases k (ARun n) = (n = k)"
| "releases k (ANotify n) = (n - 1 = k)"
| "releases k (ANotifyAll n) = (k \<le> n)"

definition released :: "as_event list \<Rightarrow> u64 \<Rightarrow> bool" where
  "released tr k \<longleftrightarrow> (\<exists>e \<in> set tr. releases k e)"

lemma released_snoc [simp]: "released (tr @ [e]) k \<longleftrightarrow> released tr k \<or> releases k e"
  by (auto simp: released_def)

section \<open>Invariant of the channels\<close>

text \<open>\<open>own c\<close> is the number that channel \<open>c\<close> was made for.\<close>

definition chan_ok :: "(nat \<Rightarrow> u64) \<Rightarrow> (u64 \<Rightarrow> bool) \<Rightarrow> asyncSeqNo \<Rightarrow> bool" where
  "chan_ok own rel as \<longleftrightarrow>
     (\<forall>k c. gm_get (as_seqNo as) k = Some (Some c) \<longrightarrow> c < length (as_chans as) \<and> \<not> as_chans as ! c \<and> own c = k) \<and>
     (\<forall>c < length (as_chans as). as_chans as ! c \<longrightarrow> rel (own c)) \<and>
     (\<forall>k. gm_get (as_seqNo as) k = Some None \<longrightarrow> rel k)"

definition wait_ok :: "(nat \<Rightarrow> u64) \<Rightarrow> (u64 \<Rightarrow> bool) \<Rightarrow> asyncSeqNo \<Rightarrow> (u64 \<times> nat option) list \<Rightarrow> bool" where
  "wait_ok own rel as ws \<longleftrightarrow>
     (\<forall>n. (n, None) \<in> set ws \<longrightarrow> rel (n - 1)) \<and>
     (\<forall>n c. (n, Some c) \<in> set ws \<longrightarrow> c < length (as_chans as) \<and> own c = n - 1)"

definition order_inv :: "u64 \<Rightarrow> (u64 \<Rightarrow> bool) \<Rightarrow> asyncSeqNo \<Rightarrow> (u64 \<times> nat option) list \<Rightarrow> bool" where
  "order_inv s rel as ws \<longleftrightarrow> as_start as = s \<and> (\<exists>own. chan_ok own rel as \<and> wait_ok own rel as ws)"

lemma chan_ok_make:
  assumes "chan_ok own rel as"
  shows "chan_ok (own(length (as_chans as) := k)) rel (as_make k as)"
  using assms by (auto simp: chan_ok_def as_make_def gm_get_set nth_append less_Suc_eq split: if_splits)

lemma wait_ok_make:
  "wait_ok own rel as ws \<Longrightarrow> wait_ok (own(length (as_chans as) := k)) rel (as_make k as) ws"
  by (force simp: wait_ok_def as_make_def)

lemma as_make_start [simp]: "as_start (as_make k as) = as_start as"
  by (simp add: as_make_def)

lemma order_inv_make: "order_inv s rel as ws \<Longrightarrow> order_inv s rel (as_make k as) ws"
  unfolding order_inv_def as_make_start by (blast intro: chan_ok_make wait_ok_make)

text \<open>Closing the channel under a number that is released afterwards never panics and keeps the invariant.\<close>

lemma as_close_ok:
  assumes "order_inv s rel as ws" and "\<And>k. rel k \<Longrightarrow> rel' k" and "rel' k"
  shows "\<exists>as'. as_close k as = Ret as' \<and> order_inv s rel' as' ws"
proof -
  obtain own where o: "chan_ok own rel as" "wait_ok own rel as ws" "as_start as = s"
    using assms(1) by (auto simp: order_inv_def)
  have w: "wait_ok own rel' as ws" using o(2) assms(2) by (auto simp: wait_ok_def)
  show ?thesis
  proof (cases "\<exists>c. gm_get (as_seqNo as) k = Some (Some c)")
    case True
    then obtain c where c: "gm_get (as_seqNo as) k = Some (Some c)" by blast
    with o(1) have open_c: "c < length (as_chans as)" "\<not> as_chans as ! c" "own c = k" by (auto simp: chan_ok_def)
    let ?as = "as\<lparr>as_chans := (as_chans as)[c := True], as_seqNo := gm_set k None (as_seqNo as)\<rparr>"
    have "chan_ok own rel' ?as"
      using o(1) open_c assms(2,3) by (fastforce simp: chan_ok_def gm_get_set nth_list_update split: if_splits)
    moreover have "wait_ok own rel' ?as ws" using w by (auto simp: wait_ok_def)
    ultimately have "order_inv s rel' ?as ws" using o(3) by (auto simp: order_inv_def)
    with c open_c show ?thesis by (simp add: as_close_def)
  next
    case False
    then have "as_close k as = Ret as" by (auto simp: as_close_def split: option.splits)
    moreover have "chan_ok own rel' as" using o(1) assms(2) by (auto simp: chan_ok_def)
    ultimately show ?thesis using w o(3) by (auto simp: order_inv_def)
  qed
qed

lemma order_inv_del: "order_inv s rel as ws \<Longrightarrow> order_inv s rel (as\<lparr>as_seqNo := gm_del k (as_seqNo as)\<rparr>) ws"
proof -
  assume "order_inv s rel as ws"
  then obtain own where "chan_ok own rel as" "wait_ok own rel as ws" "as_start as = s"
    by (auto simp: order_inv_def)
  then have "chan_ok own rel (as\<lparr>as_seqNo := gm_del k (as_seqNo as)\<rparr>)"
    "wait_ok own rel (as\<lparr>as_seqNo := gm_del k (as_seqNo as)\<rparr>) ws" "as_start as = s"
    by (auto simp: chan_ok_def wait_ok_def gm_get_del)
  then show ?thesis by (auto simp: order_inv_def)
qed

lemma order_inv_mono:
  assumes "order_inv s rel as ws" and "\<And>k. rel k \<Longrightarrow> rel' k"
  shows "order_inv s rel' as ws"
proof -
  from assms(1) obtain own where "chan_ok own rel as" "wait_ok own rel as ws" "as_start as = s"
    by (auto simp: order_inv_def)
  with assms(2) have "chan_ok own rel' as" "wait_ok own rel' as ws" "as_start as = s"
    by (auto simp: chan_ok_def wait_ok_def)
  then show ?thesis by (auto simp: order_inv_def)
qed

lemma order_inv_sub: "order_inv s rel as ws \<Longrightarrow> set vs \<subseteq> set ws \<Longrightarrow> order_inv s rel as vs"
  unfolding order_inv_def wait_ok_def by blast

lemma order_inv_enter:
  assumes "order_inv s rel as ws" and "wait_enter n as = Ret (c, as')"
  shows "order_inv s rel as' (ws @ [(n, c)])"
proof -
  define as1 where "as1 = (if gm_has (as_seqNo as) n then as else as_make n as)"
  define as2 where "as2 = (if gm_has (as_seqNo as1) (n - 1) then as1 else as_make (n - 1) as1)"
  have r: "as' = as2" "c = the (gm_get (as_seqNo as2) (n - 1))"
    using assms(2) by (auto simp: wait_enter_def as1_def as2_def Let_def split: if_splits)
  have "order_inv s rel as2 ws"
    using assms(1) by (simp add: as1_def as2_def order_inv_make)
  then obtain own where o: "chan_ok own rel as2" "wait_ok own rel as2 ws" "as_start as2 = s"
    by (auto simp: order_inv_def)
  have "gm_has (as_seqNo as2) (n - 1)" by (simp add: as2_def as_make_def)
  then have c: "gm_get (as_seqNo as2) (n - 1) = Some c" by (auto simp: gm_has_def r(2))
  have "wait_ok own rel as2 (ws @ [(n, c)])"
    using o c by (cases c) (auto simp: wait_ok_def chan_ok_def)
  with o r(1) show ?thesis by (auto simp: order_inv_def)
qed

lemma notify_upto_ok:
  assumes "order_inv s rel as ws" and "\<And>k. rel k \<Longrightarrow> rel' k" and "\<And>k. k \<le> n \<Longrightarrow> rel' k"
  shows "\<exists>as'. notify_upto n ns as = Ret as' \<and> order_inv s rel' as' ws"
  using assms(1,2)
proof (induction ns arbitrary: as rel)
  case Nil
  from order_inv_mono [where rel' = rel', OF this] show ?case by simp
next
  case (Cons k ns)
  show ?case
  proof (cases "k > n")
    case True
    with order_inv_mono [where rel' = rel', OF Cons.prems] show ?thesis by simp
  next
    case False
    then have "rel' k" using assms(3) by simp
    from as_close_ok [where rel' = rel', OF Cons.prems this]
    obtain as' where "as_close k as = Ret as'" "order_inv s rel' as' ws" by blast
    with False Cons.IH [of rel' as'] show ?thesis by simp
  qed
qed

lemma order_inv_event:
  assumes "order_inv s (released tr) as ws"
  shows "\<exists>as'. wait_leave n as = Ret as' \<and> order_inv s (released (tr @ [ARun n])) as' ws"
    and "\<exists>as'. notify n as = Ret as' \<and> order_inv s (released (tr @ [ANotify n])) as' ws"
    and "\<exists>as'. notifyAll n as = Ret as' \<and> order_inv s (released (tr @ [ANotifyAll n])) as' ws"
  unfolding wait_leave_def notify_def notifyAll_def
  by (rule as_close_ok [OF order_inv_del [OF assms]] as_close_ok [OF assms] notify_upto_ok [OF assms]; simp)+

lemma as_run_inv: "as_run s tr as ws \<Longrightarrow> order_inv s (released tr) as ws"
proof (induction rule: as_run.induct)
  case run_new
  show ?case by (auto simp: order_inv_def chan_ok_def wait_ok_def newAsyncSeqNo_def)
next
  case (run_enter tr as ws n c as')
  show ?case by (rule order_inv_mono [OF order_inv_enter [OF run_enter.IH run_enter.hyps(2)]]) simp
next
  case (run_run tr as ws n c as')
  from order_inv_event(1) [OF run_run.IH, of n] run_run.hyps(4)
  have "order_inv s (released (tr @ [ARun n])) as' ws" by (auto simp del: released_snoc)
  then show ?case by (rule order_inv_sub) (simp add: set_remove1_subset)
next
  case (run_notify tr as ws n as')
  from order_inv_event(2) [OF run_notify.IH, of n] run_notify.hyps(2) show ?case by (auto simp del: released_snoc)
next
  case (run_notifyAll tr as ws n as')
  from order_inv_event(3) [OF run_notifyAll.IH, of n] run_notifyAll.hyps(2) show ?case
    by (auto simp del: released_snoc)
qed

section \<open>Invariant of progress\<close>

text \<open>\<open>closes as as'\<close>: some channels of \<open>as\<close> were closed, and nothing else happened.\<close>

definition closes :: "asyncSeqNo \<Rightarrow> asyncSeqNo \<Rightarrow> bool" where
  "closes as as' \<longleftrightarrow> as_start as' = as_start as \<and> length (as_chans as') = length (as_chans as) \<and>
     (\<forall>c < length (as_chans as). as_chans as ! c \<longrightarrow> as_chans as' ! c) \<and>
     (\<forall>k. gm_get (as_seqNo as') k = gm_get (as_seqNo as) k \<or>
        (\<exists>c. gm_get (as_seqNo as) k = Some (Some c) \<and> gm_get (as_seqNo as') k = Some None \<and>
           (c < length (as_chans as) \<longrightarrow> as_chans as' ! c)))"

lemma closes_refl [simp, intro]: "closes as as"
  by (simp add: closes_def)

lemma closes_trans:
  assumes "closes a b" "closes b c" shows "closes a c"
  unfolding closes_def
proof (intro conjI allI impI)
  fix k
  show "gm_get (as_seqNo c) k = gm_get (as_seqNo a) k \<or>
      (\<exists>i. gm_get (as_seqNo a) k = Some (Some i) \<and> gm_get (as_seqNo c) k = Some None \<and>
         (i < length (as_chans a) \<longrightarrow> as_chans c ! i))"
    using assms unfolding closes_def by (metis option.inject option.distinct(1))
qed (use assms in \<open>simp_all add: closes_def\<close>)

lemma as_close_closes: "as_close k as = Ret as' \<Longrightarrow> closes as as'"
  by (auto simp: as_close_def closes_def gm_get_set split: option.splits if_splits)
    (metis nth_list_update_neq)

lemma as_close_nil: "as_close k as = Ret as' \<Longrightarrow> gm_has (as_seqNo as) k \<Longrightarrow> gm_get (as_seqNo as') k = Some None"
  by (auto simp: as_close_def gm_has_def split: option.splits if_splits)

lemma notify_upto_closes: "notify_upto n ns as = Ret as' \<Longrightarrow> closes as as'"
  by (induction ns arbitrary: as) (auto split: if_splits dest: as_close_closes intro: closes_trans)

fun enters :: "as_event list \<Rightarrow> u64 list" where
  "enters [] = []"
| "enters (AEnter n # tr) = n # enters tr"
| "enters (_ # tr) = enters tr"

lemma enters_append [simp]: "enters (tr @ tr') = enters tr @ enters tr'"
  by (induction tr rule: enters.induct) auto

lemma in_enters [simp]: "n \<in> set (enters tr) \<longleftrightarrow> AEnter n \<in> set tr"
  by (induction tr rule: enters.induct) auto

text \<open>For goroutines of different numbers: what a number that has run leaves behind, and which channel a
  goroutine blocks on.\<close>

definition chan_progress :: "as_event list \<Rightarrow> asyncSeqNo \<Rightarrow> bool" where
  "chan_progress tr as \<longleftrightarrow>
     (\<forall>n. ARun n \<in> set tr \<and> ARun (n + 1) \<notin> set tr \<longrightarrow> gm_get (as_seqNo as) n = Some None) \<and>
     (\<forall>n. AEnter n \<in> set tr \<and> ARun (n + 1) \<notin> set tr \<longrightarrow> gm_has (as_seqNo as) n)"

definition waiter_ok :: "u64 \<Rightarrow> as_event list \<Rightarrow> asyncSeqNo \<Rightarrow> u64 \<times> nat option \<Rightarrow> bool" where
  "waiter_ok s tr as w \<longleftrightarrow> (case w of (n, c) \<Rightarrow> AEnter n \<in> set tr \<and> ARun n \<notin> set tr \<and> s < n \<and>
     (\<forall>i. c = Some i \<longrightarrow> i < length (as_chans as) \<and> (as_chans as ! i \<or> gm_get (as_seqNo as) (n - 1) = Some (Some i))))"

definition wait_progress :: "u64 \<Rightarrow> as_event list \<Rightarrow> asyncSeqNo \<Rightarrow> (u64 \<times> nat option) list \<Rightarrow> bool" where
  "wait_progress s tr as ws \<longleftrightarrow> distinct (map fst ws) \<and> (\<forall>w \<in> set ws. waiter_ok s tr as w)"

definition runs_entered :: "as_event list \<Rightarrow> bool" where
  "runs_entered tr \<longleftrightarrow> (\<forall>n. ARun n \<in> set tr \<longrightarrow> AEnter n \<in> set tr)"

lemma chan_progress_closes: "chan_progress tr as \<Longrightarrow> closes as as' \<Longrightarrow> chan_progress tr as'"
  unfolding chan_progress_def closes_def gm_has_def by (metis option.distinct(1) option.inject)

lemma waiter_ok_closes:
  assumes "waiter_ok s tr as w" and "closes as as'"
  shows "waiter_ok s tr as' w"
proof -
  have "as_chans as' ! i \<or> gm_get (as_seqNo as') k = Some (Some i)"
    if "i < length (as_chans as)" "as_chans as ! i \<or> gm_get (as_seqNo as) k = Some (Some i)" for i k
    using assms(2) that unfolding closes_def by (metis option.inject)
  moreover have "length (as_chans as') = length (as_chans as)" using assms(2) by (simp add: closes_def)
  ultimately show ?thesis using assms(1) by (simp add: waiter_ok_def split: prod.splits)
qed

lemma wait_progress_closes: "wait_progress s tr as ws \<Longrightarrow> closes as as' \<Longrightarrow> wait_progress s tr as' ws"
  unfolding wait_progress_def by (blast intro: waiter_ok_closes)

lemma progress_notify:
  "chan_progress tr as \<Longrightarrow> chan_progress (tr @ [ANotify n]) as"
  "chan_progress tr as \<Longrightarrow> chan_progress (tr @ [ANotifyAll n]) as"
  "wait_progress s tr as ws \<Longrightarrow> wait_progress s (tr @ [ANotify n]) as ws"
  "wait_progress s tr as ws \<Longrightarrow> wait_progress s (tr @ [ANotifyAll n]) as ws"
  by (simp_all add: chan_progress_def wait_progress_def waiter_ok_def split: prod.splits)

text \<open>Entering only adds channels.\<close>

definition adds :: "asyncSeqNo \<Rightarrow> asyncSeqNo \<Rightarrow> bool" where
  "adds as as' \<longleftrightarrow> as_start as' = as_start as \<and> length (as_chans as) \<le> length (as_chans as') \<and>
     (\<forall>c < length (as_chans as). as_chans as' ! c = as_chans as ! c) \<and>
     (\<forall>k v. gm_get (as_seqNo as) k = Some v \<longrightarrow> gm_get (as_seqNo as') k = Some v)"

lemma adds_refl [simp, intro]: "adds as as"
  by (simp add: adds_def)

lemma adds_trans: "adds a b \<Longrightarrow> adds b c \<Longrightarrow> adds a c"
  by (simp add: adds_def)

lemma adds_make: "\<not> gm_has (as_seqNo as) k \<Longrightarrow> adds as (as_make k as)"
  by (auto simp: adds_def as_make_def nth_append gm_get_set gm_has_def)

lemma wait_enter_adds:
  assumes "wait_enter n as = Ret (c, as')"
  shows "adds as as'" "gm_has (as_seqNo as') n" "gm_get (as_seqNo as') (n - 1) = Some c" "as_start as < n"
proof -
  define as1 where "as1 = (if gm_has (as_seqNo as) n then as else as_make n as)"
  define as2 where "as2 = (if gm_has (as_seqNo as1) (n - 1) then as1 else as_make (n - 1) as1)"
  have r: "as' = as2" "c = the (gm_get (as_seqNo as2) (n - 1))" and "as_start as < n"
    using assms by (auto simp: wait_enter_def as1_def as2_def Let_def split: if_splits)
  then show "as_start as < n" by simp
  have a: "adds as as1" "adds as1 as2" by (simp_all add: as1_def as2_def adds_make)
  then show "adds as as'" unfolding r by (rule adds_trans)
  have "gm_has (as_seqNo as1) n" by (simp add: as1_def as_make_def)
  with a(2) show "gm_has (as_seqNo as') n" by (auto simp: adds_def gm_has_def r)
  have "gm_has (as_seqNo as2) (n - 1)" by (simp add: as2_def as_make_def)
  then show "gm_get (as_seqNo as') (n - 1) = Some c" by (auto simp: gm_has_def r)
qed

lemma progress_enter:
  assumes e: "wait_enter n as = Ret (c, as')" and o: "order_inv s rel as' ws'"
    and p: "chan_progress tr as" "wait_progress s tr as ws" "runs_entered tr"
    and n: "AEnter n \<notin> set tr" "as_start as = s"
  shows "chan_progress (tr @ [AEnter n]) as' \<and> wait_progress s (tr @ [AEnter n]) as' (ws @ [(n, c)])"
proof
  note a = wait_enter_adds [OF e]
  show "chan_progress (tr @ [AEnter n]) as'"
    using p(1) a(1,2) by (auto simp: chan_progress_def adds_def gm_has_def)
  have "ARun n \<notin> set tr" using p(3) n(1) by (auto simp: runs_entered_def)
  moreover have "i < length (as_chans as')" if "c = Some i" for i
    using o a(3) that by (auto simp: order_inv_def chan_ok_def)
  ultimately have "waiter_ok s (tr @ [AEnter n]) as' (n, c)" using a(3,4) n(2) by (simp add: waiter_ok_def)
  moreover have "waiter_ok s (tr @ [AEnter n]) as' w" if "waiter_ok s tr as w" for w
    using that a(1) by (auto simp: waiter_ok_def adds_def split: prod.splits)
  moreover have "n \<notin> fst ` set ws" using p(2) n(1) by (force simp: wait_progress_def waiter_ok_def)
  ultimately show "wait_progress s (tr @ [AEnter n]) as' (ws @ [(n, c)])"
    using p(2) by (simp add: wait_progress_def)
qed

lemma progress_run:
  assumes w: "(n, c) \<in> set ws" and l: "wait_leave n as = Ret as'"
    and p: "chan_progress tr as" "wait_progress s tr as ws"
  shows "chan_progress (tr @ [ARun n]) as' \<and> wait_progress s (tr @ [ARun n]) as' (remove1 (n, c) ws)"
proof
  let ?as = "as\<lparr>as_seqNo := gm_del (n - 1) (as_seqNo as)\<rparr>"
  have cl: "closes ?as as'" using l as_close_closes by (simp add: wait_leave_def)
  have n: "AEnter n \<in> set tr" "ARun n \<notin> set tr" "distinct (map fst ws)"
    using p(2) w by (auto simp: wait_progress_def waiter_ok_def)
  have "n \<noteq> n - 1" by simp
  then have nil: "gm_get (as_seqNo as') n = Some None" if "ARun (n + 1) \<notin> set tr"
    using as_close_nil [OF l [unfolded wait_leave_def]] p(1) n(1) that
    by (simp add: chan_progress_def)
  have keep: "gm_get (as_seqNo as') m = Some None" if "gm_get (as_seqNo as) m = Some None" "m \<noteq> n - 1" for m
    using cl that by (auto simp: closes_def) (metis gm_get_del_neq option.distinct(1) option.inject)
  have has: "gm_has (as_seqNo as') m" if "gm_has (as_seqNo as) m" "m \<noteq> n - 1" for m
    using cl that by (auto simp: closes_def gm_has_def) (metis gm_get_del_neq option.distinct(1) option.inject)
  show "chan_progress (tr @ [ARun n]) as'"
    unfolding chan_progress_def
  proof (intro conjI allI impI)
    fix m assume m: "ARun m \<in> set (tr @ [ARun n]) \<and> ARun (m + 1) \<notin> set (tr @ [ARun n])"
    then have "m \<noteq> n - 1" by auto
    with m nil keep p(1) show "gm_get (as_seqNo as') m = Some None" by (auto simp: chan_progress_def)
  next
    fix m assume m: "AEnter m \<in> set (tr @ [ARun n]) \<and> ARun (m + 1) \<notin> set (tr @ [ARun n])"
    then have "m \<noteq> n - 1" by auto
    with m has p(1) show "gm_has (as_seqNo as') m" by (auto simp: chan_progress_def)
  qed
  have "waiter_ok s (tr @ [ARun n]) as' v" if v: "v \<in> set (remove1 (n, c) ws)" for v
  proof -
    have "distinct ws" using n(3) by (simp add: distinct_map)
    with v have "v \<in> set ws" "v \<noteq> (n, c)" by auto
    then have "fst v \<noteq> n" using distinct_map_eqD [OF n(3) _ w] by fastforce
    moreover have "waiter_ok s tr as v" using p(2) \<open>v \<in> set ws\<close> by (simp add: wait_progress_def)
    ultimately have "waiter_ok s tr ?as v" by (auto simp: waiter_ok_def gm_get_del split: prod.splits)
    from waiter_ok_closes [OF this cl] \<open>fst v \<noteq> n\<close> show ?thesis by (simp add: waiter_ok_def split: prod.splits)
  qed
  moreover have "distinct (map fst (remove1 (n, c) ws))"
    using n(3) by (auto simp: distinct_map distinct_remove1 inj_on_def)
  ultimately show "wait_progress s (tr @ [ARun n]) as' (remove1 (n, c) ws)" by (simp add: wait_progress_def)
qed

lemma as_run_progress:
  assumes "as_run s tr as ws" and "distinct (enters tr)"
  shows "chan_progress tr as \<and> wait_progress s tr as ws \<and> runs_entered tr"
  using assms
proof (induction rule: as_run.induct)
  case run_new
  show ?case by (simp add: chan_progress_def wait_progress_def runs_entered_def)
next
  case (run_enter tr as ws n c as')
  have "order_inv s (released tr) as' (ws @ [(n, c)])"
    by (rule order_inv_enter [OF as_run_inv [OF run_enter.hyps(1)] run_enter.hyps(2)])
  moreover have "as_start as = s" using as_run_inv [OF run_enter.hyps(1)] by (simp add: order_inv_def)
  ultimately show ?case
    using progress_enter [OF run_enter.hyps(2)] run_enter.IH run_enter.prems by (auto simp: runs_entered_def)
next
  case (run_run tr as ws n c as')
  then have p: "chan_progress tr as" "wait_progress s tr as ws" "runs_entered tr" by simp_all
  then have "waiter_ok s tr as (n, c)" using run_run.hyps(2) by (simp add: wait_progress_def)
  with progress_run [OF run_run.hyps(2,4) p(1,2)] p(3) show ?case by (auto simp: runs_entered_def waiter_ok_def)
next
  case (run_notify tr as ws n as')
  then have "closes as as'" by (simp add: notify_def as_close_closes)
  with run_notify show ?case
    by (auto simp: runs_entered_def intro: progress_notify chan_progress_closes wait_progress_closes)
next
  case (run_notifyAll tr as ws n as')
  then have "closes as as'" by (simp add: notifyAll_def notify_upto_closes)
  with run_notifyAll show ?case
    by (auto simp: runs_entered_def intro: progress_notify chan_progress_closes wait_progress_closes)
qed

lemma run_ready:
  assumes "as_run s tr as ws" and "distinct (enters tr)" and "(n, c) \<in> set ws" and "n = s + 1 \<or> ARun (n - 1) \<in> set tr"
  shows "wait_ready n c as"
proof -
  note p = as_run_progress [OF assms(1,2)]
  have "as_start as = s" using as_run_inv [OF assms(1)] by (simp add: order_inv_def)
  moreover have "as_chans as ! i" if "c = Some i" "ARun (n - 1) \<in> set tr" for i
  proof -
    have w: "waiter_ok s tr as (n, c)" using p assms(3) by (simp add: wait_progress_def)
    then have "gm_get (as_seqNo as) (n - 1) = Some None"
      using p that(2) by (simp add: chan_progress_def waiter_ok_def)
    with w that(1) show ?thesis by (simp add: waiter_ok_def)
  qed
  ultimately show ?thesis using assms(4) by (auto simp: wait_ready_def split: option.split)
qed

section \<open>Properties of the ordering\<close>

text \<open>C21: Whatever goroutines enter and are notified in whatever order, no call of the object panics except an
  entry with an old number, and the function of number \<open>n\<close> can only run when \<open>n\<close> is the first number,
  when the function of \<open>n - 1\<close> has run, or when \<open>n\<close> was released by \<^verbatim>\<open>notify\<close> or \<^verbatim>\<open>notifyAll\<close>.\<close>

theorem async_order:
  assumes "as_run s tr as ws"
  shows "((n, c) \<in> set ws \<and> wait_ready n c as \<longrightarrow> n = s + 1 \<or> released tr (n - 1)) \<and>
    returns (wait_leave n as) \<and> returns (notify n as) \<and> returns (notifyAll n as) \<and>
    (returns (wait_enter n as) \<longleftrightarrow> s < n)"
proof -
  note inv = as_run_inv [OF assms]
  then obtain own where o: "chan_ok own (released tr) as" "wait_ok own (released tr) as ws" "as_start as = s"
    by (auto simp: order_inv_def)
  have "n = s + 1 \<or> released tr (n - 1)" if "(n, c) \<in> set ws" "wait_ready n c as"
  proof (cases c)
    case None
    with that(1) o(2) show ?thesis by (simp add: wait_ok_def)
  next
    case (Some i)
    with that(1) o(2) have "i < length (as_chans as)" "own i = n - 1" by (simp_all add: wait_ok_def)
    with that(2) Some o(1,3) show ?thesis by (auto simp: wait_ready_def chan_ok_def)
  qed
  moreover have "returns (wait_enter n as) \<longleftrightarrow> s < n" by (auto simp: wait_enter_def o(3) Let_def)
  ultimately show ?thesis
    using order_inv_event [OF inv, of n] by (auto simp: returns_iff)
qed

definition sample_async :: asyncSeqNo where
  "sample_async = \<lparr>as_start = 5, as_seqNo = [(7, Some 0), (6, Some 1), (5, Some 2)], as_chans = [False, False, False]\<rparr>"

lemma sample_async_run: "as_run 5 [AEnter 7, AEnter 6] sample_async [(7, Some 1), (6, Some 2)]"
proof -
  have "wait_enter 7 (newAsyncSeqNo 5) =
      Ret (Some 1, \<lparr>as_start = 5, as_seqNo = [(7, Some 0), (6, Some 1)], as_chans = [False, False]\<rparr>)"
    "wait_enter 6 \<lparr>as_start = 5, as_seqNo = [(7, Some 0), (6, Some 1)], as_chans = [False, False]\<rparr> =
      Ret (Some 2, sample_async)"
    by (simp_all add: wait_enter_def newAsyncSeqNo_def as_make_def gm_has_def Let_def sample_async_def)
  from run_enter [OF run_enter [OF run_new this(1)] this(2)] show ?thesis by simp
qed

theorem async_order_witness:
  "as_run 5 [AEnter 7, AEnter 6] sample_async [(7, Some 1), (6, Some 2)] \<and>
   returns (wait_leave 6 sample_async) \<and> returns (notifyAll 6 sample_async) \<and> returns (wait_enter 6 sample_async)"
  using sample_async_run async_order [OF sample_async_run, of 6] by simp

text \<open>C31: Goroutines of different numbers never block each other for good: if each one that is inside \<^verbatim>\<open>wait\<close> has
  the first number, or the number after one that is also inside or has run, then there is a
  continuation in which all their functions run, in the order of their numbers.\<close>

theorem async_progress:
  assumes "as_run s tr as ws" and "distinct (enters tr)"
    and "\<forall>(n, c) \<in> set ws. n = s + 1 \<or> n - 1 \<in> fst ` set ws \<or> ARun (n - 1) \<in> set tr"
  shows "\<exists>as'. as_run s (tr @ map ARun (sort (map fst ws))) as' []"
  using assms
proof (induction "length ws" arbitrary: tr as ws)
  case 0
  then show ?case by auto
next
  case (Suc l)
  define n where "n = Min (fst ` set ws)"
  have "fst ` set ws \<noteq> {}" using Suc.hyps(2) by auto
  then have "n \<in> fst ` set ws" unfolding n_def by (intro Min_in) simp_all
  then obtain c where w: "(n, c) \<in> set ws" by force
  have min: "\<forall>m \<in> fst ` set ws. n \<le> m" by (simp add: n_def)
  note p = as_run_progress [OF Suc.prems(1,2)]
  then have wk: "waiter_ok s tr as (n, c)" and dist: "distinct (map fst ws)" using w by (simp_all add: wait_progress_def)
  then have "n \<noteq> 0" by (auto simp: waiter_ok_def)
  then have "n - 1 < n" by (simp add: word_less_nat_alt measure_unat)
  then have "n - 1 \<notin> fst ` set ws" using min by fastforce
  then have "n = s + 1 \<or> ARun (n - 1) \<in> set tr" using Suc.prems(3) w by blast
  then have ready: "wait_ready n c as" using run_ready [OF Suc.prems(1,2) w] by blast
  obtain as' where l: "wait_leave n as = Ret as'" using order_inv_event(1) [OF as_run_inv [OF Suc.prems(1)]] by blast
  let ?ws = "remove1 (n, c) ws"
  have run: "as_run s (tr @ [ARun n]) as' ?ws" by (rule run_run [OF Suc.prems(1) w ready l])
  have ms: "mset (map fst ws) = add_mset n (mset (map fst ?ws))" using w
    by (metis (no_types, lifting) fst_conv image_mset_add_mset insert_DiffM mset_map mset_remove1 set_mset_mset)
  have "sort (map fst ws) = n # sort (map fst ?ws)"
  proof (rule properties_for_sort)
    have "set ?ws \<subseteq> set ws" by (rule set_remove1_subset)
    then show "sorted (n # sort (map fst ?ws))" using min by auto
  qed (use ms in simp)
  moreover have "\<exists>as''. as_run s ((tr @ [ARun n]) @ map ARun (sort (map fst ?ws))) as'' []"
  proof (rule Suc.hyps(1) [OF _ run])
    show "l = length ?ws" using Suc.hyps(2) w by (simp add: length_remove1)
    show "distinct (enters (tr @ [ARun n]))" using Suc.prems(2) by simp
    show "\<forall>(m, d) \<in> set ?ws. m = s + 1 \<or> m - 1 \<in> fst ` set ?ws \<or> ARun (m - 1) \<in> set (tr @ [ARun n])"
    proof clarify
      fix m d assume "(m, d) \<in> set ?ws" "m \<noteq> s + 1" "ARun (m - 1) \<notin> set (tr @ [ARun n])"
      then have "m - 1 \<in> fst ` set ws" "m - 1 \<noteq> n"
        using Suc.prems(3) set_remove1_subset [of "(n, c)" ws] by fastforce+
      moreover have "set (map fst ws) = insert n (set (map fst ?ws))" using ms by (metis set_mset_add_mset_insert set_mset_mset)
      ultimately show "m - 1 \<in> fst ` set ?ws" by auto
    qed
  qed
  ultimately show ?case by simp
qed

theorem async_progress_witness:
  "\<exists>as'. as_run 5 [AEnter 7, AEnter 6, ARun 6, ARun 7] as' []"
  using async_progress [OF sample_async_run] by (simp add: insort_key.simps)

end
