(* ===== verification/Validator_Account.thy ===== *)
theory Validator_Account
  imports Types
begin

text \<open>
  The pending transactions of one sender (\<^verbatim>\<open>validatorAccount\<close> in \<^verbatim>\<open>core/blockchain/validator.go\<close>): the list of
  accepted transactions with an index by hash, the orphans that wait for their nonce, and the
  balance and the next nonce as they are after the accepted transactions.

  Every method holds the lock of the account, so each is one step. \<^verbatim>\<open>Hash\<close> only fills the cache
  of a transaction, which does not change what it returns, so the transactions are kept as they
  are. A nil amount makes \<^verbatim>\<open>math/big\<close> dereference nil.
\<close>

section \<open>State\<close>

record validatorAccount =
  va_orphans :: "Transaction golist"
  va_txsList :: "Transaction golist"
  va_txsMap :: "(Hash, Transaction element) gomap"
  va_currTxHash :: Hash
  va_amount :: int
  va_nonce :: u32

definition newValidatorAccount :: "int \<Rightarrow> u32 \<Rightarrow> validatorAccount" where
  "newValidatorAccount amount nonce =
     \<lparr>va_orphans = gl_new, va_txsList = gl_new, va_txsMap = gm_empty, va_currTxHash = zero_hash,
      va_amount = amount, va_nonce = nonce + 1\<rparr>"

definition amount_of :: "Transaction \<Rightarrow> int go" where
  "amount_of tx = (case tx_Amount tx of None \<Rightarrow> nil_deref | Some a \<Rightarrow> Ret a)"

section \<open>Adding\<close>

text \<open>The switch over the type: a type outside the list is only logged.\<close>

definition va_accepts :: "u32 \<Rightarrow> int \<Rightarrow> Transaction \<Rightarrow> bool" where
  "va_accepts nonce amount tx =
     (if tx_Type tx = TypeMerged then True
      else if tx_Type tx = TypeIssue then nonce = tx_Nonce tx
      else if tx_Type tx \<in> {TypeAcrossChain, TypeDistribut, TypeBackfront, TypeJSContractInit,
                TypeLuaContractInit, TypeContractInvoke, TypeAtomic}
        then nonce = tx_Nonce tx \<and> \<not> amount < 0
      else True)"

definition MaxOrphans :: nat where
  "MaxOrphans = 1000000"

definition va_add_orphan :: "Transaction \<Rightarrow> Transaction golist \<Rightarrow> Transaction golist" where
  "va_add_orphan tx orphans =
     (if gl_Len orphans = 0 then snd (gl_PushBack orphans tx)
      else
        let os = (if gl_Len orphans > MaxOrphans
                  then (case gl_Front orphans of Some e \<Rightarrow> gl_Remove orphans e | None \<Rightarrow> orphans)
                  else orphans)
        in case List.find (\<lambda>pre. tx_Nonce tx > tx_Nonce (evalue pre)) (rev (elems os)) of
             Some pre \<Rightarrow> snd (gl_InsertAfter os tx pre)
           | None \<Rightarrow> snd (gl_PushFront os tx))"

definition va_push :: "crypto_env \<Rightarrow> Transaction \<Rightarrow> int \<Rightarrow> validatorAccount \<Rightarrow> validatorAccount" where
  "va_push c tx amount va =
     (case gl_PushBack (va_txsList va) tx of (e, l) \<Rightarrow>
        va\<lparr>va_txsMap := gm_set (tx_hash c tx) e (va_txsMap va), va_txsList := l, va_amount := amount,
           va_nonce := (if tx_Type tx \<noteq> TypeMerged then va_nonce va + 1 else va_nonce va)\<rparr>)"

definition va_addTransaction :: "crypto_env \<Rightarrow> Transaction \<Rightarrow> validatorAccount \<Rightarrow> (bool \<times> validatorAccount) go" where
  "va_addTransaction c tx va =
     go_bind (amount_of tx) (\<lambda>a.
       let amount = va_amount va - a in
       if va_accepts (va_nonce va) amount tx then Ret (True, va_push c tx amount va)
       else if tx_Nonce tx > va_nonce va
         then Ret (False, va\<lparr>va_orphans := va_add_orphan tx (va_orphans va)\<rparr>)
       else Ret (False, va))"

text \<open>The loop over the orphans: the elements from the front on, the nonce it has reached, what it took
  out, the orphans that are left.\<close>

fun va_orphan_loop :: "Transaction element list \<Rightarrow> u32 \<Rightarrow> Transaction list \<Rightarrow> Transaction golist
    \<Rightarrow> Transaction list \<times> Transaction golist" where
  "va_orphan_loop [] nonce txs os = (txs, os)"
| "va_orphan_loop (e # es) nonce txs os =
     (if tx_Nonce (evalue e) < nonce then va_orphan_loop es nonce txs (gl_Remove os e)
      else if tx_Nonce (evalue e) = nonce
        then va_orphan_loop es (nonce + 1) (txs @ [evalue e]) (gl_Remove os e)
      else (txs, os))"

definition va_processOrphan :: "validatorAccount \<Rightarrow> Transaction list \<times> validatorAccount" where
  "va_processOrphan va =
     (case va_orphan_loop (elems (va_orphans va)) (va_nonce va) [] (va_orphans va) of
        (txs, os) \<Rightarrow> (txs, va\<lparr>va_orphans := os\<rparr>))"

section \<open>Looking up\<close>

definition va_hasTransaction :: "crypto_env \<Rightarrow> validatorAccount \<Rightarrow> Transaction \<Rightarrow> bool" where
  "va_hasTransaction c va tx = gm_has (va_txsMap va) (tx_hash c tx)"

definition va_getAccountTransactionSize :: "validatorAccount \<Rightarrow> nat" where
  "va_getAccountTransactionSize va = gl_Len (va_txsList va)"

definition va_getTransactionByHash :: "validatorAccount \<Rightarrow> Hash \<Rightarrow> Transaction option" where
  "va_getTransactionByHash va txHash = map_option evalue (gm_get (va_txsMap va) txHash)"

section \<open>Removing\<close>

definition va_rollbackAndRemoveTransaction :: "crypto_env \<Rightarrow> Transaction \<Rightarrow> validatorAccount \<Rightarrow> validatorAccount go" where
  "va_rollbackAndRemoveTransaction c tx va =
     (case gm_get (va_txsMap va) (tx_hash c tx) of
        None \<Rightarrow> nil_deref
      | Some storeElem \<Rightarrow>
          go_bind (amount_of tx) (\<lambda>a.
            Ret (va\<lparr>va_txsList := gl_Remove (va_txsList va) storeElem,
                    va_txsMap := gm_del (tx_hash c tx) (va_txsMap va),
                    va_amount := va_amount va + a\<rparr>)))"

text \<open>
  The loop of \<^verbatim>\<open>committedAndRemoveTransaction\<close> over the elements in front of the committed one. \<^verbatim>\<open>Prev\<close>
  of an element that was removed is nil, so the second round finds nil. The recursion is on the
  length of the list, which each completed round shortens.
\<close>

function va_commit_loop :: "crypto_env \<Rightarrow> Transaction element option \<Rightarrow> validatorAccount \<Rightarrow> validatorAccount go" where
  "va_commit_loop c None va = Ret va"
| "va_commit_loop c (Some delElem) va =
     (case gl_Prev (va_txsList va) delElem of
        None \<Rightarrow> nil_deref
      | Some priv \<Rightarrow>
          (case tx_Amount (evalue priv) of
             None \<Rightarrow> nil_deref
           | Some a \<Rightarrow>
               va_commit_loop c (Some priv)
                 (va\<lparr>va_amount := va_amount va + a, va_txsList := gl_Remove (va_txsList va) priv,
                     va_txsMap := gm_del (tx_hash c (evalue priv)) (va_txsMap va)\<rparr>)))"
  by pat_completeness auto

lemma succ_of_mem: "succ_of a xs = Some y \<Longrightarrow> y \<in> set xs"
  by (induction xs) (auto split: if_splits list.splits)

lemma gl_Remove_shorter: "e \<in> set (elems l) \<Longrightarrow> length (elems (gl_Remove l e)) < length (elems l)"
  by (simp add: elems_Remove length_filter_less)

termination va_commit_loop
  by (relation "measure (\<lambda>(c, e, va). length (elems (va_txsList va)))")
    (auto simp: gl_Prev_def intro!: gl_Remove_shorter dest: succ_of_mem)

definition va_committedAndRemoveTransaction :: "crypto_env \<Rightarrow> Transaction \<Rightarrow> validatorAccount \<Rightarrow> validatorAccount go" where
  "va_committedAndRemoveTransaction c tx va =
     (case gm_get (va_txsMap va) (tx_hash c tx) of
        Some storeElem \<Rightarrow>
          (let priv = gl_Prev (va_txsList va) storeElem
           in va_commit_loop c priv
                (va\<lparr>va_txsList := gl_Remove (va_txsList va) storeElem,
                    va_txsMap := gm_del (tx_hash c tx) (va_txsMap va)\<rparr>))
      | None \<Rightarrow>
          go_bind (amount_of tx) (\<lambda>a.
            Ret (va\<lparr>va_amount := va_amount va - a,
                    va_nonce := (if tx_Nonce tx \<ge> va_nonce va then tx_Nonce tx + 1 else va_nonce va)\<rparr>)))"

definition va_updateTransactionReceiverBalance :: "Transaction \<Rightarrow> validatorAccount \<Rightarrow> validatorAccount go" where
  "va_updateTransactionReceiverBalance tx va =
     go_bind (amount_of tx) (\<lambda>a. Ret (va\<lparr>va_amount := va_amount va + a\<rparr>))"

definition va_updateTransactionSenderBalance :: "Transaction \<Rightarrow> validatorAccount \<Rightarrow> validatorAccount go" where
  "va_updateTransactionSenderBalance tx va =
     go_bind (amount_of tx) (\<lambda>a. Ret (va\<lparr>va_amount := va_amount va - a\<rparr>))"

section \<open>Iterating\<close>

fun va_iter_loop :: "crypto_env \<Rightarrow> (Transaction \<Rightarrow> 's \<Rightarrow> bool \<times> 's) \<Rightarrow> Transaction element list \<Rightarrow> Hash \<Rightarrow> 's \<Rightarrow> Hash \<times> 's" where
  "va_iter_loop c f [] cur s = (cur, s)"
| "va_iter_loop c f (e # es) cur s =
     (case f (evalue e) s of (ok, s') \<Rightarrow>
        if \<not> ok then (cur, s') else va_iter_loop c f es (tx_hash c (evalue e)) s')"

definition va_iterTransaction :: "crypto_env \<Rightarrow> (Transaction \<Rightarrow> 's \<Rightarrow> bool \<times> 's) \<Rightarrow> validatorAccount \<Rightarrow> 's
    \<Rightarrow> validatorAccount \<times> 's" where
  "va_iterTransaction c f va s =
     (let currTxElem = (case gm_get (va_txsMap va) (va_currTxHash va) of
                          None \<Rightarrow> gl_Front (va_txsList va)
                        | Some e \<Rightarrow> gl_Next (va_txsList va) e)
      in case currTxElem of
           None \<Rightarrow> (va, s)
         | Some e \<Rightarrow>
             (case va_iter_loop c f (dropWhile (\<lambda>x. eaddr x \<noteq> eaddr e) (elems (va_txsList va))) (va_currTxHash va) s of
                (cur, s') \<Rightarrow> (va\<lparr>va_currTxHash := cur\<rparr>, s')))"

section \<open>Replacing\<close>

text \<open>\<^verbatim>\<open>int32\<close> of a length.\<close>

definition i32_len :: "nat \<Rightarrow> int" where
  "i32_len n = sint (word_of_nat n :: i32)"

text \<open>The element at which the counter, one more per element, meets \<open>k\<close>; nil if the walk ends first.\<close>

fun walk_to :: "int \<Rightarrow> int \<Rightarrow> 'a list \<Rightarrow> 'a option" where
  "walk_to k cnt [] = None"
| "walk_to k cnt (e # es) = (if cnt + 1 = k then Some e else walk_to k (cnt + 1) es)"

definition va_exception_elem :: "int \<Rightarrow> Transaction golist \<Rightarrow> Transaction element option" where
  "va_exception_elem diffNonce l =
     (if diffNonce < i32_len (gl_Len l div 2) then walk_to diffNonce 0 (rev (elems l))
      else walk_to (i32_len (gl_Len l) - diffNonce) 0 (elems l))"

lemma gl_Prev_Remove: "gl_Prev (gl_Remove l e) e = None"
  by (auto simp: gl_Prev_def elems_Remove intro!: succ_of_notin)

text \<open>
  The loop that takes transactions back from the end until the replacement is covered: whether
  it falls through (or the method returns false), and the account. A removed element has no
  \<^verbatim>\<open>Prev\<close>, and nil is not \<^verbatim>\<open>next\<close>, so the round after a removal dereferences nil.
\<close>

function va_rollback_loop :: "crypto_env \<Rightarrow> Transaction element \<Rightarrow> Transaction element option \<Rightarrow> int \<Rightarrow> validatorAccount
    \<Rightarrow> (bool \<times> validatorAccount) go" where
  "va_rollback_loop c next None amount va = nil_deref"
| "va_rollback_loop c next (Some be) amount va =
     (if eaddr be = eaddr next then Ret (True, va)
      else if tx_Nonce (evalue be) < tx_Nonce (evalue next) then Ret (False, va)
      else if amount < 0 then
        (case tx_Amount (evalue be) of
           None \<Rightarrow> nil_deref
         | Some a \<Rightarrow>
             va_rollback_loop c next (gl_Prev (gl_Remove (va_txsList va) be) be) (amount + a)
               (va\<lparr>va_txsList := gl_Remove (va_txsList va) be,
                   va_txsMap := gm_del (tx_hash c (evalue be)) (va_txsMap va)\<rparr>))
      else Ret (True, va))"
  by pat_completeness auto
termination
  by (relation "measure (\<lambda>(c, next, be, amount, va). case be of None \<Rightarrow> 0 | Some _ \<Rightarrow> 1)")
    (auto simp: gl_Prev_Remove)

definition va_replace :: "crypto_env \<Rightarrow> Transaction \<Rightarrow> Transaction element \<Rightarrow> validatorAccount \<Rightarrow> validatorAccount" where
  "va_replace c tx next va =
     (case gl_InsertAfter (va_txsList va) tx next of
        (Some e, l) \<Rightarrow>
          va\<lparr>va_txsList := gl_Remove l next,
             va_txsMap := gm_del (tx_hash c (evalue next)) (gm_set (tx_hash c tx) e (va_txsMap va))\<rparr>
      | (None, l) \<Rightarrow> va)"

definition va_checkExceptionTransaction :: "crypto_env \<Rightarrow> Transaction \<Rightarrow> validatorAccount \<Rightarrow> (bool \<times> validatorAccount) go" where
  "va_checkExceptionTransaction c tx va =
     (let diffNonce = sint (va_nonce va - tx_Nonce tx) in
      if gm_has (va_txsMap va) (tx_hash c tx) then Ret (True, va)
      else if diffNonce \<le> 0 \<or> diffNonce > i32_len (gl_Len (va_txsList va)) then Ret (False, va)
      else
        (case va_exception_elem diffNonce (va_txsList va) of
           None \<Rightarrow> nil_deref
         | Some next \<Rightarrow>
             if tx_Nonce (evalue next) \<noteq> tx_Nonce tx then Panic ''checkExceptionTransaction''
             else
               go_bind (amount_of (evalue next)) (\<lambda>oa.
               go_bind (amount_of tx) (\<lambda>a.
                 if oa > a then Ret (True, va_replace c tx next (va\<lparr>va_amount := va_amount va + (oa - a)\<rparr>))
                 else if oa < a then
                   (let amount = va_amount va + (oa - a) in
                    if amount \<ge> 0 then Ret (True, va_replace c tx next (va\<lparr>va_amount := amount\<rparr>))
                    else
                      go_bind (va_rollback_loop c next (gl_Back (va_txsList va)) amount va) (\<lambda>(ok, va').
                        if ok then Ret (True, va_replace c tx next va') else Ret (False, va')))
                 else Ret (True, va)))))"

section \<open>Invariant\<close>

definition va_txs :: "validatorAccount \<Rightarrow> Transaction list" where
  "va_txs va = gl_vals (va_txsList va)"

text \<open>The lists are well-formed, the index points to elements of the list under their hash, and the
  orphans are in order of their nonce.\<close>

definition va_inv :: "crypto_env \<Rightarrow> validatorAccount \<Rightarrow> bool" where
  "va_inv c va \<longleftrightarrow> gl_wf (va_txsList va) \<and> gl_wf (va_orphans va) \<and> gm_wf (va_txsMap va) \<and>
     (\<forall>h e. gm_get (va_txsMap va) h = Some e \<longrightarrow> e \<in> set (elems (va_txsList va)) \<and> tx_hash c (evalue e) = h) \<and>
     sorted_wrt (\<lambda>x y. tx_Nonce x \<le> tx_Nonce y) (gl_vals (va_orphans va))"

text \<open>The nonces of the accepted transactions are the numbers just below the next one.\<close>

definition va_contiguous :: "validatorAccount \<Rightarrow> bool" where
  "va_contiguous va \<longleftrightarrow> length (va_txs va) < 2 ^ 31 \<and>
     (\<forall>i < length (va_txs va). tx_Nonce (va_txs va ! i) = va_nonce va - word_of_nat (length (va_txs va) - i))"

text \<open>The balance before the accepted transactions.\<close>

definition va_total :: "validatorAccount \<Rightarrow> int" where
  "va_total va = va_amount va + sum_list (map (\<lambda>tx. case tx_Amount tx of Some a \<Rightarrow> a | None \<Rightarrow> 0) (va_txs va))"

declare split_paired_All [simp del] split_paired_Ex [simp del]

lemma va_inv_get:
  "va_inv c va \<Longrightarrow> gm_get (va_txsMap va) h = Some e \<Longrightarrow> e \<in> set (elems (va_txsList va)) \<and> tx_hash c (evalue e) = h"
  by (simp add: va_inv_def)

lemma va_inv_wf: "va_inv c va \<Longrightarrow> gl_wf (va_txsList va)"
  by (simp add: va_inv_def)

lemma va_inv_new [inv_intros, intro]: "va_inv c (newValidatorAccount amount nonce)"
  by (simp add: va_inv_def newValidatorAccount_def gl_wf_new)

lemma va_inv_amount [simp]: "va_inv c (va_amount_update f va) = va_inv c va"
  "va_inv c (va_nonce_update g va) = va_inv c va" "va_inv c (va_currTxHash_update k va) = va_inv c va"
  by (simp_all add: va_inv_def)

lemma va_txs_simps [simp]: "va_txs (va_amount_update f va) = va_txs va" "va_txs (va_nonce_update g va) = va_txs va"
  "va_txs (va_orphans_update h va) = va_txs va" "va_txs (va_txsMap_update m va) = va_txs va"
  by (simp_all add: va_txs_def)

lemma va_inv_push:
  assumes "va_inv c va"
  shows "va_inv c (va_push c tx amount va)"
  using assms gl_wf_PushBack [of "va_txsList va" tx]
  by (auto simp: va_inv_def va_push_def gl_PushBack_def Let_def gm_get_set split: if_splits)

lemma va_txs_push [simp]: "va_txs (va_push c tx amount va) = va_txs va @ [tx]"
  by (simp add: va_txs_def va_push_def gl_PushBack_def gl_vals_def Let_def)

lemma gl_Front_Remove: "gl_wf l \<Longrightarrow> gl_Front l = Some e \<Longrightarrow> gl_vals (gl_Remove l e) = tl (gl_vals l)"
  using gl_Remove_split [of l "[]" e]
  by (auto simp: gl_Front_def gl_vals_def split: list.splits)

text \<open>Where an orphan is put: behind the last one of a smaller nonce.\<close>

lemma insert_behind_sorted:
  fixes key :: "'a \<Rightarrow> 'b :: linorder"
    and v :: 'a
  assumes "gl_wf l" and "sorted_wrt (\<lambda>x y. key x \<le> key y) (gl_vals l)"
  defines "l' \<equiv> (case List.find (\<lambda>pre. key v > key (evalue pre)) (rev (elems l)) of
      Some pre \<Rightarrow> snd (gl_InsertAfter l v pre) | None \<Rightarrow> snd (gl_PushFront l v))"
  shows "gl_wf l' \<and> sorted_wrt (\<lambda>x y. key x \<le> key y) (gl_vals l') \<and>
    mset (gl_vals l') = add_mset v (mset (gl_vals l))"
proof (cases "List.find (\<lambda>pre. key v > key (evalue pre)) (rev (elems l))")
  case None
  then have "\<forall>x \<in> set (gl_vals l). key v \<le> key x"
    by (auto simp: find_None_iff gl_vals_def not_less)
  with None assms show ?thesis by (simp add: l'_def gl_wf_PushFront)
next
  case (Some e)
  then obtain as bs where e: "elems l = as @ e # bs" "key v > key (evalue e)"
    "\<forall>b \<in> set bs. \<not> key v > key (evalue b)" by (auto dest: find_rev_split)
  have l': "gl_vals l' = map evalue as @ evalue e # v # map evalue bs"
    using Some by (simp add: l'_def gl_InsertAfter_split [OF assms(1) e(1)] gl_vals_def)
  have "gl_wf l'" using Some assms(1) by (simp add: l'_def gl_wf_InsertAfter)
  moreover have "sorted_wrt (\<lambda>x y. key x \<le> key y) (gl_vals l')"
    using assms(2) e unfolding l' by (auto simp: gl_vals_def sorted_wrt_append intro: order.trans)
  moreover have "mset (gl_vals l') = add_mset v (mset (gl_vals l))"
    unfolding l' by (simp add: e(1) gl_vals_def)
  ultimately show ?thesis by blast
qed

lemma va_add_orphan_inv:
  assumes "gl_wf os" and "sorted_wrt (\<lambda>x y. tx_Nonce x \<le> tx_Nonce y) (gl_vals os)"
  shows "gl_wf (va_add_orphan tx os) \<and> sorted_wrt (\<lambda>x y. tx_Nonce x \<le> tx_Nonce y) (gl_vals (va_add_orphan tx os))"
proof (cases "gl_Len os = 0")
  case True
  with assms show ?thesis
    by (auto simp: va_add_orphan_def gl_Len_def gl_vals_def gl_PushBack_def Let_def gl_wf_def)
next
  case False
  let ?os = "if gl_Len os > MaxOrphans
    then (case gl_Front os of Some e \<Rightarrow> gl_Remove os e | None \<Rightarrow> os) else os"
  have "gl_wf ?os \<and> sorted_wrt (\<lambda>x y. tx_Nonce x \<le> tx_Nonce y) (gl_vals ?os)"
    using assms by (cases "gl_vals os")
      (auto simp: gl_Front_Remove gl_wf_Remove split: option.split)
  with False insert_behind_sorted [of ?os tx_Nonce tx] show ?thesis
    by (simp add: va_add_orphan_def Let_def)
qed

lemma va_inv_addTransaction [inv_intros]:
  assumes "va_inv c va" and "va_addTransaction c tx va = Ret (ok, va')"
  shows "va_inv c va'"
proof -
  have "va_inv c (va\<lparr>va_orphans := va_add_orphan tx (va_orphans va)\<rparr>)"
    using assms(1) va_add_orphan_inv [of "va_orphans va" tx] by (simp add: va_inv_def)
  with assms show ?thesis
    by (auto simp: va_addTransaction_def Let_def va_inv_push split: if_splits)
qed

lemma va_drop_inv:
  assumes "va_inv c va" and "gm_get (va_txsMap va) h = Some e"
  shows "va_inv c (va\<lparr>va_txsList := gl_Remove (va_txsList va) e, va_txsMap := gm_del h (va_txsMap va)\<rparr>)"
proof -
  have e: "e \<in> set (elems (va_txsList va))" "tx_hash c (evalue e) = h"
    using va_inv_get [OF assms] by simp_all
  have "eaddr e' \<noteq> eaddr e" if "gm_get (va_txsMap va) h' = Some e'" "h' \<noteq> h" for h' e'
  proof
    assume "eaddr e' = eaddr e"
    moreover have "e' \<in> set (elems (va_txsList va))" "tx_hash c (evalue e') = h'"
      using va_inv_get [OF assms(1) that(1)] by simp_all
    ultimately have "e' = e"
      using e(1) va_inv_wf [OF assms(1)] distinct_map_eqD [of eaddr "elems (va_txsList va)" e' e]
      by (simp add: gl_wf_def)
    with e that \<open>tx_hash c (evalue e') = h'\<close> show False by simp
  qed
  with assms(1) show ?thesis
    by (auto simp: va_inv_def elems_Remove gm_get_del gl_wf_Remove split: if_splits)
qed

lemma va_drop_txs:
  assumes "va_inv c va" and "gm_get (va_txsMap va) h = Some e"
  obtains xs ys where "va_txs va = xs @ evalue e # ys" and "gl_vals (gl_Remove (va_txsList va) e) = xs @ ys"
    and "gl_Prev (va_txsList va) e = None \<longleftrightarrow> xs = []"
proof -
  have "e \<in> set (elems (va_txsList va))" using va_inv_get [OF assms] by simp
  then obtain as bs where l: "elems (va_txsList va) = as @ e # bs" by (meson split_list)
  have "gl_Prev (va_txsList va) e = None \<longleftrightarrow> as = []"
    using gl_Prev_split [OF va_inv_wf [OF assms(1)] l] by (auto split: list.splits)
  with l that [of "map evalue as" "map evalue bs"] gl_Remove_split [OF va_inv_wf [OF assms(1)] l]
  show thesis by (simp add: va_txs_def gl_vals_def)
qed

lemma va_orphan_loop_spec:
  "gl_wf os \<Longrightarrow> elems os = es \<Longrightarrow>
   \<exists>txs os' dropped. va_orphan_loop es n acc os = (acc @ txs, os') \<and> gl_wf os' \<and>
     gl_vals os = dropped @ gl_vals os' \<and> set txs \<subseteq> set dropped \<and>
     (\<forall>i < length txs. tx_Nonce (txs ! i) = n + word_of_nat i) \<and>
     (\<forall>v vs. gl_vals os' = v # vs \<longrightarrow> n + word_of_nat (length txs) < tx_Nonce v)"
proof (induction es arbitrary: n acc os)
  case Nil
  then have "gl_vals os = []" by (simp add: gl_vals_def)
  with Nil show ?case by (intro exI [of _ "[]"] exI [of _ os]) simp
next
  case (Cons e es)
  have r: "elems (gl_Remove os e) = es" "gl_wf (gl_Remove os e)"
    using gl_Remove_split [of os "[]" e es] Cons.prems by (auto simp: gl_wf_Remove)
  then have rv: "gl_vals os = evalue e # gl_vals (gl_Remove os e)"
    using Cons.prems by (simp add: gl_vals_def)
  consider (stale) "tx_Nonce (evalue e) < n" | (now) "tx_Nonce (evalue e) = n" | (later) "n < tx_Nonce (evalue e)"
    by (meson linorder_cases)
  then show ?case
  proof cases
    case stale
    from Cons.IH [OF r(2,1), of n acc] obtain txs os' d where
      *: "va_orphan_loop es n acc (gl_Remove os e) = (acc @ txs, os')" "gl_wf os'"
      "gl_vals (gl_Remove os e) = d @ gl_vals os'" "set txs \<subseteq> set d"
      "\<forall>i < length txs. tx_Nonce (txs ! i) = n + word_of_nat i"
      "\<forall>v vs. gl_vals os' = v # vs \<longrightarrow> n + word_of_nat (length txs) < tx_Nonce v" by blast
    with stale rv show ?thesis
      by (intro exI [of _ txs] exI [of _ os'] exI [of _ "evalue e # d"]) auto
  next
    case now
    from Cons.IH [OF r(2,1), of "n + 1" "acc @ [evalue e]"] obtain txs os' d where
      *: "va_orphan_loop es (n + 1) (acc @ [evalue e]) (gl_Remove os e) = (acc @ evalue e # txs, os')" "gl_wf os'"
      "gl_vals (gl_Remove os e) = d @ gl_vals os'" "set txs \<subseteq> set d"
      "\<forall>i < length txs. tx_Nonce (txs ! i) = n + 1 + word_of_nat i"
      "\<forall>v vs. gl_vals os' = v # vs \<longrightarrow> n + 1 + word_of_nat (length txs) < tx_Nonce v" by auto
    then have "\<forall>i < length (evalue e # txs). tx_Nonce ((evalue e # txs) ! i) = n + word_of_nat i"
      using now by (auto simp: nth_Cons' less_Suc_eq_0_disj algebra_simps)
    with * now rv show ?thesis
      by (intro exI [of _ "evalue e # txs"] exI [of _ os'] exI [of _ "evalue e # d"])
        (auto simp: algebra_simps)
  next
    case later
    with Cons.prems rv show ?thesis
      by (intro exI [of _ "[]"] exI [of _ os]) auto
  qed
qed

lemma va_inv_processOrphan [inv_intros]:
  assumes "va_inv c va" and "va_processOrphan va = (txs, va')"
  shows "va_inv c va' \<and> va_txs va' = va_txs va \<and> va_nonce va' = va_nonce va \<and> va_amount va' = va_amount va \<and>
    set txs \<subseteq> set (gl_vals (va_orphans va)) \<and>
    (\<forall>i < length txs. tx_Nonce (txs ! i) = va_nonce va + word_of_nat i) \<and>
    (\<forall>v \<in> set (gl_vals (va_orphans va')). va_nonce va + word_of_nat (length txs) < tx_Nonce v)"
proof -
  have "gl_wf (va_orphans va)" using assms(1) by (simp add: va_inv_def)
  from va_orphan_loop_spec [OF this refl, of "va_nonce va" "[]"] obtain txs' os' d where
    *: "va_orphan_loop (elems (va_orphans va)) (va_nonce va) [] (va_orphans va) = (txs', os')" "gl_wf os'"
    "gl_vals (va_orphans va) = d @ gl_vals os'" "set txs' \<subseteq> set d"
    "\<forall>i < length txs'. tx_Nonce (txs' ! i) = va_nonce va + word_of_nat i"
    "\<forall>v vs. gl_vals os' = v # vs \<longrightarrow> va_nonce va + word_of_nat (length txs') < tx_Nonce v" by auto
  have va': "txs = txs'" "va' = va\<lparr>va_orphans := os'\<rparr>"
    using assms(2) * by (simp_all add: va_processOrphan_def)
  have s: "sorted_wrt (\<lambda>x y. tx_Nonce x \<le> tx_Nonce y) (gl_vals os')"
    using assms(1) *(3) by (simp add: va_inv_def sorted_wrt_append)
  have "va_nonce va + word_of_nat (length txs') < tx_Nonce v" if "v \<in> set (gl_vals os')" for v
    using that s *(6) by (cases "gl_vals os'") (auto intro: order.strict_trans2)
  with assms(1) * s show ?thesis
    by (auto simp: va' va_inv_def)
qed

section \<open>Balance and nonces\<close>

lemma va_total_push: "tx_Amount tx = Some a \<Longrightarrow> va_total (va_push c tx (va_amount va - a) va) = va_total va"
  unfolding va_total_def va_txs_push by (simp add: va_push_def gl_PushBack_def Let_def)

lemma va_contiguous_push:
  assumes "va_contiguous va" and "tx_Nonce tx = va_nonce va" and "tx_Type tx \<noteq> TypeMerged"
    and "Suc (length (va_txs va)) < 2 ^ 31"
  shows "va_contiguous (va_push c tx amount va)"
proof -
  let ?n = "length (va_txs va)"
  have nonce: "va_nonce (va_push c tx amount va) = va_nonce va + 1"
    using assms(3) by (simp add: va_push_def gl_PushBack_def Let_def)
  have "tx_Nonce ((va_txs va @ [tx]) ! i) = va_nonce va + 1 - word_of_nat (Suc ?n - i)" if "i < Suc ?n" for i
  proof (cases "i = ?n")
    case False
    with that have i: "i < ?n" by simp
    then have "(word_of_nat (Suc ?n - i) :: u32) = word_of_nat (?n - i) + 1"
      by (simp add: Suc_diff_le)
    with i assms(1) show ?thesis by (simp add: va_contiguous_def nth_append algebra_simps)
  qed (simp add: assms(2))
  with assms(4) show ?thesis unfolding va_contiguous_def va_txs_push nonce by simp
qed

lemma walk_to_spec:
  "walk_to k cnt xs = (if cnt < k \<and> k \<le> cnt + int (length xs) then Some (xs ! nat (k - cnt - 1)) else None)"
proof (induction xs arbitrary: cnt)
  case (Cons x xs)
  show ?case
  proof (cases "cnt + 1 = k")
    case False
    have "nat (k - cnt - 1) = Suc (nat (k - (cnt + 1) - 1))" if "cnt + 1 < k" using that by simp
    with False Cons.IH [of "cnt + 1"] show ?thesis by auto
  qed auto
qed simp

lemma i32_len_small: "n < 2 ^ 31 \<Longrightarrow> i32_len n = int n"
  by (simp add: i32_len_def signed_of_nat signed_take_bit_int_eq_self)

text \<open>The place at which an older nonce stands.\<close>

lemma va_contiguous_nth:
  assumes "va_contiguous va" and "sint (va_nonce va - tx_Nonce tx) = int k"
    and "0 < j" and "j \<le> length (va_txs va)" and "k \<le> length (va_txs va)"
  shows "tx_Nonce (va_txs va ! (length (va_txs va) - j)) = tx_Nonce tx \<longleftrightarrow> j = k"
proof -
  have len: "length (va_txs va) < 2 ^ 31" using assms(1) by (simp add: va_contiguous_def)
  have "va_nonce va - tx_Nonce tx = word_of_int (sint (va_nonce va - tx_Nonce tx))" by simp
  then have n: "tx_Nonce tx = va_nonce va - word_of_nat k"
    by (simp add: assms(2) algebra_simps)
  have "length (va_txs va) - j < length (va_txs va)" "length (va_txs va) - (length (va_txs va) - j) = j"
    using assms(3,4) by simp_all
  with assms(1) have "tx_Nonce (va_txs va ! (length (va_txs va) - j)) = va_nonce va - word_of_nat j"
    by (simp add: va_contiguous_def)
  then have "tx_Nonce (va_txs va ! (length (va_txs va) - j)) = tx_Nonce tx \<longleftrightarrow>
      (word_of_nat j :: u32) = word_of_nat k" by (simp add: n)
  also have "\<dots> \<longleftrightarrow> j = k"
  proof
    assume "(word_of_nat j :: u32) = word_of_nat k"
    then have "unat (word_of_nat j :: u32) = unat (word_of_nat k :: u32)" by (rule arg_cong)
    moreover have "j < 2 ^ 32" "k < 2 ^ 32" using len assms(4,5) by simp_all
    ultimately show "j = k" by (simp only: unat_word_of_nat_u32)
  qed simp
  finally show ?thesis .
qed

lemma rev_nth_pred: "0 < k \<Longrightarrow> k \<le> length xs \<Longrightarrow> rev xs ! (k - 1) = xs ! (length xs - k)"
  by (simp add: rev_nth)

text \<open>The walks of \<^verbatim>\<open>checkExceptionTransaction\<close> over any list.\<close>

lemma exception_walk:
  assumes "0 < k" and "k \<le> length xs"
  shows "walk_to (int k) 0 (rev xs) = Some (xs ! (length xs - k))"
    and "walk_to (int (length xs) - int k) 0 xs = (if k = length xs then None else Some (xs ! (length xs - Suc k)))"
proof -
  have "nat (int k - 0 - 1) = k - 1" by simp
  then show "walk_to (int k) 0 (rev xs) = Some (xs ! (length xs - k))"
    using assms rev_nth_pred [OF assms] by (simp add: walk_to_spec)
  have "nat (int (length xs) - int k - 0 - 1) = length xs - Suc k" by simp
  then show "walk_to (int (length xs) - int k) 0 xs = (if k = length xs then None else Some (xs ! (length xs - Suc k)))"
    using assms by (simp add: walk_to_spec)
qed

lemma va_exception_elem_spec:
  assumes "length (elems l) < 2 ^ 31" and "0 < k" and "k \<le> length (elems l)"
  shows "va_exception_elem (int k) l =
    (if k < length (elems l) div 2 then Some (elems l ! (length (elems l) - k))
     else if k = length (elems l) then None
     else Some (elems l ! (length (elems l) - Suc k)))"
proof -
  have "length (elems l) div 2 < 2 ^ 31" using assms(1) by simp
  then show ?thesis
    using assms exception_walk [OF assms(2,3)]
    by (simp add: va_exception_elem_def gl_Len_def i32_len_small)
qed

lemma va_inv_update:
  "va_inv c va \<Longrightarrow> gl_wf l \<Longrightarrow> gm_wf m \<Longrightarrow>
    \<forall>h e. gm_get m h = Some e \<longrightarrow> e \<in> set (elems l) \<and> tx_hash c (evalue e) = h \<Longrightarrow>
    va_inv c (va\<lparr>va_txsList := l, va_txsMap := m\<rparr>)"
  by (simp add: va_inv_def)

lemma va_replace_spec:
  assumes "va_inv c va" and "elems (va_txsList va) = as @ next # bs" and "tx_hash c tx \<noteq> tx_hash c (evalue next)"
  shows "va_inv c (va_replace c tx next va) \<and>
    va_txs (va_replace c tx next va) = map evalue as @ tx # map evalue bs \<and>
    va_amount (va_replace c tx next va) = va_amount va \<and> va_nonce (va_replace c tx next va) = va_nonce va \<and>
    gm_has (va_txsMap (va_replace c tx next va)) (tx_hash c tx)"
proof -
  let ?l = "va_txsList va" and ?e = "(fresh (va_txsList va), tx)"
  let ?l1 = "?l\<lparr>elems := as @ next # ?e # bs, fresh := Suc (fresh ?l)\<rparr>"
  have wf: "gl_wf ?l" by (rule va_inv_wf [OF assms(1)])
  have ins: "gl_InsertAfter ?l tx next = (Some ?e, ?l1)"
    by (rule gl_InsertAfter_split [OF wf assms(2)])
  have wf1: "gl_wf ?l1" using gl_wf_InsertAfter [OF wf, of tx "next"] by (simp add: ins)
  have rem: "elems (gl_Remove ?l1 next) = as @ ?e # bs"
    by (rule gl_Remove_split [OF wf1]) simp
  have r: "va_replace c tx next va = va\<lparr>va_txsList := gl_Remove ?l1 next,
      va_txsMap := gm_del (tx_hash c (evalue next)) (gm_set (tx_hash c tx) ?e (va_txsMap va))\<rparr>"
    by (simp add: va_replace_def ins)
  have map: "e' \<in> set (as @ ?e # bs) \<and> tx_hash c (evalue e') = h"
    if "gm_get (gm_del (tx_hash c (evalue next)) (gm_set (tx_hash c tx) ?e (va_txsMap va))) h = Some e'" for h e'
  proof (cases "h = tx_hash c tx")
    case True
    with that assms(3) show ?thesis by (auto simp: gm_get_del)
  next
    case False
    with that have "gm_get (va_txsMap va) h = Some e'" "h \<noteq> tx_hash c (evalue next)"
      by (simp_all add: gm_get_del gm_get_set split: if_splits)
    with va_inv_get [OF assms(1)] assms(2) show ?thesis by fastforce
  qed
  let ?m = "gm_del (tx_hash c (evalue next)) (gm_set (tx_hash c tx) ?e (va_txsMap va))"
  have m1: "gm_wf ?m" using assms(1) by (intro gm_wf_del gm_wf_set) (simp add: va_inv_def)
  have m2: "\<forall>h e'. gm_get ?m h = Some e' \<longrightarrow> e' \<in> set (elems (gl_Remove ?l1 next)) \<and> tx_hash c (evalue e') = h"
    unfolding rem using map by blast
  have "va_inv c (va_replace c tx next va)"
    unfolding r by (rule va_inv_update [OF assms(1) gl_wf_Remove [OF wf1] m1 m2])
  then show ?thesis
    using assms(3) unfolding r by (simp add: va_txs_def gl_vals_def rem)
qed

lemma va_total_replace:
  assumes "va_txs va = xs @ otx # ys" and "va_txs va' = xs @ tx # ys"
    and "tx_Amount otx = Some oa" and "tx_Amount tx = Some a" and "va_amount va' = va_amount va + (oa - a)"
  shows "va_total va' = va_total va"
  using assms by (simp add: va_total_def)

text \<open>Every accepted transaction is in the index.\<close>

definition va_indexed :: "crypto_env \<Rightarrow> validatorAccount \<Rightarrow> bool" where
  "va_indexed c va \<longleftrightarrow> (\<forall>tx \<in> set (va_txs va). va_hasTransaction c va tx)"

text \<open>In the newer half the method gets to the transaction of the same nonce.\<close>

lemma checkException_newer_start:
  assumes "va_contiguous va" and "\<not> va_hasTransaction c va tx"
    and "sint (va_nonce va - tx_Nonce tx) = int k" and "0 < k" and "k < length (va_txs va) div 2"
    and "tx_Amount tx = Some a" and "tx_Amount (va_txs va ! (length (va_txs va) - k)) = Some oa"
  obtains as nx bs where "elems (va_txsList va) = as @ nx # bs" and "length as = length (va_txs va) - k"
    and "evalue nx = va_txs va ! (length (va_txs va) - k)" and "tx_Nonce (evalue nx) = tx_Nonce tx"
    and "va_checkExceptionTransaction c tx va =
      (if oa > a then Ret (True, va_replace c tx nx (va\<lparr>va_amount := va_amount va + (oa - a)\<rparr>))
       else if oa < a then
         (let amount = va_amount va + (oa - a) in
          if amount \<ge> 0 then Ret (True, va_replace c tx nx (va\<lparr>va_amount := amount\<rparr>))
          else go_bind (va_rollback_loop c nx (gl_Back (va_txsList va)) amount va) (\<lambda>(ok, va').
                 if ok then Ret (True, va_replace c tx nx va') else Ret (False, va')))
       else Ret (True, va))"
proof -
  let ?n = "length (va_txs va)" and ?es = "elems (va_txsList va)"
  have n: "length ?es = ?n" by (simp add: va_txs_def gl_vals_def)
  have len: "?n < 2 ^ 31" using assms(1) by (simp add: va_contiguous_def)
  have k: "k \<le> ?n" "?n - k < ?n" using assms(4,5) by simp_all
  let ?nx = "?es ! (?n - k)"
  have el: "va_exception_elem (int k) (va_txsList va) = Some ?nx"
    using va_exception_elem_spec [of "va_txsList va" k] assms(4,5) k len n by simp
  have ev: "evalue ?nx = va_txs va ! (?n - k)"
    using n k by (metis gl_vals_def nth_map va_txs_def)
  have no: "tx_Nonce (evalue ?nx) = tx_Nonce tx"
    using va_contiguous_nth [OF assms(1,3), of k] assms(4) k ev by simp
  have sp: "?es = take (?n - k) ?es @ ?nx # drop (Suc (?n - k)) ?es"
    using k n by (simp add: id_take_nth_drop)
  show thesis
  proof (rule that [OF sp _ ev no])
    show "length (take (?n - k) ?es) = ?n - k" using n by simp
  qed (use assms(2-4,6,7) k len n el ev no in
      \<open>simp add: va_checkExceptionTransaction_def va_hasTransaction_def Let_def gl_Len_def i32_len_small amount_of_def\<close>)
qed

lemma map_evalue_split:
  assumes "elems l = as @ nx # bs" and "length as = i"
  shows "gl_vals l = map evalue as @ evalue nx # map evalue bs"
    and "map evalue as @ tx # map evalue bs = (gl_vals l)[i := tx]"
  using assms by (simp_all add: gl_vals_def list_update_append)

text \<open>Sample accounts: \<open>n\<close> pending transactions of amount 1 with the nonces 1, ..., \<open>n\<close>.\<close>

definition sample_tx :: "nat \<Rightarrow> u32 \<Rightarrow> int \<Rightarrow> Transaction" where
  "sample_tx p nonce amount =
     (NewTransaction p [0] [0] TypeAtomic nonce zero_addr zero_addr (Some amount) (Some 0) 0)
       \<lparr>tx_hash_cache := Some (replicate 32 (word_of_nat p))\<rparr>"

definition sample_va :: "crypto_env \<Rightarrow> nat \<Rightarrow> validatorAccount" where
  "sample_va c n = fold (\<lambda>i va. va_push c (sample_tx i (word_of_nat i) 1) (va_amount va - 1) va)
     [1 ..< Suc n] (newValidatorAccount 10 0)"

lemma sample_tx_simps [simp]:
  "tx_hash c (sample_tx p nonce amount) = replicate 32 (word_of_nat p)" "tx_Nonce (sample_tx p nonce amount) = nonce"
  "tx_Amount (sample_tx p nonce amount) = Some amount" "tx_Type (sample_tx p nonce amount) = TypeAtomic"
  by (simp_all add: sample_tx_def NewTransaction_def tx_Hash_def)

lemma sample_va_Suc:
  "sample_va c (Suc n) = va_push c (sample_tx (Suc n) (word_of_nat (Suc n)) 1) (va_amount (sample_va c n) - 1) (sample_va c n)"
  by (simp add: sample_va_def)

lemma sample_va_0: "sample_va c 0 = newValidatorAccount 10 0"
  by (simp add: sample_va_def)

lemma sample_va_inv: "va_inv c (sample_va c n)"
  by (induction n) (simp_all add: sample_va_0 sample_va_Suc va_inv_push va_inv_new)

lemma va_txs_new: "va_txs (newValidatorAccount amount nonce) = []"
  by (simp add: va_txs_def newValidatorAccount_def)

lemma sample_va_txs: "va_txs (sample_va c n) = map (\<lambda>i. sample_tx i (word_of_nat i) 1) [1 ..< Suc n]"
  by (induction n) (simp_all add: sample_va_0 sample_va_Suc va_txs_new)

lemma sample_va_fields:
  "va_nonce (sample_va c n) = word_of_nat (Suc n)" "va_amount (sample_va c n) = 10 - int n"
  by (induction n) (simp_all add: sample_va_0 sample_va_Suc newValidatorAccount_def va_push_def gl_PushBack_def
      Let_def Type_defs)

lemma sample_va_has: "va_hasTransaction c (sample_va c n) tx \<longleftrightarrow> (\<exists>i. 1 \<le> i \<and> i \<le> n \<and> tx_hash c tx = replicate 32 (word_of_nat i))"
proof (induction n)
  case (Suc n)
  then show ?case
    by (auto simp: sample_va_Suc va_hasTransaction_def va_push_def gl_PushBack_def Let_def le_Suc_eq)
qed (simp add: sample_va_0 newValidatorAccount_def va_hasTransaction_def)

lemma sample_va_indexed: "va_indexed c (sample_va c n)"
  by (auto simp: va_indexed_def sample_va_txs sample_va_has simp del: upt_Suc)

lemma sample_va_contiguous: "n < 2 ^ 31 \<Longrightarrow> va_contiguous (sample_va c n)"
  by (auto simp: va_contiguous_def sample_va_txs sample_va_fields nth_append simp del: upt_Suc)

lemma sample_va_get:
  assumes "1 \<le> i" and "i \<le> n" and "n < 256"
  obtains e where "gm_get (va_txsMap (sample_va c n)) (replicate 32 (word_of_nat i)) = Some e"
    and "evalue e = sample_tx i (word_of_nat i) 1"
proof -
  have "va_hasTransaction c (sample_va c n) (sample_tx i 0 0)"
    using assms by (auto simp: sample_va_has)
  then obtain e where e: "gm_get (va_txsMap (sample_va c n)) (replicate 32 (word_of_nat i)) = Some e"
    by (auto simp: va_hasTransaction_def gm_has_def)
  have "e \<in> set (elems (va_txsList (sample_va c n)))" and h: "tx_hash c (evalue e) = replicate 32 (word_of_nat i)"
    using va_inv_get [OF sample_va_inv e] by simp_all
  then have "evalue e \<in> set (va_txs (sample_va c n))" by (simp add: va_txs_def gl_vals_def)
  then obtain j where j: "1 \<le> j" "j \<le> n" "evalue e = sample_tx j (word_of_nat j) 1"
    by (auto simp: sample_va_txs simp del: upt_Suc)
  with h have "(word_of_nat j :: u8) = word_of_nat i" by simp
  then have "unat (word_of_nat j :: u8) = unat (word_of_nat i :: u8)" by (rule arg_cong)
  then have "j = i" using j assms by (simp add: unat_byte)
  with e j that show thesis by simp
qed

lemma sample_va_hasnt:
  assumes "n < p" and "p < 256"
  shows "\<not> va_hasTransaction c (sample_va c n) (sample_tx p nonce amount)"
proof
  assume "va_hasTransaction c (sample_va c n) (sample_tx p nonce amount)"
  then obtain i where i: "i \<le> n" "(word_of_nat p :: u8) = word_of_nat i" by (auto simp: sample_va_has)
  then have "unat (word_of_nat p :: u8) = unat (word_of_nat i :: u8)" by simp
  with i(1) assms show False by (simp add: unat_byte)
qed

lemmas sample_simps = sample_va_txs sample_va_fields sample_va_has

section \<open>Properties of an account\<close>



text \<open>The orphans that \<^verbatim>\<open>processOrphan\<close> releases carry consecutive nonces from the next one on, and every orphan
  it leaves has a nonce beyond them; nothing else of the account changes.\<close>

theorem processOrphan_spec:
  assumes "va_inv c va" and "va_processOrphan va = (txs, va')"
  shows "va_inv c va' \<and> va_txs va' = va_txs va \<and> va_nonce va' = va_nonce va \<and> va_amount va' = va_amount va \<and>
    set txs \<subseteq> set (gl_vals (va_orphans va)) \<and>
    (\<forall>i < length txs. tx_Nonce (txs ! i) = va_nonce va + word_of_nat i) \<and>
    (\<forall>v \<in> set (gl_vals (va_orphans va')). va_nonce va + word_of_nat (length txs) < tx_Nonce v)"
  by (rule va_inv_processOrphan [OF assms])

theorem processOrphan_spec_witness:
  "\<exists>va'. va_processOrphan ((newValidatorAccount 10 0)\<lparr>va_orphans := snd (gl_PushBack gl_new (sample_tx 1 1 4))\<rparr>) =
     ([sample_tx 1 1 4], va') \<and> (\<forall>v \<in> set (gl_vals (va_orphans va')). 1 + 1 < tx_Nonce v)"
proof -
  let ?va = "(newValidatorAccount 10 0)\<lparr>va_orphans := snd (gl_PushBack gl_new (sample_tx 1 1 4))\<rparr>"
  have i: "\<And>c. va_inv c ?va"
    using gl_wf_PushBack [OF gl_wf_new] by (simp add: va_inv_def newValidatorAccount_def)
  have "fst (va_processOrphan ?va) = [sample_tx 1 1 4]"
    by (simp add: va_processOrphan_def newValidatorAccount_def gl_PushBack_def gl_new_def Let_def)
  then obtain va' where r: "va_processOrphan ?va = ([sample_tx 1 1 4], va')" by (metis prod.collapse)
  from processOrphan_spec [OF i r] have "\<forall>v \<in> set (gl_vals (va_orphans va')). 1 + 1 < tx_Nonce v"
    by (simp add: newValidatorAccount_def)
  with r show ?thesis by blast
qed

text \<open>C40: removing a committed transaction works only when it is the oldest pending one: then it leaves the list
  and the balance stays. If anything is pending in front of it the loop runs into a nil element
  and panics.\<close>

theorem committedAndRemove_spec:
  assumes "va_inv c va" and "gm_get (va_txsMap va) (tx_hash c tx) = Some e"
  shows "(\<exists>ys. va_txs va = evalue e # ys \<and> gl_Prev (va_txsList va) e = None \<and>
        (\<exists>va'. va_committedAndRemoveTransaction c tx va = Ret va' \<and> va_inv c va' \<and> va_txs va' = ys \<and>
           va_amount va' = va_amount va \<and> va_nonce va' = va_nonce va \<and> \<not> va_hasTransaction c va' tx)) \<or>
    (\<exists>x xs ys. va_txs va = x # xs @ evalue e # ys \<and>
        va_committedAndRemoveTransaction c tx va = Panic ''nil pointer dereference'')"
proof -
  let ?va1 = "va\<lparr>va_txsList := gl_Remove (va_txsList va) e, va_txsMap := gm_del (tx_hash c tx) (va_txsMap va)\<rparr>"
  have inv1: "va_inv c ?va1" by (rule va_drop_inv [OF assms])
  obtain xs ys where v: "va_txs va = xs @ evalue e # ys" "gl_vals (gl_Remove (va_txsList va) e) = xs @ ys"
    and p: "gl_Prev (va_txsList va) e = None \<longleftrightarrow> xs = []"
    by (rule va_drop_txs [OF assms])
  have start: "va_committedAndRemoveTransaction c tx va = va_commit_loop c (gl_Prev (va_txsList va) e) ?va1"
    using assms(2) by (simp add: va_committedAndRemoveTransaction_def Let_def)
  show ?thesis
  proof (cases xs)
    case Nil
    with v p inv1 start show ?thesis by (simp add: va_txs_def va_hasTransaction_def)
  next
    case (Cons x xs')
    with p obtain d where d: "gl_Prev (va_txsList va) e = Some d" by auto
    have "va_commit_loop c (Some d) ?va1 = nil_deref"
      by (simp add: gl_Prev_Remove nil_deref_def split: option.split)
    with Cons v d start show ?thesis by (auto simp: nil_deref_def)
  qed
qed

theorem committedAndRemove_spec_witness:
  "\<forall>c. va_committedAndRemoveTransaction c (sample_tx 2 2 1) (sample_va c 2) = Panic ''nil pointer dereference''"
proof
  fix c
  obtain e where e: "gm_get (va_txsMap (sample_va c 2)) (replicate 32 (word_of_nat 2)) = Some e"
    "evalue e = sample_tx 2 2 1" by (rule sample_va_get [of 2 2]) auto
  then have "gm_get (va_txsMap (sample_va c 2)) (tx_hash c (sample_tx 2 2 1)) = Some e" by simp
  from committedAndRemove_spec [OF sample_va_inv this] e(2)
  show "va_committedAndRemoveTransaction c (sample_tx 2 2 1) (sample_va c 2) = Panic ''nil pointer dereference''"
    by (auto simp: sample_va_txs upt_rec sample_tx_def NewTransaction_def)
qed

text \<open>A replacement for a pending transaction is looked up correctly only in the newer half. If its nonce
  belongs to the older half (or is the oldest), the forward walk stops one element early and the
  method panics.\<close>

theorem checkException_older_half_panics:
  assumes "va_inv c va" and "va_contiguous va" and "\<not> va_hasTransaction c va tx"
    and "sint (va_nonce va - tx_Nonce tx) = int k" and "0 < k" and "k \<le> length (va_txs va)"
    and "length (va_txs va) div 2 \<le> k"
  shows "\<exists>msg. va_checkExceptionTransaction c tx va = Panic msg"
proof -
  let ?n = "length (va_txs va)"
  have n: "length (elems (va_txsList va)) = ?n" by (simp add: va_txs_def gl_vals_def)
  have len: "?n < 2 ^ 31" using assms(2) by (simp add: va_contiguous_def)
  have el: "va_exception_elem (int k) (va_txsList va) =
      (if k = ?n then None else Some (elems (va_txsList va) ! (?n - Suc k)))"
    using va_exception_elem_spec [of "va_txsList va" k] assms(5-7) len n by simp
  have start: "va_checkExceptionTransaction c tx va =
      (case va_exception_elem (int k) (va_txsList va) of None \<Rightarrow> nil_deref
       | Some nx \<Rightarrow> va_checkExceptionTransaction c tx va)"
    if "va_exception_elem (int k) (va_txsList va) = None"
    using that assms(3-6) len n
    by (simp add: va_checkExceptionTransaction_def va_hasTransaction_def Let_def gl_Len_def i32_len_small)
  show ?thesis
  proof (cases "k = ?n")
    case True
    with el start show ?thesis by (auto simp: nil_deref_def)
  next
    case False
    then have "Suc k \<le> ?n" using assms(6) by simp
    with va_contiguous_nth [OF assms(2,4), of "Suc k"] assms(6)
    have ne: "tx_Nonce (va_txs va ! (?n - Suc k)) \<noteq> tx_Nonce tx" by simp
    have "?n - Suc k < ?n" using \<open>Suc k \<le> ?n\<close> by simp
    then have "evalue (elems (va_txsList va) ! (?n - Suc k)) = va_txs va ! (?n - Suc k)"
      using n by (metis gl_vals_def nth_map va_txs_def)
    with ne el False assms(3-6) len n show ?thesis
      by (simp add: va_checkExceptionTransaction_def va_hasTransaction_def Let_def gl_Len_def i32_len_small)
  qed
qed

theorem checkException_older_half_panics_witness:
  "\<forall>c. \<exists>msg. va_checkExceptionTransaction c (sample_tx 9 1 1) (sample_va c 2) = Panic msg"
proof
  fix c
  have nh: "\<not> va_hasTransaction c (sample_va c 2) (sample_tx 9 1 1)"
    by (rule sample_va_hasnt) simp_all
  from checkException_older_half_panics [OF sample_va_inv sample_va_contiguous nh, of 2]
  show "\<exists>msg. va_checkExceptionTransaction c (sample_tx 9 1 1) (sample_va c 2) = Panic msg"
    by (auto simp: sample_simps)
qed

text \<open>In the newer half a replacement that the balance covers takes the place of the pending transaction of
  its nonce (nothing changes if the amounts agree), and balance plus pending amounts stay the same.\<close>

theorem checkException_newer_half:
  assumes "va_inv c va" and "va_contiguous va" and "va_indexed c va" and "\<not> va_hasTransaction c va tx"
    and "sint (va_nonce va - tx_Nonce tx) = int k" and "0 < k" and "k < length (va_txs va) div 2"
    and "tx_Amount tx = Some a" and "tx_Amount (va_txs va ! (length (va_txs va) - k)) = Some oa"
    and "0 \<le> va_amount va + (oa - a)"
  shows "\<exists>va'. va_checkExceptionTransaction c tx va = Ret (True, va') \<and> va_inv c va' \<and>
    va_total va' = va_total va \<and> va_nonce va' = va_nonce va \<and>
    va_txs va' = (if a = oa then va_txs va else (va_txs va)[length (va_txs va) - k := tx])"
proof -
  obtain as nx bs where e: "elems (va_txsList va) = as @ nx # bs" "length as = length (va_txs va) - k"
    "evalue nx = va_txs va ! (length (va_txs va) - k)"
    and r: "va_checkExceptionTransaction c tx va =
      (if oa > a then Ret (True, va_replace c tx nx (va\<lparr>va_amount := va_amount va + (oa - a)\<rparr>))
       else if oa < a then
         (let amount = va_amount va + (oa - a) in
          if amount \<ge> 0 then Ret (True, va_replace c tx nx (va\<lparr>va_amount := amount\<rparr>))
          else go_bind (va_rollback_loop c nx (gl_Back (va_txsList va)) amount va) (\<lambda>(ok, va').
                 if ok then Ret (True, va_replace c tx nx va') else Ret (False, va')))
       else Ret (True, va))"
    by (rule checkException_newer_start [OF assms(2,4-9)])
  show ?thesis
  proof (cases "a = oa")
    case True
    with r assms(1) show ?thesis by simp
  next
    case False
    let ?va1 = "va\<lparr>va_amount := va_amount va + (oa - a)\<rparr>"
    have vs: "va_txs va = map evalue as @ evalue nx # map evalue bs"
      "map evalue as @ tx # map evalue bs = (va_txs va)[length (va_txs va) - k := tx]"
      using map_evalue_split [OF e(1,2)] by (simp_all add: va_txs_def)
    have "tx_hash c tx \<noteq> tx_hash c (evalue nx)"
      using assms(3,4) vs(1) by (auto simp: va_indexed_def va_hasTransaction_def)
    from va_replace_spec [of c ?va1 as nx bs, OF _ _ this] assms(1) e(1)
    have s: "va_inv c (va_replace c tx nx ?va1)"
      "va_txs (va_replace c tx nx ?va1) = map evalue as @ tx # map evalue bs"
      "va_amount (va_replace c tx nx ?va1) = va_amount va + (oa - a)"
      "va_nonce (va_replace c tx nx ?va1) = va_nonce va" by simp_all
    have "va_total (va_replace c tx nx ?va1) = va_total va"
      by (rule va_total_replace [OF vs(1) s(2) _ assms(8) s(3)]) (simp add: e(3) assms(9))
    moreover have "va_checkExceptionTransaction c tx va = Ret (True, va_replace c tx nx ?va1)"
      using r False assms(10) by (auto simp: Let_def)
    ultimately show ?thesis using s vs(2) False by simp
  qed
qed

theorem checkException_newer_half_witness:
  "\<forall>c. \<exists>va'. va_checkExceptionTransaction c (sample_tx 9 4 2) (sample_va c 4) = Ret (True, va') \<and>
     va_total va' = va_total (sample_va c 4) \<and> va_txs va' ! 3 = sample_tx 9 4 2"
proof
  fix c
  have nh: "\<not> va_hasTransaction c (sample_va c 4) (sample_tx 9 4 2)"
    by (rule sample_va_hasnt) simp_all
  from checkException_newer_half [OF sample_va_inv sample_va_contiguous sample_va_indexed nh, of 1 2 1]
  show "\<exists>va'. va_checkExceptionTransaction c (sample_tx 9 4 2) (sample_va c 4) = Ret (True, va') \<and>
     va_total va' = va_total (sample_va c 4) \<and> va_txs va' ! 3 = sample_tx 9 4 2"
    by (auto simp: sample_simps)
qed

text \<open>A replacement that the balance does not cover is handled wrongly. In place of the newest transaction
  it is accepted without being charged; in place of an older one the method panics (or refuses, if
  the nonces have wrapped around).\<close>

theorem checkException_underfunded:
  assumes "va_inv c va" and "va_contiguous va" and "va_indexed c va" and "\<not> va_hasTransaction c va tx"
    and "sint (va_nonce va - tx_Nonce tx) = int k" and "0 < k" and "k < length (va_txs va) div 2"
    and "tx_Amount tx = Some a" and "tx_Amount (va_txs va ! (length (va_txs va) - k)) = Some oa"
    and "va_amount va + (oa - a) < 0" and "0 \<le> va_amount va"
  shows "(k = 1 \<longrightarrow> (\<exists>va'. va_checkExceptionTransaction c tx va = Ret (True, va') \<and>
        va_txs va' = (va_txs va)[length (va_txs va) - 1 := tx] \<and> va_amount va' = va_amount va \<and>
        va_total va' = va_total va + (a - oa))) \<and>
    (k \<noteq> 1 \<longrightarrow> va_checkExceptionTransaction c tx va =
        (if tx_Nonce (last (va_txs va)) < tx_Nonce tx then Ret (False, va) else Panic ''nil pointer dereference''))"
proof -
  obtain as nx bs where e: "elems (va_txsList va) = as @ nx # bs" "length as = length (va_txs va) - k"
    "evalue nx = va_txs va ! (length (va_txs va) - k)" "tx_Nonce (evalue nx) = tx_Nonce tx"
    and r: "va_checkExceptionTransaction c tx va =
      (if oa > a then Ret (True, va_replace c tx nx (va\<lparr>va_amount := va_amount va + (oa - a)\<rparr>))
       else if oa < a then
         (let amount = va_amount va + (oa - a) in
          if amount \<ge> 0 then Ret (True, va_replace c tx nx (va\<lparr>va_amount := amount\<rparr>))
          else go_bind (va_rollback_loop c nx (gl_Back (va_txsList va)) amount va) (\<lambda>(ok, va').
                 if ok then Ret (True, va_replace c tx nx va') else Ret (False, va')))
       else Ret (True, va))"
    by (rule checkException_newer_start [OF assms(2,4-9)])
  have n: "length (va_txs va) = length as + Suc (length bs)"
    using e(1) by (simp add: va_txs_def gl_vals_def)
  then have lb: "Suc (length bs) = k" using e(2) assms(7) by linarith
  have r': "va_checkExceptionTransaction c tx va =
      go_bind (va_rollback_loop c nx (gl_Back (va_txsList va)) (va_amount va + (oa - a)) va) (\<lambda>(ok, va').
        if ok then Ret (True, va_replace c tx nx va') else Ret (False, va'))"
    using r assms(10,11) by (auto simp: Let_def)
  have vs: "va_txs va = map evalue as @ evalue nx # map evalue bs"
    "map evalue as @ tx # map evalue bs = (va_txs va)[length (va_txs va) - k := tx]"
    using map_evalue_split [OF e(1,2)] by (simp_all add: va_txs_def)
  show ?thesis
  proof (intro conjI impI)
    assume k: "k = 1"
    then have "bs = []" using lb by simp
    then have "gl_Back (va_txsList va) = Some nx" using e(1) by (simp add: gl_Back_def)
    then have c: "va_checkExceptionTransaction c tx va = Ret (True, va_replace c tx nx va)"
      using r' by simp
    have "tx_hash c tx \<noteq> tx_hash c (evalue nx)"
      using assms(3,4) vs(1) by (auto simp: va_indexed_def va_hasTransaction_def)
    from va_replace_spec [OF assms(1) e(1) this]
    have s: "va_txs (va_replace c tx nx va) = map evalue as @ tx # map evalue bs"
      "va_amount (va_replace c tx nx va) = va_amount va" by simp_all
    have "tx_Amount (evalue nx) = Some oa" using assms(9) e(3) by simp
    then have "va_total (va_replace c tx nx va) = va_total va + (a - oa)"
      unfolding va_total_def s vs(1) by (simp add: assms(8))
    then show "\<exists>va'. va_checkExceptionTransaction c tx va = Ret (True, va') \<and>
        va_txs va' = (va_txs va)[length (va_txs va) - 1 := tx] \<and> va_amount va' = va_amount va \<and>
        va_total va' = va_total va + (a - oa)"
      using c s vs(2) k by (intro exI [of _ "va_replace c tx nx va"]) simp
  next
    assume "k \<noteq> 1"
    then obtain cs y where bs: "bs = cs @ [y]" using lb by (cases bs rule: rev_cases) auto
    have bk: "gl_Back (va_txsList va) = Some y" and lt: "last (va_txs va) = evalue y"
      using e(1) vs(1) bs by (simp_all add: gl_Back_def)
    have "eaddr y \<noteq> eaddr nx"
      using va_inv_wf [OF assms(1)] e(1) bs by (auto simp: gl_wf_def)
    then show "va_checkExceptionTransaction c tx va =
        (if tx_Nonce (last (va_txs va)) < tx_Nonce tx then Ret (False, va) else Panic ''nil pointer dereference'')"
      using assms(10) e(4) by (simp add: r' bk lt gl_Prev_Remove nil_deref_def split: option.split)
  qed
qed

theorem checkException_underfunded_witness:
  "\<forall>c. \<exists>va'. va_checkExceptionTransaction c (sample_tx 9 4 100) (sample_va c 4) = Ret (True, va') \<and>
     va_amount va' = va_amount (sample_va c 4) \<and> va_total va' = va_total (sample_va c 4) + 99"
proof
  fix c
  have nh: "\<not> va_hasTransaction c (sample_va c 4) (sample_tx 9 4 100)"
    by (rule sample_va_hasnt) simp_all
  from checkException_underfunded [OF sample_va_inv sample_va_contiguous sample_va_indexed nh, of 1 100 1]
  show "\<exists>va'. va_checkExceptionTransaction c (sample_tx 9 4 100) (sample_va c 4) = Ret (True, va') \<and>
     va_amount va' = va_amount (sample_va c 4) \<and> va_total va' = va_total (sample_va c 4) + 99"
    by (auto simp: sample_simps)
qed

text \<open>Rolling a pending transaction back returns its amount but leaves the next nonce where it was, so the
  same transaction, given again, is refused and not even kept as an orphan.\<close>

theorem rollback_strands_nonce:
  assumes "va_inv c va" and "gm_get (va_txsMap va) (tx_hash c tx) = Some e" and "evalue e = tx"
    and "tx_Amount tx = Some a" and "tx_Type tx = TypeAtomic" and "tx_Nonce tx < va_nonce va"
  shows "\<exists>va'. va_rollbackAndRemoveTransaction c tx va = Ret va' \<and> va_inv c va' \<and>
    va_amount va' = va_amount va + a \<and> va_total va' = va_total va \<and> \<not> va_hasTransaction c va' tx \<and>
    va_addTransaction c tx va' = Ret (False, va')"
proof -
  let ?va1 = "va\<lparr>va_txsList := gl_Remove (va_txsList va) e, va_txsMap := gm_del (tx_hash c tx) (va_txsMap va)\<rparr>"
  let ?va2 = "?va1\<lparr>va_amount := va_amount va + a\<rparr>"
  have "va_rollbackAndRemoveTransaction c tx va = Ret ?va2"
    using assms(2,4) by (simp add: va_rollbackAndRemoveTransaction_def amount_of_def)
  moreover have "va_inv c ?va2"
    using va_drop_inv [OF assms(1,2)] by simp
  moreover obtain xs ys where "va_txs va = xs @ evalue e # ys" "gl_vals (gl_Remove (va_txsList va) e) = xs @ ys"
    by (rule va_drop_txs [OF assms(1,2)])
  then have "va_total ?va2 = va_total va"
    using assms(3,4) by (simp add: va_total_def) (simp add: va_txs_def)
  moreover have "va_addTransaction c tx ?va2 = Ret (False, ?va2)"
    using assms(4-6) by (auto simp: va_addTransaction_def amount_of_def va_accepts_def Type_defs Let_def)
  ultimately show ?thesis
    by (intro exI [of _ ?va2]) (simp add: va_hasTransaction_def)
qed

theorem rollback_strands_nonce_witness:
  "\<forall>c. \<exists>va'. va_rollbackAndRemoveTransaction c (sample_tx 2 2 1) (sample_va c 2) = Ret va' \<and> va_amount va' = 9 \<and>
     va_addTransaction c (sample_tx 2 2 1) va' = Ret (False, va')"
proof
  fix c
  obtain e where e: "gm_get (va_txsMap (sample_va c 2)) (replicate 32 (word_of_nat 2)) = Some e"
    "evalue e = sample_tx 2 2 1" by (rule sample_va_get [of 2 2]) auto
  then have g: "gm_get (va_txsMap (sample_va c 2)) (tx_hash c (sample_tx 2 2 1)) = Some e" by simp
  have "tx_Nonce (sample_tx 2 2 1) < va_nonce (sample_va c 2)" by (simp add: sample_simps)
  from rollback_strands_nonce [OF sample_va_inv g e(2) _ _ this, of 1]
  show "\<exists>va'. va_rollbackAndRemoveTransaction c (sample_tx 2 2 1) (sample_va c 2) = Ret va' \<and> va_amount va' = 9 \<and>
     va_addTransaction c (sample_tx 2 2 1) va' = Ret (False, va')"
    by (auto simp: sample_simps)
qed

text \<open>A transaction whose type is none of the known ones is only logged as an error and then accepted, with
  any nonce and without the balance covering it.\<close>

theorem unknown_type_accepted:
  assumes "tx_Amount tx = Some a" and "tx_Type tx > TypeContractInvoke"
  shows "va_addTransaction c tx va = Ret (True, va_push c tx (va_amount va - a) va)"
proof -
  have "tx_Type tx \<notin> {TypeMerged, TypeIssue, TypeAcrossChain, TypeDistribut, TypeBackfront,
      TypeJSContractInit, TypeLuaContractInit, TypeContractInvoke, TypeAtomic}"
    using assms(2) by (auto simp: Type_defs)
  then show ?thesis
    using assms(1) by (simp add: va_addTransaction_def amount_of_def va_accepts_def)
qed

theorem unknown_type_accepted_witness:
  "\<forall>c. \<exists>va'. va_addTransaction c (NewTransaction 1 [0] [0] TypeContractQuery 77 zero_addr zero_addr (Some 1000) (Some 0) 0)
     (newValidatorAccount 10 0) = Ret (True, va')"
proof
  fix c
  show "\<exists>va'. va_addTransaction c (NewTransaction 1 [0] [0] TypeContractQuery 77 zero_addr zero_addr (Some 1000) (Some 0) 0)
     (newValidatorAccount 10 0) = Ret (True, va')"
    using unknown_type_accepted [of "NewTransaction 1 [0] [0] TypeContractQuery 77 zero_addr zero_addr (Some 1000) (Some 0) 0" 1000 c
        "newValidatorAccount 10 0"]
    by (simp add: NewTransaction_def Type_defs)
qed

end
