(* ===== verification/Map_Set.thy ===== *)
theory Map_Set
  imports Prelude
begin

text \<open>
  The sets of \<^verbatim>\<open>core/blockchain/mapset.go\<close>. The interface \<^verbatim>\<open>Set\<close> is the locale \<open>go_set\<close>, the type
  \<^verbatim>\<open>threadUnsafeSet\<close>, a Go map whose keys are pointers, its one implementation. The elements are
  values of a type \<open>'a\<close> whose equality is the equality of the pointers.

  The loops that build a set range over a map; the order in which they do shows only in
  \<^verbatim>\<open>ToSlice\<close>, which takes it as an argument.
\<close>

section \<open>The implementation\<close>

type_synonym 'a threadUnsafeSet = "('a, unit) gomap"

definition newThreadUnsafeSet :: "'a threadUnsafeSet" where
  "newThreadUnsafeSet = gm_empty"

definition tus_Add :: "'a \<Rightarrow> 'a threadUnsafeSet \<Rightarrow> bool \<times> 'a threadUnsafeSet" where
  "tus_Add i s = (\<not> gm_has s i, gm_set i () s)"

definition tus_Contains :: "'a threadUnsafeSet \<Rightarrow> 'a list \<Rightarrow> bool" where
  "tus_Contains s is = list_all (gm_has s) is"

definition tus_IsSubset :: "'a threadUnsafeSet \<Rightarrow> 'a threadUnsafeSet \<Rightarrow> bool" where
  "tus_IsSubset s other = list_all (\<lambda>elem. tus_Contains other [elem]) (map fst s)"

definition tus_Cardinality :: "'a threadUnsafeSet \<Rightarrow> nat" where
  "tus_Cardinality s = gm_len s"

definition tus_Equal :: "'a threadUnsafeSet \<Rightarrow> 'a threadUnsafeSet \<Rightarrow> bool" where
  "tus_Equal s other =
     (if tus_Cardinality s \<noteq> tus_Cardinality other then False
      else list_all (\<lambda>elem. tus_Contains other [elem]) (map fst s))"

definition tus_IsProperSubset :: "'a threadUnsafeSet \<Rightarrow> 'a threadUnsafeSet \<Rightarrow> bool" where
  "tus_IsProperSubset s other \<longleftrightarrow> tus_IsSubset s other \<and> \<not> tus_Equal s other"

definition tus_IsSuperset :: "'a threadUnsafeSet \<Rightarrow> 'a threadUnsafeSet \<Rightarrow> bool" where
  "tus_IsSuperset s other = tus_IsSubset other s"

definition tus_IsProperSuperset :: "'a threadUnsafeSet \<Rightarrow> 'a threadUnsafeSet \<Rightarrow> bool" where
  "tus_IsProperSuperset s other \<longleftrightarrow> tus_IsSuperset s other \<and> \<not> tus_Equal s other"

definition tus_Union :: "'a threadUnsafeSet \<Rightarrow> 'a threadUnsafeSet \<Rightarrow> 'a threadUnsafeSet" where
  "tus_Union s other =
     fold (\<lambda>elem u. snd (tus_Add elem u)) (map fst other)
       (fold (\<lambda>elem u. snd (tus_Add elem u)) (map fst s) newThreadUnsafeSet)"

definition tus_Intersect :: "'a threadUnsafeSet \<Rightarrow> 'a threadUnsafeSet \<Rightarrow> 'a threadUnsafeSet" where
  "tus_Intersect s other =
     (if tus_Cardinality s < tus_Cardinality other
      then fold (\<lambda>elem u. if tus_Contains other [elem] then snd (tus_Add elem u) else u) (map fst s) newThreadUnsafeSet
      else fold (\<lambda>elem u. if tus_Contains s [elem] then snd (tus_Add elem u) else u) (map fst other) newThreadUnsafeSet)"

definition tus_Difference :: "'a threadUnsafeSet \<Rightarrow> 'a threadUnsafeSet \<Rightarrow> 'a threadUnsafeSet" where
  "tus_Difference s other =
     fold (\<lambda>elem u. if \<not> tus_Contains other [elem] then snd (tus_Add elem u) else u) (map fst s) newThreadUnsafeSet"

definition tus_SymmetricDifference :: "'a threadUnsafeSet \<Rightarrow> 'a threadUnsafeSet \<Rightarrow> 'a threadUnsafeSet" where
  "tus_SymmetricDifference s other = tus_Union (tus_Difference s other) (tus_Difference other s)"

definition tus_Clear :: "'a threadUnsafeSet \<Rightarrow> 'a threadUnsafeSet" where
  "tus_Clear s = newThreadUnsafeSet"

definition tus_Clone :: "'a threadUnsafeSet \<Rightarrow> 'a threadUnsafeSet" where
  "tus_Clone s = fold (\<lambda>elem u. snd (tus_Add elem u)) (map fst s) newThreadUnsafeSet"

definition tus_Remove :: "'a \<Rightarrow> 'a threadUnsafeSet \<Rightarrow> 'a threadUnsafeSet" where
  "tus_Remove i s = gm_del i s"

definition tus_ToSlice :: "('a \<times> unit) list \<Rightarrow> 'a list" where
  "tus_ToSlice es = map fst es"

definition NewThreadUnsafeSetFromSlice :: "'a list \<Rightarrow> 'a threadUnsafeSet" where
  "NewThreadUnsafeSetFromSlice xs = fold (\<lambda>item a. snd (tus_Add item a)) xs newThreadUnsafeSet"

section \<open>The interface\<close>

locale go_set =
  fixes inv :: "'s \<Rightarrow> bool"
    and members :: "'s \<Rightarrow> 'a set"
    and empty_set :: 's
    and Add :: "'a \<Rightarrow> 's \<Rightarrow> bool \<times> 's"
    and Remove :: "'a \<Rightarrow> 's \<Rightarrow> 's"
    and Contains :: "'s \<Rightarrow> 'a list \<Rightarrow> bool"
    and Cardinality :: "'s \<Rightarrow> nat"
    and Union :: "'s \<Rightarrow> 's \<Rightarrow> 's"
    and Intersect :: "'s \<Rightarrow> 's \<Rightarrow> 's"
    and Difference :: "'s \<Rightarrow> 's \<Rightarrow> 's"
    and IsSubset :: "'s \<Rightarrow> 's \<Rightarrow> bool"
    and Equal :: "'s \<Rightarrow> 's \<Rightarrow> bool"
  assumes inv_empty: "inv empty_set" and members_empty: "members empty_set = {}"
    and inv_Add: "inv s \<Longrightarrow> inv (snd (Add x s))"
    and members_Add: "inv s \<Longrightarrow> members (snd (Add x s)) = insert x (members s)"
    and Add_new: "inv s \<Longrightarrow> fst (Add x s) \<longleftrightarrow> x \<notin> members s"
    and inv_Remove: "inv s \<Longrightarrow> inv (Remove x s)"
    and members_Remove: "inv s \<Longrightarrow> members (Remove x s) = members s - {x}"
    and Contains_iff: "inv s \<Longrightarrow> Contains s xs \<longleftrightarrow> set xs \<subseteq> members s"
    and Cardinality_eq: "inv s \<Longrightarrow> finite (members s) \<and> Cardinality s = card (members s)"
    and inv_ops: "inv s \<Longrightarrow> inv t \<Longrightarrow> inv (Union s t) \<and> inv (Intersect s t) \<and> inv (Difference s t)"
    and members_ops: "inv s \<Longrightarrow> inv t \<Longrightarrow> members (Union s t) = members s \<union> members t \<and>
          members (Intersect s t) = members s \<inter> members t \<and> members (Difference s t) = members s - members t"
    and IsSubset_iff: "inv s \<Longrightarrow> inv t \<Longrightarrow> IsSubset s t \<longleftrightarrow> members s \<subseteq> members t"
    and Equal_iff: "inv s \<Longrightarrow> inv t \<Longrightarrow> Equal s t \<longleftrightarrow> members s = members t"
begin

lemma from_list: "inv s \<Longrightarrow> inv (fold (\<lambda>x s. snd (Add x s)) xs s) \<and>
    members (fold (\<lambda>x s. snd (Add x s)) xs s) = set xs \<union> members s"
  by (induction xs arbitrary: s) (auto simp: inv_Add members_Add)

lemma symmetric_difference:
  "inv s \<Longrightarrow> inv t \<Longrightarrow>
     members (Union (Difference s t) (Difference t s)) = (members s - members t) \<union> (members t - members s)"
  by (simp add: inv_ops members_ops)

lemma proper_subset: "inv s \<Longrightarrow> inv t \<Longrightarrow> IsSubset s t \<and> \<not> Equal s t \<longleftrightarrow> members s \<subset> members t"
  by (auto simp: IsSubset_iff Equal_iff)

text \<open>What is left of a list after another one has been taken out.\<close>

lemma difference_of_lists:
  "members (Difference (fold (\<lambda>x s. snd (Add x s)) xs empty_set) (fold (\<lambda>x s. snd (Add x s)) ys empty_set)) =
     set xs - set ys"
  using from_list [OF inv_empty] by (simp add: members_ops members_empty)

lemma cardinality_of_list:
  "Cardinality (fold (\<lambda>x s. snd (Add x s)) xs empty_set) = card (set xs)"
  using from_list [OF inv_empty, of xs] by (simp add: Cardinality_eq members_empty)

end

section \<open>The implementation meets the interface\<close>

abbreviation tus_members :: "'a threadUnsafeSet \<Rightarrow> 'a set" where
  "tus_members s \<equiv> fst ` set s"

lemma gm_set_dom: "fst ` set (gm_set k v m) = insert k (fst ` set m)"
  by (induction m) auto

lemma gm_del_dom: "fst ` set (gm_del k m) = fst ` set m - {k}"
  by (induction m) auto

lemma tus_fold_add:
  "gm_wf s \<Longrightarrow> gm_wf (fold (\<lambda>x u. if P x then snd (tus_Add x u) else u) xs s) \<and>
     tus_members (fold (\<lambda>x u. if P x then snd (tus_Add x u) else u) xs s) = {x \<in> set xs. P x} \<union> tus_members s"
proof (induction xs arbitrary: s)
  case (Cons x xs)
  have "gm_wf (if P x then snd (tus_Add x s) else s)" using Cons.prems by (simp add: tus_Add_def)
  from Cons.IH [OF this] show ?case by (auto simp: tus_Add_def gm_set_dom)
qed simp

lemmas tus_fold_add_all = tus_fold_add [where P = "\<lambda>_. True", simplified]

lemma tus_Contains_iff: "tus_Contains s xs \<longleftrightarrow> set xs \<subseteq> tus_members s"
  by (auto simp: tus_Contains_def list_all_iff gm_has_iff_dom)

lemma tus_card: "gm_wf s \<Longrightarrow> tus_Cardinality s = card (tus_members s)"
  unfolding tus_Cardinality_def gm_wf_def by (metis distinct_card length_map set_map)

lemma tus_wf_new: "gm_wf newThreadUnsafeSet" "tus_members newThreadUnsafeSet = {}"
  by (simp_all add: newThreadUnsafeSet_def)

lemma tus_subset: "tus_IsSubset s t \<longleftrightarrow> tus_members s \<subseteq> tus_members t"
  by (auto simp: tus_IsSubset_def list_all_iff tus_Contains_iff)

lemma tus_Equal_iff: "gm_wf s \<Longrightarrow> gm_wf t \<Longrightarrow> tus_Equal s t \<longleftrightarrow> tus_members s = tus_members t"
proof -
  assume wf: "gm_wf s" "gm_wf t"
  have "tus_Equal s t \<longleftrightarrow> card (tus_members s) = card (tus_members t) \<and> tus_members s \<subseteq> tus_members t"
    using tus_subset [of s t] by (simp add: tus_Equal_def tus_card wf tus_IsSubset_def)
  then show ?thesis using card_subset_eq [of "tus_members t" "tus_members s"] by auto
qed

interpretation tus: go_set gm_wf tus_members newThreadUnsafeSet tus_Add tus_Remove tus_Contains tus_Cardinality
    tus_Union tus_Intersect tus_Difference tus_IsSubset tus_Equal
proof unfold_locales
  fix s t :: "'a threadUnsafeSet"
  assume wf: "gm_wf s" "gm_wf t"
  show "gm_wf (tus_Union s t) \<and> gm_wf (tus_Intersect s t) \<and> gm_wf (tus_Difference s t)"
    by (simp add: tus_Union_def tus_Intersect_def tus_Difference_def tus_fold_add tus_fold_add_all tus_wf_new)
  show "tus_members (tus_Union s t) = tus_members s \<union> tus_members t \<and>
      tus_members (tus_Intersect s t) = tus_members s \<inter> tus_members t \<and>
      tus_members (tus_Difference s t) = tus_members s - tus_members t"
    by (auto simp: tus_Union_def tus_Intersect_def tus_Difference_def tus_fold_add tus_fold_add_all tus_wf_new
        tus_Contains_iff)
qed (auto simp: tus_wf_new tus_Add_def gm_set_dom gm_has_iff_dom tus_Remove_def tus_Contains_iff tus_card
    tus_subset tus_Equal_iff gm_del_dom)

section \<open>Properties\<close>

text \<open>The set operations compute what their names say on the sets of their members, whatever the order in
  which the maps are walked, and listing the members of a set lists each of them once.\<close>

theorem mapset_correct:
  assumes "range_order es (tus_Difference (NewThreadUnsafeSetFromSlice xs) (NewThreadUnsafeSetFromSlice ys))"
  shows "set (tus_ToSlice es) = set xs - set ys \<and> distinct (tus_ToSlice es) \<and>
    (tus_Equal (NewThreadUnsafeSetFromSlice xs) (NewThreadUnsafeSetFromSlice ys) \<longleftrightarrow> set xs = set ys) \<and>
    (tus_IsProperSubset (NewThreadUnsafeSetFromSlice xs) (NewThreadUnsafeSetFromSlice ys) \<longleftrightarrow> set xs \<subset> set ys) \<and>
    tus_members (tus_SymmetricDifference (NewThreadUnsafeSetFromSlice xs) (NewThreadUnsafeSetFromSlice ys)) =
      (set xs - set ys) \<union> (set ys - set xs) \<and>
    tus_Cardinality (NewThreadUnsafeSetFromSlice xs) = card (set xs)"
proof -
  let ?x = "NewThreadUnsafeSetFromSlice xs" and ?y = "NewThreadUnsafeSetFromSlice ys"
  have f: "gm_wf (NewThreadUnsafeSetFromSlice zs) \<and> tus_members (NewThreadUnsafeSetFromSlice zs) = set zs" for zs :: "'a list"
    using tus.from_list [OF tus.inv_empty, of zs] by (simp add: NewThreadUnsafeSetFromSlice_def tus_wf_new)
  have d: "gm_wf (tus_Difference ?x ?y)" "tus_members (tus_Difference ?x ?y) = set xs - set ys"
    using f by (simp_all add: tus.inv_ops tus.members_ops)
  have "set (tus_ToSlice es) = set xs - set ys"
    using range_order_set [OF assms] d(2) by (simp add: tus_ToSlice_def)
  moreover have "distinct (tus_ToSlice es)"
    using range_order_wf [OF assms d(1)] by (simp add: tus_ToSlice_def gm_wf_def)
  ultimately show ?thesis
    using f tus.proper_subset [of ?x ?y] tus.symmetric_difference [of ?x ?y] tus.Equal_iff [of ?x ?y]
      tus.cardinality_of_list [of xs]
    by (simp add: tus_IsProperSubset_def tus_SymmetricDifference_def NewThreadUnsafeSetFromSlice_def)
qed

theorem mapset_correct_witness:
  "set (tus_ToSlice (tus_Difference (NewThreadUnsafeSetFromSlice [1, 2, 3 :: nat]) (NewThreadUnsafeSetFromSlice [2]))) = {1, 3}"
proof -
  have "set (tus_ToSlice (tus_Difference (NewThreadUnsafeSetFromSlice [1, 2, 3 :: nat]) (NewThreadUnsafeSetFromSlice [2]))) =
      set [1, 2, 3] - set [2]"
    by (rule mapset_correct [THEN conjunct1, OF range_order_refl])
  also have "\<dots> = {1, 3}" by auto
  finally show ?thesis .
qed

end
