(* ===== verification/Validator.thy ===== *)
theory Validator
  imports Validator_Account Map_Set
begin

text \<open>
  The transaction validator (\<^verbatim>\<open>Validator\<close> in \<^verbatim>\<open>core/blockchain/validator.go\<close>): the accounts of the senders by the text
  of their address, and the operations that consensus and the network call. The balances of the
  ledger are an argument \<open>bal\<close> (the method \<^verbatim>\<open>GetBalance\<close>), the chain's own coordinate and the issuing
  addresses are the configuration \<open>params\<close>.

  An account is reached through its key each time, as the sources reach it through a pointer,
  so a sender that is also the recipient is one account.
\<close>

section \<open>State\<close>

record Validator =
  vr_isValid :: bool
  vr_accounts :: "(string, validatorAccount) gomap"

record params =
  ChainID :: ChainCoordinate
  PublicAddress :: "string list"

type_synonym balances = "Address \<Rightarrow> int \<times> u32"

record CommittedTxs =
  ct_Skip :: bool
  ct_IsLocalChain :: bool
  ct_SeqNo :: u64
  ct_Time :: u32
  ct_Transactions :: "Transaction list"

definition NewValidator :: Validator where
  "NewValidator = \<lparr>vr_isValid = True, vr_accounts = gm_empty\<rparr>"

definition startValidator :: "Validator \<Rightarrow> Validator" where
  "startValidator vr = vr\<lparr>vr_isValid := True\<rparr>"

definition stopValidator :: "Validator \<Rightarrow> Validator" where
  "stopValidator vr = vr\<lparr>vr_isValid := False\<rparr>"

section \<open>Accounts\<close>

definition vr_fetchSenderAccount :: "balances \<Rightarrow> Address \<Rightarrow> Validator \<Rightarrow> Validator" where
  "vr_fetchSenderAccount bal address vr =
     (if gm_has (vr_accounts vr) (addr_String address) then vr
      else (case bal address of (amount, nonce) \<Rightarrow>
              vr\<lparr>vr_accounts := gm_set (addr_String address) (newValidatorAccount amount nonce) (vr_accounts vr)\<rparr>))"

definition vr_fetchAccount :: "Address \<Rightarrow> Validator \<Rightarrow> validatorAccount option" where
  "vr_fetchAccount address vr = gm_get (vr_accounts vr) (addr_String address)"

text \<open>Calling a method of an account through its pointer.\<close>

definition on_account :: "Address \<Rightarrow> (validatorAccount \<Rightarrow> ('r \<times> validatorAccount) go) \<Rightarrow> Validator \<Rightarrow> ('r \<times> Validator) go" where
  "on_account address f vr =
     (case gm_get (vr_accounts vr) (addr_String address) of
        None \<Rightarrow> nil_deref
      | Some va \<Rightarrow>
          go_bind (f va) (\<lambda>(r, va').
            Ret (r, vr\<lparr>vr_accounts := gm_set (addr_String address) va' (vr_accounts vr)\<rparr>)))"

definition no_result :: "(validatorAccount \<Rightarrow> validatorAccount go) \<Rightarrow> validatorAccount \<Rightarrow> (unit \<times> validatorAccount) go" where
  "no_result f va = go_bind (f va) (\<lambda>va'. Ret ((), va'))"

text \<open>The same, for an account that may not be there.\<close>

definition on_account_if :: "Address \<Rightarrow> (validatorAccount \<Rightarrow> validatorAccount go) \<Rightarrow> Validator \<Rightarrow> Validator go" where
  "on_account_if address f vr =
     (if vr_fetchAccount address vr = None then Ret vr
      else go_bind (on_account address (no_result f) vr) (\<lambda>(_, vr'). Ret vr'))"

definition vr_getTransactionByHash :: "(string \<times> validatorAccount) list \<Rightarrow> Hash \<Rightarrow> Transaction option" where
  "vr_getTransactionByHash es txHash =
     (case List.find (\<lambda>(_, va). va_getTransactionByHash va txHash \<noteq> None) es of
        Some (_, va) \<Rightarrow> va_getTransactionByHash va txHash
      | None \<Rightarrow> None)"

definition vr_getBalanceNonce :: "balances \<Rightarrow> Address \<Rightarrow> Validator \<Rightarrow> ((int \<times> u32) \<times> Validator) go" where
  "vr_getBalanceNonce bal addr vr =
     on_account addr (\<lambda>va. Ret ((va_amount va, va_nonce va), va)) (vr_fetchSenderAccount bal addr vr)"

definition vr_getValidatorSize :: "Validator \<Rightarrow> nat" where
  "vr_getValidatorSize vr = sum_list (map (va_getAccountTransactionSize \<circ> snd) (vr_accounts vr))"

section \<open>Checking\<close>

definition vr_checkIssueTransaction :: "params \<Rightarrow> Transaction \<Rightarrow> bool" where
  "vr_checkIssueTransaction ps tx = list_ex (\<lambda>addr. BytesToHex (tx_Sender tx) = addr) (PublicAddress ps)"

definition vr_checkTransaction :: "params \<Rightarrow> Transaction \<Rightarrow> bool go" where
  "vr_checkTransaction ps tx =
     (if \<not> (tx_FromChain tx = cc_String (ChainID ps) \<or> tx_ToChain tx = cc_String (ChainID ps)) then Ret False
      else if tx_Type tx = TypeAtomic then Ret (tx_FromChain tx = tx_ToChain tx)
      else if tx_Type tx = TypeAcrossChain then
        Ret (length (tx_FromChain tx) = length (tx_ToChain tx) \<and> tx_FromChain tx \<noteq> tx_ToChain tx)
      else if tx_Type tx = TypeDistribut then
        go_bind (ParentCoorinate (HexToChainCoordinate (tx_ToChain tx))) (\<lambda>toChainParent.
          Ret (\<not> (HexToChainCoordinate (tx_FromChain tx) \<noteq> toChainParent \<or>
                   addr_String (tx_Sender tx) \<noteq> addr_String (tx_Recipient tx))))
      else if tx_Type tx = TypeBackfront then
        go_bind (ParentCoorinate (HexToChainCoordinate (tx_FromChain tx))) (\<lambda>fromChainParent.
          Ret (\<not> (fromChainParent \<noteq> HexToChainCoordinate (tx_ToChain tx) \<or>
                   addr_String (tx_Sender tx) \<noteq> addr_String (tx_Recipient tx))))
      else if tx_Type tx = TypeMerged then Ret True
      else if tx_Type tx = TypeIssue then
        (let fromChain = HexToChainCoordinate (tx_FromChain tx);
             toChain = HexToChainCoordinate (tx_FromChain tx)
         in Ret (\<not> length fromChain \<noteq> length toChain \<and> vr_checkIssueTransaction ps tx))
      else Ret True)"

section \<open>Adding\<close>

definition vr_addAll :: "crypto_env \<Rightarrow> Address \<Rightarrow> Transaction list \<Rightarrow> Validator \<Rightarrow> Validator go" where
  "vr_addAll c address otxs vr =
     go_fold (\<lambda>otx vr. go_bind (on_account address (va_addTransaction c otx) vr) (\<lambda>(_, vr'). Ret vr')) otxs vr"

definition vr_processOrphan :: "crypto_env \<Rightarrow> Address \<Rightarrow> Validator \<Rightarrow> Validator go" where
  "vr_processOrphan c address vr =
     go_bind (on_account address (\<lambda>va. Ret (va_processOrphan va)) vr) (\<lambda>(otxs, vr').
       vr_addAll c address otxs vr')"

definition PushTxInTxPool :: "crypto_env \<Rightarrow> params \<Rightarrow> balances \<Rightarrow> Transaction \<Rightarrow> Validator \<Rightarrow> (bool \<times> Validator) go" where
  "PushTxInTxPool c ps bal tx vr =
     (if \<not> vr_isValid vr then Ret (False, vr)
      else
        go_bind (Verfiy c tx) (\<lambda>((address, err), tx').
          if err \<noteq> None \<or> address \<noteq> tx_Sender tx then Ret (False, vr)
          else
            go_bind (vr_checkTransaction ps tx') (\<lambda>ok.
              if ok then
                go_bind (vr_processOrphan c address (vr_fetchSenderAccount bal address vr)) (\<lambda>vr1.
                  on_account address (va_addTransaction c tx') vr1)
              else Ret (False, vr))))"

definition vr_verifyTransaction :: "crypto_env \<Rightarrow> balances \<Rightarrow> Transaction \<Rightarrow> Validator \<Rightarrow> (bool \<times> Validator) go" where
  "vr_verifyTransaction c bal tx vr =
     (let vr1 = vr_fetchSenderAccount bal (tx_Sender tx) vr in
      go_bind (on_account (tx_Sender tx) (\<lambda>va. Ret (va_hasTransaction c va tx, va)) vr1) (\<lambda>(ok, vr2).
        if ok then Ret (True, vr2)
        else
          go_bind (on_account (tx_Sender tx) (va_checkExceptionTransaction c tx) vr2) (\<lambda>(ok, vr3).
            if ok then Ret (True, vr3) else on_account (tx_Sender tx) (va_addTransaction c tx) vr3)))"

fun vr_verifyAll :: "crypto_env \<Rightarrow> balances \<Rightarrow> Transaction list \<Rightarrow> Validator \<Rightarrow> (bool \<times> Validator) go" where
  "vr_verifyAll c bal [] vr = Ret (True, vr)"
| "vr_verifyAll c bal (tx # txs) vr =
     go_bind (vr_verifyTransaction c bal tx vr) (\<lambda>(ok, vr').
       if \<not> ok then Ret (False, vr') else vr_verifyAll c bal txs vr')"

definition VerifyTxsInTxPool :: "crypto_env \<Rightarrow> balances \<Rightarrow> Transaction list \<Rightarrow> bool \<Rightarrow> Validator \<Rightarrow> (bool \<times> Validator) go" where
  "VerifyTxsInTxPool c bal txs primary vr =
     (if \<not> vr_isValid vr \<or> primary then Ret (True, vr) else vr_verifyAll c bal txs vr)"

section \<open>Removing\<close>

definition vr_rollbackTransaction :: "crypto_env \<Rightarrow> balances \<Rightarrow> Transaction list \<Rightarrow> Validator \<Rightarrow> Validator go" where
  "vr_rollbackTransaction c bal txs vr =
     go_fold (\<lambda>tx vr.
       go_bind (on_account (tx_Sender tx) (\<lambda>va.
           if va_hasTransaction c va tx then no_result (va_rollbackAndRemoveTransaction c tx) va else Ret ((), va))
         (vr_fetchSenderAccount bal (tx_Sender tx) vr)) (\<lambda>(_, vr'). Ret vr')) txs vr"

definition vr_committedTransaction :: "crypto_env \<Rightarrow> balances \<Rightarrow> Transaction list \<Rightarrow> Validator \<Rightarrow> Validator go" where
  "vr_committedTransaction c bal txs vr =
     go_fold (\<lambda>tx vr.
       go_bind (on_account (tx_Sender tx) (no_result (va_committedAndRemoveTransaction c tx))
                  (vr_fetchSenderAccount bal (tx_Sender tx) vr)) (\<lambda>(_, vr1).
       go_bind (if IsLocalChain tx
                then on_account_if (tx_Recipient tx) (va_updateTransactionReceiverBalance tx) vr1
                else Ret vr1) (\<lambda>vr2.
       vr_processOrphan c (tx_Sender tx) vr2))) txs vr"

definition vr_updateTransactionReceiver :: "Transaction list \<Rightarrow> Validator \<Rightarrow> Validator go" where
  "vr_updateTransactionReceiver txs vr =
     go_fold (\<lambda>tx vr. on_account_if (tx_Recipient tx) (va_updateTransactionReceiverBalance tx) vr) txs vr"

text \<open>\<open>ord\<close> is the order in which \<^verbatim>\<open>ToSlice\<close> walks the difference.\<close>

definition RemoveTxsInTxPool :: "crypto_env \<Rightarrow> balances \<Rightarrow> (Transaction threadUnsafeSet \<Rightarrow> (Transaction \<times> unit) list)
    \<Rightarrow> Transaction list \<Rightarrow> Transaction list \<Rightarrow> Transaction list \<Rightarrow> Validator \<Rightarrow> Validator go" where
  "RemoveTxsInTxPool c bal ord totalTxs groupTxs oChainTxs vr =
     (if length totalTxs < length groupTxs then Panic ''get execption transaction from consensus''
      else
        let rollbackTxs =
              (if length totalTxs > length groupTxs
               then tus_ToSlice (ord (tus_Difference (NewThreadUnsafeSetFromSlice totalTxs)
                                        (NewThreadUnsafeSetFromSlice groupTxs)))
               else [])
        in go_bind
             (if rollbackTxs = [] then vr_committedTransaction c bal totalTxs vr
              else go_bind (vr_rollbackTransaction c bal rollbackTxs vr) (vr_committedTransaction c bal groupTxs))
             (vr_updateTransactionReceiver oChainTxs))"

text \<open>The lists the loop over the groups collects: committed, total, local and other chains, and the time.\<close>

fun committed_loop :: "CommittedTxs list \<Rightarrow> Transaction list \<times> Transaction list \<times> Transaction list \<times> Transaction list \<times> u32
    \<Rightarrow> Transaction list \<times> Transaction list \<times> Transaction list \<times> Transaction list \<times> u32" where
  "committed_loop [] s = s"
| "committed_loop (txs # gs) (committed, tot, grp, other, tm) =
     (if ct_Skip txs then committed_loop gs (committed, ct_Transactions txs, grp, other, ct_Time txs)
      else if ct_IsLocalChain txs
        then committed_loop gs (committed @ ct_Transactions txs, tot, grp @ ct_Transactions txs, other, tm)
      else committed_loop gs (committed @ ct_Transactions txs, tot, grp, other @ ct_Transactions txs, tm))"

definition GetCommittedTxs :: "crypto_env \<Rightarrow> balances \<Rightarrow> (Transaction threadUnsafeSet \<Rightarrow> (Transaction \<times> unit) list)
    \<Rightarrow> CommittedTxs list \<Rightarrow> Validator \<Rightarrow> ((Transaction list \<times> u32) \<times> Validator) go" where
  "GetCommittedTxs c bal ord groupingTxs vr =
     (case committed_loop groupingTxs ([], [], [], [], 0) of (committed, tot, grp, other, tm) \<Rightarrow>
        go_bind (RemoveTxsInTxPool c bal ord tot grp other vr) (\<lambda>vr'. Ret ((committed, tm), vr')))"

definition RollBackAccount :: "Transaction \<Rightarrow> Validator \<Rightarrow> Validator go" where
  "RollBackAccount tx vr =
     go_bind (on_account_if (tx_Sender tx) (va_updateTransactionReceiverBalance tx) vr)
       (on_account_if (tx_Recipient tx) (va_updateTransactionSenderBalance tx))"

definition UpdateAccount :: "Transaction \<Rightarrow> Validator \<Rightarrow> Validator go" where
  "UpdateAccount tx vr =
     go_bind (on_account_if (tx_Sender tx) (va_updateTransactionSenderBalance tx) vr)
       (on_account_if (tx_Recipient tx) (va_updateTransactionReceiverBalance tx))"

section \<open>Grouping\<close>

text \<open>
  \<^verbatim>\<open>groupingMap\<close> maps a chain to its groups, which the sources number 0, 1, ... and the model keeps as
  a list; \<^verbatim>\<open>groupingTxs[0]\<close> is \<open>fg_total\<close>.
\<close>

record grouping =
  fg_map :: "(string, Transaction list list) gomap"
  fg_size :: nat
  fg_total :: "Transaction list"

definition fg_start :: grouping where
  "fg_start = \<lparr>fg_map = gm_empty, fg_size = 0, fg_total = []\<rparr>"

definition fg_open :: "nat \<Rightarrow> Transaction \<Rightarrow> Transaction list list \<Rightarrow> grouping \<Rightarrow> bool \<times> grouping" where
  "fg_open groupingNum tx gs s =
     (let s1 = s\<lparr>fg_size := Suc (fg_size s)\<rparr> in
      if fg_size s1 > groupingNum then (False, s1)
      else (True, s1\<lparr>fg_map := gm_set (tx_ToChain tx) (gs @ [[tx]]) (fg_map s), fg_total := fg_total s @ [tx]\<rparr>))"

definition fg_iter :: "nat \<Rightarrow> nat \<Rightarrow> Transaction \<Rightarrow> grouping \<Rightarrow> bool \<times> grouping" where
  "fg_iter groupingNum maxSizeInGrouping tx s =
     (case gm_get (fg_map s) (tx_ToChain tx) of
        None \<Rightarrow> fg_open groupingNum tx [] s
      | Some gs \<Rightarrow>
          if length (last gs) \<ge> maxSizeInGrouping then fg_open groupingNum tx gs s
          else (True, s\<lparr>fg_map := gm_set (tx_ToChain tx) (butlast gs @ [last gs @ [tx]]) (fg_map s),
                        fg_total := fg_total s @ [tx]\<rparr>))"

text \<open>The accounts in the order \<open>ks\<close> of the walk.\<close>

fun fg_accounts :: "crypto_env \<Rightarrow> nat \<Rightarrow> nat \<Rightarrow> string list \<Rightarrow> Validator \<Rightarrow> grouping \<Rightarrow> Validator \<times> grouping" where
  "fg_accounts c n m [] vr s = (vr, s)"
| "fg_accounts c n m (k # ks) vr s =
     (case gm_get (vr_accounts vr) k of
        None \<Rightarrow> fg_accounts c n m ks vr s
      | Some va \<Rightarrow>
          (case va_iterTransaction c (fg_iter n m) va s of (va', s') \<Rightarrow>
             let vr' = vr\<lparr>vr_accounts := gm_set k va' (vr_accounts vr)\<rparr>
             in if length (fg_total s') > m * n then (vr', s') else fg_accounts c n m ks vr' s'))"

text \<open>\<open>inner\<close> and \<open>outer\<close> are the orders in which the groups of a chain and the chains are walked.\<close>

definition fg_groups :: "params \<Rightarrow> (Transaction list list \<Rightarrow> Transaction list list)
    \<Rightarrow> ((string, Transaction list list) gomap \<Rightarrow> (string \<times> Transaction list list) list) \<Rightarrow> grouping \<Rightarrow> Transaction list list" where
  "fg_groups ps inner outer s =
     (case gm_get (fg_map s) (cc_String (ChainID ps)) of Some gs \<Rightarrow> inner gs | None \<Rightarrow> []) @
     concat (map (\<lambda>(_, gs). inner gs) (outer (gm_del (cc_String (ChainID ps)) (fg_map s))))"

definition fg_emit :: "nat \<Rightarrow> Transaction list \<Rightarrow> Transaction list list \<Rightarrow> Transaction list list go" where
  "fg_emit groupingNum tot gs =
     (if length gs > groupingNum then Panic ''index out of range''
      else Ret (tot # gs @ replicate (groupingNum - length gs) []))"

definition vr_FetchGroupingTxsInTxPool :: "crypto_env \<Rightarrow> params \<Rightarrow> string list \<Rightarrow> (Transaction list list \<Rightarrow> Transaction list list)
    \<Rightarrow> ((string, Transaction list list) gomap \<Rightarrow> (string \<times> Transaction list list) list)
    \<Rightarrow> nat \<Rightarrow> nat \<Rightarrow> Validator \<Rightarrow> (Transaction list list \<times> Validator) go" where
  "vr_FetchGroupingTxsInTxPool c ps ks inner outer groupingNum maxSizeInGrouping vr =
     (case fg_accounts c groupingNum maxSizeInGrouping ks vr fg_start of (vr', s) \<Rightarrow>
        go_bind (fg_emit groupingNum (fg_total s) (fg_groups ps inner outer s)) (\<lambda>g. Ret (g, vr')))"

section \<open>Laws of the grouping\<close>

lemma gm_sum_set:
  fixes g :: "'v \<Rightarrow> 'm :: comm_monoid_add"
  shows "sum_list (map (\<lambda>(_, v). g v) (gm_set k v m)) + (case gm_get m k of Some w \<Rightarrow> g w | None \<Rightarrow> 0) =
    sum_list (map (\<lambda>(_, v). g v) m) + g v"
  by (induction m) (auto simp: ac_simps)

lemma gm_sum_del:
  fixes g :: "'v \<Rightarrow> 'm :: comm_monoid_add"
  shows "gm_wf m \<Longrightarrow> sum_list (map (\<lambda>(_, v). g v) (gm_del k m)) + (case gm_get m k of Some w \<Rightarrow> g w | None \<Rightarrow> 0) =
    sum_list (map (\<lambda>(_, v). g v) m)"
proof (induction m)
  case (Cons e m)
  obtain k' v where e: "e = (k', v)" by (cases e)
  have wf: "gm_wf m" "k' \<notin> fst ` set m" using Cons.prems by (auto simp: gm_wf_def e)
  have id: "gm_del k' m = m" using wf(2) by (induction m) auto
  have "gm_get m k' = None" using wf(2) by (simp add: map_of_eq_None_iff)
  with Cons.IH [OF wf(1)] id show ?case by (auto simp: e ac_simps)
qed simp

definition fg_count :: "grouping \<Rightarrow> nat" where
  "fg_count s = sum_list (map (\<lambda>(_, gs). length gs) (fg_map s))"

definition fg_mset :: "grouping \<Rightarrow> Transaction multiset" where
  "fg_mset s = sum_list (map (\<lambda>(_, gs). mset (concat gs)) (fg_map s))"

definition fg_ok :: "nat \<Rightarrow> string \<Rightarrow> Transaction list list \<Rightarrow> bool" where
  "fg_ok m k gs \<longleftrightarrow> gs \<noteq> [] \<and> (\<forall>g \<in> set gs. length g \<le> max 1 m \<and> (\<forall>tx \<in> set g. tx_ToChain tx = k))"

definition fg_inv :: "nat \<Rightarrow> nat \<Rightarrow> grouping \<Rightarrow> bool" where
  "fg_inv n m s \<longleftrightarrow> gm_wf (fg_map s) \<and> fg_count s \<le> fg_size s \<and> fg_count s \<le> n \<and>
     fg_mset s = mset (fg_total s) \<and> (\<forall>k gs. gm_get (fg_map s) k = Some gs \<longrightarrow> fg_ok m k gs)"

lemma fg_inv_start: "fg_inv n m fg_start"
  by (simp add: fg_inv_def fg_start_def fg_count_def fg_mset_def)

text \<open>One more transaction in the groups of its chain.\<close>

lemma fg_inv_set:
  assumes "fg_inv n m s" and "fg_ok m (tx_ToChain tx) gs'"
    and "mset (concat gs') = add_mset tx (mset (concat (case gm_get (fg_map s) (tx_ToChain tx) of Some gs \<Rightarrow> gs | None \<Rightarrow> [])))"
    and "length gs' + fg_count s \<le> length (case gm_get (fg_map s) (tx_ToChain tx) of Some gs \<Rightarrow> gs | None \<Rightarrow> []) + min n sz"
  shows "fg_inv n m (s\<lparr>fg_size := sz, fg_map := gm_set (tx_ToChain tx) gs' (fg_map s), fg_total := fg_total s @ [tx]\<rparr>)"
proof -
  let ?s = "s\<lparr>fg_size := sz, fg_map := gm_set (tx_ToChain tx) gs' (fg_map s), fg_total := fg_total s @ [tx]\<rparr>"
  have c: "fg_count ?s + length (case gm_get (fg_map s) (tx_ToChain tx) of Some gs \<Rightarrow> gs | None \<Rightarrow> []) = fg_count s + length gs'"
    using gm_sum_set [of length "tx_ToChain tx" gs' "fg_map s"]
    by (cases "gm_get (fg_map s) (tx_ToChain tx)") (simp_all add: fg_count_def)
  have "fg_mset ?s + mset (concat (case gm_get (fg_map s) (tx_ToChain tx) of Some gs \<Rightarrow> gs | None \<Rightarrow> [])) =
      fg_mset s + mset (concat gs')"
    using gm_sum_set [of "\<lambda>gs. mset (concat gs)" "tx_ToChain tx" gs' "fg_map s"]
    by (cases "gm_get (fg_map s) (tx_ToChain tx)") (simp_all add: fg_mset_def del: mset_concat)
  then have ms: "fg_mset ?s = add_mset tx (fg_mset s)"
    using assms(3) by simp
  have "fg_count ?s \<le> min n sz" using c assms(4) by linarith
  moreover have "\<forall>k gs. gm_get (fg_map ?s) k = Some gs \<longrightarrow> fg_ok m k gs"
    using assms(1,2) by (simp add: fg_inv_def gm_get_set)
  moreover have "gm_wf (fg_map ?s)" "fg_mset s = mset (fg_total s)"
    using assms(1) by (simp_all add: fg_inv_def)
  ultimately show ?thesis using ms by (simp add: fg_inv_def)
qed

lemma fg_inv_size: "fg_inv n m s \<Longrightarrow> fg_inv n m (s\<lparr>fg_size := Suc (fg_size s)\<rparr>)"
  by (simp add: fg_inv_def fg_count_def fg_mset_def)

lemma fg_inv_open:
  assumes "fg_inv n m s" and "gs = (case gm_get (fg_map s) (tx_ToChain tx) of Some gs \<Rightarrow> gs | None \<Rightarrow> [])"
  shows "fg_inv n m (snd (fg_open n tx gs s))"
proof (cases "Suc (fg_size s) > n")
  case True
  with assms(1) show ?thesis by (simp add: fg_open_def fg_inv_size)
next
  case False
  have "fg_ok m (tx_ToChain tx) (gs @ [[tx]])"
    using assms by (auto simp: fg_inv_def fg_ok_def split: option.splits)
  moreover have "fg_count s \<le> fg_size s" using assms(1) by (simp add: fg_inv_def)
  ultimately show ?thesis
    using False fg_inv_set [OF assms(1), of tx "gs @ [[tx]]" "Suc (fg_size s)"] assms(2)
    by (simp add: fg_open_def)
qed

lemma fg_inv_iter:
  assumes "fg_inv n m s"
  shows "fg_inv n m (snd (fg_iter n m tx s))"
proof (cases "gm_get (fg_map s) (tx_ToChain tx)")
  case None
  with fg_inv_open [OF assms, of "[]" tx] show ?thesis by (simp add: fg_iter_def)
next
  case (Some gs)
  show ?thesis
  proof (cases "length (last gs) \<ge> m")
    case True
    with Some fg_inv_open [OF assms, of gs tx] show ?thesis by (simp add: fg_iter_def)
  next
    case False
    have ok: "fg_ok m (tx_ToChain tx) gs" using assms Some by (simp add: fg_inv_def)
    let ?gs = "butlast gs @ [last gs @ [tx]]"
    have gs: "gs = butlast gs @ [last gs]" "gs \<noteq> []" using ok by (simp_all add: fg_ok_def)
    have "set (butlast gs) \<subseteq> set gs" "last gs \<in> set gs" using gs(2) by (auto dest: in_set_butlastD)
    with ok False have "fg_ok m (tx_ToChain tx) ?gs" by (auto simp: fg_ok_def)
    moreover have "mset (concat ?gs) = add_mset tx (mset (concat gs))"
      by (subst (3) gs(1)) simp
    moreover have "length ?gs = length gs" using gs(2) by simp
    moreover have "fg_count s \<le> min n (fg_size s)" using assms by (simp add: fg_inv_def)
    ultimately show ?thesis
      using Some False fg_inv_set [OF assms, of tx ?gs "fg_size s"] by (simp add: fg_iter_def)
  qed
qed

lemma va_iter_loop_inv:
  "(\<And>tx s. I s \<Longrightarrow> I (snd (f tx s))) \<Longrightarrow> I s \<Longrightarrow> I (snd (va_iter_loop c f es cur s))"
proof (induction c f es cur s rule: va_iter_loop.induct)
  case (2 c f e es cur s)
  then have "I (snd (f (evalue e) s))" by blast
  with 2 show ?case by (cases "f (evalue e) s") auto
qed simp

lemma va_iterTransaction_inv:
  assumes "\<And>tx s. I s \<Longrightarrow> I (snd (f tx s))" and "I s" and "va_iterTransaction c f va s = (va', s')"
  shows "I s' \<and> (\<exists>h. va' = va\<lparr>va_currTxHash := h\<rparr>)"
proof -
  let ?cur = "case gm_get (va_txsMap va) (va_currTxHash va) of None \<Rightarrow> gl_Front (va_txsList va)
      | Some e \<Rightarrow> gl_Next (va_txsList va) e"
  show ?thesis
  proof (cases ?cur)
    case None
    then have "va' = va\<lparr>va_currTxHash := va_currTxHash va\<rparr>" "s' = s"
      using assms(3) unfolding va_iterTransaction_def Let_def by simp_all
    with assms(2) show ?thesis by blast
  next
    case (Some e)
    let ?es = "dropWhile (\<lambda>x. eaddr x \<noteq> eaddr e) (elems (va_txsList va))"
    obtain cur s2 where l: "va_iter_loop c f ?es (va_currTxHash va) s = (cur, s2)" by fastforce
    have "I (snd (va_iter_loop c f ?es (va_currTxHash va) s))" by (rule va_iter_loop_inv [OF assms(1,2)])
    moreover have "va' = va\<lparr>va_currTxHash := cur\<rparr>" "s' = s2"
      using assms(3) Some l unfolding va_iterTransaction_def Let_def by simp_all
    ultimately show ?thesis using l by auto
  qed
qed

text \<open>What the walk over the accounts keeps: the groups, and of every account all but its position.\<close>

definition same_accounts :: "Validator \<Rightarrow> Validator \<Rightarrow> bool" where
  "same_accounts vr vr' \<longleftrightarrow> vr_isValid vr' = vr_isValid vr \<and>
     (\<forall>k. (gm_get (vr_accounts vr) k = None \<longrightarrow> gm_get (vr_accounts vr') k = None) \<and>
          (\<forall>va. gm_get (vr_accounts vr) k = Some va \<longrightarrow>
             (\<exists>h. gm_get (vr_accounts vr') k = Some (va\<lparr>va_currTxHash := h\<rparr>))))"

lemma same_accounts_refl: "same_accounts vr vr"
proof -
  have "\<exists>h. va = va\<lparr>va_currTxHash := h\<rparr>" for va :: validatorAccount
    by (rule exI [of _ "va_currTxHash va"]) simp
  then show ?thesis by (simp add: same_accounts_def)
qed

lemma same_accounts_trans:
  assumes "same_accounts a b" and "same_accounts b d"
  shows "same_accounts a d"
proof -
  have "\<exists>h. gm_get (vr_accounts d) k = Some (va\<lparr>va_currTxHash := h\<rparr>)" if g: "gm_get (vr_accounts a) k = Some va" for k va
  proof -
    obtain h where "gm_get (vr_accounts b) k = Some (va\<lparr>va_currTxHash := h\<rparr>)"
      using assms(1) g unfolding same_accounts_def by blast
    then obtain h' where "gm_get (vr_accounts d) k = Some (va\<lparr>va_currTxHash := h, va_currTxHash := h'\<rparr>)"
      using assms(2) unfolding same_accounts_def by blast
    then show ?thesis by auto
  qed
  with assms show ?thesis unfolding same_accounts_def by simp
qed

lemma same_accounts_set:
  assumes "gm_get (vr_accounts vr) k = Some va"
  shows "same_accounts vr (vr\<lparr>vr_accounts := gm_set k (va\<lparr>va_currTxHash := h\<rparr>) (vr_accounts vr)\<rparr>)"
  using same_accounts_refl [of vr] assms by (auto simp: same_accounts_def gm_get_set)

lemma fg_accounts_inv:
  "fg_inv n m s \<Longrightarrow> fg_accounts c n m ks vr s = (vr', s') \<Longrightarrow> fg_inv n m s' \<and> same_accounts vr vr'"
proof (induction c n m ks vr s rule: fg_accounts.induct)
  case (1 c n m vr s)
  then show ?case by (simp add: same_accounts_refl)
next
  case (2 c n m k ks vr s)
  show ?case
  proof (cases "gm_get (vr_accounts vr) k")
    case None
    with 2 show ?thesis by simp
  next
    case (Some va)
    obtain va1 s1 where it: "va_iterTransaction c (fg_iter n m) va s = (va1, s1)" by fastforce
    from va_iterTransaction_inv [OF fg_inv_iter 2(3) it] obtain h where
      1: "fg_inv n m s1" "va1 = va\<lparr>va_currTxHash := h\<rparr>" by blast
    let ?vr = "vr\<lparr>vr_accounts := gm_set k va1 (vr_accounts vr)\<rparr>"
    have s: "same_accounts vr ?vr" unfolding 1(2) by (rule same_accounts_set [OF Some])
    show ?thesis
    proof (cases "length (fg_total s1) > m * n")
      case True
      with 2(4) Some it 1 s show ?thesis by simp
    next
      case False
      with 2(4) Some it have r: "fg_accounts c n m ks ?vr s1 = (vr', s')" by simp
      have "fg_inv n m s' \<and> same_accounts ?vr vr'"
        by (rule 2(2) [OF Some it [symmetric] refl False 1(1) r])
      with s same_accounts_trans show ?thesis by blast
    qed
  qed
qed

lemma sum_list_perm:
  fixes g :: "'x \<Rightarrow> 'm :: comm_monoid_add"
  shows "mset xs = mset ys \<Longrightarrow> sum_list (map g xs) = sum_list (map g ys)"
  by (metis mset_map sum_mset_sum_list)

lemma mset_concat_perm: "mset xs = mset ys \<Longrightarrow> mset (concat xs) = mset (concat ys)"
  unfolding mset_concat by (rule sum_list_perm)

text \<open>Emitting the groups permutes them and loses none.\<close>

lemma fg_groups_spec:
  assumes "fg_inv n m s" and "\<And>gs. mset (inner gs) = mset gs" and "\<And>mp. range_order (outer mp) mp"
  shows "length (fg_groups ps inner outer s) = fg_count s"
    and "mset (concat (fg_groups ps inner outer s)) = mset (fg_total s)"
    and "\<forall>g \<in> set (fg_groups ps inner outer s). \<exists>k gs. gm_get (fg_map s) k = Some gs \<and> g \<in> set gs"
proof -
  let ?k = "cc_String (ChainID ps)" and ?l = "case gm_get (fg_map s) (cc_String (ChainID ps)) of Some gs \<Rightarrow> inner gs | None \<Rightarrow> []"
  let ?rest = "gm_del ?k (fg_map s)"
  have wf: "gm_wf (fg_map s)" using assms(1) by (simp add: fg_inv_def)
  have len: "length (inner gs) = length gs" for gs by (rule mset_eq_length [OF assms(2)])
  have outer: "sum_list (map g (outer ?rest)) = sum_list (map g ?rest)"
    for g :: "string \<times> Transaction list list \<Rightarrow> 'm :: comm_monoid_add"
    using assms(3) unfolding range_order_def by (rule sum_list_perm)
  have "length (fg_groups ps inner outer s) = length ?l + sum_list (map (\<lambda>(_, gs). length gs) ?rest)"
    using outer [of "\<lambda>(_, gs). length gs"]
    by (simp add: fg_groups_def length_concat comp_def case_prod_unfold len)
  also have "\<dots> = fg_count s"
    using gm_sum_del [OF wf, of length ?k] by (cases "gm_get (fg_map s) ?k") (simp_all add: fg_count_def len)
  finally show "length (fg_groups ps inner outer s) = fg_count s" .
  have cc: "mset (concat (inner gs)) = mset (concat gs)" for gs by (rule mset_concat_perm [OF assms(2)])
  have "mset (concat (concat (map (\<lambda>(_, gs). inner gs) es))) = sum_list (map (\<lambda>(_, gs). mset (concat gs)) es)"
    for es :: "(string \<times> Transaction list list) list"
    by (induction es) (auto simp: cc simp del: mset_concat)
  then have "mset (concat (fg_groups ps inner outer s)) = mset (concat ?l) + sum_list (map (\<lambda>(_, gs). mset (concat gs)) ?rest)"
    using outer [of "\<lambda>(_, gs). mset (concat gs)"] by (simp add: fg_groups_def del: mset_concat)
  also have "\<dots> = fg_mset s"
    using gm_sum_del [OF wf, of "\<lambda>gs. mset (concat gs)" ?k]
    by (cases "gm_get (fg_map s) ?k") (simp_all add: fg_mset_def cc add.commute del: mset_concat)
  finally show "mset (concat (fg_groups ps inner outer s)) = mset (fg_total s)"
    using assms(1) by (simp add: fg_inv_def)
  have "g \<in> set gs" if "g \<in> set (inner gs)" for g gs using that assms(2) mset_eq_setD by blast
  moreover have "gm_get (fg_map s) k = Some gs" if "(k, gs) \<in> set (outer ?rest)" for k gs
  proof -
    have "(k, gs) \<in> set ?rest" using that range_order_set [OF assms(3)] by blast
    then have "gm_get ?rest k = Some gs" using gm_get_in [OF gm_wf_del [OF wf]] by blast
    then show ?thesis by (simp add: gm_get_del split: if_splits)
  qed
  ultimately show "\<forall>g \<in> set (fg_groups ps inner outer s). \<exists>k gs. gm_get (fg_map s) k = Some gs \<and> g \<in> set gs"
    unfolding fg_groups_def by (auto split: option.splits) metis+
qed

section \<open>Properties of the validator\<close>

text \<open>C7: grouping the pending transactions for consensus never runs out of the slots it has, whatever the order
  of the map walks: it returns one list of everything taken and exactly \<open>groupingNum\<close> groups that
  partition it, each of at most \<open>maxSizeInGrouping\<close> transactions (one, if that is 0) and all to one
  chain; the accounts only remember how far they were read.\<close>

theorem FetchGroupingTxs_correct:
  assumes "\<And>gs. mset (inner gs) = mset gs" and "\<And>mp. range_order (outer mp) mp"
  shows "\<exists>tot gs vr'. vr_FetchGroupingTxsInTxPool c ps ks inner outer n m vr = Ret (tot # gs, vr') \<and>
    length gs = n \<and> mset (concat gs) = mset tot \<and> same_accounts vr vr' \<and>
    (\<forall>g \<in> set gs. length g \<le> max 1 m \<and> (\<forall>x \<in> set g. \<forall>y \<in> set g. tx_ToChain x = tx_ToChain y))"
proof -
  obtain vr' s where a: "fg_accounts c n m ks vr fg_start = (vr', s)" by fastforce
  from fg_accounts_inv [OF fg_inv_start this] have inv: "fg_inv n m s" and same: "same_accounts vr vr'" by simp_all
  let ?gs = "fg_groups ps inner outer s"
  note g = fg_groups_spec [OF inv assms, of ps]
  have len: "length ?gs \<le> n" using g(1) inv by (simp add: fg_inv_def)
  let ?all = "?gs @ replicate (n - length ?gs) []"
  have "vr_FetchGroupingTxsInTxPool c ps ks inner outer n m vr = Ret (fg_total s # ?all, vr')"
    using a len by (simp add: vr_FetchGroupingTxsInTxPool_def fg_emit_def)
  moreover have "mset (concat ?all) = mset (fg_total s)" using g(2) by (simp del: mset_concat)
  moreover have "length h \<le> max 1 m \<and> (\<forall>x \<in> set h. \<forall>y \<in> set h. tx_ToChain x = tx_ToChain y)" if "h \<in> set ?all" for h
  proof (cases "h \<in> set ?gs")
    case True
    then obtain k gs where "gm_get (fg_map s) k = Some gs" "h \<in> set gs" using g(3) by blast
    with inv have "fg_ok m k gs" "h \<in> set gs" by (simp_all add: fg_inv_def)
    then show ?thesis by (auto simp: fg_ok_def)
  next
    case False
    with that have "h = []" by auto
    then show ?thesis by simp
  qed
  moreover have "length ?all = n" using len by simp
  ultimately show ?thesis using same by blast
qed

theorem FetchGroupingTxs_correct_witness:
  "\<forall>c. \<exists>tot gs vr'. vr_FetchGroupingTxsInTxPool c \<lparr>ChainID = [0], PublicAddress = []\<rparr> [''a''] id id 3 1
     \<lparr>vr_isValid = True, vr_accounts = [(''a'', sample_va c 2)]\<rparr> = Ret (tot # gs, vr') \<and> length gs = 3 \<and>
     mset (concat gs) = mset tot"
  using FetchGroupingTxs_correct [of id id] by (metis id_apply range_order_refl)

lemma Verfiy_Data: "Verfiy c tx = Ret (r, tx') \<Longrightarrow> tx_Data tx' = tx_Data tx"
  by (auto simp: Verfiy_def split: if_splits option.splits)

lemma vr_checkTransaction_cong: "tx_Data tx' = tx_Data tx \<Longrightarrow> vr_checkTransaction ps tx' = vr_checkTransaction ps tx"
  by (simp add: vr_checkTransaction_def vr_checkIssueTransaction_def tx_FromChain_def tx_ToChain_def)

lemma Verfiy_recovers:
  assumes "Verfiy c tx = Ret ((a, None), tx')" and "signed_type (tx_Type tx)" and "tx_cache_ok c tx"
  shows "\<exists>sig p. td_Signature (tx_Data tx) = Some sig \<and>
    sig_RecoverPublicKey c sig (SignHash c tx) = Some (Some p) \<and> PublicKeyToAddress c p = Ret a"
  using assms by (auto simp: Verfiy_def tx_cache_ok_def split: option.splits)


definition sample_env :: crypto_env where
  "sample_env = \<lparr>sum256 = \<lambda>b. replicate 32 7, RecoverPubkey = \<lambda>h s. Some (4 # replicate 64 1), curve_N = 5\<rparr>"

definition sample_signed :: "u32 \<Rightarrow> Transaction" where
  "sample_signed nonce = WithSignature (Some (replicate 65 0))
     (NewTransaction 1 [0] [0] TypeAtomic nonce (replicate 20 7) zero_addr (Some 5) (Some 1) 3)"

lemma sample_Verfiy: "\<exists>tx'. Verfiy sample_env (sample_signed n) = Ret ((replicate 20 7, None), tx') \<and>
    tx_Data tx' = tx_Data (sample_signed n)"
  by (simp add: Verfiy_def sample_env_def sample_signed_def WithSignature_def NewTransaction_def signed_type_def
      sig_RecoverPublicKey_def sig_Ecrecover_def Ecrecover_def PublicKeyToAddress_def pub_Bytes_def Let_def
      Keccak256_def addr_SetBytes_def)

lemma sample_PushTx:
  "\<exists>vr'. PushTxInTxPool sample_env \<lparr>ChainID = [0], PublicAddress = []\<rparr> (\<lambda>a. (10, 0)) (sample_signed 1) NewValidator = Ret (True, vr')"
proof -
  obtain tx' where v: "Verfiy sample_env (sample_signed 1) = Ret ((replicate 20 7, None), tx')"
    and d: "tx_Data tx' = tx_Data (sample_signed 1)" using sample_Verfiy by blast
  have "vr_checkTransaction \<lparr>ChainID = [0], PublicAddress = []\<rparr> tx' = Ret True"
    by (simp add: vr_checkTransaction_def tx_FromChain_def tx_ToChain_def d sample_signed_def WithSignature_def NewTransaction_def)
  moreover have "\<exists>va'. va_addTransaction sample_env tx' (newValidatorAccount 10 0) = Ret (True, va')"
    by (simp add: va_addTransaction_def amount_of_def d sample_signed_def WithSignature_def NewTransaction_def
        va_accepts_def newValidatorAccount_def Type_defs)
  moreover have "va_processOrphan (newValidatorAccount 10 0) = ([], newValidatorAccount 10 0)"
    by (simp add: va_processOrphan_def newValidatorAccount_def gl_new_def)
  moreover have "tx_Sender (sample_signed 1) = replicate 20 7"
    by (simp add: sample_signed_def WithSignature_def NewTransaction_def)
  ultimately show ?thesis
    using v by (auto simp: PushTxInTxPool_def NewValidator_def vr_processOrphan_def on_account_def
        vr_fetchSenderAccount_def vr_addAll_def)
qed


text \<open>The sets of committed transactions compare pointers. If a batch was decoded apart from its groups, so
  that no object is in both, and some transaction was dropped, then every transaction of the batch is
  rolled back, also those that were committed.\<close>

theorem RemoveTxs_pointer_difference:
  assumes "\<And>m. range_order (ord m) m" and "length groupTxs < length totalTxs" and "set totalTxs \<inter> set groupTxs = {}"
  shows "\<exists>rollbackTxs. distinct rollbackTxs \<and> set rollbackTxs = set totalTxs \<and>
    RemoveTxsInTxPool c bal ord totalTxs groupTxs oChainTxs vr =
      go_bind (go_bind (vr_rollbackTransaction c bal rollbackTxs vr) (vr_committedTransaction c bal groupTxs))
        (vr_updateTransactionReceiver oChainTxs)"
proof -
  let ?d = "tus_Difference (NewThreadUnsafeSetFromSlice totalTxs) (NewThreadUnsafeSetFromSlice groupTxs)"
  let ?r = "tus_ToSlice (ord ?d)"
  have f: "gm_wf (NewThreadUnsafeSetFromSlice zs) \<and> tus_members (NewThreadUnsafeSetFromSlice zs) = set zs" for zs :: "Transaction list"
    using tus.from_list [OF tus.inv_empty, of zs] by (simp add: NewThreadUnsafeSetFromSlice_def tus_wf_new)
  have d: "gm_wf ?d" "tus_members ?d = set totalTxs"
    using f assms(3) by (simp_all add: tus.inv_ops tus.members_ops Diff_triv)
  have s: "set ?r = set totalTxs"
    using range_order_set [OF assms(1), of ?d] d(2) by (simp add: tus_ToSlice_def)
  have "distinct ?r"
    using range_order_wf [OF assms(1) d(1)] by (simp add: tus_ToSlice_def gm_wf_def)
  moreover have "?r \<noteq> []" using s assms(2) by auto
  ultimately show ?thesis
    using s assms(2) by (intro exI [of _ ?r]) (simp add: RemoveTxsInTxPool_def Let_def)
qed

theorem RemoveTxs_pointer_difference_witness:
  "\<forall>c bal vr. \<exists>rollbackTxs. set rollbackTxs = {sample_tx 1 1 1, sample_tx 2 2 1} \<and>
    RemoveTxsInTxPool c bal id [sample_tx 1 1 1, sample_tx 2 2 1] [(sample_tx 1 1 1)\<lparr>tx_ptr := 9\<rparr>] [] vr =
      go_bind (go_bind (vr_rollbackTransaction c bal rollbackTxs vr)
         (vr_committedTransaction c bal [(sample_tx 1 1 1)\<lparr>tx_ptr := 9\<rparr>])) (vr_updateTransactionReceiver [])"
proof (intro allI)
  fix c bal vr
  have dis: "set [sample_tx 1 1 1, sample_tx 2 2 1] \<inter> set [(sample_tx 1 1 1)\<lparr>tx_ptr := 9\<rparr>] = {}"
    by (simp add: sample_tx_def NewTransaction_def)
  obtain rb where "set rb = set [sample_tx 1 1 1, sample_tx 2 2 1]"
    "RemoveTxsInTxPool c bal id [sample_tx 1 1 1, sample_tx 2 2 1] [(sample_tx 1 1 1)\<lparr>tx_ptr := 9\<rparr>] [] vr =
      go_bind (go_bind (vr_rollbackTransaction c bal rb vr)
         (vr_committedTransaction c bal [(sample_tx 1 1 1)\<lparr>tx_ptr := 9\<rparr>])) (vr_updateTransactionReceiver [])"
    using RemoveTxs_pointer_difference [OF _ _ dis, of id c bal "[]" vr] by auto
  then show "\<exists>rollbackTxs. set rollbackTxs = {sample_tx 1 1 1, sample_tx 2 2 1} \<and>
    RemoveTxsInTxPool c bal id [sample_tx 1 1 1, sample_tx 2 2 1] [(sample_tx 1 1 1)\<lparr>tx_ptr := 9\<rparr>] [] vr =
      go_bind (go_bind (vr_rollbackTransaction c bal rollbackTxs vr)
         (vr_committedTransaction c bal [(sample_tx 1 1 1)\<lparr>tx_ptr := 9\<rparr>])) (vr_updateTransactionReceiver [])"
    by (intro exI [of _ rb]) simp
qed

text \<open>The checks of \<^verbatim>\<open>checkTransaction\<close> in terms of the coordinates. They panic exactly for a transaction between a
  chain and a parent that does not exist (an empty coordinate); an issuing transaction is never asked
  where it goes.\<close>

theorem checkTransaction_spec:
  "(\<not> returns (vr_checkTransaction ps tx) \<longleftrightarrow>
      (td_FromChain (tx_Data tx) = ChainID ps \<or> td_ToChain (tx_Data tx) = ChainID ps) \<and>
      (tx_Type tx = TypeDistribut \<and> td_ToChain (tx_Data tx) = [] \<or>
       tx_Type tx = TypeBackfront \<and> td_FromChain (tx_Data tx) = [])) \<and>
   (tx_Type tx = TypeAtomic \<longrightarrow> (vr_checkTransaction ps tx = Ret True \<longleftrightarrow>
      td_FromChain (tx_Data tx) = ChainID ps \<and> td_ToChain (tx_Data tx) = ChainID ps)) \<and>
   (tx_Type tx = TypeDistribut \<longrightarrow> (vr_checkTransaction ps tx = Ret True \<longleftrightarrow>
      (td_FromChain (tx_Data tx) = ChainID ps \<or> td_ToChain (tx_Data tx) = ChainID ps) \<and>
      (\<exists>b. td_ToChain (tx_Data tx) = td_FromChain (tx_Data tx) @ [b]) \<and> tx_Sender tx = tx_Recipient tx)) \<and>
   (tx_Type tx = TypeIssue \<and> td_FromChain (tx_Data tx) = ChainID ps \<longrightarrow>
      vr_checkTransaction ps tx = Ret (vr_checkIssueTransaction ps tx))"
proof -
  have P: "ParentCoorinate cc = (if cc = [] then Panic ''slice bounds out of range'' else Ret (butlast cc))" for cc
    by (simp add: ParentCoorinate_def NewChainCoordinate_def)
  show ?thesis
    by (cases "td_ToChain (tx_Data tx)" rule: rev_cases)
      (auto simp: vr_checkTransaction_def tx_FromChain_def tx_ToChain_def P addr_String_def Type_defs)
qed

theorem checkTransaction_spec_witness:
  "vr_checkTransaction \<lparr>ChainID = [0], PublicAddress = []\<rparr> (sample_signed 1) = Ret True"
  using checkTransaction_spec [of "\<lparr>ChainID = [0], PublicAddress = []\<rparr>" "sample_signed 1"]
  by (simp add: sample_signed_def WithSignature_def NewTransaction_def)

end
