(* ===== verification/Lbft_State.thy ===== *)
theory Lbft_State
  imports Lbft_Message Async_Seq Validator
begin

text \<open>
  The state of an LBFT replica (\<^verbatim>\<open>core/consensus/lbft\<close>: the types of \<^verbatim>\<open>lbft.go\<close> and \<^verbatim>\<open>lbft-core.go\<close>), its
  construction, its counters, timers and queues, and the table of consensus instances.

  Objects that several goroutines share through pointers (instances, sequence orderings, view
  changes) live in stores and are named by their index. A goroutine that is not one of the
  loops is a \<open>task\<close>: what it still has to do. A channel with a buffer is a list, and a send never
  blocks; a timer holds the duration it was last armed with. The clock is the field \<open>lb_now\<close>, which
  every event sets. The blockchain behind the consensus is the parameter \<open>istack\<close>, with the state
  \<open>lb_stack\<close>; the orders in which loops walk a map are the parameter \<open>le_order\<close>. Counters are 64 bits wide
  as in the code; the integers of the options are taken as unbounded.
\<close>

section \<open>Types\<close>

record 'k istack =
  sk_Verify :: "Transaction list \<Rightarrow> bool \<Rightarrow> 'k \<Rightarrow> (bool \<times> 'k) go"
  sk_Fetch :: "int \<Rightarrow> int \<Rightarrow> 'k \<Rightarrow> (Transaction list list \<times> 'k) go"
  sk_Info :: "'k \<Rightarrow> u32 \<times> u64"

record 'k lbft_env =
  le_crypto :: crypto_env
  le_stack :: "'k istack"
  le_order :: "(string \<times> nat) list \<Rightarrow> (string \<times> nat) list"

record BroadcastConsensus =
  bc_To :: string
  bc_Payload :: bytes

record OutputTxs =
  ot_Outputs :: "CommittedTxs list"
  ot_Height :: u32

record committedRequestBatch =
  cb_seqNo :: u64
  cb_requestBatch :: RequestBatch

record lbftCore =
  lc_name :: string
  lc_msgChan :: "Message list"
  lc_msgClosed :: bool
  lc_prepareVote :: "Prepare Vote"
  lc_commitVote :: "Commit Vote"
  lc_clsTimeoutTimer :: "int option"
  lc_timeoutTimer :: "int option"
  lc_prePrepareAsync :: "nat option"
  lc_commitAsync :: "nat option"
  lc_isPassPrePrepare :: bool
  lc_isPassPrepare :: bool
  lc_isPassCommit :: bool
  lc_requestBatch :: "RequestBatch option"
  lc_fromChain :: string
  lc_toChain :: string
  lc_seqNo :: u64
  lc_digest :: string
  lc_exit :: bool
  lc_isRunnig :: bool
  lc_loops :: nat
  lc_firstTime :: int

text \<open>The goroutines of an instance, by the point they have reached: before their first step, or inside a
  call of \<^verbatim>\<open>wait\<close> with its number and the channel it blocks on. The flag of a pre-prepare says that the
  replica made it itself and still has to send it. \<open>KResend\<close> is the transaction loop asleep before it
  votes again.\<close>

datatype task =
    KRequest nat u64 RequestBatch
  | KRequestWait nat u64 RequestBatch "nat option"
  | KPrePrepare nat PrePrepare
  | KPrePrepareWait nat u64 PrePrepare bool "nat option"
  | KCommit nat
  | KCommitWait nat u64 "nat option"
  | KResend "nat option"

record 'k Lbft =
  lb_now :: int
  lb_priority :: int
  lb_lastPrimaryID :: string
  lb_primaryID :: string
  lb_lastHeight :: u32
  lb_height :: u32
  lb_execSeqNo :: u64
  lb_lastSeqNo :: u64
  lb_seqNo :: u64
  lb_verifySeqNo :: u64
  lb_votedCnt :: int
  lb_concurrentCntTo :: int
  lb_prePrepareAsync :: "nat option"
  lb_commitAsync :: "nat option"
  lb_asyncs :: "asyncSeqNo list"
  lb_options :: Options
  lb_stack :: 'k
  lb_committedRequestBatch :: "(u64, RequestBatch) gomap"
  lb_lbftCores :: "(string, nat) gomap"
  lb_cores :: "lbftCore list"
  lb_tasks :: "task list"
  lb_coreCommittedChan :: "Committed list"
  lb_viewChanges :: "ViewChange list"
  lb_voteViewChange :: "nat Vote"
  lb_voteCommitted :: "(string, Committed Vote) gomap"
  lb_blockTimer :: "int option"
  lb_viewChangeTimer :: "int option"
  lb_resendViewChangeTimer :: "int option"
  lb_viewChangePeriodTimer :: "int option"
  lb_nullRequestTimer :: "int option"
  lb_emptyBlockTimer :: "int option"
  lb_emptyBlockTimerStart :: bool
  lb_committedBlock :: "committedRequestBatch list"
  lb_blockHeight :: u32
  lb_committedRequestBatchChan :: "committedRequestBatch list"
  lb_recvConsensusMsgChan :: "Message list"
  lb_committedTxsChan :: "OutputTxs list"
  lb_broadcastChan :: "BroadcastConsensus list"
  lb_running :: bool
  lb_msgLoop :: bool

section \<open>Construction\<close>

definition MINQUORUM :: u64 where "MINQUORUM = 3"
definition EMPTYBLOCK :: i64 where "EMPTYBLOCK = 1136160000"

text \<open>Division of Go, towards zero.\<close>

definition go_div :: "int \<Rightarrow> int \<Rightarrow> int" where
  "go_div a b = sgn a * sgn b * (\<bar>a\<bar> div \<bar>b\<bar>)"

definition checked_times :: "Options \<Rightarrow> Options" where
  "checked_times opt =
     (let opt1 = (if op_BlockTimeout opt \<ge> op_BlockInterval opt
                  then opt\<lparr>op_BlockTimeout := go_div (4 * op_BlockInterval opt) 5\<rparr> else opt)
      in if op_ViewChangePeriod opt1 > 0 \<and> op_ViewChangePeriod opt1 \<le> op_BlockInterval opt1
         then opt1\<lparr>op_ViewChangePeriod := 1000 * op_BlockInterval opt1\<rparr> else opt1)"

definition fixed_quorum :: "int \<Rightarrow> int" where
  "fixed_quorum n = go_div (n * 2 - 1) 3 + 1"

definition checked_quorum :: "Options \<Rightarrow> Options go" where
  "checked_quorum opt =
     (if op_N opt < 4 then Panic ''lbft.N should is greater 3''
      else if 3 * op_Q opt + 1 < op_N opt * 2 then Ret (opt\<lparr>op_Q := fixed_quorum (op_N opt)\<rparr>)
      else Ret opt)"

definition NewLbft :: "'k lbft_env \<Rightarrow> int \<Rightarrow> Options \<Rightarrow> 'k \<Rightarrow> 'k Lbft go" where
  "NewLbft E now options stack =
     go_bind (checked_quorum (checked_times options)) (\<lambda>opt.
       Ret \<lparr>lb_now = now, lb_priority = now, lb_lastPrimaryID = [], lb_primaryID = [],
         lb_lastHeight = fst (sk_Info (le_stack E) stack), lb_height = 0, lb_execSeqNo = 0,
         lb_lastSeqNo = snd (sk_Info (le_stack E) stack), lb_seqNo = 0, lb_verifySeqNo = 0,
         lb_votedCnt = 0, lb_concurrentCntTo = 0, lb_prePrepareAsync = None, lb_commitAsync = None,
         lb_asyncs = [], lb_options = opt, lb_stack = stack, lb_committedRequestBatch = gm_empty,
         lb_lbftCores = gm_empty, lb_cores = [], lb_tasks = [], lb_coreCommittedChan = [],
         lb_viewChanges = [], lb_voteViewChange = NewVote, lb_voteCommitted = gm_empty,
         lb_blockTimer = None, lb_viewChangeTimer = None, lb_resendViewChangeTimer = None,
         lb_viewChangePeriodTimer = None, lb_nullRequestTimer = None, lb_emptyBlockTimer = None,
         lb_emptyBlockTimerStart = False, lb_committedBlock = [], lb_blockHeight = 0,
         lb_committedRequestBatchChan = [], lb_recvConsensusMsgChan = [], lb_committedTxsChan = [],
         lb_broadcastChan = [], lb_running = False, lb_msgLoop = False\<rparr>)"

section \<open>Counters\<close>

text \<open>The getters read the field. The updates compare by the sign of the difference as the code does it:
  as \<^verbatim>\<open>uint32\<close> for the height, as \<^verbatim>\<open>int64\<close> for the sequence numbers.\<close>

definition incrExecSeqNum :: "'k Lbft \<Rightarrow> 'k Lbft" where
  "incrExecSeqNum lb = lb\<lparr>lb_execSeqNo := lb_execSeqNo lb + 1\<rparr>"

definition updateExecSeqNo :: "u64 \<Rightarrow> 'k Lbft \<Rightarrow> 'k Lbft" where
  "updateExecSeqNo seqNo lb = (if lb_execSeqNo lb = 0 then lb\<lparr>lb_execSeqNo := seqNo\<rparr> else lb)"

definition updateLastHeightNum :: "u32 \<Rightarrow> 'k Lbft \<Rightarrow> 'k Lbft" where
  "updateLastHeightNum h lb =
     (let t = h - lb_lastHeight lb in if t > 0 then lb\<lparr>lb_lastHeight := lb_lastHeight lb + t\<rparr> else lb)"

definition incrHeightNum :: "'k Lbft \<Rightarrow> 'k Lbft" where
  "incrHeightNum lb = lb\<lparr>lb_height := lb_height lb + 1\<rparr>"

definition updateLastSeqNo :: "u64 \<Rightarrow> 'k Lbft \<Rightarrow> 'k Lbft" where
  "updateLastSeqNo seqNo lb =
     (let t = seqNo - lb_lastSeqNo lb in if sint t > 0 then lb\<lparr>lb_lastSeqNo := lb_lastSeqNo lb + t\<rparr> else lb)"

definition incrSeqNum :: "'k Lbft \<Rightarrow> 'k Lbft" where
  "incrSeqNum lb = lb\<lparr>lb_seqNo := lb_seqNo lb + 1\<rparr>"

definition updateVerifySeqNo :: "u64 \<Rightarrow> 'k Lbft \<Rightarrow> 'k Lbft" where
  "updateVerifySeqNo seqNo lb =
     (let t = seqNo - lb_verifySeqNo lb in if sint t > 0 then lb\<lparr>lb_verifySeqNo := lb_verifySeqNo lb + t\<rparr> else lb)"

definition incrVerifySeqNum :: "'k Lbft \<Rightarrow> 'k Lbft" where
  "incrVerifySeqNum lb = lb\<lparr>lb_verifySeqNo := lb_verifySeqNo lb + 1\<rparr>"

section \<open>Roles, queues and timers\<close>

abbreviation own_chain :: "'k Lbft \<Rightarrow> string" where
  "own_chain lb \<equiv> op_Chain (lb_options lb)"

abbreviation own_id :: "'k Lbft \<Rightarrow> string" where
  "own_id lb \<equiv> op_ID (lb_options lb)"

definition intersectionQuorum :: "'k Lbft \<Rightarrow> int" where
  "intersectionQuorum lb = op_Q (lb_options lb)"

definition ChangeBlockSize :: "int \<Rightarrow> 'k Lbft \<Rightarrow> 'k Lbft" where
  "ChangeBlockSize sz lb = lb\<lparr>lb_options := (lb_options lb)\<lparr>op_BlockSize := sz\<rparr>\<rparr>"

definition hasPrimary :: "'k Lbft \<Rightarrow> bool" where
  "hasPrimary lb \<longleftrightarrow> lb_primaryID lb \<noteq> []"

definition isPrimary :: "'k Lbft \<Rightarrow> bool" where
  "isPrimary lb \<longleftrightarrow> own_id lb = lb_primaryID lb"

definition lb_broadcast :: "string \<Rightarrow> payload \<Rightarrow> 'k Lbft \<Rightarrow> 'k Lbft" where
  "lb_broadcast to msg lb = lb\<lparr>lb_broadcastChan := lb_broadcastChan lb @
     [\<lparr>bc_To = to, bc_Payload = mg_Serialize (mk_msg msg)\<rparr>]\<rparr>"

text \<open>\<^verbatim>\<open>t1.Sub(t1.Truncate(d))\<close>: the time since the last multiple of \<open>d\<close>, counted from the zero time of Go
  (year 1).\<close>

definition since_truncate :: "int \<Rightarrow> int \<Rightarrow> int" where
  "since_truncate now d = (if d \<le> 0 then 0 else (now + 62135596800 * second) mod d)"

definition resetBlockTimer :: "'k Lbft \<Rightarrow> 'k Lbft" where
  "resetBlockTimer lb = (let d = op_BlockInterval (lb_options lb)
     in lb\<lparr>lb_blockTimer := Some (d - since_truncate (lb_now lb) d)\<rparr>)"

definition resetEmptyBlockTimer :: "'k Lbft \<Rightarrow> 'k Lbft" where
  "resetEmptyBlockTimer lb = (let d = op_BlockInterval (lb_options lb)
     in lb\<lparr>lb_emptyBlockTimer := Some (2 * d - since_truncate (lb_now lb) d), lb_emptyBlockTimerStart := True\<rparr>)"

definition softResetEmptyBlockTimer :: "'k Lbft \<Rightarrow> 'k Lbft" where
  "softResetEmptyBlockTimer lb = (if lb_emptyBlockTimerStart lb then lb else resetEmptyBlockTimer lb)"

definition resetViewChangePeriodTimer :: "'k Lbft \<Rightarrow> 'k Lbft" where
  "resetViewChangePeriodTimer lb =
     lb\<lparr>lb_viewChangePeriodTimer := (if hasPrimary lb \<and> op_ViewChangePeriod (lb_options lb) > 0
        then Some (op_ViewChangePeriod (lb_options lb)) else None)\<rparr>"

definition nullRequestTimerStart :: "'k Lbft \<Rightarrow> 'k Lbft" where
  "nullRequestTimerStart lb =
     (let opt = lb_options lb in
      lb\<lparr>lb_nullRequestTimer :=
        (if \<not> op_NullRequest opt > 0 \<or> \<not> hasPrimary lb then None
         else if isPrimary lb then Some (op_NullRequest opt)
         else Some (op_BlockInterval opt + op_NullRequest opt))\<rparr>)"

section \<open>Batches\<close>

definition isValid :: "'k Lbft \<Rightarrow> RequestBatch \<Rightarrow> bool \<Rightarrow> bool" where
  "isValid lb requestBatch from \<longleftrightarrow>
     (if from then
        if rb_ID requestBatch = EMPTYBLOCK \<and> rb_Requests requestBatch = [] then True
        else rb_fromChain requestBatch = own_chain lb
      else if rb_ID requestBatch = EMPTYBLOCK then False
      else rb_toChain requestBatch = own_chain lb)"

definition toTxs :: "RequestBatch \<Rightarrow> Transaction list" where
  "toTxs requestBatch = map rq_Transaction (rb_Requests requestBatch)"

definition max_time :: "Request list \<Rightarrow> u32" where
  "max_time reqs = fold (\<lambda>req nano. if nano < rq_Time req then rq_Time req else nano) reqs 0"

definition toRequestBatch :: "Transaction list \<Rightarrow> RequestBatch" where
  "toRequestBatch txs = (let reqs = map (\<lambda>tx. \<lparr>rq_Transaction = tx\<rparr>) txs in
     \<lparr>rb_Time = max_time reqs, rb_Requests = reqs, rb_ID = 0, rb_Index = 0, rb_Height = 0\<rparr>)"

section \<open>Instances\<close>

definition upd_core :: "nat \<Rightarrow> (lbftCore \<Rightarrow> lbftCore) \<Rightarrow> 'k Lbft \<Rightarrow> 'k Lbft" where
  "upd_core i f lb = lb\<lparr>lb_cores := (lb_cores lb)[i := f (lb_cores lb ! i)]\<rparr>"

definition add_task :: "task \<Rightarrow> 'k Lbft \<Rightarrow> 'k Lbft" where
  "add_task t lb = lb\<lparr>lb_tasks := lb_tasks lb @ [t]\<rparr>"

definition newLbftCore :: "string \<Rightarrow> 'k Lbft \<Rightarrow> lbftCore" where
  "newLbftCore name lb =
     \<lparr>lc_name = name, lc_msgChan = [], lc_msgClosed = False, lc_prepareVote = NewVote, lc_commitVote = NewVote,
      lc_clsTimeoutTimer = Some (2 * op_BlockTimeout (lb_options lb)), lc_timeoutTimer = None,
      lc_prePrepareAsync = lb_prePrepareAsync lb, lc_commitAsync = lb_commitAsync lb,
      lc_isPassPrePrepare = False, lc_isPassPrepare = False, lc_isPassCommit = False,
      lc_requestBatch = None, lc_fromChain = [], lc_toChain = [], lc_seqNo = 0, lc_digest = [],
      lc_exit = False, lc_isRunnig = False, lc_loops = 0, lc_firstTime = lb_now lb\<rparr>"

definition getInstance :: "string \<Rightarrow> 'k Lbft \<Rightarrow> nat \<times> 'k Lbft" where
  "getInstance key lb =
     (case gm_get (lb_lbftCores lb) key of
        Some i \<Rightarrow> (i, lb)
      | None \<Rightarrow> let i = length (lb_cores lb) in
          (i, lb\<lparr>lb_cores := lb_cores lb @ [newLbftCore key lb], lb_lbftCores := gm_set key i (lb_lbftCores lb)\<rparr>))"

definition hasInstance :: "string \<Rightarrow> 'k Lbft \<Rightarrow> bool" where
  "hasInstance key lb \<longleftrightarrow> gm_has (lb_lbftCores lb) key"

definition core_start :: "nat \<Rightarrow> 'k Lbft \<Rightarrow> 'k Lbft" where
  "core_start i lb =
     (let core = lb_cores lb ! i; since = lb_now lb - lc_firstTime core; t = op_BlockTimeout (lb_options lb)
      in if lc_isRunnig core \<or> since > t then lb
         else upd_core i (\<lambda>core. core\<lparr>lc_isRunnig := True, lc_clsTimeoutTimer := None,
                lc_timeoutTimer := Some (t - since), lc_loops := lc_loops core + 1\<rparr>) lb)"

text \<open>\<^verbatim>\<open>close(instance.exit)\<close> panics the second time.\<close>

definition core_stop :: "nat \<Rightarrow> 'k Lbft \<Rightarrow> 'k Lbft go" where
  "core_stop i lb =
     (let core = lb_cores lb ! i in
      if \<not> lc_isRunnig core then Ret lb
      else if lc_exit core then Panic ''close of closed channel''
      else Ret (upd_core i (\<lambda>core. core\<lparr>lc_isRunnig := False, lc_exit := True\<rparr>) lb))"

definition isCross :: "lbftCore \<Rightarrow> bool" where
  "isCross core \<longleftrightarrow> lc_fromChain core \<noteq> lc_toChain core"

definition removeInstance :: "string \<Rightarrow> 'k Lbft \<Rightarrow> 'k Lbft go" where
  "removeInstance key lb =
     (case gm_get (lb_lbftCores lb) key of
        None \<Rightarrow> Ret lb
      | Some i \<Rightarrow>
          core_stop i (lb\<lparr>lb_lbftCores := gm_del key (lb_lbftCores lb),
            lb_concurrentCntTo := (if lb_concurrentCntTo lb > 0 \<and> isCross (lb_cores lb ! i)
              then lb_concurrentCntTo lb - 1 else lb_concurrentCntTo lb)\<rparr>))"

text \<open>The loop over all instances that a view change makes: every entry is deleted and stopped. Its order
  does not matter.\<close>

definition stop_instances :: "'k Lbft \<Rightarrow> 'k Lbft go" where
  "stop_instances lb = go_fold (\<lambda>(key, i) lb. core_stop i (lb\<lparr>lb_lbftCores := gm_del key (lb_lbftCores lb)\<rparr>))
     (lb_lbftCores lb) lb"

definition lb_handleRequestBatch :: "'k lbft_env \<Rightarrow> RequestBatch \<Rightarrow> 'k Lbft \<Rightarrow> 'k Lbft" where
  "lb_handleRequestBatch E requestBatch lb =
     (case getInstance (rb_key (le_crypto E) requestBatch) lb of (i, lb1) \<Rightarrow>
      let lb2 = incrSeqNum lb1 in add_task (KRequest i (lb_seqNo lb2) requestBatch) lb2)"

text \<open>A message for an instance: a pre-prepare starts it; a send on a closed channel panics.\<close>

definition core_recvMessage :: "nat \<Rightarrow> Message \<Rightarrow> 'k Lbft \<Rightarrow> 'k Lbft go" where
  "core_recvMessage i msg lb =
     (let lb1 = (if mg_Type msg = MESSAGEPREPREPARE then core_start i lb else lb)
      in if lc_msgClosed (lb_cores lb1 ! i) then Panic ''send on closed channel''
         else Ret (upd_core i (\<lambda>core. core\<lparr>lc_msgChan := lc_msgChan core @ [msg]\<rparr>) lb1))"

definition handleLbftCoreMsg :: "string \<Rightarrow> Message \<Rightarrow> 'k Lbft \<Rightarrow> 'k Lbft go" where
  "handleLbftCoreMsg key msg lb = (case getInstance key lb of (i, lb1) \<Rightarrow> core_recvMessage i msg lb1)"

section \<open>Waiting for a sequence number\<close>

text \<open>The calls of a sequence ordering through the pointer an instance holds; nil panics.\<close>

definition on_async :: "nat option \<Rightarrow> (asyncSeqNo \<Rightarrow> ('a \<times> asyncSeqNo) go) \<Rightarrow> 'k Lbft \<Rightarrow> ('a \<times> 'k Lbft) go" where
  "on_async a f lb =
     (case a of
        None \<Rightarrow> nil_deref
      | Some j \<Rightarrow> go_bind (f (lb_asyncs lb ! j)) (\<lambda>(x, as). Ret (x, lb\<lparr>lb_asyncs := (lb_asyncs lb)[j := as]\<rparr>)))"

definition async_do :: "nat option \<Rightarrow> (asyncSeqNo \<Rightarrow> asyncSeqNo go) \<Rightarrow> 'k Lbft \<Rightarrow> 'k Lbft go" where
  "async_do a f lb = go_bind (on_async a (\<lambda>as. go_bind (f as) (\<lambda>as'. Ret ((), as'))) lb) (\<lambda>(_, lb'). Ret lb')"

definition async_ready :: "nat option \<Rightarrow> u64 \<Rightarrow> nat option \<Rightarrow> 'k Lbft \<Rightarrow> bool" where
  "async_ready a n c lb = (case a of None \<Rightarrow> False | Some j \<Rightarrow> wait_ready n c (lb_asyncs lb ! j))"

text \<open>\<^verbatim>\<open>waitForVerify\<close> goes on when the number is due or the instance is stopped.\<close>

definition verify_due :: "nat \<Rightarrow> 'k Lbft \<Rightarrow> bool" where
  "verify_due i lb \<longleftrightarrow> lc_seqNo (lb_cores lb ! i) \<le> lb_verifySeqNo lb + 1 \<or> lc_exit (lb_cores lb ! i)"

end
