(* ===== verification/Lbft_Core.thy ===== *)
theory Lbft_Core
  imports Lbft_State
begin

text \<open>
  The consensus instance of one batch (\<^verbatim>\<open>core/consensus/lbft/lbft-core.go\<close>): pre-prepare, prepare and
  commit. A handler that blocks in \<^verbatim>\<open>wait\<close> ends there with a task that holds what is left of it; the
  second half is the function with the suffix \<open>_go\<close>, which runs when the ordering lets it.
\<close>

section \<open>Counting votes\<close>

text \<open>The loops of \<^verbatim>\<open>maybePreparePass\<close> and \<^verbatim>\<open>maybeCommitPass\<close>: the largest number of votes among the tickets of
  a chain, and the quorum that a ticket with this number states. Tickets of the own chain must also
  agree with the instance on digest and sequence number. Every counted key has a ticket.\<close>

definition scan_ticket :: "(Prepare \<Rightarrow> bool) \<Rightarrow> Prepare option \<Rightarrow> nat \<Rightarrow> nat \<times> u64 \<Rightarrow> nat \<times> u64" where
  "scan_ticket P ticket num s =
     (case ticket of
        None \<Rightarrow> s
      | Some t \<Rightarrow> if P t \<and> num > fst s then (num, pr_Quorum t) else s)"

definition counts_for :: "string \<Rightarrow> lbftCore \<Rightarrow> string \<Rightarrow> Prepare \<Rightarrow> bool" where
  "counts_for own core chain t \<longleftrightarrow>
     (if chain = own then pr_Chain t = chain \<and> pr_Digest t = lc_digest core \<and> pr_SeqNo t = lc_seqNo core
      else pr_Chain t = chain)"

definition chain_passes :: "'k lbft_env \<Rightarrow> string \<Rightarrow> lbftCore \<Rightarrow> Prepare Vote \<Rightarrow> string \<Rightarrow> bool" where
  "chain_passes E own core v chain =
     (case vote_IterTicket (scan_ticket (counts_for own core chain)) (le_order E (v_statistics v)) v (0, 0) of
        (mx, quorum) \<Rightarrow> \<not> (mx = 0 \<or> quorum < MINQUORUM \<or> word_of_nat mx < quorum))"

definition vote_passes :: "'k lbft_env \<Rightarrow> string \<Rightarrow> lbftCore \<Rightarrow> Prepare Vote \<Rightarrow> bool" where
  "vote_passes E own core v \<longleftrightarrow> chain_passes E own core v (lc_fromChain core) \<and>
     (lc_fromChain core \<noteq> lc_toChain core \<longrightarrow> chain_passes E own core v (lc_toChain core))"

definition maybePreparePass :: "'k lbft_env \<Rightarrow> string \<Rightarrow> lbftCore \<Rightarrow> bool \<times> lbftCore" where
  "maybePreparePass E own core =
     (if \<not> lc_isPassPrePrepare core then (False, core)
      else if vote_passes E own core (lc_prepareVote core) then (True, core\<lparr>lc_isPassPrepare := True\<rparr>)
      else (False, core))"

definition maybeCommitPass :: "'k lbft_env \<Rightarrow> string \<Rightarrow> lbftCore \<Rightarrow> bool \<times> lbftCore" where
  "maybeCommitPass E own core =
     (if \<not> lc_isPassPrepare core then (False, core)
      else if vote_passes E own core (lc_commitVote core) then (True, core\<lparr>lc_isPassCommit := True\<rparr>)
      else (False, core))"

section \<open>Handlers\<close>

definition core_broadcast :: "nat \<Rightarrow> payload \<Rightarrow> 'k Lbft \<Rightarrow> 'k Lbft" where
  "core_broadcast i msg lb =
     (let core = lb_cores lb ! i; lb1 = lb_broadcast (lc_fromChain core) msg lb
      in if lc_fromChain core \<noteq> lc_toChain core then lb_broadcast (lc_toChain core) msg lb1 else lb1)"

text \<open>The check a vote has to pass once the instance knows its batch.\<close>

definition vote_fits :: "string \<Rightarrow> lbftCore \<Rightarrow> Prepare \<Rightarrow> bool" where
  "vote_fits own core t \<longleftrightarrow> \<not> lc_isPassPrePrepare core \<or>
     \<not> (pr_Chain t \<noteq> lc_fromChain core \<and> pr_Chain t \<noteq> lc_toChain core) \<and>
     \<not> (pr_Chain t = own \<and> pr_SeqNo t \<noteq> lc_seqNo core) \<and>
     pr_Digest t = lc_digest core"

definition own_vote :: "nat \<Rightarrow> 'k Lbft \<Rightarrow> Prepare" where
  "own_vote i lb = (let core = lb_cores lb ! i in
     \<lparr>pr_Name = lc_name core, pr_PrimaryID = lb_primaryID lb, pr_Chain = own_chain lb, pr_ReplicaID = own_id lb,
      pr_SeqNo = lc_seqNo core, pr_Digest = lc_digest core, pr_Quorum = word_of_int (intersectionQuorum lb)\<rparr>)"

definition handleCommit :: "'k lbft_env \<Rightarrow> nat \<Rightarrow> Commit \<Rightarrow> 'k Lbft \<Rightarrow> 'k Lbft" where
  "handleCommit E i commit lb =
     (if \<not> vote_fits (own_chain lb) (lb_cores lb ! i) commit then lb
      else
        let lb1 = upd_core i (\<lambda>core. core\<lparr>lc_commitVote :=
                    vote_Add (pr_key (le_crypto E)) (pr_ReplicaID commit) commit (lc_commitVote core)\<rparr>) lb
        in if lc_isPassCommit (lb_cores lb1 ! i) then lb1
           else (case maybeCommitPass E (own_chain lb1) (lb_cores lb1 ! i) of (pass, core) \<Rightarrow>
                   let lb2 = upd_core i (\<lambda>_. core) lb1
                   in if pass then add_task (KCommit i) lb2 else lb2))"

definition handlePrepare :: "'k lbft_env \<Rightarrow> nat \<Rightarrow> Prepare \<Rightarrow> 'k Lbft \<Rightarrow> 'k Lbft" where
  "handlePrepare E i prepare lb =
     (if \<not> vote_fits (own_chain lb) (lb_cores lb ! i) prepare then lb
      else
        let lb1 = upd_core i (\<lambda>core. core\<lparr>lc_prepareVote :=
                    vote_Add (pr_key (le_crypto E)) (pr_ReplicaID prepare) prepare (lc_prepareVote core)\<rparr>) lb
        in if lc_isPassPrepare (lb_cores lb1 ! i) then lb1
           else (case maybePreparePass E (own_chain lb1) (lb_cores lb1 ! i) of (pass, core) \<Rightarrow>
                   let lb2 = upd_core i (\<lambda>_. core) lb1
                   in if pass then
                        let commit = own_vote i lb2
                        in core_broadcast i (PCommit commit) (handleCommit E i commit lb2)
                      else lb2))"

text \<open>The end of \<^verbatim>\<open>handlePrePrepare\<close>: the batch is accepted and the replica votes for it.\<close>

definition accept_batch :: "'k lbft_env \<Rightarrow> nat \<Rightarrow> RequestBatch \<Rightarrow> 'k Lbft \<Rightarrow> 'k Lbft" where
  "accept_batch E i requestBatch lb =
     (let lb1 = upd_core i (\<lambda>core. core\<lparr>lc_requestBatch := Some requestBatch,
                  lc_digest := rb_hash (le_crypto E) requestBatch, lc_isPassPrePrepare := True\<rparr>) lb;
          prepare = own_vote i lb1
      in core_broadcast i (PPrepare prepare) (handlePrepare E i prepare lb1))"

text \<open>The chains of a batch; an empty block belongs to the own chain.\<close>

definition set_chains :: "nat \<Rightarrow> RequestBatch \<Rightarrow> 'k Lbft \<Rightarrow> 'k Lbft" where
  "set_chains i requestBatch lb =
     (if rb_ID requestBatch = EMPTYBLOCK
      then upd_core i (\<lambda>core. core\<lparr>lc_fromChain := own_chain lb, lc_toChain := own_chain lb\<rparr>) lb
      else upd_core i (\<lambda>core. core\<lparr>lc_fromChain := rb_fromChain requestBatch, lc_toChain := rb_toChain requestBatch\<rparr>) lb)"

text \<open>After \<^verbatim>\<open>handlePrePrepare\<close>, a primary sends the pre-prepare it made.\<close>

definition after_preprepare :: "bool \<Rightarrow> PrePrepare \<Rightarrow> 'k Lbft \<Rightarrow> 'k Lbft" where
  "after_preprepare made preprep lb = (if made then lb_broadcast (own_chain lb) (PPrePrepare preprep) lb else lb)"

definition handlePrePrepare :: "'k lbft_env \<Rightarrow> bool \<Rightarrow> nat \<Rightarrow> PrePrepare \<Rightarrow> 'k Lbft \<Rightarrow> 'k Lbft go" where
  "handlePrePrepare E made i preprep lb =
     (if lc_isPassPrePrepare (lb_cores lb ! i) then Ret (after_preprepare made preprep lb)
      else
        let requestBatch = pp_Requests preprep;
            lb1 = upd_core i (\<lambda>core. core\<lparr>lc_seqNo := pp_SeqNo preprep\<rparr>) (set_chains i requestBatch lb);
            core = lb_cores lb1 ! i
        in if \<not> isPrimary lb1 then
             if \<not> isValid lb1 requestBatch (lc_fromChain core = own_chain lb1)
             then Ret (after_preprepare made preprep lb1)
             else go_bind (on_async (lc_prePrepareAsync core) (wait_enter (lc_seqNo core)) lb1) (\<lambda>(c, lb2).
                    Ret (add_task (KPrePrepareWait i (lc_seqNo core) preprep made c) lb2))
           else
             let lb2 = (if rb_ID requestBatch \<noteq> EMPTYBLOCK then
                          if lc_toChain core = lc_fromChain core then resetEmptyBlockTimer lb1
                          else softResetEmptyBlockTimer lb1
                        else lb1)
             in Ret (after_preprepare made preprep (accept_batch E i requestBatch lb2)))"

text \<open>The function that \<^verbatim>\<open>handlePrePrepare\<close> passes to \<^verbatim>\<open>wait\<close>: the pool verifies the transactions of a batch
  of the own chain.\<close>

definition verify_preprepare :: "'k lbft_env \<Rightarrow> nat \<Rightarrow> RequestBatch \<Rightarrow> 'k Lbft \<Rightarrow> (bool \<times> 'k Lbft) go" where
  "verify_preprepare E i requestBatch lb =
     (let fromChain = (if rb_ID requestBatch = EMPTYBLOCK then own_chain lb else rb_fromChain requestBatch) in
      if rb_ID requestBatch \<noteq> EMPTYBLOCK \<and> rb_Index requestBatch = 0 \<and> own_chain lb = fromChain \<and>
         lc_seqNo (lb_cores lb ! i) > lb_seqNo lb
      then go_bind (sk_Verify (le_stack E) (toTxs requestBatch) False (lb_stack lb)) (\<lambda>(pass, k).
             Ret (pass, if pass then incrVerifySeqNum (lb\<lparr>lb_stack := k\<rparr>) else lb\<lparr>lb_stack := k\<rparr>))
      else Ret (True, incrVerifySeqNum lb))"

definition handlePrePrepare_go :: "'k lbft_env \<Rightarrow> nat \<Rightarrow> u64 \<Rightarrow> PrePrepare \<Rightarrow> bool \<Rightarrow> 'k Lbft \<Rightarrow> 'k Lbft go" where
  "handlePrePrepare_go E i n preprep made lb =
     go_bind (verify_preprepare E i (pp_Requests preprep) lb) (\<lambda>(verify, lb1).
     go_bind (async_do (lc_prePrepareAsync (lb_cores lb1 ! i)) (wait_leave n) lb1) (\<lambda>lb2.
       Ret (after_preprepare made preprep (if verify then accept_batch E i (pp_Requests preprep) lb2 else lb2))))"

definition core_handleRequestBatch :: "nat \<Rightarrow> u64 \<Rightarrow> RequestBatch \<Rightarrow> 'k Lbft \<Rightarrow> 'k Lbft go" where
  "core_handleRequestBatch i seqNo requestBatch lb =
     (let lb1 = set_chains i requestBatch (core_start i (upd_core i (\<lambda>core. core\<lparr>lc_seqNo := seqNo\<rparr>) lb));
          core = lb_cores lb1 ! i
      in go_bind (on_async (lc_prePrepareAsync core) (wait_enter (lc_seqNo core)) lb1) (\<lambda>(c, lb2).
           Ret (add_task (KRequestWait i (lc_seqNo core) requestBatch c) lb2)))"

text \<open>The function that the primary passes to \<^verbatim>\<open>wait\<close>: it asks the pool to verify the transactions of a new
  batch but does not look at the answer, and it sends a batch for another chain to that chain.\<close>

definition verify_request :: "'k lbft_env \<Rightarrow> nat \<Rightarrow> RequestBatch \<Rightarrow> 'k Lbft \<Rightarrow> 'k Lbft go" where
  "verify_request E i requestBatch lb =
     (let core = lb_cores lb ! i in
      if rb_ID requestBatch \<noteq> EMPTYBLOCK \<and> rb_Index requestBatch = 0 \<and> lc_fromChain core = own_chain lb
      then go_bind (sk_Verify (le_stack E) (toTxs requestBatch) True (lb_stack lb)) (\<lambda>(pass, k).
             Ret (lb\<lparr>lb_stack := k\<rparr>))
      else Ret lb)"

definition forward_request :: "nat \<Rightarrow> RequestBatch \<Rightarrow> 'k Lbft \<Rightarrow> 'k Lbft" where
  "forward_request i requestBatch lb =
     (let core = lb_cores lb ! i in
      incrVerifySeqNum (if lc_fromChain core \<noteq> lc_toChain core \<and> lc_fromChain core = own_chain lb
        then lb_broadcast (lc_toChain core) (PRequestBatch requestBatch) lb else lb))"

definition core_handleRequestBatch_go :: "'k lbft_env \<Rightarrow> nat \<Rightarrow> u64 \<Rightarrow> RequestBatch \<Rightarrow> 'k Lbft \<Rightarrow> 'k Lbft go" where
  "core_handleRequestBatch_go E i n requestBatch lb =
     go_bind (verify_request E i requestBatch lb) (\<lambda>lb1.
     go_bind (async_do (lc_prePrepareAsync (lb_cores lb1 ! i)) (wait_leave n) (forward_request i requestBatch lb1)) (\<lambda>lb2.
       let core = lb_cores lb2 ! i;
           prePrepare = \<lparr>pp_Name = lc_name core, pp_PrimaryID = own_id lb2, pp_Chain = own_chain lb2,
             pp_ReplicaID = own_id lb2, pp_SeqNo = lc_seqNo core, pp_Digest = [], pp_Quorum = 0,
             pp_Requests = requestBatch\<rparr>
       in handlePrePrepare E True i prePrepare lb2))"

text \<open>The goroutine that a passed commit starts. The batch of an instance that passed is set; the code
  reads it through the pointer.\<close>

definition commit_start :: "nat \<Rightarrow> 'k Lbft \<Rightarrow> 'k Lbft go" where
  "commit_start i lb =
     (let core = lb_cores lb ! i in
      if lc_isRunnig core then
        go_bind (on_async (lc_commitAsync core) (wait_enter (lc_seqNo core)) lb) (\<lambda>(c, lb1).
          Ret (add_task (KCommitWait i (lc_seqNo core) c) lb1))
      else Ret lb)"

definition commit_go :: "nat \<Rightarrow> u64 \<Rightarrow> 'k Lbft \<Rightarrow> 'k Lbft go" where
  "commit_go i n lb =
     (let core = lb_cores lb ! i in
      case lc_requestBatch core of
        None \<Rightarrow> nil_deref
      | Some requestBatch \<Rightarrow>
          let ctt = \<lparr>cd_Name = lc_name core, cd_PrimaryID = [], cd_Chain = own_chain lb, cd_ReplicaID = own_id lb,
                cd_SeqNo = lc_seqNo core, cd_RequestBatch = requestBatch\<rparr>;
              lb1 = lb\<lparr>lb_recvConsensusMsgChan := lb_recvConsensusMsgChan lb @ [mk_msg (PCommitted ctt)]\<rparr>
          in async_do (lc_commitAsync core) (wait_leave n) (lb_broadcast (own_chain lb) (PCommitted ctt) lb1))"

end
