(* ===== verification/Lbft.thy ===== *)
theory Lbft
  imports Lbft_Core
begin

text \<open>
  The replica (\<^verbatim>\<open>core/consensus/lbft/lbft.go\<close>): committed batches and the blocks made of them, view changes,
  the messages from other replicas, the timers, and the events that a run is made of. Every handler
  runs as one step, up to the points where it blocks. A ticket of the view-change vote is the index
  of the object in \<open>lb_viewChanges\<close>, because later votes change earlier ones through the pointer.
\<close>

section \<open>Committed batches\<close>

definition del_committed :: "u64 \<Rightarrow> 'k Lbft \<Rightarrow> 'k Lbft" where
  "del_committed seqNo lb = lb\<lparr>lb_committedRequestBatch := gm_del seqNo (lb_committedRequestBatch lb)\<rparr>"

definition removeCommittedReqeustBatch :: "u64 \<Rightarrow> 'k Lbft \<Rightarrow> 'k Lbft" where
  "removeCommittedReqeustBatch seqNo lb = del_committed seqNo lb"

definition hasCommittedReqeustBatch :: "u64 \<Rightarrow> 'k Lbft \<Rightarrow> bool" where
  "hasCommittedReqeustBatch seqNo lb \<longleftrightarrow> gm_has (lb_committedRequestBatch lb) seqNo"

definition getCommittedReqeustBatch :: "u64 \<Rightarrow> 'k Lbft \<Rightarrow> RequestBatch option" where
  "getCommittedReqeustBatch seqNo lb = gm_get (lb_committedRequestBatch lb) seqNo"

definition option_K :: "'k Lbft \<Rightarrow> u64" where
  "option_K lb = word_of_int (op_K (lb_options lb))"

text \<open>The loop of \<^verbatim>\<open>checkpoint\<close> over the sorted numbers; it also returns the variable \<^verbatim>\<open>checkpoint\<close>.\<close>

fun cp_loop :: "u64 \<Rightarrow> u64 list \<Rightarrow> u64 \<Rightarrow> 'k Lbft \<Rightarrow> (u64 \<times> 'k Lbft) go" where
  "cp_loop first [] cp lb = Ret (cp, lb)"
| "cp_loop first (seqNo # keys) cp lb =
     (if seqNo < cp then
        let n = seqNo - option_K lb
        in cp_loop first keys cp (if n \<ge> first then del_committed n lb else lb)
      else if seqNo = cp then
        (let lb1 = incrExecSeqNum lb in
         case gm_get (lb_committedRequestBatch lb) seqNo of
           None \<Rightarrow> nil_deref
         | Some reqBatch \<Rightarrow>
             let lb2 = lb1\<lparr>lb_committedRequestBatchChan := lb_committedRequestBatchChan lb1 @
                   [\<lparr>cb_seqNo = lb_execSeqNo lb1, cb_requestBatch = reqBatch\<rparr>]\<rparr>;
                 lb3 = del_committed (seqNo - option_K lb2) lb2
             in cp_loop first keys (lb_execSeqNo lb3 + 1) lb3)
      else
        Ret (cp, lb_broadcast (own_chain lb)
          (PFetchCommitted \<lparr>fc_Chain = own_chain lb, fc_ReplicaID = own_id lb, fc_SeqNo = cp\<rparr>) lb))"

definition checkpoint :: "'k Lbft \<Rightarrow> 'k Lbft go" where
  "checkpoint lb =
     (let keys = sort (map fst (lb_committedRequestBatch lb)) in
      case keys of
        [] \<Rightarrow> Ret lb
      | first # _ \<Rightarrow>
          let lb1 = updateExecSeqNo (first - 1) lb
          in go_bind (cp_loop first keys (lb_execSeqNo lb1 + 1) lb1) (\<lambda>(cp, lb2).
               if last keys > cp + option_K lb2 then Panic ''fallen behind'' else Ret lb2))"

definition addCommittedReqeustBatch :: "'k lbft_env \<Rightarrow> u64 \<Rightarrow> RequestBatch \<Rightarrow> 'k Lbft \<Rightarrow> 'k Lbft go" where
  "addCommittedReqeustBatch E seqNo requestBatch lb =
     go_bind (removeInstance (rb_key (le_crypto E) requestBatch) lb) (\<lambda>lb1.
       if gm_has (lb_committedRequestBatch lb1) seqNo then Ret lb1
       else checkpoint (updateVerifySeqNo seqNo (updateLastSeqNo seqNo (updateLastHeightNum (rb_Height requestBatch)
              (lb1\<lparr>lb_committedRequestBatch := gm_set seqNo requestBatch (lb_committedRequestBatch lb1)\<rparr>)))))"

section \<open>Blocks\<close>

text \<open>The committed transactions of the batches of a block; the first batch of the own chain is marked.\<close>

fun block_outputs :: "string \<Rightarrow> nat \<Rightarrow> committedRequestBatch list \<Rightarrow> CommittedTxs list" where
  "block_outputs chain cnt [] = []"
| "block_outputs chain cnt (ctt # ctts) =
     (let rb = cb_requestBatch ctt; txs = map rq_Transaction (rb_Requests rb) in
      if rb_fromChain rb = chain then
        \<lparr>ct_Skip = (cnt + 1 = 1), ct_IsLocalChain = True, ct_SeqNo = cb_seqNo ctt, ct_Time = rb_Time rb, ct_Transactions = txs\<rparr>
          # block_outputs chain (cnt + 1) ctts
      else
        \<lparr>ct_Skip = False, ct_IsLocalChain = False, ct_SeqNo = cb_seqNo ctt, ct_Time = rb_Time rb, ct_Transactions = txs\<rparr>
          # block_outputs chain cnt ctts)"

definition writeBlock :: "'k Lbft \<Rightarrow> 'k Lbft" where
  "writeBlock lb =
     (case lb_committedBlock lb of
        [] \<Rightarrow> lb
      | ctt # _ \<Rightarrow>
          lb\<lparr>lb_committedTxsChan := lb_committedTxsChan lb @
               [\<lparr>ot_Outputs = block_outputs (own_chain lb) 0 (lb_committedBlock lb), ot_Height = rb_Height (cb_requestBatch ctt)\<rparr>],
             lb_committedBlock := []\<rparr>)"

text \<open>The case of a committed batch in \<^verbatim>\<open>handleCommittedRequestBatch\<close>; \<open>lb_blockHeight\<close> is its variable
  \<^verbatim>\<open>height\<close>.\<close>

definition collect_batch :: "committedRequestBatch \<Rightarrow> 'k Lbft \<Rightarrow> 'k Lbft" where
  "collect_batch ctt lb =
     (let rb = cb_requestBatch ctt in
      if rb_ID rb = EMPTYBLOCK \<or> rb_fromChain rb = own_chain lb then
        if lb_blockHeight lb = 0 \<or> lb_blockHeight lb = rb_Height rb then
          lb\<lparr>lb_committedBlock := lb_committedBlock lb @ [ctt], lb_blockHeight := rb_Height rb\<rparr>
        else (writeBlock lb)\<lparr>lb_committedBlock := [ctt], lb_blockHeight := rb_Height rb\<rparr>
      else lb\<lparr>lb_committedBlock := lb_committedBlock lb @ [ctt]\<rparr>)"

section \<open>View change\<close>

abbreviation vc_at :: "'k Lbft \<Rightarrow> nat \<Rightarrow> ViewChange" where
  "vc_at lb a \<equiv> lb_viewChanges lb ! a"

definition upd_vc :: "nat \<Rightarrow> (ViewChange \<Rightarrow> ViewChange) \<Rightarrow> 'k Lbft \<Rightarrow> 'k Lbft" where
  "upd_vc a f lb = lb\<lparr>lb_viewChanges := (lb_viewChanges lb)[a := f (vc_at lb a)]\<rparr>"

definition ticket_key :: "'k lbft_env \<Rightarrow> 'k Lbft \<Rightarrow> nat \<Rightarrow> string" where
  "ticket_key E lb a = vc_key (le_crypto E) (vc_at lb a)"

definition newView :: "'k lbft_env \<Rightarrow> ViewChange \<Rightarrow> 'k Lbft \<Rightarrow> 'k Lbft go" where
  "newView E vc lb0 =
     (let lb = lb0\<lparr>lb_resendViewChangeTimer := None, lb_voteViewChange := vote_Clear (lb_voteViewChange lb0)\<rparr> in
      if lb_primaryID lb = vc_PrimaryID vc then Ret lb
      else
        let lb1 = lb\<lparr>lb_primaryID := vc_PrimaryID vc, lb_lastPrimaryID := vc_PrimaryID vc\<rparr>;
            lb2 = (if isPrimary lb1 then lb1\<lparr>lb_priority := lb_now lb1, lb_blockTimer := None\<rparr> else lb1);
            lb3 = lb2\<lparr>lb_lastHeight := vc_Height vc, lb_height := vc_Height vc, lb_lastSeqNo := vc_SeqNo vc,
                     lb_seqNo := vc_SeqNo vc, lb_votedCnt := 0, lb_verifySeqNo := vc_SeqNo vc\<rparr>
        in go_bind (stop_instances lb3) (\<lambda>lb4.
             let j = length (lb_asyncs lb4);
                 lb5 = lb4\<lparr>lb_asyncs := lb_asyncs lb4 @ [newAsyncSeqNo (vc_SeqNo vc), newAsyncSeqNo (vc_SeqNo vc)],
                          lb_prePrepareAsync := Some j, lb_commitAsync := Some (j + 1)\<rparr>;
                 lb6 = (nullRequestTimerStart (resetViewChangePeriodTimer lb5))\<lparr>lb_concurrentCntTo := 0\<rparr>;
                 lb7 = (if isPrimary lb6 then
                          let lb' = incrHeightNum lb6
                          in lb_handleRequestBatch E \<lparr>rb_Time = word_of_int (lb_now lb' div second), rb_Requests = [],
                               rb_ID = EMPTYBLOCK, rb_Index = 0, rb_Height = lb_height lb'\<rparr> lb'
                        else lb6)
             in Ret (resetBlockTimer lb7)))"

text \<open>The loop over the votes: votes for the same primary share the larger sequence number, and the height
  that came with it.\<close>

definition level_votes :: "nat \<Rightarrow> (string \<times> nat) list \<Rightarrow> 'k Lbft \<Rightarrow> 'k Lbft" where
  "level_votes a es lb = vote_IterVoter (\<lambda>voter t lb.
     if vc_PrimaryID (vc_at lb t) = vc_PrimaryID (vc_at lb a) then
       if vc_SeqNo (vc_at lb t) < vc_SeqNo (vc_at lb a)
       then upd_vc t (\<lambda>v. v\<lparr>vc_SeqNo := vc_SeqNo (vc_at lb a), vc_Height := vc_Height (vc_at lb a)\<rparr>) lb
       else upd_vc a (\<lambda>v. v\<lparr>vc_SeqNo := vc_SeqNo (vc_at lb t), vc_Height := vc_Height (vc_at lb t)\<rparr>) lb
     else lb) es lb"

text \<open>\<^verbatim>\<open>recvViewChange\<close> after its first two checks: a quorum of votes opens the election, and a quorum for one
  primary decides it.\<close>

definition open_election :: "nat \<Rightarrow> 'k Lbft \<Rightarrow> 'k Lbft go" where
  "open_election cnt lb =
     (if cnt = 1 then Ret (lb\<lparr>lb_viewChangeTimer := Some (op_ViewChange (lb_options lb))\<rparr>)
      else if int cnt = intersectionQuorum lb then
        go_bind (stop_instances
          (if lb_primaryID lb \<noteq> [] then lb\<lparr>lb_lastPrimaryID := lb_primaryID lb, lb_primaryID := []\<rparr> else lb))
          (\<lambda>lb1. Ret ((nullRequestTimerStart (lb1\<lparr>lb_viewChangeTimer := None\<rparr>))
            \<lparr>lb_resendViewChangeTimer := Some (op_ResendViewChange (lb_options lb1))\<rparr>))
      else Ret lb)"

definition decide_election :: "'k lbft_env \<Rightarrow> 'k Lbft \<Rightarrow> 'k Lbft go" where
  "decide_election E lb =
     (case vote_Voter (le_order E (v_statistics (lb_voteViewChange lb))) (lb_voteViewChange lb) of (quorum, ticker) \<Rightarrow>
        if int quorum \<ge> intersectionQuorum lb then
          (case ticker of None \<Rightarrow> Panic ''interface conversion'' | Some t \<Rightarrow> newView E (vc_at lb t) lb)
        else Ret lb)"

definition count_viewChange :: "'k lbft_env \<Rightarrow> nat \<Rightarrow> 'k Lbft \<Rightarrow> 'k Lbft go" where
  "count_viewChange E a lb =
     (let lb1 = lb\<lparr>lb_voteViewChange := vote_Add (ticket_key E lb) (vc_ReplicaID (vc_at lb a)) a (lb_voteViewChange lb)\<rparr>;
          lb2 = level_votes a (le_order E (v_tickets (lb_voteViewChange lb1))) lb1
      in go_bind (open_election (vote_Size (lb_voteViewChange lb2)) lb2) (decide_election E))"

definition drain_committed :: "'k lbft_env \<Rightarrow> 'k Lbft \<Rightarrow> 'k Lbft go" where
  "drain_committed E lb = go_fold (\<lambda>committed. addCommittedReqeustBatch E (cd_SeqNo committed) (cd_RequestBatch committed))
     (lb_coreCommittedChan lb) (lb\<lparr>lb_coreCommittedChan := []\<rparr>)"

text \<open>The vote a replica sends: a copy of another one that it adopts, or one for itself. Its sender is the
  replica, so \<^verbatim>\<open>recvViewChange\<close> counts it at once.\<close>

definition own_viewChange :: "nat option \<Rightarrow> 'k Lbft \<Rightarrow> nat \<times> 'k Lbft" where
  "own_viewChange vc lb =
     (case vc of
        Some a \<Rightarrow>
          let lb1 = upd_vc a (\<lambda>v. v\<lparr>vc_Chain := own_chain lb, vc_ReplicaID := own_id lb\<rparr>) lb
          in (a, if vc_PrimaryID (vc_at lb1 a) = own_id lb1
                 then upd_vc a (\<lambda>v. v\<lparr>vc_SeqNo := lb_lastSeqNo lb1, vc_Height := lb_lastHeight lb1,
                        vc_OptHash := Options_Hash (lb_options lb1)\<rparr>) lb1
                 else lb1)
      | None \<Rightarrow>
          (length (lb_viewChanges lb), lb\<lparr>lb_viewChanges := lb_viewChanges lb @
            [\<lparr>vc_ReplicaID = own_id lb, vc_Chain = own_chain lb, vc_Priority = word_of_int (lb_priority lb),
              vc_PrimaryID = own_id lb, vc_SeqNo = lb_lastSeqNo lb, vc_Height = lb_lastHeight lb,
              vc_OptHash = Options_Hash (lb_options lb)\<rparr>]\<rparr>))"

definition sendViewChange :: "'k lbft_env \<Rightarrow> nat option \<Rightarrow> 'k Lbft \<Rightarrow> 'k Lbft go" where
  "sendViewChange E vc lb =
     (if fst (vote_VoterByVoter (ticket_key E lb) (lb_voteViewChange lb) (own_id lb)) > 0 then Ret lb
      else go_bind (drain_committed E lb) (\<lambda>lb1.
        case own_viewChange vc lb1 of (a, lb2) \<Rightarrow>
          go_bind (count_viewChange E a lb2) (\<lambda>lb3. Ret (lb_broadcast (own_chain lb3) (PViewChange (vc_at lb3 a)) lb3))))"

definition recvViewChange :: "'k lbft_env \<Rightarrow> nat \<Rightarrow> 'k Lbft \<Rightarrow> 'k Lbft go" where
  "recvViewChange E a lb =
     (let vc = vc_at lb a in
      if vc_Chain vc \<noteq> own_chain lb then Ret lb
      else go_bind
        (if own_id lb \<noteq> vc_ReplicaID vc \<and> vc_ReplicaID vc = lb_primaryID lb \<and> vc_PrimaryID vc = lb_primaryID lb
         then sendViewChange E None (lb\<lparr>lb_primaryID := []\<rparr>) else Ret lb) (count_viewChange E a))"

definition maybeSendViewChange :: "'k lbft_env \<Rightarrow> 'k Lbft \<Rightarrow> 'k Lbft go" where
  "maybeSendViewChange E lb = (if hasPrimary lb then Ret lb else sendViewChange E None lb)"

section \<open>Committed messages\<close>

definition stale_vote :: "'k lbft_env \<Rightarrow> 'k Lbft \<Rightarrow> Committed Vote \<Rightarrow> bool" where
  "stale_vote E lb v = (case vote_Voter (le_order E (v_statistics v)) v of
     (_, Some ct) \<Rightarrow> cd_SeqNo ct \<le> lb_execSeqNo lb | (_, None) \<Rightarrow> False)"

definition recvCommitted :: "'k lbft_env \<Rightarrow> Committed \<Rightarrow> 'k Lbft \<Rightarrow> 'k Lbft" where
  "recvCommitted E ct lb =
     (if cd_SeqNo ct \<le> lb_execSeqNo lb \<or> hasCommittedReqeustBatch (cd_SeqNo ct) lb then
        lb\<lparr>lb_voteCommitted := filter (\<lambda>(k, v). \<not> stale_vote E lb v) (gm_del (cd_Name ct) (lb_voteCommitted lb))\<rparr>
      else
        let v = (case gm_get (lb_voteCommitted lb) (cd_Name ct) of Some v \<Rightarrow> v | None \<Rightarrow> NewVote);
            v' = vote_Add (cd_key (le_crypto E)) (cd_ReplicaID ct) ct v
        in if int (vote_VoterByTicket (cd_key (le_crypto E)) v' ct) \<ge> intersectionQuorum lb
           then lb\<lparr>lb_coreCommittedChan := lb_coreCommittedChan lb @ [ct],
                  lb_voteCommitted := gm_del (cd_Name ct) (lb_voteCommitted lb)\<rparr>
           else lb\<lparr>lb_voteCommitted := gm_set (cd_Name ct) v' (lb_voteCommitted lb)\<rparr>)"

end
