(* ===== verification/Lbft_Run.thy ===== *)
theory Lbft_Run
  imports Lbft
begin

text \<open>
  The loops of the replica (\<^verbatim>\<open>core/consensus/lbft/lbft.go\<close> and the loop of an instance in \<^verbatim>\<open>lbft-core.go\<close>): the
  messages, the timers, the goroutines of the instances and the queues, each as an event. An event
  that is not enabled leaves the state as it is.
\<close>

section \<open>Messages from other replicas\<close>

definition RecvConsensus :: "bytes \<Rightarrow> 'k Lbft \<Rightarrow> 'k Lbft" where
  "RecvConsensus payload lb =
     (case mg_Deserialize payload of
        (msg, Some err) \<Rightarrow> lb
      | (msg, None) \<Rightarrow> lb\<lparr>lb_recvConsensusMsgChan := lb_recvConsensusMsgChan lb @ [msg]\<rparr>)"

definition on_request_batch :: "'k lbft_env \<Rightarrow> RequestBatch \<Rightarrow> 'k Lbft \<Rightarrow> 'k Lbft" where
  "on_request_batch E requestBatch lb =
     (if \<not> isValid lb requestBatch False then lb
      else if isPrimary lb then
        lb_handleRequestBatch E requestBatch (lb\<lparr>lb_concurrentCntTo := lb_concurrentCntTo lb + 1\<rparr>)
      else lb)"

definition on_preprepare :: "Message \<Rightarrow> PrePrepare \<Rightarrow> 'k Lbft \<Rightarrow> 'k Lbft go" where
  "on_preprepare msg preprepare lb =
     (if \<not> hasPrimary lb then Ret lb
      else if pp_Chain preprepare \<noteq> own_chain lb \<or> pp_ReplicaID preprepare \<noteq> pp_PrimaryID preprepare then Ret lb
      else if pp_ReplicaID preprepare \<noteq> lb_primaryID lb then Ret lb
      else if pp_SeqNo preprepare \<le> lb_lastSeqNo lb then Ret lb
      else handleLbftCoreMsg (pp_Name preprepare) msg lb)"

definition on_prepare :: "Message \<Rightarrow> Prepare \<Rightarrow> 'k Lbft \<Rightarrow> 'k Lbft go" where
  "on_prepare msg prepare lb =
     (if \<not> hasPrimary lb then Ret lb
      else if pr_Chain prepare = own_chain lb \<and> pr_PrimaryID prepare \<noteq> lb_primaryID lb then Ret lb
      else if pr_Chain prepare = own_chain lb \<and> pr_SeqNo prepare \<le> lb_lastSeqNo lb then Ret lb
      else handleLbftCoreMsg (pr_Name prepare) msg lb)"

definition on_committed :: "'k lbft_env \<Rightarrow> Committed \<Rightarrow> 'k Lbft \<Rightarrow> 'k Lbft" where
  "on_committed E committed lb =
     (if cd_Chain committed \<noteq> own_chain lb then lb
      else if cd_SeqNo committed \<le> lb_execSeqNo lb then lb
      else recvCommitted E committed lb)"

definition on_fetch_committed :: "'k lbft_env \<Rightarrow> FetchCommitted \<Rightarrow> 'k Lbft \<Rightarrow> 'k Lbft" where
  "on_fetch_committed E fc lb =
     (if fc_Chain fc \<noteq> own_chain lb then lb
      else (case getCommittedReqeustBatch (fc_SeqNo fc) lb of
              None \<Rightarrow> lb
            | Some requestBatch \<Rightarrow>
                lb_broadcast (own_chain lb) (PCommitted \<lparr>cd_Name = rb_key (le_crypto E) requestBatch, cd_PrimaryID = [],
                  cd_Chain = own_chain lb, cd_ReplicaID = own_id lb, cd_SeqNo = fc_SeqNo fc,
                  cd_RequestBatch = requestBatch\<rparr>) lb))"

text \<open>A view change of another chain ends the loop, and so does a null request of another chain.\<close>

definition on_view_change :: "'k lbft_env \<Rightarrow> ViewChange \<Rightarrow> 'k Lbft \<Rightarrow> 'k Lbft go" where
  "on_view_change E vc lb =
     (if vc_Chain vc \<noteq> own_chain lb then Ret (lb\<lparr>lb_msgLoop := False\<rparr>)
      else recvViewChange E (length (lb_viewChanges lb)) (lb\<lparr>lb_viewChanges := lb_viewChanges lb @ [vc]\<rparr>))"

definition on_null_request :: "'k lbft_env \<Rightarrow> NullRequest \<Rightarrow> 'k Lbft \<Rightarrow> 'k Lbft go" where
  "on_null_request E np lb =
     (if nr_Chain np \<noteq> own_chain lb then Ret (lb\<lparr>lb_msgLoop := False\<rparr>)
      else go_bind
        (if nr_OptHash np \<noteq> Options_Hash (lb_options lb) then Ret lb
         else if lb_lastPrimaryID lb = [] \<and> nr_PrimaryID np = nr_ReplicaID np then
           newView E \<lparr>vc_ReplicaID = [], vc_Chain = [], vc_Priority = 0, vc_PrimaryID = nr_PrimaryID np,
             vc_SeqNo = nr_SeqNo np, vc_Height = nr_Height np, vc_OptHash = nr_OptHash np\<rparr> lb
         else Ret lb) (\<lambda>lb1. Ret (nullRequestTimerStart lb1)))"

text \<open>One turn of \<^verbatim>\<open>handleConsensusMsg\<close> on the next message; its objects are decoded at address \<open>p\<close>.\<close>

definition handleConsensusMsg :: "'k lbft_env \<Rightarrow> nat \<Rightarrow> Message \<Rightarrow> 'k Lbft \<Rightarrow> 'k Lbft go" where
  "handleConsensusMsg E p msg lb =
     go_bind (decoded p msg) (\<lambda>m.
       case m of
         None \<Rightarrow> Ret lb
       | Some (PRequestBatch requestBatch) \<Rightarrow> Ret (on_request_batch E requestBatch lb)
       | Some (PPrePrepare preprepare) \<Rightarrow> on_preprepare msg preprepare lb
       | Some (PPrepare prepare) \<Rightarrow> on_prepare msg prepare lb
       | Some (PCommit commit) \<Rightarrow> handleLbftCoreMsg (pr_Name commit) msg lb
       | Some (PCommitted committed) \<Rightarrow> Ret (on_committed E committed lb)
       | Some (PFetchCommitted fc) \<Rightarrow> Ret (on_fetch_committed E fc lb)
       | Some (PViewChange vc) \<Rightarrow> on_view_change E vc lb
       | Some (PNullRequest np) \<Rightarrow> on_null_request E np lb)"

section \<open>Timers\<close>

definition nullRequestHandler :: "'k lbft_env \<Rightarrow> 'k Lbft \<Rightarrow> 'k Lbft go" where
  "nullRequestHandler E lb =
     (if \<not> hasPrimary lb then Ret lb
      else if isPrimary lb then
        Ret (nullRequestTimerStart (lb_broadcast (own_chain lb)
          (PNullRequest \<lparr>nr_ReplicaID = own_id lb, nr_Chain = own_chain lb, nr_PrimaryID = lb_primaryID lb,
             nr_SeqNo = lb_lastSeqNo lb, nr_Height = lb_lastHeight lb, nr_OptHash = Options_Hash (lb_options lb)\<rparr>) lb))
      else sendViewChange E None lb)"

text \<open>The batches of the groups the pool hands out; the height grows with the first group that is not
  empty.\<close>

fun make_batches :: "i64 \<Rightarrow> nat \<Rightarrow> u32 \<Rightarrow> Transaction list list \<Rightarrow> 'k Lbft \<Rightarrow> RequestBatch list \<times> 'k Lbft" where
  "make_batches bid index height [] lb = ([], lb)"
| "make_batches bid index height (txs # txss) lb =
     (if txs = [] then make_batches bid (index + 1) height txss lb
      else
        let lb1 = (if height = 0 then incrHeightNum lb else lb);
            height1 = (if height = 0 then lb_height lb1 else height);
            reqs = map (\<lambda>tx. \<lparr>rq_Transaction = tx\<rparr>) txs;
            rb = \<lparr>rb_Time = max_time reqs, rb_Requests = reqs, rb_ID = bid, rb_Index = word_of_nat index, rb_Height = height1\<rparr>
        in case make_batches bid (index + 1) height1 txss lb1 of (rbs, lb2) \<Rightarrow> (rb # rbs, lb2))"

definition submitRequestBatches :: "'k lbft_env \<Rightarrow> 'k Lbft \<Rightarrow> 'k Lbft go" where
  "submitRequestBatches E lb =
     (if \<not> isPrimary lb then Ret lb
      else go_bind (sk_Fetch (le_stack E) (op_MaxConcurrentNumFrom (lb_options lb)) (op_BlockSize (lb_options lb)) (lb_stack lb))
        (\<lambda>(txss, k).
          case make_batches (word_of_int (lb_now lb)) 0 0 txss (lb\<lparr>lb_stack := k\<rparr>) of (rbs, lb1) \<Rightarrow>
            Ret (fold (\<lambda>rb lb. if isValid lb rb True then lb_handleRequestBatch E rb lb else lb) rbs lb1)))"

text \<open>The vote that a replica adopts when it votes again: among those of its state and options, the one of
  lowest priority.\<close>

definition best_vote :: "(string \<times> nat) list \<Rightarrow> 'k Lbft \<Rightarrow> nat option" where
  "best_vote es lb = vote_IterVoter (\<lambda>voter t vc.
     if vc_PrimaryID (vc_at lb t) \<noteq> lb_lastPrimaryID lb \<and> vc_SeqNo (vc_at lb t) = lb_lastSeqNo lb \<and>
        vc_OptHash (vc_at lb t) = Options_Hash (lb_options lb)
     then (case vc of None \<Rightarrow> Some t
           | Some v \<Rightarrow> if sint (vc_Priority (vc_at lb t)) < sint (vc_Priority (vc_at lb v)) then Some t else Some v)
     else vc) es None"

definition resend_viewChange :: "'k lbft_env \<Rightarrow> 'k Lbft \<Rightarrow> 'k Lbft go" where
  "resend_viewChange E lb0 =
     (let lb = lb0\<lparr>lb_votedCnt := lb_votedCnt lb0 + 1\<rparr> in
      if lb_lastPrimaryID lb \<noteq> [] \<and> lb_votedCnt lb > op_K (lb_options lb) then Panic ''failed to vote new Primary''
      else
        let vc = best_vote (le_order E (v_tickets (lb_voteViewChange lb))) lb
        in Ret (add_task (KResend vc) (lb\<lparr>lb_voteViewChange := vote_Clear (lb_voteViewChange lb)\<rparr>)))"

definition empty_block :: "'k lbft_env \<Rightarrow> 'k Lbft \<Rightarrow> 'k Lbft" where
  "empty_block E lb =
     (let lb1 = (if isPrimary lb then
                   let lb' = incrHeightNum lb
                   in lb_handleRequestBatch E \<lparr>rb_Time = word_of_int (lb_now lb' div second), rb_Requests = [],
                        rb_ID = EMPTYBLOCK, rb_Index = 0, rb_Height = lb_height lb'\<rparr> lb'
                 else lb)
      in lb1\<lparr>lb_emptyBlockTimerStart := False\<rparr>)"

datatype timer = TViewChange | TResend | TPeriod | TNullRequest | TEmptyBlock | TBlock

text \<open>The cases of \<^verbatim>\<open>handleTransaction\<close>: a timer fires once for each time it was armed.\<close>

definition handleTransaction :: "'k lbft_env \<Rightarrow> timer \<Rightarrow> 'k Lbft \<Rightarrow> 'k Lbft go" where
  "handleTransaction E t lb =
     (case t of
        TViewChange \<Rightarrow> if lb_viewChangeTimer lb = None then Ret lb
          else Ret (lb\<lparr>lb_viewChangeTimer := None, lb_voteViewChange := vote_Clear (lb_voteViewChange lb)\<rparr>)
      | TResend \<Rightarrow> if lb_resendViewChangeTimer lb = None then Ret lb
          else resend_viewChange E (lb\<lparr>lb_resendViewChangeTimer := None\<rparr>)
      | TPeriod \<Rightarrow> if lb_viewChangePeriodTimer lb = None then Ret lb
          else sendViewChange E None (lb\<lparr>lb_viewChangePeriodTimer := None\<rparr>)
      | TNullRequest \<Rightarrow> if lb_nullRequestTimer lb = None then Ret lb
          else nullRequestHandler E (lb\<lparr>lb_nullRequestTimer := None\<rparr>)
      | TEmptyBlock \<Rightarrow> if lb_emptyBlockTimer lb = None then Ret lb
          else Ret (empty_block E (lb\<lparr>lb_emptyBlockTimer := None\<rparr>))
      | TBlock \<Rightarrow> if lb_blockTimer lb = None then Ret lb
          else go_bind (maybeSendViewChange E (lb\<lparr>lb_blockTimer := None\<rparr>)) (\<lambda>lb1.
               go_bind (submitRequestBatches E lb1) (\<lambda>lb2. Ret (resetBlockTimer lb2))))"

section \<open>Instances\<close>

text \<open>The cases of the loop that \<^verbatim>\<open>start\<close> runs: a message (a receive from a closed channel yields nil), the
  time-out, the exit.\<close>

definition core_message :: "'k lbft_env \<Rightarrow> nat \<Rightarrow> nat \<Rightarrow> 'k Lbft \<Rightarrow> 'k Lbft go" where
  "core_message E p i lb =
     (case lc_msgChan (lb_cores lb ! i) of
        [] \<Rightarrow> if lc_msgClosed (lb_cores lb ! i) then nil_deref else Ret lb
      | msg # msgs \<Rightarrow>
          let lb1 = upd_core i (\<lambda>core. core\<lparr>lc_msgChan := msgs\<rparr>) lb in
          go_bind (decoded p msg) (\<lambda>m.
            case m of
              Some (PPrePrepare preprep) \<Rightarrow> Ret (add_task (KPrePrepare i preprep) lb1)
            | Some (PPrepare prepare) \<Rightarrow> Ret (handlePrepare E i prepare lb1)
            | Some (PCommit commit) \<Rightarrow> Ret (handleCommit E i commit lb1)
            | _ \<Rightarrow> Ret lb1))"

definition core_timeout :: "'k lbft_env \<Rightarrow> nat \<Rightarrow> 'k Lbft \<Rightarrow> 'k Lbft go" where
  "core_timeout E i lb =
     (let core = lb_cores lb ! i; lb1 = upd_core i (\<lambda>core. core\<lparr>lc_timeoutTimer := None\<rparr>) lb in
      if \<not> lc_isPassCommit core \<and> lc_seqNo core > lb_lastSeqNo lb then sendViewChange E None lb1 else Ret lb1)"

definition core_close :: "nat \<Rightarrow> 'k Lbft \<Rightarrow> 'k Lbft go" where
  "core_close i lb =
     (if lc_msgClosed (lb_cores lb ! i) then Panic ''close of closed channel''
      else Ret (upd_core i (\<lambda>core. core\<lparr>lc_msgClosed := True\<rparr>) lb))"

definition core_exit :: "nat \<Rightarrow> 'k Lbft \<Rightarrow> 'k Lbft go" where
  "core_exit i lb =
     (let core = lb_cores lb ! i in
      go_bind (core_close i lb) (\<lambda>lb1.
      go_bind (async_do (lc_prePrepareAsync core) (notify (lc_seqNo core)) lb1) (\<lambda>lb2.
      go_bind (async_do (lc_commitAsync core) (notify (lc_seqNo core)) lb2) (\<lambda>lb3.
        Ret (upd_core i (\<lambda>core. core\<lparr>lc_loops := lc_loops core - 1\<rparr>) lb3)))))"

text \<open>The goroutine of \<^verbatim>\<open>newLbftCore\<close> that removes an instance no pre-prepare came for.\<close>

definition core_expire :: "nat \<Rightarrow> 'k Lbft \<Rightarrow> 'k Lbft go" where
  "core_expire i lb =
     go_bind (removeInstance (lc_name (lb_cores lb ! i)) (upd_core i (\<lambda>core. core\<lparr>lc_clsTimeoutTimer := None\<rparr>) lb)) (core_close i)"

text \<open>A goroutine goes on: from its start, or from where it blocks if it may.\<close>

definition run_task :: "'k lbft_env \<Rightarrow> nat \<Rightarrow> 'k Lbft \<Rightarrow> 'k Lbft go" where
  "run_task E j lb =
     (let t = lb_tasks lb ! j; lb1 = lb\<lparr>lb_tasks := take j (lb_tasks lb) @ drop (Suc j) (lb_tasks lb)\<rparr> in
      case t of
        KRequest i seqNo rb \<Rightarrow> core_handleRequestBatch i seqNo rb lb1
      | KRequestWait i n rb c \<Rightarrow>
          if async_ready (lc_prePrepareAsync (lb_cores lb ! i)) n c lb \<and> verify_due i lb
          then core_handleRequestBatch_go E i n rb lb1 else Ret lb
      | KPrePrepare i preprep \<Rightarrow> handlePrePrepare E False i preprep lb1
      | KPrePrepareWait i n preprep made c \<Rightarrow>
          if async_ready (lc_prePrepareAsync (lb_cores lb ! i)) n c lb \<and> verify_due i lb
          then handlePrePrepare_go E i n preprep made lb1 else Ret lb
      | KCommit i \<Rightarrow> commit_start i lb1
      | KCommitWait i n c \<Rightarrow>
          if async_ready (lc_commitAsync (lb_cores lb ! i)) n c lb then commit_go i n lb1 else Ret lb
      | KResend vc \<Rightarrow> sendViewChange E vc lb1)"

section \<open>Runs\<close>

definition lbft_Start :: "'k Lbft \<Rightarrow> 'k Lbft" where
  "lbft_Start lb = (if lb_running lb then lb
     else resetBlockTimer (lb\<lparr>lb_running := True, lb_msgLoop := True, lb_blockHeight := 0\<rparr>))"

definition lbft_Stop :: "'k Lbft \<Rightarrow> 'k Lbft" where
  "lbft_Stop lb = (if lb_running lb then lb\<lparr>lb_running := False, lb_msgLoop := False\<rparr> else lb)"

datatype lbft_input =
    ERecv bytes
  | EMessage nat
  | ECoreCommitted
  | EBatch
  | ETimer timer
  | ETask nat
  | ECoreMessage nat nat
  | ECoreTimeout nat
  | ECoreExit nat
  | ECoreExpire nat

definition lbft_event :: "'k lbft_env \<Rightarrow> lbft_input \<Rightarrow> 'k Lbft \<Rightarrow> 'k Lbft go" where
  "lbft_event E e lb =
     (case e of
        ERecv payload \<Rightarrow> Ret (RecvConsensus payload lb)
      | EMessage p \<Rightarrow>
          (case lb_recvConsensusMsgChan lb of
             msg # msgs \<Rightarrow> if lb_msgLoop lb then handleConsensusMsg E p msg (lb\<lparr>lb_recvConsensusMsgChan := msgs\<rparr>) else Ret lb
           | [] \<Rightarrow> Ret lb)
      | ECoreCommitted \<Rightarrow>
          (case lb_coreCommittedChan lb of
             ct # cts \<Rightarrow> if lb_running lb
               then addCommittedReqeustBatch E (cd_SeqNo ct) (cd_RequestBatch ct) (lb\<lparr>lb_coreCommittedChan := cts\<rparr>) else Ret lb
           | [] \<Rightarrow> Ret lb)
      | EBatch \<Rightarrow>
          (case lb_committedRequestBatchChan lb of
             ctt # ctts \<Rightarrow> if lb_running lb then Ret (collect_batch ctt (lb\<lparr>lb_committedRequestBatchChan := ctts\<rparr>)) else Ret lb
           | [] \<Rightarrow> Ret lb)
      | ETimer t \<Rightarrow> if lb_running lb then handleTransaction E t lb else Ret lb
      | ETask j \<Rightarrow> if j < length (lb_tasks lb) then run_task E j lb else Ret lb
      | ECoreMessage p i \<Rightarrow> if i < length (lb_cores lb) \<and> lc_loops (lb_cores lb ! i) > 0 then core_message E p i lb else Ret lb
      | ECoreTimeout i \<Rightarrow> if i < length (lb_cores lb) \<and> lc_loops (lb_cores lb ! i) > 0 \<and> lc_timeoutTimer (lb_cores lb ! i) \<noteq> None
          then core_timeout E i lb else Ret lb
      | ECoreExit i \<Rightarrow> if i < length (lb_cores lb) \<and> lc_loops (lb_cores lb ! i) > 0 \<and> lc_exit (lb_cores lb ! i) then core_exit i lb else Ret lb
      | ECoreExpire i \<Rightarrow> if i < length (lb_cores lb) \<and> lc_clsTimeoutTimer (lb_cores lb ! i) \<noteq> None \<and> \<not> lc_exit (lb_cores lb ! i)
          then core_expire i lb else Ret lb)"

text \<open>The committed message of its chain, if any, that the message loop takes from its queue in an event.\<close>

definition heard :: "lbft_input \<Rightarrow> 'k Lbft \<Rightarrow> Committed list" where
  "heard e lb =
     (case (e, lb_recvConsensusMsgChan lb) of
        (EMessage p, msg # _) \<Rightarrow>
          (case decoded p msg of
             Ret (Some (PCommitted ct)) \<Rightarrow> if lb_msgLoop lb \<and> cd_Chain ct = own_chain lb then [ct] else []
           | _ \<Rightarrow> [])
      | _ \<Rightarrow> [])"

text \<open>A run of a started replica, with the committed messages it has heard: each event happens at its own
  time and with its own orders of the maps.\<close>

inductive lbft_run :: "'k lbft_env \<Rightarrow> 'k Lbft \<Rightarrow> Committed list \<Rightarrow> 'k Lbft \<Rightarrow> bool"
    for E :: "'k lbft_env" and lb0 :: "'k Lbft" where
  run_start: "lbft_run E lb0 [] (lbft_Start lb0)"
| run_event: "lbft_run E lb0 hs lb \<Longrightarrow> (\<And>m. range_order (ord m) m) \<Longrightarrow>
    lbft_event (E\<lparr>le_order := ord\<rparr>) e (lb\<lparr>lb_now := now\<rparr>) = Ret lb' \<Longrightarrow> lbft_run E lb0 (hs @ heard e lb) lb'"

end
