(* ===== verification/Lbft_Laws.thy ===== *)
theory Lbft_Laws
  imports Lbft_Run
begin

text \<open>
  Properties of the LBFT replica: the quorums that its options allow, the batches it executes (in order,
  without gaps, and only with the announcements of a quorum), agreement between replicas, and the
  behaviour of its counters and of its message loop.
\<close>

section \<open>Quorums\<close>

text \<open>The number of faulty replicas that \<open>n\<close> replicas are meant to tolerate.\<close>

definition faulty :: "int \<Rightarrow> int" where
  "faulty n = (n - 1) div 3"

text \<open>A group of \<open>N\<close> replicas in which a decision needs \<open>Q\<close> of them.\<close>

locale quorums =
  fixes R :: "'r set" and Q :: int
  assumes finite_replicas: "finite R"
    and quorum_size: "2 * int (card R) \<le> 3 * Q"
begin

lemma quorums_meet:
  assumes "A \<subseteq> R" "B \<subseteq> R" "Q \<le> int (card A)" "Q \<le> int (card B)"
  shows "faulty (int (card R)) < int (card (A \<inter> B))"
proof -
  have f: "finite A" "finite B" using assms finite_subset finite_replicas by blast+
  have "card (A \<union> B) \<le> card R" using assms finite_replicas by (intro card_mono) auto
  then have "2 * Q \<le> int (card R) + int (card (A \<inter> B))"
    using card_Un_Int [OF f] assms(3,4) by linarith
  moreover have "3 * faulty (int (card R)) \<le> int (card R) - 1" by (simp add: faulty_def)
  moreover have "0 \<le> int (card R)" by simp
  ultimately show ?thesis using quorum_size by linarith
qed

text \<open>So two quorums share a replica that is not faulty.\<close>

lemma quorums_share_honest:
  assumes "A \<subseteq> R" "B \<subseteq> R" "Q \<le> int (card A)" "Q \<le> int (card B)"
    and "int (card (R - H)) \<le> faulty (int (card R))"
  obtains r where "r \<in> A" "r \<in> B" "r \<in> H"
proof -
  have "\<exists>r \<in> A \<inter> B. r \<in> H"
  proof (rule ccontr)
    assume "\<not> ?thesis"
    then have "A \<inter> B \<subseteq> R - H" using assms(1) by blast
    then have "card (A \<inter> B) \<le> card (R - H)" using finite_replicas by (intro card_mono) auto
    with quorums_meet [OF assms(1-4)] assms(5) show False by linarith
  qed
  then show ?thesis using that by blast
qed

end

text \<open>The quorum that \<^verbatim>\<open>NewLbft\<close> computes for the size of the group is such a quorum.\<close>

lemma fixed_quorum_size: "0 \<le> n \<Longrightarrow> 2 * n \<le> 3 * fixed_quorum n"
  by (cases "n = 0") (simp_all add: fixed_quorum_def go_div_def)

interpretation fixed: quorums "set rs" "fixed_quorum (int (card (set rs)))" for rs :: "'r list"
  by unfold_locales (simp_all add: fixed_quorum_size)

text \<open>So with the quorum set by the constructor, quorums of two replicas that count the same group share a
  replica outside any set of at most \<^const>\<open>faulty\<close> replicas.\<close>

lemma fixed_quorum_share_honest:
  assumes "A \<subseteq> set rs" "B \<subseteq> set rs" "fixed_quorum (int (card (set rs))) \<le> int (card A)"
    "fixed_quorum (int (card (set rs))) \<le> int (card B)" "int (card (set rs - H)) \<le> faulty (int (card (set rs)))"
  shows "\<exists>r. r \<in> A \<and> r \<in> B \<and> r \<in> H"
  using fixed.quorums_share_honest [OF assms] by blast

lemma checked_quorum_Ret:
  assumes "checked_quorum opt = Ret opt'"
  shows "op_N opt' = op_N opt" "4 \<le> op_N opt" "2 * op_N opt \<le> 3 * op_Q opt' + 1" "opt' = opt\<lparr>op_Q := op_Q opt'\<rparr>"
  using assms by (auto simp: checked_quorum_def fixed_quorum_def go_div_def split: if_splits)

lemma checked_times_eq:
  "op_N (checked_times opt) = op_N opt" "op_Q (checked_times opt) = op_Q opt" "op_K (checked_times opt) = op_K opt"
  "op_ID (checked_times opt) = op_ID opt" "op_Chain (checked_times opt) = op_Chain opt"
  by (simp_all add: checked_times_def Let_def)

text \<open>C34: A replica starts only in a group of at least four, and its quorum \<open>Q\<close> then satisfies \<open>2 N \<le> 3 Q + 1\<close>, so
  \<open>Q\<close> is at least 3. But two quorums are sure to share an honest replica (more replicas than may be
  faulty) only if \<open>2 N \<le> 3 Q\<close>: the check lets a quorum pass that is one too small. For five replicas it
  accepts a quorum of three, and two such quorums may have only a faulty replica in common.\<close>

theorem quorum_bounds:
  assumes "checked_quorum (checked_times opt) = Ret opt'"
  shows "op_N opt' = op_N opt \<and> 4 \<le> op_N opt' \<and> 3 \<le> op_Q opt' \<and> 2 * op_N opt' \<le> 3 * op_Q opt' + 1 \<and>
    (faulty (op_N opt') < 2 * op_Q opt' - op_N opt' \<longleftrightarrow> 2 * op_N opt' \<le> 3 * op_Q opt') \<and>
    (op_N opt = 5 \<and> op_Q opt = 3 \<longrightarrow> op_Q opt' = 3)"
proof -
  note r = checked_quorum_Ret [OF assms, unfolded checked_times_eq]
  have "op_Q opt' = 3" if "op_N opt = 5" "op_Q opt = 3"
    using assms that by (auto simp: checked_quorum_def checked_times_eq)
  moreover have "faulty (op_N opt') < 2 * op_Q opt' - op_N opt' \<longleftrightarrow> 2 * op_N opt' \<le> 3 * op_Q opt'"
    using r(3) unfolding r(1) faulty_def by linarith
  ultimately show ?thesis using r by linarith
qed

theorem quorum_bounds_witness:
  "checked_quorum (checked_times (NewDefaultOptions\<lparr>op_N := 5\<rparr>)) = Ret (NewDefaultOptions\<lparr>op_N := 5\<rparr>) \<and>
   \<not> faulty 5 < 2 * 3 - 5"
proof -
  have e: "checked_quorum (checked_times (NewDefaultOptions\<lparr>op_N := 5\<rparr>)) = Ret (NewDefaultOptions\<lparr>op_N := 5\<rparr>)"
    by (simp add: checked_quorum_def checked_times_def NewDefaultOptions_def second_def Let_def)
  from quorum_bounds [OF e] e show ?thesis by (simp add: NewDefaultOptions_def)
qed

section \<open>The part of the state that execution is about\<close>

text \<open>The batches handed to execution, in order, by sequence number and transactions: those in blocks that
  were written, those of the block that is being collected, and those on their way to it.\<close>

definition delivered :: "'k Lbft \<Rightarrow> (u64 \<times> Transaction list) list" where
  "delivered lb =
     map (\<lambda>out. (ct_SeqNo out, ct_Transactions out)) (concat (map ot_Outputs (lb_committedTxsChan lb))) @
     map (\<lambda>b. (cb_seqNo b, toTxs (cb_requestBatch b))) (lb_committedBlock lb @ lb_committedRequestBatchChan lb)"

definition exec_part where
  "exec_part lb = (lb_voteCommitted lb, lb_coreCommittedChan lb, lb_execSeqNo lb, lb_committedRequestBatch lb,
     delivered lb, lb_options lb)"

named_theorems frame \<open>operations that leave the executed part of the state alone\<close>

lemma frame_fields [frame]:
  "exec_part (upd_core i f lb) = exec_part lb"
  "exec_part (add_task t lb) = exec_part lb"
  "exec_part (lb_broadcast to msg lb) = exec_part lb"
  "exec_part (upd_vc a g lb) = exec_part lb"
  "exec_part (incrVerifySeqNum lb) = exec_part lb"
  "exec_part (incrSeqNum lb) = exec_part lb"
  "exec_part (incrHeightNum lb) = exec_part lb"
  "exec_part (updateLastHeightNum h lb) = exec_part lb"
  "exec_part (updateLastSeqNo n lb) = exec_part lb"
  "exec_part (updateVerifySeqNo n lb) = exec_part lb"
  "exec_part (resetBlockTimer lb) = exec_part lb"
  "exec_part (resetEmptyBlockTimer lb) = exec_part lb"
  "exec_part (resetViewChangePeriodTimer lb) = exec_part lb"
  "exec_part (nullRequestTimerStart lb) = exec_part lb"
  by (simp_all add: exec_part_def delivered_def upd_core_def add_task_def lb_broadcast_def upd_vc_def
      incrVerifySeqNum_def incrSeqNum_def incrHeightNum_def updateLastHeightNum_def updateLastSeqNo_def
      updateVerifySeqNo_def resetBlockTimer_def resetEmptyBlockTimer_def resetViewChangePeriodTimer_def
      nullRequestTimerStart_def Let_def)

lemma frame_update [frame]:
  "exec_part (lb\<lparr>lb_now := a1\<rparr>) = exec_part lb"
  "exec_part (lb\<lparr>lb_priority := a2\<rparr>) = exec_part lb"
  "exec_part (lb\<lparr>lb_primaryID := a3\<rparr>) = exec_part lb"
  "exec_part (lb\<lparr>lb_lastPrimaryID := a3\<rparr>) = exec_part lb"
  "exec_part (lb\<lparr>lb_stack := k\<rparr>) = exec_part lb"
  "exec_part (lb\<lparr>lb_cores := a4\<rparr>) = exec_part lb"
  "exec_part (lb\<lparr>lb_lbftCores := a5\<rparr>) = exec_part lb"
  "exec_part (lb\<lparr>lb_asyncs := a6\<rparr>) = exec_part lb"
  "exec_part (lb\<lparr>lb_tasks := a7\<rparr>) = exec_part lb"
  "exec_part (lb\<lparr>lb_viewChanges := a8\<rparr>) = exec_part lb"
  "exec_part (lb\<lparr>lb_voteViewChange := a9\<rparr>) = exec_part lb"
  "exec_part (lb\<lparr>lb_concurrentCntTo := b1\<rparr>) = exec_part lb"
  "exec_part (lb\<lparr>lb_votedCnt := b1\<rparr>) = exec_part lb"
  "exec_part (lb\<lparr>lb_recvConsensusMsgChan := b2\<rparr>) = exec_part lb"
  "exec_part (lb\<lparr>lb_msgLoop := b3\<rparr>) = exec_part lb"
  "exec_part (lb\<lparr>lb_running := b3\<rparr>) = exec_part lb"
  "exec_part (lb\<lparr>lb_blockHeight := b4\<rparr>) = exec_part lb"
  "exec_part (lb\<lparr>lb_emptyBlockTimerStart := b3\<rparr>) = exec_part lb"
  "exec_part (lb\<lparr>lb_blockTimer := b5\<rparr>) = exec_part lb"
  "exec_part (lb\<lparr>lb_viewChangeTimer := b5\<rparr>) = exec_part lb"
  "exec_part (lb\<lparr>lb_resendViewChangeTimer := b5\<rparr>) = exec_part lb"
  "exec_part (lb\<lparr>lb_viewChangePeriodTimer := b5\<rparr>) = exec_part lb"
  "exec_part (lb\<lparr>lb_nullRequestTimer := b5\<rparr>) = exec_part lb"
  "exec_part (lb\<lparr>lb_emptyBlockTimer := b5\<rparr>) = exec_part lb"
  "exec_part (lb\<lparr>lb_lastHeight := b4\<rparr>) = exec_part lb"
  "exec_part (lb\<lparr>lb_height := b4\<rparr>) = exec_part lb"
  "exec_part (lb\<lparr>lb_lastSeqNo := b6\<rparr>) = exec_part lb"
  "exec_part (lb\<lparr>lb_seqNo := b6\<rparr>) = exec_part lb"
  "exec_part (lb\<lparr>lb_verifySeqNo := b6\<rparr>) = exec_part lb"
  "exec_part (lb\<lparr>lb_prePrepareAsync := b7\<rparr>) = exec_part lb"
  "exec_part (lb\<lparr>lb_commitAsync := b7\<rparr>) = exec_part lb"
  by (simp_all add: exec_part_def delivered_def)

lemma frame_ops [frame]:
  "exec_part (softResetEmptyBlockTimer lb) = exec_part lb"
  "exec_part (snd (getInstance key lb)) = exec_part lb"
  "exec_part (core_start i lb) = exec_part lb"
  "exec_part (lb_handleRequestBatch E rb lb) = exec_part lb"
  "exec_part (core_broadcast i msg lb) = exec_part lb"
  "exec_part (set_chains i rb lb) = exec_part lb"
  "exec_part (after_preprepare made pp lb) = exec_part lb"
  by (auto simp: softResetEmptyBlockTimer_def getInstance_def core_start_def lb_handleRequestBatch_def core_broadcast_def
      set_chains_def after_preprepare_def Let_def frame split: option.splits prod.splits)

lemma getInstance_frame: "getInstance key lb = (i, lb') \<Longrightarrow> exec_part lb' = exec_part lb"
  using frame_ops(2) [of key lb] by simp

lemma core_stop_frame [dest]: "core_stop i lb = Ret lb' \<Longrightarrow> exec_part lb' = exec_part lb"
  by (auto simp: core_stop_def Let_def frame split: if_splits)

lemma removeInstance_frame: "removeInstance key lb = Ret lb' \<Longrightarrow> exec_part lb' = exec_part lb"
  by (auto simp: removeInstance_def frame split: option.splits dest!: core_stop_frame)

lemma stop_fold_frame:
  "go_fold (\<lambda>(key, i) lb. core_stop i (lb\<lparr>lb_lbftCores := gm_del key (lb_lbftCores lb)\<rparr>)) es lb = Ret lb' \<Longrightarrow>
     exec_part lb' = exec_part lb"
  by (induction es arbitrary: lb) (auto simp: frame dest!: core_stop_frame)

lemma stop_instances_frame: "stop_instances lb = Ret lb' \<Longrightarrow> exec_part lb' = exec_part lb"
  unfolding stop_instances_def by (rule stop_fold_frame)

lemma core_recvMessage_frame: "core_recvMessage i msg lb = Ret lb' \<Longrightarrow> exec_part lb' = exec_part lb"
  by (auto simp: core_recvMessage_def Let_def frame split: if_splits)

lemma handleLbftCoreMsg_frame: "handleLbftCoreMsg key msg lb = Ret lb' \<Longrightarrow> exec_part lb' = exec_part lb"
  by (auto simp: handleLbftCoreMsg_def dest!: core_recvMessage_frame getInstance_frame split: prod.splits)

lemma on_async_frame: "on_async a f lb = Ret (x, lb') \<Longrightarrow> exec_part lb' = exec_part lb"
  by (auto simp: on_async_def nil_deref_def frame split: option.splits prod.splits)

lemma async_do_frame: "async_do a f lb = Ret lb' \<Longrightarrow> exec_part lb' = exec_part lb"
  unfolding async_do_def by (auto dest!: on_async_frame)

lemma handleCommit_frame [frame]: "exec_part (handleCommit E i commit lb) = exec_part lb"
  by (simp add: handleCommit_def Let_def frame split: prod.splits)

lemma handlePrepare_frame [frame]: "exec_part (handlePrepare E i prepare lb) = exec_part lb"
  by (simp add: handlePrepare_def Let_def frame split: prod.splits)

lemma accept_batch_frame [frame]: "exec_part (accept_batch E i rb lb) = exec_part lb"
  by (simp add: accept_batch_def Let_def frame)

lemma handlePrePrepare_frame: "handlePrePrepare E made i pp lb = Ret lb' \<Longrightarrow> exec_part lb' = exec_part lb"
  by (auto simp: handlePrePrepare_def Let_def frame dest!: on_async_frame split: if_splits)

lemma verify_preprepare_frame: "verify_preprepare E i rb lb = Ret (v, lb') \<Longrightarrow> exec_part lb' = exec_part lb"
  by (auto simp: verify_preprepare_def Let_def frame split: if_splits)

lemma handlePrePrepare_go_frame: "handlePrePrepare_go E i n pp made lb = Ret lb' \<Longrightarrow> exec_part lb' = exec_part lb"
  by (auto simp: handlePrePrepare_go_def frame dest!: async_do_frame verify_preprepare_frame)

lemma core_handleRequestBatch_frame: "core_handleRequestBatch i n rb lb = Ret lb' \<Longrightarrow> exec_part lb' = exec_part lb"
  by (auto simp: core_handleRequestBatch_def Let_def frame dest!: on_async_frame)

lemma verify_request_frame: "verify_request E i rb lb = Ret lb' \<Longrightarrow> exec_part lb' = exec_part lb"
  by (auto simp: verify_request_def Let_def frame split: if_splits)

lemma forward_request_frame [frame]: "exec_part (forward_request i rb lb) = exec_part lb"
  by (simp add: forward_request_def Let_def frame)

lemma core_handleRequestBatch_go_frame:
  "core_handleRequestBatch_go E i n rb lb = Ret lb' \<Longrightarrow> exec_part lb' = exec_part lb"
  by (auto simp: core_handleRequestBatch_go_def Let_def frame
      dest!: handlePrePrepare_frame async_do_frame verify_request_frame)

lemma commit_start_frame: "commit_start i lb = Ret lb' \<Longrightarrow> exec_part lb' = exec_part lb"
  by (auto simp: commit_start_def Let_def frame dest!: on_async_frame split: if_splits)

lemma commit_go_frame: "commit_go i n lb = Ret lb' \<Longrightarrow> exec_part lb' = exec_part lb"
  by (auto simp: commit_go_def Let_def nil_deref_def frame dest!: async_do_frame split: option.splits)

lemma core_close_frame: "core_close i lb = Ret lb' \<Longrightarrow> exec_part lb' = exec_part lb"
  by (auto simp: core_close_def frame split: if_splits)

lemma core_exit_frame: "core_exit i lb = Ret lb' \<Longrightarrow> exec_part lb' = exec_part lb"
  by (auto simp: core_exit_def Let_def frame dest!: core_close_frame async_do_frame)

lemma core_expire_frame: "core_expire i lb = Ret lb' \<Longrightarrow> exec_part lb' = exec_part lb"
  by (auto simp: core_expire_def frame dest!: removeInstance_frame core_close_frame)

lemma core_message_frame: "core_message E p i lb = Ret lb' \<Longrightarrow> exec_part lb' = exec_part lb"
proof (cases "lc_msgChan (lb_cores lb ! i)")
  case (Cons msg msgs)
  moreover assume "core_message E p i lb = Ret lb'"
  ultimately obtain m where "decoded p msg = Ret m" "core_message E p i lb = Ret lb'"
    by (auto simp: core_message_def Let_def)
  with Cons show ?thesis
    by (cases m; cases "the m") (auto simp: core_message_def Let_def frame)
qed (auto simp: core_message_def nil_deref_def split: if_splits)

lemma newView_frame: "newView E vc lb = Ret lb' \<Longrightarrow> exec_part lb' = exec_part lb"
  by (auto simp: newView_def Let_def frame dest!: stop_instances_frame split: if_splits)

lemma level_votes_frame [frame]: "exec_part (level_votes a es lb) = exec_part lb"
proof -
  have "exec_part (fold (\<lambda>(voter, t). f voter t) es lb) = exec_part lb"
    if "\<And>voter t lb. exec_part (f voter t lb) = exec_part lb" for f
    by (induction es arbitrary: lb) (auto simp: that)
  from this show ?thesis unfolding level_votes_def vote_IterVoter_def by this (simp add: frame)
qed

lemma open_election_frame: "open_election cnt lb = Ret lb' \<Longrightarrow> exec_part lb' = exec_part lb"
  by (auto simp: open_election_def frame dest!: stop_instances_frame split: if_splits)

lemma decide_election_frame: "decide_election E lb = Ret lb' \<Longrightarrow> exec_part lb' = exec_part lb"
  by (auto simp: decide_election_def dest!: newView_frame split: if_splits option.splits prod.splits)

lemma count_viewChange_frame: "count_viewChange E a lb = Ret lb' \<Longrightarrow> exec_part lb' = exec_part lb"
  by (auto simp: count_viewChange_def Let_def frame dest!: open_election_frame decide_election_frame)

lemma own_viewChange_frame: "own_viewChange vc lb = (a, lb') \<Longrightarrow> exec_part lb' = exec_part lb"
  by (auto simp: own_viewChange_def Let_def frame split: option.splits)

lemma resend_viewChange_frame: "resend_viewChange E lb = Ret lb' \<Longrightarrow> exec_part lb' = exec_part lb"
  by (auto simp: resend_viewChange_def Let_def frame split: if_splits)

lemma make_batches_frame: "make_batches bid i h txss lb = (rbs, lb') \<Longrightarrow> exec_part lb' = exec_part lb"
  by (induction bid i h txss lb arbitrary: rbs rule: make_batches.induct)
    (auto simp: Let_def frame split: if_splits prod.splits)

lemma submit_fold_frame:
  "exec_part (fold (\<lambda>rb lb. if isValid lb rb True then lb_handleRequestBatch E rb lb else lb) rbs lb) = exec_part lb"
  by (induction rbs arbitrary: lb) (simp_all add: frame)

lemma submitRequestBatches_frame:
  assumes "submitRequestBatches E lb = Ret lb'"
  shows "exec_part lb' = exec_part lb"
proof (cases "isPrimary lb")
  case True
  with assms obtain txss k where f: "sk_Fetch (le_stack E) (op_MaxConcurrentNumFrom (lb_options lb))
      (op_BlockSize (lb_options lb)) (lb_stack lb) = Ret (txss, k)"
    by (auto simp: submitRequestBatches_def)
  obtain rbs lb1 where m: "make_batches (word_of_int (lb_now lb)) 0 0 txss (lb\<lparr>lb_stack := k\<rparr>) = (rbs, lb1)"
    by (cases "make_batches (word_of_int (lb_now lb)) 0 0 txss (lb\<lparr>lb_stack := k\<rparr>)")
  from assms True f m have "lb' = fold (\<lambda>rb lb. if isValid lb rb True then lb_handleRequestBatch E rb lb else lb) rbs lb1"
    by (simp add: submitRequestBatches_def)
  with make_batches_frame [OF m] show ?thesis by (simp only: submit_fold_frame frame)
qed (use assms in \<open>simp add: submitRequestBatches_def\<close>)

lemma empty_block_frame [frame]: "exec_part (empty_block E lb) = exec_part lb"
  by (simp add: empty_block_def Let_def frame)

lemma on_message_frames:
  "exec_part (on_request_batch E rb lb) = exec_part lb"
  "on_preprepare msg pp lb = Ret lb' \<Longrightarrow> exec_part lb' = exec_part lb"
  "on_prepare msg pr lb = Ret lb' \<Longrightarrow> exec_part lb' = exec_part lb"
  "exec_part (on_fetch_committed E fc lb) = exec_part lb"
  "on_null_request E np lb = Ret lb' \<Longrightarrow> exec_part lb' = exec_part lb"
  by (auto simp: on_request_batch_def on_preprepare_def on_prepare_def on_fetch_committed_def on_null_request_def frame
      dest!: handleLbftCoreMsg_frame newView_frame split: if_splits option.split)

lemma RecvConsensus_frame [frame]: "exec_part (RecvConsensus payload lb) = exec_part lb"
  by (auto simp: RecvConsensus_def frame split: prod.splits option.splits)

lemma lbft_Start_frame [frame]: "exec_part (lbft_Start lb) = exec_part lb"
  by (simp add: lbft_Start_def frame)

text \<open>An environment for examples: a stack without transactions and maps walked in their order.\<close>

definition sample_le :: "unit lbft_env" where
  "sample_le = \<lparr>le_crypto = \<lparr>sum256 = (\<lambda>b. b), RecoverPubkey = (\<lambda>_ _. None), curve_N = 0\<rparr>,
     le_stack = \<lparr>sk_Verify = (\<lambda>_ _ k. Ret (True, k)), sk_Fetch = (\<lambda>_ _ k. Ret ([], k)), sk_Info = (\<lambda>_. (0, 0))\<rparr>,
     le_order = id\<rparr>"

definition sample_lb :: "unit Lbft" where
  "sample_lb = (case NewLbft sample_le 0 NewDefaultOptions () of Ret lb \<Rightarrow> lb | Panic _ \<Rightarrow> undefined)"

lemma sample_NewLbft: "NewLbft sample_le 0 NewDefaultOptions () = Ret sample_lb"
  by (simp add: sample_lb_def NewLbft_def checked_times_def checked_quorum_def NewDefaultOptions_def second_def Let_def)

lemma sample_Q: "op_Q (lb_options sample_lb) = 3"
  by (simp add: sample_lb_def NewLbft_def checked_times_def checked_quorum_def NewDefaultOptions_def second_def Let_def)

end
