(* ===== verification/Lbft_Exec.thy ===== *)
theory Lbft_Exec
  imports Lbft_Laws
begin

text \<open>
  What a replica executes: the invariant that the batches handed to execution have consecutive sequence
  numbers and were each announced by a quorum, its preservation by every event, and agreement between
  replicas.
\<close>

section \<open>Invariant\<close>

text \<open>The replicas from which a committed message equal to \<open>ct\<close> (as a vote counts it) was heard, and the batches
  that a quorum announced.\<close>

definition announcers :: "crypto_env \<Rightarrow> Committed list \<Rightarrow> Committed \<Rightarrow> string set" where
  "announcers c hs ct = cd_ReplicaID ` {t \<in> set hs. cd_key c t = cd_key c ct}"

definition supported :: "crypto_env \<Rightarrow> int \<Rightarrow> Committed list \<Rightarrow> Committed \<Rightarrow> bool" where
  "supported c Q hs ct \<longleftrightarrow> ct \<in> set hs \<and> Q \<le> int (card (announcers c hs ct))"

definition vote_heard :: "crypto_env \<Rightarrow> Committed list \<Rightarrow> Committed Vote \<Rightarrow> bool" where
  "vote_heard c hs v \<longleftrightarrow> vote_inv (cd_key c) v \<and>
     (\<forall>w t. gm_get (v_tickets v) w = Some t \<longrightarrow> t \<in> set hs \<and> cd_ReplicaID t = w)"

definition votes_ok :: "crypto_env \<Rightarrow> Committed list \<Rightarrow> (string, Committed Vote) gomap \<Rightarrow> bool" where
  "votes_ok c hs vs \<longleftrightarrow> (\<forall>v \<in> snd ` set vs. vote_heard c hs v)"

definition in_order :: "u64 list \<Rightarrow> u64 \<Rightarrow> bool" where
  "in_order xs e \<longleftrightarrow> successively (\<lambda>x y. y = x + 1) xs \<and> (xs \<noteq> [] \<longrightarrow> last xs = e \<and> e \<noteq> 0)"

definition batch_ok :: "crypto_env \<Rightarrow> int \<Rightarrow> Committed list \<Rightarrow> u64 \<times> RequestBatch \<Rightarrow> bool" where
  "batch_ok c Q hs b \<longleftrightarrow> fst b \<noteq> 0 \<and> (\<exists>ct. cd_SeqNo ct = fst b \<and> cd_RequestBatch ct = snd b \<and> supported c Q hs ct)"

definition exec_inv :: "crypto_env \<Rightarrow> Options \<Rightarrow> Committed list \<Rightarrow> 'k Lbft \<Rightarrow> bool" where
  "exec_inv c opt hs lb \<longleftrightarrow> lb_options lb = opt \<and> votes_ok c hs (lb_voteCommitted lb) \<and>
     (\<forall>ct \<in> set (lb_coreCommittedChan lb). cd_SeqNo ct \<noteq> 0 \<and> supported c (op_Q opt) hs ct) \<and>
     (\<forall>b \<in> set (lb_committedRequestBatch lb). batch_ok c (op_Q opt) hs b) \<and>
     (\<forall>(s, txs) \<in> set (delivered lb). \<exists>rb. batch_ok c (op_Q opt) hs (s, rb) \<and> txs = toTxs rb) \<and>
     in_order (map fst (delivered lb)) (lb_execSeqNo lb)"

lemma exec_inv_frame: "exec_inv c opt hs lb \<Longrightarrow> exec_part lb' = exec_part lb \<Longrightarrow> exec_inv c opt hs lb'"
  unfolding exec_part_def exec_inv_def by simp

lemma finite_announcers [simp]: "finite (announcers c hs ct)"
  by (simp add: announcers_def)

lemma supported_mono: "supported c Q hs ct \<Longrightarrow> set hs \<subseteq> set hs' \<Longrightarrow> supported c Q hs' ct"
proof -
  assume "set hs \<subseteq> set hs'"
  then have "announcers c hs ct \<subseteq> announcers c hs' ct" by (auto simp: announcers_def)
  then have "card (announcers c hs ct) \<le> card (announcers c hs' ct)" by (simp add: card_mono)
  then show "supported c Q hs ct \<Longrightarrow> supported c Q hs' ct" using \<open>set hs \<subseteq> set hs'\<close> by (auto simp: supported_def)
qed

lemma batch_ok_mono: "batch_ok c Q hs b \<Longrightarrow> set hs \<subseteq> set hs' \<Longrightarrow> batch_ok c Q hs' b"
  unfolding batch_ok_def by (blast intro: supported_mono)

lemma exec_inv_mono:
  assumes "exec_inv c opt hs lb" and "set hs \<subseteq> set hs'"
  shows "exec_inv c opt hs' lb"
proof -
  have "votes_ok c hs' (lb_voteCommitted lb)" using assms unfolding exec_inv_def votes_ok_def vote_heard_def by fast
  then show ?thesis using assms unfolding exec_inv_def by (fast intro: supported_mono batch_ok_mono)
qed

section \<open>Preservation\<close>

lemma set_gm_del: "set (gm_del k m) \<subseteq> set m"
  by (auto simp: AList.delete_eq)

lemma set_gm_set: "set (gm_set k v m) \<subseteq> insert (k, v) (set m)"
  by (induction m) auto

lemma delivered_snoc:
  "delivered (lb\<lparr>lb_committedRequestBatchChan := lb_committedRequestBatchChan lb @ [b]\<rparr>) =
     delivered lb @ [(cb_seqNo b, toTxs (cb_requestBatch b))]"
  by (simp add: delivered_def)

lemma exec_inv_del: "exec_inv c opt hs lb \<Longrightarrow> exec_inv c opt hs (del_committed n lb)"
  using set_gm_del [of n "lb_committedRequestBatch lb"] by (auto simp: exec_inv_def del_committed_def delivered_def)

lemma del_committed_fields [simp]: "lb_execSeqNo (del_committed n lb) = lb_execSeqNo lb"
  by (simp add: del_committed_def)

lemma exec_inv_deliver:
  assumes "exec_inv c opt hs lb" and "(lb_execSeqNo lb + 1, rb) \<in> set (lb_committedRequestBatch lb)"
  shows "exec_inv c opt hs ((incrExecSeqNum lb)\<lparr>lb_committedRequestBatchChan := lb_committedRequestBatchChan lb @
    [\<lparr>cb_seqNo = lb_execSeqNo lb + 1, cb_requestBatch = rb\<rparr>]\<rparr>)" (is "exec_inv c opt hs ?lb")
proof -
  have d: "delivered ?lb = delivered lb @ [(lb_execSeqNo lb + 1, toTxs rb)]"
    by (simp add: delivered_def incrExecSeqNum_def)
  have ok: "batch_ok c (op_Q opt) hs (lb_execSeqNo lb + 1, rb)"
    using assms by (auto simp: exec_inv_def)
  have o: "in_order (map fst (delivered lb)) (lb_execSeqNo lb)"
    and dl: "\<forall>(s, txs) \<in> set (delivered lb). \<exists>rb. batch_ok c (op_Q opt) hs (s, rb) \<and> txs = toTxs rb"
    using assms(1) unfolding exec_inv_def by blast+
  have "in_order (map fst (delivered ?lb)) (lb_execSeqNo lb + 1)"
    using o ok unfolding d by (auto simp: in_order_def successively_append_iff batch_ok_def)
  moreover have "\<forall>(s, txs) \<in> set (delivered ?lb). \<exists>rb. batch_ok c (op_Q opt) hs (s, rb) \<and> txs = toTxs rb"
    using dl ok unfolding d by auto
  ultimately show ?thesis
    using assms(1) unfolding exec_inv_def by (simp add: incrExecSeqNum_def)
qed

lemma cp_loop_inv:
  "cp_loop first keys cp lb = Ret (cp', lb') \<Longrightarrow> exec_inv c opt hs lb \<Longrightarrow> cp = lb_execSeqNo lb + 1 \<Longrightarrow> exec_inv c opt hs lb'"
proof (induction first keys cp lb rule: cp_loop.induct)
  case (2 first seqNo keys cp lb)
  note [simp del] = cp_loop.simps and s = cp_loop.simps(2) [of first seqNo keys cp lb]
  consider (old) "seqNo < cp" | (now) "seqNo = cp" | (gap) "cp < seqNo" by (rule linorder_cases [of seqNo cp])
  then show ?case
  proof cases
    case old
    then have "cp_loop first keys cp (if seqNo - option_K lb \<ge> first then del_committed (seqNo - option_K lb) lb else lb)
      = Ret (cp', lb')" using 2(3) by (simp add: s Let_def)
    moreover have "exec_inv c opt hs (if seqNo - option_K lb \<ge> first then del_committed (seqNo - option_K lb) lb else lb)"
      using 2(4) exec_inv_del [OF 2(4)] by simp
    ultimately show ?thesis using 2(1) [OF old refl] 2(5) by simp
  next
    case now
    from 2(3) [unfolded s] now obtain rb where g: "gm_get (lb_committedRequestBatch lb) seqNo = Some rb"
      by (auto simp: Let_def nil_deref_def split: option.splits)
    then have "(lb_execSeqNo lb + 1, rb) \<in> set (lb_committedRequestBatch lb)"
      using 2(5) now by (auto dest: map_of_SomeD)
    note d = exec_inv_deliver [OF 2(4) this]
    from 2(2) [OF _ now refl g refl refl] 2(3) [unfolded s] now g exec_inv_del [OF d]
    show ?thesis by (simp add: Let_def incrExecSeqNum_def)
  next
    case gap
    then have "\<not> seqNo < cp" "seqNo \<noteq> cp" by auto
    with 2(3) have "lb' = lb_broadcast (own_chain lb)
        (PFetchCommitted \<lparr>fc_Chain = own_chain lb, fc_ReplicaID = own_id lb, fc_SeqNo = cp\<rparr>) lb" by (auto simp: s)
    then have "exec_part lb' = exec_part lb" by (simp add: frame)
    then show ?thesis by (rule exec_inv_frame [OF 2(4)])
  qed
qed simp

lemma exec_inv_updateExec:
  "exec_inv c opt hs lb \<Longrightarrow> exec_inv c opt hs (updateExecSeqNo n lb)"
  by (auto simp: exec_inv_def updateExecSeqNo_def in_order_def delivered_def)

lemma checkpoint_inv:
  assumes "checkpoint lb = Ret lb'" and "exec_inv c opt hs lb"
  shows "exec_inv c opt hs lb'"
proof (cases "sort (map fst (lb_committedRequestBatch lb))")
  case Nil
  with assms show ?thesis by (simp add: checkpoint_def)
next
  case (Cons first ks)
  let ?lb = "updateExecSeqNo (first - 1) lb"
  from assms(1) obtain cp where "cp_loop first (first # ks) (lb_execSeqNo ?lb + 1) ?lb = Ret (cp, lb')"
    unfolding checkpoint_def Cons by (auto simp: Let_def simp del: cp_loop.simps split: if_splits)
  from cp_loop_inv [OF this exec_inv_updateExec [OF assms(2)] refl] show ?thesis .
qed

lemma addCommitted_inv:
  assumes "addCommittedReqeustBatch E s rb lb = Ret lb'" and "exec_inv c opt hs lb"
    and "batch_ok c (op_Q opt) hs (s, rb)"
  shows "exec_inv c opt hs lb'"
proof -
  from assms(1) obtain lb1 where r: "removeInstance (rb_key (le_crypto E) rb) lb = Ret lb1"
    by (auto simp: addCommittedReqeustBatch_def)
  have e: "exec_part lb1 = exec_part lb" by (rule removeInstance_frame [OF r])
  then have i: "exec_inv c opt hs lb1"
    using exec_inv_frame [OF assms(2) e] by simp
  show ?thesis
  proof (cases "gm_has (lb_committedRequestBatch lb1) s")
    case False
    let ?lb = "lb1\<lparr>lb_committedRequestBatch := gm_set s rb (lb_committedRequestBatch lb1)\<rparr>"
    have "\<forall>b \<in> set (lb_committedRequestBatch ?lb). batch_ok c (op_Q opt) hs b"
      using i assms(3) set_gm_set [of s rb "lb_committedRequestBatch lb1"] unfolding exec_inv_def by fastforce
    moreover have "delivered ?lb = delivered lb1" by (simp add: delivered_def)
    ultimately have "exec_inv c opt hs ?lb" using i unfolding exec_inv_def by simp
    then have "exec_inv c opt hs (updateVerifySeqNo s (updateLastSeqNo s (updateLastHeightNum (rb_Height rb) ?lb)))"
      by (rule exec_inv_frame) (simp add: frame)
    with assms(1) r False checkpoint_inv show ?thesis by (auto simp: addCommittedReqeustBatch_def)
  qed (use assms(1) r i in \<open>auto simp: addCommittedReqeustBatch_def\<close>)
qed

lemma votes_ok_sub: "votes_ok c hs vs \<Longrightarrow> set us \<subseteq> set vs \<Longrightarrow> votes_ok c hs us"
  unfolding votes_ok_def by blast

lemma vote_heard_New [simp]: "vote_heard c hs NewVote"
  using vote_inv_New [of "cd_key c"] by (simp add: vote_heard_def NewVote_def vote_Clear_def)

lemma vote_heard_Add:
  assumes "vote_heard c hs v" and "t \<in> set hs"
  shows "vote_heard c hs (vote_Add (cd_key c) (cd_ReplicaID t) t v)"
proof -
  have "gm_get (v_tickets (vote_Add (cd_key c) (cd_ReplicaID t) t v)) w = Some u \<Longrightarrow>
      gm_get (v_tickets v) w = Some u \<or> w = cd_ReplicaID t \<and> u = t" for w u
    by (auto simp: vote_Add_def Let_def gm_get_set split: if_splits)
  then show ?thesis using assms vote_inv_Add [of "cd_key c" v "cd_ReplicaID t" t] unfolding vote_heard_def by blast
qed

lemma vote_heard_count:
  assumes "vote_heard c hs v"
  shows "vote_VoterByTicket (cd_key c) v ct \<le> card (announcers c hs ct)"
proof -
  have "voters (cd_key c) v (cd_key c ct) \<subseteq> announcers c hs ct"
    using assms unfolding voters_def announcers_def vote_heard_def by force
  then show ?thesis using assms by (simp add: vote_VoterByTicket_def vote_heard_def vote_inv_def card_mono)
qed

text \<open>A batch is passed on only when the replicas that announced it are a quorum.\<close>

lemma recvCommitted_inv:
  assumes i: "exec_inv c opt hs lb" and ct: "ct \<in> set hs" and c: "le_crypto E = c" and s: "lb_execSeqNo lb < cd_SeqNo ct"
  shows "exec_inv c opt hs (recvCommitted E ct lb)"
proof -
  let ?vs = "lb_voteCommitted lb" and ?Q = "op_Q opt"
  define v where "v = (case gm_get ?vs (cd_Name ct) of Some v \<Rightarrow> v | None \<Rightarrow> NewVote)"
  define v' where "v' = vote_Add (cd_key c) (cd_ReplicaID ct) ct v"
  have ok: "votes_ok c hs ?vs" using i by (simp add: exec_inv_def)
  have "vote_heard c hs v"
  proof (cases "gm_get ?vs (cd_Name ct)")
    case (Some x)
    then have "(cd_Name ct, x) \<in> set ?vs" by (rule map_of_SomeD)
    with ok Some show ?thesis by (force simp: v_def votes_ok_def)
  qed (simp add: v_def)
  then have v': "vote_heard c hs v'" unfolding v'_def using ct by (rule vote_heard_Add)
  have "votes_ok c hs (gm_del (cd_Name ct) ?vs)" by (rule votes_ok_sub [OF ok set_gm_del])
  moreover from this have "votes_ok c hs (filter P (gm_del (cd_Name ct) ?vs))" for P by (rule votes_ok_sub) auto
  moreover have "votes_ok c hs (gm_set (cd_Name ct) v' ?vs)"
    using ok v' set_gm_set [of "cd_Name ct" v' ?vs] unfolding votes_ok_def by fastforce
  moreover have "exec_inv c opt hs (lb\<lparr>lb_voteCommitted := vs\<rparr>)" if "votes_ok c hs vs" for vs
    using i that unfolding exec_inv_def by (simp add: delivered_def)
  moreover have "exec_inv c opt hs (lb\<lparr>lb_coreCommittedChan := lb_coreCommittedChan lb @ [ct], lb_voteCommitted := vs\<rparr>)"
    if "votes_ok c hs vs" "cd_SeqNo ct \<noteq> 0" "supported c ?Q hs ct" for vs
    using i that unfolding exec_inv_def by (simp add: delivered_def)
  moreover have "supported c ?Q hs ct" if "intersectionQuorum lb \<le> int (vote_VoterByTicket (cd_key c) v' ct)"
    using that vote_heard_count [OF v', of ct] i ct by (simp add: supported_def intersectionQuorum_def exec_inv_def)
  moreover have "cd_SeqNo ct \<noteq> 0" using s by auto
  ultimately show ?thesis
    unfolding recvCommitted_def c Let_def v_def [symmetric] v'_def [symmetric] by simp
qed

lemma drain_inv:
  assumes "go_fold (\<lambda>ct. addCommittedReqeustBatch E (cd_SeqNo ct) (cd_RequestBatch ct)) cts lb = Ret lb'"
    and "exec_inv c opt hs lb" and "\<forall>ct \<in> set cts. cd_SeqNo ct \<noteq> 0 \<and> supported c (op_Q opt) hs ct"
  shows "exec_inv c opt hs lb'"
  using assms
proof (induction cts arbitrary: lb)
  case (Cons ct cts)
  then obtain lb1 where a: "addCommittedReqeustBatch E (cd_SeqNo ct) (cd_RequestBatch ct) lb = Ret lb1" by auto
  have "batch_ok c (op_Q opt) hs (cd_SeqNo ct, cd_RequestBatch ct)"
    using Cons.prems(3) by (auto simp: batch_ok_def)
  from addCommitted_inv [OF a Cons.prems(2) this] show ?case using Cons.IH [of lb1] Cons.prems(1,3) a by simp
qed simp

lemma drain_committed_inv:
  assumes "drain_committed E lb = Ret lb'" and "exec_inv c opt hs lb"
  shows "exec_inv c opt hs lb'"
proof (rule drain_inv [OF assms(1) [unfolded drain_committed_def]])
  show "exec_inv c opt hs (lb\<lparr>lb_coreCommittedChan := []\<rparr>)" using assms(2) by (simp add: exec_inv_def delivered_def)
  show "\<forall>ct \<in> set (lb_coreCommittedChan lb). cd_SeqNo ct \<noteq> 0 \<and> supported c (op_Q opt) hs ct"
    using assms(2) by (simp add: exec_inv_def)
qed

lemma sendViewChange_inv:
  assumes "sendViewChange E vc lb = Ret lb'" and "exec_inv c opt hs lb"
  shows "exec_inv c opt hs lb'"
proof (cases "fst (vote_VoterByVoter (ticket_key E lb) (lb_voteViewChange lb) (own_id lb)) > 0")
  case False
  with assms(1) obtain lb1 where d: "drain_committed E lb = Ret lb1" by (auto simp: sendViewChange_def)
  obtain a lb2 where o: "own_viewChange vc lb1 = (a, lb2)" by (cases "own_viewChange vc lb1")
  from assms(1) False d o obtain lb3 where v: "count_viewChange E a lb2 = Ret lb3"
      and l: "lb' = lb_broadcast (own_chain lb3) (PViewChange (vc_at lb3 a)) lb3"
    by (auto simp: sendViewChange_def)
  have "exec_part lb' = exec_part lb1"
    using own_viewChange_frame [OF o] count_viewChange_frame [OF v] unfolding l by (simp add: frame)
  with drain_committed_inv [OF d assms(2)] show ?thesis by (rule exec_inv_frame)
qed (use assms in \<open>simp add: sendViewChange_def\<close>)

lemma recvViewChange_inv:
  assumes "recvViewChange E a lb = Ret lb'" and "exec_inv c opt hs lb"
  shows "exec_inv c opt hs lb'"
proof -
  have "exec_inv c opt hs (lb\<lparr>lb_primaryID := []\<rparr>)" by (rule exec_inv_frame [OF assms(2)]) (simp add: frame)
  with assms show ?thesis
    by (auto simp: recvViewChange_def Let_def split: if_splits
        intro: exec_inv_frame [OF _ count_viewChange_frame] sendViewChange_inv)
qed

lemma on_committed_inv:
  assumes "exec_inv c opt hs lb" and "le_crypto E = c" and "cd_Chain ct = own_chain lb \<Longrightarrow> ct \<in> set hs"
  shows "exec_inv c opt hs (on_committed E ct lb)"
  using assms recvCommitted_inv [OF assms(1) _ assms(2)] by (simp add: on_committed_def)

lemma on_view_change_inv:
  assumes "on_view_change E vc lb = Ret lb'" and "exec_inv c opt hs lb"
  shows "exec_inv c opt hs lb'"
proof (cases "vc_Chain vc = own_chain lb")
  case True
  have "exec_inv c opt hs (lb\<lparr>lb_viewChanges := lb_viewChanges lb @ [vc]\<rparr>)"
    by (rule exec_inv_frame [OF assms(2)]) (simp add: frame)
  with assms(1) True show ?thesis by (auto simp: on_view_change_def intro: recvViewChange_inv)
next
  case False
  with assms(1) have "lb' = lb\<lparr>lb_msgLoop := False\<rparr>" by (simp add: on_view_change_def)
  then show ?thesis using exec_inv_frame [OF assms(2), of lb'] by (simp add: frame)
qed

lemma handleConsensusMsg_inv:
  assumes h: "handleConsensusMsg E p msg lb = Ret lb'" and i: "exec_inv c opt hs lb" and c: "le_crypto E = c"
    and ct: "\<And>ct. decoded p msg = Ret (Some (PCommitted ct)) \<Longrightarrow> cd_Chain ct = own_chain lb \<Longrightarrow> ct \<in> set hs"
  shows "exec_inv c opt hs lb'"
proof -
  from h obtain m where d: "decoded p msg = Ret m" by (auto simp: handleConsensusMsg_def)
  show ?thesis
  proof (cases m)
    case None
    with h d i show ?thesis by (simp add: handleConsensusMsg_def)
  next
    case (Some x)
    note h' = h [unfolded handleConsensusMsg_def d Some go_bind.simps option.case]
    show ?thesis
    proof (cases x)
      case (PCommitted ct')
      with h' d Some show ?thesis using on_committed_inv [OF i c, of ct'] ct [of ct'] by auto
    next
      case (PViewChange vc)
      with h' show ?thesis using on_view_change_inv [OF _ i] by auto
    qed (use h' in \<open>auto simp: on_message_frames(1,4) intro!: exec_inv_frame [OF i]
        dest: on_message_frames(2,3,5) handleLbftCoreMsg_frame\<close>)
  qed
qed

text \<open>Collecting and writing blocks moves batches along without changing what was delivered.\<close>

lemma block_outputs_pairs:
  "map (\<lambda>out. (ct_SeqNo out, ct_Transactions out)) (block_outputs chain n ctts) =
     map (\<lambda>b. (cb_seqNo b, toTxs (cb_requestBatch b))) ctts"
  by (induction chain n ctts rule: block_outputs.induct) (simp_all add: Let_def toTxs_def)

lemma delivered_writeBlock [simp]: "delivered (writeBlock lb) = delivered lb"
  by (cases "lb_committedBlock lb")
    (simp_all add: writeBlock_def delivered_def block_outputs_pairs del: block_outputs.simps)

lemma writeBlock_fields [simp]:
  "lb_committedBlock (writeBlock lb) = []" "lb_committedRequestBatchChan (writeBlock lb) = lb_committedRequestBatchChan lb"
  by (simp_all add: writeBlock_def split: list.split)

lemma writeBlock_frame [frame]: "exec_part (writeBlock lb) = exec_part lb"
  by (simp add: exec_part_def) (simp add: writeBlock_def split: list.split)

lemma collect_batch_frame:
  assumes "lb_committedRequestBatchChan lb = ctt # ctts"
  shows "exec_part (collect_batch ctt (lb\<lparr>lb_committedRequestBatchChan := ctts\<rparr>)) = exec_part lb"
proof -
  let ?lb = "lb\<lparr>lb_committedRequestBatchChan := ctts\<rparr>"
  have add: "exec_part (l\<lparr>lb_committedBlock := lb_committedBlock l @ [ctt], lb_blockHeight := h\<rparr>) =
      exec_part (l\<lparr>lb_committedRequestBatchChan := ctt # lb_committedRequestBatchChan l\<rparr>)" for l :: "'a Lbft" and h
    by (simp add: exec_part_def delivered_def)
  have wb: "exec_part ((writeBlock ?lb)\<lparr>lb_committedRequestBatchChan := ctt # ctts\<rparr>) = exec_part lb"
    using assms delivered_writeBlock [of ?lb]
    by (cases "lb_committedBlock lb") (auto simp: exec_part_def delivered_def writeBlock_def)
  show ?thesis
    using add [where l = ?lb] add [where l = "writeBlock ?lb"] wb assms
    by (simp add: collect_batch_def Let_def exec_part_def delivered_def)
qed

lemma handleTransaction_inv:
  assumes "handleTransaction E t lb = Ret lb'" and i: "exec_inv c opt hs lb"
  shows "exec_inv c opt hs lb'"
proof (cases t)
  case TPeriod
  have "exec_inv c opt hs (lb\<lparr>lb_viewChangePeriodTimer := None\<rparr>)" by (rule exec_inv_frame [OF i]) (simp add: frame)
  with assms TPeriod show ?thesis by (auto simp: handleTransaction_def split: if_splits intro: sendViewChange_inv)
next
  case TNullRequest
  have "exec_inv c opt hs (lb\<lparr>lb_nullRequestTimer := None\<rparr>)" by (rule exec_inv_frame [OF i]) (simp add: frame)
  with assms TNullRequest show ?thesis
    by (auto simp: handleTransaction_def nullRequestHandler_def frame split: if_splits
        intro: sendViewChange_inv exec_inv_frame [of _ _ _ "lb\<lparr>lb_nullRequestTimer := None\<rparr>"])
next
  case TBlock
  have "exec_inv c opt hs (lb\<lparr>lb_blockTimer := None\<rparr>)" by (rule exec_inv_frame [OF i]) (simp add: frame)
  then have "exec_inv c opt hs lb1" if "maybeSendViewChange E (lb\<lparr>lb_blockTimer := None\<rparr>) = Ret lb1" for lb1
    using that by (auto simp: maybeSendViewChange_def split: if_splits intro: sendViewChange_inv)
  with assms TBlock show ?thesis
    by (auto simp: handleTransaction_def frame split: if_splits dest!: submitRequestBatches_frame
        intro: exec_inv_frame)
qed (use assms in \<open>auto simp: handleTransaction_def frame split: if_splits dest: resend_viewChange_frame
    intro!: exec_inv_frame [OF i]\<close>)

lemma run_task_inv:
  assumes "run_task E j lb = Ret lb'" and i: "exec_inv c opt hs lb"
  shows "exec_inv c opt hs lb'"
proof -
  let ?lb = "lb\<lparr>lb_tasks := take j (lb_tasks lb) @ drop (Suc j) (lb_tasks lb)\<rparr>"
  have i1: "exec_inv c opt hs ?lb" by (rule exec_inv_frame [OF i]) (simp add: frame)
  show ?thesis
  proof (cases "lb_tasks lb ! j")
    case (KResend vc)
    with assms(1) i1 show ?thesis by (auto simp: run_task_def Let_def intro: sendViewChange_inv)
  qed (use assms(1) i i1 in \<open>auto simp: run_task_def Let_def split: if_splits
      dest: core_handleRequestBatch_frame core_handleRequestBatch_go_frame handlePrePrepare_frame
        handlePrePrepare_go_frame commit_start_frame commit_go_frame intro: exec_inv_frame [OF i1]\<close>)
qed

lemma core_timeout_inv:
  assumes "core_timeout E i lb = Ret lb'" and "exec_inv c opt hs lb"
  shows "exec_inv c opt hs lb'"
proof -
  have "exec_inv c opt hs (upd_core i (\<lambda>core. core\<lparr>lc_timeoutTimer := None\<rparr>) lb)"
    by (rule exec_inv_frame [OF assms(2)]) (simp add: frame)
  with assms(1) show ?thesis by (auto simp: core_timeout_def Let_def split: if_splits intro: sendViewChange_inv)
qed

lemma lbft_event_inv:
  assumes r: "lbft_event E e lb = Ret lb'" and i: "exec_inv c opt hs lb" and c: "le_crypto E = c"
  shows "exec_inv c opt (hs @ heard e lb) lb'"
proof (cases "lb' = lb")
  case True
  then show ?thesis using exec_inv_mono [OF i] by simp
next
  case moved: False
  define hs' where "hs' = hs @ heard e lb"
  have m: "exec_inv c opt hs' lb" unfolding hs'_def by (rule exec_inv_mono [OF i]) simp
  have "exec_inv c opt hs' lb'"
  proof (cases e)
    case (EMessage p)
    with r moved obtain msg msgs where q: "lb_recvConsensusMsgChan lb = msg # msgs" and l: "lb_msgLoop lb"
        and h: "handleConsensusMsg E p msg (lb\<lparr>lb_recvConsensusMsgChan := msgs\<rparr>) = Ret lb'"
      by (auto simp: lbft_event_def split: list.splits if_splits)
    show ?thesis
      by (rule handleConsensusMsg_inv [OF h exec_inv_frame [OF m] c])
        (use EMessage q l in \<open>auto simp: frame heard_def hs'_def\<close>)
  next
    case ECoreCommitted
    with r moved obtain ct cts where q: "lb_coreCommittedChan lb = ct # cts"
        and h: "addCommittedReqeustBatch E (cd_SeqNo ct) (cd_RequestBatch ct) (lb\<lparr>lb_coreCommittedChan := cts\<rparr>) = Ret lb'"
      by (auto simp: lbft_event_def split: list.splits if_splits)
    have "exec_inv c opt hs' (lb\<lparr>lb_coreCommittedChan := cts\<rparr>)"
      using m q by (simp add: exec_inv_def delivered_def)
    moreover have "batch_ok c (op_Q opt) hs' (cd_SeqNo ct, cd_RequestBatch ct)"
      using m q by (auto simp: exec_inv_def batch_ok_def)
    ultimately show ?thesis by (rule addCommitted_inv [OF h])
  next
    case EBatch
    with r moved obtain ctt ctts where q: "lb_committedRequestBatchChan lb = ctt # ctts"
        and h: "lb' = collect_batch ctt (lb\<lparr>lb_committedRequestBatchChan := ctts\<rparr>)"
      by (auto simp: lbft_event_def split: list.splits if_splits)
    show ?thesis unfolding h by (rule exec_inv_frame [OF m collect_batch_frame [OF q]])
  qed (use r moved m in \<open>auto simp: lbft_event_def frame split: if_splits
      dest: handleTransaction_inv [OF _ m] run_task_inv [OF _ m] core_timeout_inv [OF _ m]
      intro: exec_inv_frame [OF m] core_message_frame core_exit_frame core_expire_frame\<close>)
  then show ?thesis by (simp add: hs'_def)
qed

lemma heard_now [simp]: "heard e (lb\<lparr>lb_now := now\<rparr>) = heard e lb"
proof -
  have "lb_recvConsensusMsgChan (lb\<lparr>lb_now := now\<rparr>) = lb_recvConsensusMsgChan lb" "lb_msgLoop (lb\<lparr>lb_now := now\<rparr>) = lb_msgLoop lb"
    "lb_options (lb\<lparr>lb_now := now\<rparr>) = lb_options lb" by simp_all
  then show ?thesis unfolding heard_def by presburger
qed

lemma lbft_run_inv:
  assumes "lbft_run E lb0 hs lb" and "NewLbft E now opt0 k = Ret lb0"
  shows "exec_inv (le_crypto E) (lb_options lb0) hs lb"
  using assms(1)
proof (induction rule: lbft_run.induct)
  case run_start
  have "exec_inv (le_crypto E) (lb_options lb0) [] lb0"
    using assms(2) by (auto simp: NewLbft_def exec_inv_def votes_ok_def in_order_def delivered_def)
  then show ?case by (rule exec_inv_frame) (simp add: frame)
next
  case (run_event hs lb ord e now lb')
  have "exec_inv (le_crypto E) (lb_options lb0) hs (lb\<lparr>lb_now := now\<rparr>)"
    by (rule exec_inv_frame [OF run_event.IH]) (simp add: frame)
  from lbft_event_inv [OF run_event.hyps(3) this] show ?case by simp
qed

section \<open>Properties of execution\<close>

text \<open>C5: In every run of a replica, whatever it receives and in whatever order its goroutines, timers and
  queues take their turns: the batches handed to execution (in written blocks, in the block being
  collected, on the way to it) have consecutive sequence numbers, without gap, repetition or
  reordering, and each of them was announced as committed by at least \<open>Q\<close> different replicas, with the
  transactions that are executed.\<close>

theorem executed_batches:
  assumes "NewLbft E now opt k = Ret lb0" and "lbft_run E lb0 hs lb"
  shows "successively (\<lambda>s t. t = s + 1) (map fst (delivered lb)) \<and>
    (\<forall>(s, txs) \<in> set (delivered lb). \<exists>ct. cd_SeqNo ct = s \<and> toTxs (cd_RequestBatch ct) = txs \<and>
       op_Q (lb_options lb0) \<le> int (card (announcers (le_crypto E) hs ct)))"
  using lbft_run_inv [OF assms(2,1)] unfolding exec_inv_def in_order_def batch_ok_def supported_def by fastforce

text \<open>Equal serialisations of committed messages are announcements of the same transactions.\<close>

lemma tx_norm_idem [simp]: "tx_norm p (tx_norm q t) = tx_norm p t"
  by (simp add: tx_norm_def big_norm_def split: option.split)

lemma toTxs_rb_norm: "map (tx_norm 0) (toTxs (rb_norm p m)) = map (tx_norm 0) (toTxs m)"
proof -
  have "map (\<lambda>(i, r). tx_norm 0 (rq_Transaction r)) (zip [0 ..< length rs] rs) = map (\<lambda>r. tx_norm 0 (rq_Transaction r)) rs" for rs
    by (simp add: case_prod_beta' flip: map_map [of "\<lambda>r. tx_norm 0 (rq_Transaction r)" snd, unfolded comp_def])
  then show ?thesis by (simp add: toTxs_def rb_norm_def comp_def case_prod_beta')
qed

lemma amount_fits_norm: "amount_fits i \<Longrightarrow> amount_fits (big_norm i)"
  by (auto simp: amount_fits_def big_norm_def be_bytes.simps [of 0] split: option.splits)

lemma rb_wf_norm: "rb_wf m \<Longrightarrow> rb_wf (rb_norm p m)"
  by (auto simp: rb_wf_def rb_norm_def list_all_iff tx_wf_def txdata_wf_def tx_norm_def amount_fits_norm
      dest!: set_zip_rightD)

lemma cd_Serialize_inj:
  assumes "cd_wf a" "cd_wf b" "cd_Serialize a = cd_Serialize b"
  shows "cd_SeqNo a = cd_SeqNo b"
    "map (tx_norm 0) (toTxs (cd_RequestBatch a)) = map (tx_norm 0) (toTxs (cd_RequestBatch b))"
proof -
  let ?n = "\<lambda>m. m\<lparr>cd_RequestBatch := rb_norm 0 (cd_RequestBatch m), cd_ReplicaID := []\<rparr>"
  have e: "cd_Serialize m = Serialize (cd_val (?n m))" if "cd_wf m" for m
    using that by (simp add: cd_Serialize_def Deserialize_good good_cd val_norms)
  have w: "cd_wf (?n m)" if "cd_wf m" for m using that by (simp add: cd_wf_def rb_wf_norm)
  have "norm (cd_val (?n a)) = norm (cd_val (?n b))"
    using Serialize_inj [OF good_cd [OF w [OF assms(1)]] good_cd [OF w [OF assms(2)]] msg_not_nil(4) msg_not_nil(4)]
      assms(3) by (simp only: e assms(1,2))
  then have "val_cd 0 (norm (cd_val (?n a))) = val_cd 0 (norm (cd_val (?n b)))" by (rule arg_cong)
  then have v: "(?n a)\<lparr>cd_RequestBatch := rb_norm 0 (rb_norm 0 (cd_RequestBatch a))\<rparr> =
      (?n b)\<lparr>cd_RequestBatch := rb_norm 0 (rb_norm 0 (cd_RequestBatch b))\<rparr>"
    by (simp add: val_norms(3))
  show "cd_SeqNo a = cd_SeqNo b" using arg_cong [OF v, of cd_SeqNo] by simp
  have "toTxs (rb_norm 0 (rb_norm 0 (cd_RequestBatch a))) = toTxs (rb_norm 0 (rb_norm 0 (cd_RequestBatch b)))"
    using arg_cong [OF v, of "\<lambda>m. toTxs (cd_RequestBatch m)"] by simp
  then show "map (tx_norm 0) (toTxs (cd_RequestBatch a)) = map (tx_norm 0) (toTxs (cd_RequestBatch b))"
    by (metis toTxs_rb_norm)
qed

text \<open>C2: Two replicas with the same quorum never execute different transactions under the same sequence number
  (apart from the addresses and caches of the objects), provided that the replicas are \<open>R\<close>, that the
  quorum is at least two thirds of them (which the constructor does not
  always enforce), that all but \<open>(N - 1) / 3\<close> of the replicas announce, over both runs, only one batch for each
  sequence number, and that the hash has no collision among the announcements.\<close>

theorem execution_agreement:
  assumes n1: "NewLbft E1 now1 opt1 k1 = Ret l1" and r1: "lbft_run E1 l1 hs1 lb1"
    and n2: "NewLbft E2 now2 opt2 k2 = Ret l2" and r2: "lbft_run E2 l2 hs2 lb2"
    and c: "le_crypto E1 = c" "le_crypto E2 = c"
    and q: "op_Q (lb_options l1) = Q" "op_Q (lb_options l2) = Q" "finite R" "2 * int (card R) \<le> 3 * Q"
    and A: "A = set hs1 \<union> set hs2" "\<forall>a \<in> A. cd_wf a \<and> cd_ReplicaID a \<in> R"
    and H: "int (card (R - H)) \<le> faulty (int (card R))"
      "\<forall>a \<in> A. \<forall>b \<in> A. cd_ReplicaID a \<in> H \<and> cd_ReplicaID a = cd_ReplicaID b \<and> cd_SeqNo a = cd_SeqNo b \<longrightarrow>
         cd_Serialize a = cd_Serialize b"
    and coll: "\<forall>a \<in> A. \<forall>b \<in> A. cd_key c a = cd_key c b \<longrightarrow> cd_Serialize a = cd_Serialize b"
    and d: "(s, txs1) \<in> set (delivered lb1)" "(s, txs2) \<in> set (delivered lb2)"
  shows "map (tx_norm 0) txs1 = map (tx_norm 0) txs2"
proof -
  have i1: "exec_inv c (lb_options l1) hs1 lb1" using lbft_run_inv [OF r1 n1] c by simp
  have i2: "exec_inv c (lb_options l2) hs2 lb2" using lbft_run_inv [OF r2 n2] c by simp
  obtain ct1 where 1: "cd_SeqNo ct1 = s" "toTxs (cd_RequestBatch ct1) = txs1" "ct1 \<in> set hs1" "Q \<le> int (card (announcers c hs1 ct1))"
    using i1 d(1) q(1) unfolding exec_inv_def batch_ok_def supported_def by fastforce
  obtain ct2 where 2: "cd_SeqNo ct2 = s" "toTxs (cd_RequestBatch ct2) = txs2" "ct2 \<in> set hs2" "Q \<le> int (card (announcers c hs2 ct2))"
    using i2 d(2) q(2) unfolding exec_inv_def batch_ok_def supported_def by fastforce
  have sub: "announcers c hs1 ct1 \<subseteq> R" "announcers c hs2 ct2 \<subseteq> R" using A by (auto simp: announcers_def)
  have "quorums R Q" using q by unfold_locales
  from quorums.quorums_share_honest [OF this sub 1(4) 2(4) H(1)] obtain r
    where r: "r \<in> announcers c hs1 ct1" "r \<in> announcers c hs2 ct2" "r \<in> H" by blast
  then obtain a b where a: "a \<in> set hs1" "cd_ReplicaID a = r" "cd_key c a = cd_key c ct1"
    and b: "b \<in> set hs2" "cd_ReplicaID b = r" "cd_key c b = cd_key c ct2"
    by (auto simp: announcers_def)
  have m: "a \<in> A" "b \<in> A" "ct1 \<in> A" "ct2 \<in> A" using a b 1 2 A(1) by auto
  then have w: "cd_wf a" "cd_wf b" "cd_wf ct1" "cd_wf ct2" using A(2) by auto
  have e: "cd_Serialize a = cd_Serialize ct1" "cd_Serialize b = cd_Serialize ct2"
    by (rule coll [rule_format, OF m(1,3) a(3)], rule coll [rule_format, OF m(2,4) b(3)])
  then have "cd_SeqNo a = cd_SeqNo b"
    using cd_Serialize_inj(1) [OF w(1,3)] cd_Serialize_inj(1) [OF w(2,4)] 1(1) 2(1) by simp
  then have "cd_Serialize a = cd_Serialize b"
    using a(2) b(2) r(3) by (intro H(2) [rule_format, OF m(1,2)]) simp
  then have "cd_Serialize ct1 = cd_Serialize ct2" by (simp only: e)
  from cd_Serialize_inj(2) [OF w(3,4) this] 1(2) 2(2) show ?thesis by simp
qed

section \<open>A sample run\<close>

definition sample_tx :: Transaction where
  "sample_tx = NewTransaction 0 [0] [0] TypeAtomic 7 zero_addr zero_addr (Some 5) (Some 1) 3"

definition sample_ct :: "string \<Rightarrow> Committed" where
  "sample_ct r = \<lparr>cd_Name = ''n'', cd_PrimaryID = [], cd_Chain = ''0'', cd_ReplicaID = r, cd_SeqNo = 1,
     cd_RequestBatch = \<lparr>rb_Time = 3, rb_Requests = [\<lparr>rq_Transaction = sample_tx\<rparr>], rb_ID = 5, rb_Index = 0, rb_Height = 1\<rparr>\<rparr>"

text \<open>A committed message that arrives at an idle replica is received and counted.\<close>

lemma hear_committed:
  assumes r: "lbft_run E lb0 hs lb" and idle: "lb_recvConsensusMsgChan lb = []" "lb_msgLoop lb"
    and w: "payload_wf (PCommitted ct)" "fits (mg_Payload (mk_msg (PCommitted ct)))" "rb_norm 0 (cd_RequestBatch ct) = cd_RequestBatch ct"
    and ct: "cd_Chain ct = own_chain lb" "lb_execSeqNo lb < cd_SeqNo ct"
  shows "lbft_run E lb0 (hs @ [ct]) (recvCommitted (E\<lparr>le_order := id\<rparr>) ct lb)"
proof -
  let ?m = "mk_msg (PCommitted ct)" and ?E = "E\<lparr>le_order := id\<rparr>"
  let ?lb = "lb\<lparr>lb_recvConsensusMsgChan := [?m]\<rparr>"
  have ord: "\<And>m. range_order (id m) m" by simp
  have "lbft_event ?E (ERecv (mg_Serialize ?m)) (lb\<lparr>lb_now := lb_now lb\<rparr>) = Ret ?lb"
    using mg_Deserialize_Serialize [OF w(2)] idle by (simp add: lbft_event_def RecvConsensus_def)
  from run_event [OF r ord this] have r1: "lbft_run E lb0 hs ?lb" by (simp add: heard_def)
  have d: "decoded 0 ?m = Ret (Some (PCommitted ct))" using decoded_mk_msg [OF w(1), of 0] w(3) by simp
  have "lbft_event ?E (EMessage 0) (?lb\<lparr>lb_now := lb_now lb\<rparr>) = Ret (recvCommitted ?E ct lb)"
    using d ct idle by (simp add: lbft_event_def handleConsensusMsg_def on_committed_def) (simp flip: idle(1))
  from run_event [OF r1 ord this] show ?thesis using d ct idle by (simp add: heard_def)
qed

lemma sample_ct_ok:
  assumes "length r = 1"
  shows "cd_wf (sample_ct r)" "fits (mg_Payload (mk_msg (PCommitted (sample_ct r))))"
    "rb_norm 0 (cd_RequestBatch (sample_ct r)) = cd_RequestBatch (sample_ct r)"
proof -
  show "cd_wf (sample_ct r)"
    using assms by (simp add: sample_ct_def cd_wf_def rb_wf_def tx_wf_def txdata_wf_def sample_tx_def NewTransaction_def
        amount_fits_def be_bytes.simps)
  show "fits (mg_Payload (mk_msg (PCommitted (sample_ct r))))"
    using assms by (simp add: sample_ct_def cd_val_def rb_val_def tx_val_def txdata_val_def sample_tx_def NewTransaction_def
        Serialize_def VarInt_def be_bytes.simps TypeAtomic_def)
  show "rb_norm 0 (cd_RequestBatch (sample_ct r)) = cd_RequestBatch (sample_ct r)"
    by (simp add: sample_ct_def rb_norm_def sample_tx_def tx_norm_def NewTransaction_def big_norm_def)
qed

lemma sample_ct_key:
  assumes "length r = 1"
  shows "cd_Serialize (sample_ct r) = Serialize (cd_val (sample_ct []))"
    "cd_key c (sample_ct r) = vote_key (sum256 c) (\<lambda>_. Serialize (cd_val (sample_ct []))) (sample_ct [])"
proof -
  have "(sample_ct r)\<lparr>cd_ReplicaID := []\<rparr> = sample_ct []" by (simp add: sample_ct_def)
  then show e: "cd_Serialize (sample_ct r) = Serialize (cd_val (sample_ct []))"
    using sample_ct_ok(1,3) [OF assms] by (simp add: cd_Serialize_def Deserialize_good good_cd val_norms)
  show "cd_key c (sample_ct r) = vote_key (sum256 c) (\<lambda>_. Serialize (cd_val (sample_ct []))) (sample_ct [])"
    by (simp add: cd_key_def vote_key_def e)
qed

definition sample_hs :: "Committed list" where
  "sample_hs = [sample_ct ''a'', sample_ct ''b'', sample_ct ''c'']"

lemma sample_heard:
  "lbft_run sample_le sample_lb sample_hs ((lbft_Start sample_lb)\<lparr>lb_coreCommittedChan := [sample_ct ''c'']\<rparr>)"
proof -
  let ?E = "sample_le\<lparr>le_order := id\<rparr>" and ?l = "lbft_Start sample_lb"
  note ok = sample_ct_ok [of "''a''", simplified] sample_ct_ok [of "''b''", simplified] sample_ct_ok [of "''c''", simplified]
  have f: "lb_recvConsensusMsgChan ?l = []" "lb_msgLoop ?l" "own_chain ?l = ''0''" "lb_execSeqNo ?l = 0"
    "lb_voteCommitted ?l = []" "lb_coreCommittedChan ?l = []" "lb_committedRequestBatch ?l = []" "op_Q (lb_options ?l) = 3"
    by (simp_all add: sample_lb_def NewLbft_def checked_times_def checked_quorum_def NewDefaultOptions_def second_def
        lbft_Start_def resetBlockTimer_def Let_def)
  define K where "K = cd_key (le_crypto sample_le)"
  have k: "K (sample_ct ''a'') = K (sample_ct ''c'')" "K (sample_ct ''b'') = K (sample_ct ''c'')"
    unfolding K_def by (simp_all only: sample_ct_key length_Cons list.size One_nat_def add_0)
  define V1 where "V1 = vote_Add K ''a'' (sample_ct ''a'') NewVote"
  define V2 where "V2 = vote_Add K ''b'' (sample_ct ''b'') V1"
  have n: "vote_VoterByTicket K V1 (sample_ct ''a'') = 1" "vote_VoterByTicket K V2 (sample_ct ''b'') = 2"
    "vote_VoterByTicket K (vote_Add K ''c'' (sample_ct ''c'') V2) (sample_ct ''c'') = 3"
    by (simp_all add: V1_def V2_def k vote_VoterByTicket_def vote_Add_def stat_def NewVote_def vote_Clear_def Let_def gm_has_def)
  have id: "cd_Name (sample_ct r) = ''n''" "cd_SeqNo (sample_ct r) = 1" "cd_ReplicaID (sample_ct r) = r" "cd_Chain (sample_ct r) = ''0''" for r
    by (simp_all add: sample_ct_def)
  note d = recvCommitted_def hasCommittedReqeustBatch_def intersectionQuorum_def id f K_def [symmetric] Let_def
  have e: "le_crypto ?E = le_crypto sample_le" by simp
  have s1: "recvCommitted ?E (sample_ct ''a'') ?l = ?l\<lparr>lb_voteCommitted := [(''n'', V1)]\<rparr>"
    using n(1) by (simp add: d V1_def)
  have s2: "recvCommitted ?E (sample_ct ''b'') (?l\<lparr>lb_voteCommitted := [(''n'', V1)]\<rparr>) = ?l\<lparr>lb_voteCommitted := [(''n'', V2)]\<rparr>"
    using n(2) by (simp add: d V2_def)
  have s3: "recvCommitted ?E (sample_ct ''c'') (?l\<lparr>lb_voteCommitted := [(''n'', V2)]\<rparr>) =
      ?l\<lparr>lb_coreCommittedChan := [sample_ct ''c'']\<rparr>"
    using n(3) by (simp add: d)
  have t1: "lbft_run sample_le sample_lb [sample_ct ''a''] (?l\<lparr>lb_voteCommitted := [(''n'', V1)]\<rparr>)"
    using hear_committed [OF run_start, of sample_lb "sample_ct ''a''" sample_le] ok s1 by (simp add: f id)
  have t2: "lbft_run sample_le sample_lb [sample_ct ''a'', sample_ct ''b''] (?l\<lparr>lb_voteCommitted := [(''n'', V2)]\<rparr>)"
    using hear_committed [OF t1, of "sample_ct ''b''"] ok s2 by (simp add: f id)
  show ?thesis
    using hear_committed [OF t2, of "sample_ct ''c''"] ok s3 by (simp add: f id sample_hs_def)
qed

lemma sample_executed:
  "\<exists>lb. lbft_run sample_le sample_lb sample_hs lb \<and> delivered lb = [(1, [sample_tx])]"
proof -
  let ?E = "sample_le\<lparr>le_order := id\<rparr>" and ?l = "(lbft_Start sample_lb)\<lparr>lb_coreCommittedChan := [sample_ct ''c'']\<rparr>"
  have "\<exists>lb. lbft_event ?E ECoreCommitted (?l\<lparr>lb_now := 0\<rparr>) = Ret lb \<and> delivered lb = [(1, [sample_tx])]"
    by (simp add: lbft_event_def sample_lb_def NewLbft_def checked_times_def checked_quorum_def NewDefaultOptions_def second_def
        lbft_Start_def resetBlockTimer_def Let_def sample_ct_def addCommittedReqeustBatch_def removeInstance_def
        updateVerifySeqNo_def updateLastSeqNo_def updateLastHeightNum_def checkpoint_def updateExecSeqNo_def
        incrExecSeqNum_def del_committed_def option_K_def delivered_def toTxs_def sample_le_def since_truncate_def)
  then obtain lb where e: "lbft_event ?E ECoreCommitted (?l\<lparr>lb_now := 0\<rparr>) = Ret lb" and d: "delivered lb = [(1, [sample_tx])]"
    by blast
  have ord: "\<And>m. range_order (id m) m" by simp
  from run_event [OF sample_heard ord e] d show ?thesis by (auto simp: heard_def)
qed

theorem executed_batches_witness:
  "\<exists>lb ct. lbft_run sample_le sample_lb sample_hs lb \<and> delivered lb = [(1, [sample_tx])] \<and>
     toTxs (cd_RequestBatch ct) = [sample_tx] \<and> 3 \<le> int (card (announcers (le_crypto sample_le) sample_hs ct))"
proof -
  obtain lb where r: "lbft_run sample_le sample_lb sample_hs lb" and d: "delivered lb = [(1, [sample_tx])]"
    using sample_executed by blast
  from executed_batches [OF sample_NewLbft r] r d show ?thesis by (auto simp: sample_Q)
qed

theorem execution_agreement_witness:
  "\<exists>lb txs. lbft_run sample_le sample_lb sample_hs lb \<and> (1, txs) \<in> set (delivered lb) \<and>
     map (tx_norm 0) txs = map (tx_norm 0) [sample_tx]"
proof -
  obtain lb where r: "lbft_run sample_le sample_lb sample_hs lb" and d: "delivered lb = [(1, [sample_tx])]"
    using sample_executed by blast
  let ?A = "set sample_hs \<union> set sample_hs" and ?R = "{''a'', ''b'', ''c'', ''d''}"
  note ok = sample_ct_ok [of "''a''", simplified] sample_ct_ok [of "''b''", simplified] sample_ct_ok [of "''c''", simplified]
  have A: "\<forall>a \<in> ?A. cd_wf a \<and> cd_ReplicaID a \<in> ?R"
    using ok by (simp add: sample_hs_def) (simp add: sample_ct_def)
  have S: "\<forall>a \<in> ?A. cd_Serialize a = Serialize (cd_val (sample_ct []))"
    by (simp add: sample_hs_def sample_ct_key(1))
  have H: "int (card (?R - ?R)) \<le> faulty (int (card ?R))" by (simp add: faulty_def)
  have "map (tx_norm 0) [sample_tx] = map (tx_norm 0) [sample_tx]"
    by (rule execution_agreement [OF sample_NewLbft r sample_NewLbft r refl refl sample_Q sample_Q _ _ refl A H, where s = 1])
      (use S d in \<open>simp_all\<close>)
  with r d show ?thesis by auto
qed

end
