(* ===== verification/Lbft_Votes.thy ===== *)
theory Lbft_Votes
  imports Lbft_Laws
begin

text \<open>
  Votes inside a replica: what it takes for an instance to pass its prepare and commit phases, for a primary
  to be elected, how the counters move, and what single messages can do to a replica.
\<close>

section \<open>Prepare and commit\<close>

lemma scan_fold:
  assumes "fold (\<lambda>(hash, num). scan_ticket P (f hash) num) es (m0, q0) = (m, q)"
  shows "(m, q) = (m0, q0) \<or> (\<exists>h t. (h, m) \<in> set es \<and> f h = Some t \<and> P t \<and> pr_Quorum t = q)"
  using assms
proof (induction es arbitrary: m0 q0)
  case (Cons e es)
  obtain h n where e: "e = (h, n)" by (cases e)
  obtain m1 q1 where s: "scan_ticket P (f h) n (m0, q0) = (m1, q1)" by (cases "scan_ticket P (f h) n (m0, q0)")
  then have "(m1, q1) = (m0, q0) \<or> (\<exists>t. m1 = n \<and> f h = Some t \<and> P t \<and> pr_Quorum t = q1)"
    by (auto simp: scan_ticket_def split: option.splits if_splits)
  with Cons.IH [of m1 q1] Cons.prems show ?case unfolding e by (auto simp: s)
qed simp

lemma chain_passes_quorum:
  assumes v: "vote_inv key v" and o: "range_order (le_order E (v_statistics v)) (v_statistics v)" and n: "vote_Size v < 2 ^ 64"
    and p: "chain_passes E own core v chain"
  shows "\<exists>t. counts_for own core chain t \<and> 3 \<le> card (voters key v (key t)) \<and> unat (pr_Quorum t) \<le> card (voters key v (key t))"
proof -
  let ?es = "le_order E (v_statistics v)"
  obtain m q where s: "vote_IterTicket (scan_ticket (counts_for own core chain)) ?es v (0, 0) = (m, q)"
    by (cases "vote_IterTicket (scan_ticket (counts_for own core chain)) ?es v (0, 0)")
  with p have m: "m \<noteq> 0" "\<not> q < MINQUORUM" "\<not> word_of_nat m < q" by (auto simp: chain_passes_def)
  from scan_fold [OF s [unfolded vote_IterTicket_def]] m(1) obtain h t where t: "(h, m) \<in> set ?es"
      "gm_get (v_hashes v) h = Some t" "counts_for own core chain t" "pr_Quorum t = q" by auto
  have "gm_get (v_statistics v) h = Some m"
    using t(1) range_order_set [OF o] gm_get_in [of "v_statistics v" h m] v by (simp add: vote_inv_def)
  moreover from this have "key t = h" using v t(2) by (auto simp: vote_inv_def gm_has_def)
  moreover have "stat v h = card (voters key v h)" using v by (simp add: vote_inv_def)
  ultimately have c: "card (voters key v (key t)) = m" by (simp add: stat_def)
  have "card (voters key v (key t)) \<le> vote_Size v"
  proof -
    have "voters key v (key t) \<subseteq> dom (gm_get (v_tickets v))" by (auto simp: voters_def)
    then show ?thesis using v by (simp add: vote_inv_def vote_Size_def gm_len_dom card_mono finite_dom_map_of)
  qed
  then have "unat (word_of_nat m :: u64) = m" using n c by (intro unat_word_of_nat_u64) simp
  with m(3) have "unat q \<le> m" by (simp add: word_less_nat_alt)
  moreover have "3 \<le> unat q" using m(2) by (simp add: MINQUORUM_def word_less_nat_alt)
  ultimately show ?thesis using t(3,4) c by auto
qed

text \<open>C15: An instance passes its commit phase only after its prepare phase, and only if for each of the two chains
  of the batch some ticket has at least three voters and as many as it demands itself; for the own
  chain that ticket states the digest and sequence number of the instance. Nothing ties the quorum
  that a ticket demands to the options of the replica: a ticket that demands three passes with three.\<close>

theorem commit_pass_quorum:
  assumes "vote_inv key (lc_commitVote core)" and "vote_Size (lc_commitVote core) < 2 ^ 64"
    and "range_order (le_order E (v_statistics (lc_commitVote core))) (v_statistics (lc_commitVote core))"
    and "maybeCommitPass E own core = (True, core')"
  shows "lc_isPassPrepare core \<and> core' = core\<lparr>lc_isPassCommit := True\<rparr> \<and>
    (\<forall>chain \<in> {lc_fromChain core, lc_toChain core}. \<exists>t. pr_Chain t = chain \<and>
       (chain = own \<longrightarrow> pr_Digest t = lc_digest core \<and> pr_SeqNo t = lc_seqNo core) \<and>
       3 \<le> card (voters key (lc_commitVote core) (key t)) \<and>
       unat (pr_Quorum t) \<le> card (voters key (lc_commitVote core) (key t)))"
proof -
  have p: "lc_isPassPrepare core" "core' = core\<lparr>lc_isPassCommit := True\<rparr>" "vote_passes E own core (lc_commitVote core)"
    using assms(4) by (auto simp: maybeCommitPass_def split: if_splits)
  have "\<exists>t. pr_Chain t = chain \<and> (chain = own \<longrightarrow> pr_Digest t = lc_digest core \<and> pr_SeqNo t = lc_seqNo core) \<and>
       3 \<le> card (voters key (lc_commitVote core) (key t)) \<and> unat (pr_Quorum t) \<le> card (voters key (lc_commitVote core) (key t))"
    if "chain_passes E own core (lc_commitVote core) chain" for chain
    using chain_passes_quorum [OF assms(1,3,2) that] by (auto simp: counts_for_def split: if_splits)
  moreover have "chain_passes E own core (lc_commitVote core) chain" if "chain \<in> {lc_fromChain core, lc_toChain core}" for chain
    using p(3) that by (auto simp: vote_passes_def)
  ultimately show ?thesis using p(1,2) by blast
qed

definition sample_vote :: "string \<Rightarrow> Prepare" where
  "sample_vote r = \<lparr>pr_Name = [], pr_PrimaryID = [], pr_Chain = ''0'', pr_ReplicaID = r, pr_SeqNo = 1, pr_Digest = ''d'', pr_Quorum = 3\<rparr>"

definition sample_core :: lbftCore where
  "sample_core = \<lparr>lc_name = [], lc_msgChan = [], lc_msgClosed = False, lc_prepareVote = NewVote,
     lc_commitVote = fold (\<lambda>(w, t). vote_Add pr_Digest w t) (map (\<lambda>r. (r, sample_vote r)) [''a'', ''b'', ''c'']) NewVote,
     lc_clsTimeoutTimer = None, lc_timeoutTimer = None, lc_prePrepareAsync = None, lc_commitAsync = None,
     lc_isPassPrePrepare = True, lc_isPassPrepare = True, lc_isPassCommit = False, lc_requestBatch = None,
     lc_fromChain = ''0'', lc_toChain = ''0'', lc_seqNo = 1, lc_digest = ''d'', lc_exit = False, lc_isRunnig = True,
     lc_loops = 1, lc_firstTime = 0\<rparr>"

theorem commit_pass_quorum_witness:
  "\<exists>t :: Prepare. maybeCommitPass sample_le ''0'' sample_core = (True, sample_core\<lparr>lc_isPassCommit := True\<rparr>) \<and>
     pr_Digest t = ''d'' \<and> 3 \<le> card (voters pr_Digest (lc_commitVote sample_core) (pr_Digest t))"
proof -
  have v: "vote_inv pr_Digest (lc_commitVote sample_core)"
    by (simp only: sample_core_def lbftCore.simps) (intro vote_inv_fold vote_inv_New)
  have p: "maybeCommitPass sample_le ''0'' sample_core = (True, sample_core\<lparr>lc_isPassCommit := True\<rparr>)"
    by (simp add: sample_le_def maybeCommitPass_def sample_core_def sample_vote_def vote_passes_def chain_passes_def vote_IterTicket_def
        scan_ticket_def counts_for_def vote_Add_def NewVote_def vote_Clear_def stat_def gm_has_def Let_def MINQUORUM_def)
  have n: "vote_Size (lc_commitVote sample_core) < 2 ^ 64"
    by (simp add: sample_core_def vote_Size_def vote_Add_def NewVote_def vote_Clear_def gm_has_def Let_def)
  have f: "lc_fromChain sample_core = ''0''" "lc_digest sample_core = ''d''" by (simp_all add: sample_core_def)
  have "range_order (le_order sample_le m) m" for m by (simp add: sample_le_def)
  note all = commit_pass_quorum [OF v n this p, THEN conjunct2, THEN conjunct2]
  have "''0'' \<in> {lc_fromChain sample_core, lc_toChain sample_core}" using f(1) by simp
  from bspec [OF all this] obtain t :: Prepare where t: "pr_Chain t = ''0'' \<and>
      (''0'' = ''0'' \<longrightarrow> pr_Digest t = lc_digest sample_core \<and> pr_SeqNo t = lc_seqNo sample_core) \<and>
      3 \<le> card (voters pr_Digest (lc_commitVote sample_core) (pr_Digest t)) \<and>
      unat (pr_Quorum t) \<le> card (voters pr_Digest (lc_commitVote sample_core) (pr_Digest t))" ..
  then have "pr_Digest t = ''d''" using f(2) by simp
  with p t show ?thesis by blast
qed

section \<open>Election of a primary\<close>

text \<open>A vote of the replica itself is counted as \<^verbatim>\<open>recvViewChange\<close> counts it.\<close>

lemma own_viewChange_received:
  assumes "own_viewChange vc lb = (a, lb')" and "vc \<noteq> None \<Longrightarrow> a < length (lb_viewChanges lb)"
  shows "recvViewChange E a lb' = count_viewChange E a lb'"
proof -
  have "vc_Chain (vc_at lb' a) = own_chain lb' \<and> vc_ReplicaID (vc_at lb' a) = own_id lb'"
    using assms by (auto simp: own_viewChange_def upd_vc_def Let_def split: option.splits if_splits)
  then show ?thesis by (simp add: recvViewChange_def)
qed

definition view_part where
  "view_part lb = (lb_primaryID lb, lb_lastPrimaryID lb, lb_lastSeqNo lb, lb_lastHeight lb)"

lemma core_stop_view: "core_stop i l = Ret l' \<Longrightarrow> view_part l' = view_part l"
  by (auto simp: core_stop_def upd_core_def view_part_def Let_def split: if_splits)

lemma stop_fold_view:
  "go_fold (\<lambda>(key, i) lb. core_stop i (lb\<lparr>lb_lbftCores := gm_del key (lb_lbftCores lb)\<rparr>)) es l = Ret l' \<Longrightarrow>
     view_part l' = view_part l"
  by (induction es arbitrary: l) (auto simp: view_part_def dest!: core_stop_view)

lemma stop_instances_view: "stop_instances l = Ret l' \<Longrightarrow> view_part l' = view_part l"
  unfolding stop_instances_def by (rule stop_fold_view)

lemma view_frame:
  "view_part (resetBlockTimer lb) = view_part lb"
  "view_part (nullRequestTimerStart lb) = view_part lb"
  "view_part (resetViewChangePeriodTimer lb) = view_part lb"
  "view_part (incrHeightNum lb) = view_part lb"
  "view_part (lb\<lparr>lb_concurrentCntTo := n\<rparr>) = view_part lb"
  "view_part (lb\<lparr>lb_asyncs := as, lb_prePrepareAsync := a, lb_commitAsync := b\<rparr>) = view_part lb"
  by (simp_all add: view_part_def resetBlockTimer_def nullRequestTimerStart_def resetViewChangePeriodTimer_def
      incrHeightNum_def Let_def)

lemma lb_handleRequestBatch_view: "view_part (lb_handleRequestBatch E rb lb) = view_part lb"
  by (auto simp: lb_handleRequestBatch_def getInstance_def view_part_def add_task_def incrSeqNum_def Let_def split: option.splits)

text \<open>A new view takes its primary, sequence number and height from the vote it is made of.\<close>

lemma newView_effect:
  assumes "newView E vc lb = Ret lb'" and "lb_primaryID lb \<noteq> vc_PrimaryID vc"
  shows "view_part lb' = (vc_PrimaryID vc, vc_PrimaryID vc, vc_SeqNo vc, vc_Height vc)"
proof -
  let ?l = "lb\<lparr>lb_resendViewChangeTimer := None, lb_voteViewChange := vote_Clear (lb_voteViewChange lb),
    lb_primaryID := vc_PrimaryID vc, lb_lastPrimaryID := vc_PrimaryID vc\<rparr>"
  let ?m = "(if isPrimary ?l then ?l\<lparr>lb_priority := lb_now ?l, lb_blockTimer := None\<rparr> else ?l)\<lparr>lb_lastHeight := vc_Height vc,
    lb_height := vc_Height vc, lb_lastSeqNo := vc_SeqNo vc, lb_seqNo := vc_SeqNo vc, lb_votedCnt := 0, lb_verifySeqNo := vc_SeqNo vc\<rparr>"
  obtain lb4 where s: "stop_instances ?m = Ret lb4" and r: "view_part lb' = view_part lb4"
    using assms by (auto simp: newView_def Let_def view_frame lb_handleRequestBatch_view split: if_splits)
  show ?thesis using stop_instances_view [OF s] r by (auto simp: view_part_def)
qed

lemma newView_same:
  "lb_primaryID lb = vc_PrimaryID vc \<Longrightarrow> newView E vc lb =
     Ret (lb\<lparr>lb_resendViewChangeTimer := None, lb_voteViewChange := vote_Clear (lb_voteViewChange lb)\<rparr>)"
  by (simp add: newView_def)

text \<open>C16: The votes for a new primary elect it only when a quorum of different replicas voted for it (for a ticket
  equal to one that names it), and the new view then starts at the sequence number of such a ticket.\<close>

theorem election_needs_quorum:
  assumes v: "vote_inv (ticket_key E lb) (lb_voteViewChange lb)"
    and "range_order (le_order E (v_statistics (lb_voteViewChange lb))) (v_statistics (lb_voteViewChange lb))"
    and "v_statistics (lb_voteViewChange lb) \<noteq> []"
    and d: "decide_election E lb = Ret lb'" and n: "lb_primaryID lb' \<noteq> lb_primaryID lb"
  shows "\<exists>t. vc_PrimaryID (vc_at lb t) = lb_primaryID lb' \<and> vc_SeqNo (vc_at lb t) = lb_lastSeqNo lb' \<and>
    op_Q (lb_options lb) \<le> int (card (voters (ticket_key E lb) (lb_voteViewChange lb) (ticket_key E lb t)))"
proof -
  let ?v = "lb_voteViewChange lb" and ?key = "ticket_key E lb"
  obtain q t where vt: "vote_Voter (le_order E (v_statistics ?v)) ?v = (q, Some t)" and c: "stat ?v (?key t) = q"
    using vote_Voter_ticket [OF v assms(2,3)] by blast
  from d n vt have q: "intersectionQuorum lb \<le> int q" and nv: "newView E (vc_at lb t) lb = Ret lb'"
    by (auto simp: decide_election_def split: if_splits)
  have "lb_primaryID lb \<noteq> vc_PrimaryID (vc_at lb t)" using nv n newView_same [of lb "vc_at lb t" E] by auto
  note e = newView_effect [OF nv this]
  have "card (voters ?key ?v (?key t)) = q" using v c by (simp add: vote_inv_def)
  with e q show ?thesis by (intro exI [of _ t]) (simp add: intersectionQuorum_def view_part_def)
qed

definition sample_election :: "unit Lbft" where
  "sample_election = (let lb = sample_lb\<lparr>lb_viewChanges := [sample_vc]\<rparr> in
     lb\<lparr>lb_voteViewChange := fold (\<lambda>(w, t). vote_Add (ticket_key sample_le lb) w t) [(''a'', 0), (''b'', 0), (''c'', 0)] NewVote\<rparr>)"

theorem election_needs_quorum_witness:
  "\<exists>lb' t. decide_election sample_le sample_election = Ret lb' \<and> lb_primaryID lb' = ''b'' \<and>
     vc_PrimaryID (vc_at sample_election t) = ''b'' \<and>
     3 \<le> int (card (voters (ticket_key sample_le sample_election) (lb_voteViewChange sample_election) (ticket_key sample_le sample_election t)))"
proof -
  let ?lb = sample_election and ?lb1 = "sample_lb\<lparr>lb_viewChanges := [sample_vc]\<rparr>"
  have k: "ticket_key sample_le ?lb = ticket_key sample_le ?lb1"
    by (rule ext) (simp add: ticket_key_def sample_election_def Let_def)
  have v: "vote_inv (ticket_key sample_le ?lb) (lb_voteViewChange ?lb)"
  proof -
    have "lb_voteViewChange ?lb = fold (\<lambda>(w, t). vote_Add (ticket_key sample_le ?lb1) w t) [(''a'', 0), (''b'', 0), (''c'', 0)] NewVote"
      by (simp add: sample_election_def Let_def)
    then show ?thesis unfolding k by (simp only: vote_inv_fold vote_inv_New)
  qed
  have st: "v_statistics (lb_voteViewChange ?lb) = [(ticket_key sample_le ?lb1 0, 3)]"
    "v_hashes (lb_voteViewChange ?lb) = [(ticket_key sample_le ?lb1 0, 0)]"
    by (simp_all add: sample_election_def vote_Add_def NewVote_def vote_Clear_def stat_def gm_has_def Let_def)
  have o: "range_order (le_order sample_le m) m" "le_order sample_le m = m" for m by (simp_all add: sample_le_def)
  have f: "op_Q (lb_options ?lb) = 3" "lb_primaryID ?lb = []" "lb_lbftCores ?lb = []" "vc_at ?lb 0 = sample_vc"
    by (simp_all add: sample_election_def sample_lb_def NewLbft_def checked_times_def checked_quorum_def NewDefaultOptions_def
        second_def Let_def)
  have "\<exists>lb'. newView sample_le sample_vc ?lb = Ret lb'"
    by (simp add: newView_def f Let_def stop_instances_def sample_vc_def)
  then obtain lb' where n: "newView sample_le sample_vc ?lb = Ret lb'" by blast
  have "lb_primaryID ?lb \<noteq> vc_PrimaryID sample_vc" by (simp add: f sample_vc_def)
  from newView_effect [OF n this] have p: "lb_primaryID lb' = ''b''" by (simp add: view_part_def sample_vc_def)
  have d: "decide_election sample_le ?lb = Ret lb'"
    using n by (simp add: decide_election_def vote_Voter_def st o(2) intersectionQuorum_def f)
  have "v_statistics (lb_voteViewChange ?lb) \<noteq> []" "lb_primaryID lb' \<noteq> lb_primaryID ?lb" using st p f by simp_all
  from election_needs_quorum [OF v o(1) this(1) d this(2)] obtain t where
    "vc_PrimaryID (vc_at ?lb t) = ''b''"
    "3 \<le> int (card (voters (ticket_key sample_le ?lb) (lb_voteViewChange ?lb) (ticket_key sample_le ?lb t)))"
    unfolding p f(1) by blast
  with d p show ?thesis by blast
qed

section \<open>What single messages do\<close>

text \<open>A replica that has not seen a primary yet takes the sender of any null request of its chain and options
  for the primary, with the sequence number and height that the message claims: no quorum is needed.\<close>

theorem null_request_takes_over:
  assumes "lb_lastPrimaryID lb = []" and "lb_primaryID lb \<noteq> nr_ReplicaID np" and "lb_lbftCores lb = gm_empty"
    and "nr_Chain np = own_chain lb" and "nr_OptHash np = Options_Hash (lb_options lb)" and "nr_PrimaryID np = nr_ReplicaID np"
  shows "\<exists>lb'. on_null_request E np lb = Ret lb' \<and> lb_primaryID lb' = nr_ReplicaID np \<and>
    lb_lastSeqNo lb' = nr_SeqNo np \<and> lb_lastHeight lb' = nr_Height np"
proof -
  let ?vc = "\<lparr>vc_ReplicaID = [], vc_Chain = [], vc_Priority = 0, vc_PrimaryID = nr_PrimaryID np,
    vc_SeqNo = nr_SeqNo np, vc_Height = nr_Height np, vc_OptHash = nr_OptHash np\<rparr>"
  have "\<exists>lb1. newView E ?vc lb = Ret lb1"
    using assms(2,3,6) by (simp add: newView_def Let_def stop_instances_def)
  then obtain lb1 where n: "newView E ?vc lb = Ret lb1" by blast
  from newView_effect [OF n] assms(2,6) have "view_part lb1 = (nr_ReplicaID np, nr_ReplicaID np, nr_SeqNo np, nr_Height np)"
    by simp
  then have "view_part (nullRequestTimerStart lb1) = (nr_ReplicaID np, nr_ReplicaID np, nr_SeqNo np, nr_Height np)"
    by (simp add: view_frame)
  moreover have "on_null_request E np lb = Ret (nullRequestTimerStart lb1)"
    using assms n by (simp add: on_null_request_def)
  ultimately show ?thesis by (simp add: view_part_def)
qed

theorem null_request_takes_over_witness:
  "\<exists>lb'. on_null_request sample_le \<lparr>nr_ReplicaID = ''x'', nr_Chain = ''0'', nr_PrimaryID = ''x'', nr_SeqNo = 99, nr_Height = 7,
      nr_OptHash = Options_Hash (lb_options sample_lb)\<rparr> sample_lb = Ret lb' \<and> lb_primaryID lb' = ''x'' \<and> lb_lastSeqNo lb' = 99"
proof -
  let ?np = "\<lparr>nr_ReplicaID = ''x'', nr_Chain = ''0'', nr_PrimaryID = ''x'', nr_SeqNo = 99, nr_Height = 7,
    nr_OptHash = Options_Hash (lb_options sample_lb)\<rparr>"
  have "lb_lastPrimaryID sample_lb = []" "lb_primaryID sample_lb = []" "lb_lbftCores sample_lb = gm_empty" "own_chain sample_lb = ''0''"
    by (simp_all add: sample_lb_def NewLbft_def checked_times_def checked_quorum_def NewDefaultOptions_def second_def Let_def)
  then show ?thesis using null_request_takes_over [of sample_lb ?np sample_le] by auto
qed

lemma message_loop_ended: "\<not> lb_msgLoop lb \<Longrightarrow> lbft_event E (EMessage p) lb = Ret lb"
  by (simp add: lbft_event_def split: list.split)

text \<open>One view change that names another chain ends the message loop of a replica: it takes no further message
  from its queue, whatever comes.\<close>

theorem foreign_view_change_ends_loop:
  assumes "lb_msgLoop lb" and "lb_recvConsensusMsgChan lb = mk_msg (PViewChange vc) # msgs"
    and "vc_wf vc" and "vc_Chain vc \<noteq> own_chain lb"
  shows "\<exists>lb'. lbft_event E (EMessage p) lb = Ret lb' \<and> lb_recvConsensusMsgChan lb' = msgs \<and>
    (\<forall>E' p' payload. lbft_event E' (EMessage p') lb' = Ret lb' \<and>
       lbft_event E' (EMessage p') (RecvConsensus payload lb') = Ret (RecvConsensus payload lb'))"
proof -
  let ?lb = "lb\<lparr>lb_recvConsensusMsgChan := msgs, lb_msgLoop := False\<rparr>"
  have "decoded p (mk_msg (PViewChange vc)) = Ret (Some (PViewChange vc))"
    using decoded_mk_msg [of "PViewChange vc" p] assms(3) by simp
  then have "lbft_event E (EMessage p) lb = Ret ?lb"
    using assms by (simp add: lbft_event_def handleConsensusMsg_def on_view_change_def)
  moreover have "\<not> lb_msgLoop (RecvConsensus payload ?lb)" for payload
    by (simp add: RecvConsensus_def split: prod.split option.split)
  ultimately show ?thesis by (intro exI [of _ ?lb]) (simp add: message_loop_ended)
qed

theorem foreign_view_change_ends_loop_witness:
  "\<exists>lb'. lbft_event sample_le (EMessage 0) (sample_lb\<lparr>lb_msgLoop := True,
       lb_recvConsensusMsgChan := [mk_msg (PViewChange (sample_vc\<lparr>vc_Chain := ''9''\<rparr>))]\<rparr>) = Ret lb' \<and>
     lbft_event sample_le (EMessage 0) (RecvConsensus [] lb') = Ret (RecvConsensus [] lb')"
proof -
  let ?vc = "sample_vc\<lparr>vc_Chain := ''9''\<rparr>"
  let ?lb = "sample_lb\<lparr>lb_msgLoop := True, lb_recvConsensusMsgChan := [mk_msg (PViewChange ?vc)]\<rparr>"
  have "vc_wf ?vc" by (simp add: vc_wf_def sample_vc_def)
  moreover have "vc_Chain ?vc \<noteq> own_chain ?lb"
    by (simp add: sample_lb_def NewLbft_def checked_times_def checked_quorum_def NewDefaultOptions_def second_def Let_def)
  ultimately show ?thesis using foreign_view_change_ends_loop [of ?lb ?vc "[]" sample_le 0] by auto
qed

section \<open>Counters\<close>

lemma sint_u64: "sint (x :: u64) = (if uint x < 2 ^ 63 then uint x else uint x - 2 ^ 64)"
proof -
  have "uint x < 2 ^ 64" using uint_lt2p [of x] by simp
  moreover from this have "uint x div 2 ^ 63 = 1" if "\<not> uint x < 2 ^ 63" using that by simp
  ultimately show ?thesis
    by (simp add: sint_uint signed_take_bit_eq_take_bit_minus take_bit_int_eq_self bit_iff_odd_drop_bit drop_bit_eq_div)
qed

lemma signed_diff_pos:
  fixes x y z :: int
  assumes "0 \<le> x" "x < 2 ^ 63" "0 \<le> y" "y < 2 ^ 63" "z = (if y \<le> x then x - y else x - y + 2 ^ 64)"
  shows "(if z < 2 ^ 63 then z else z - 2 ^ 64) > 0 \<longleftrightarrow> y < x"
  using assms by (auto split: if_splits)

lemma sint_diff_pos_iff:
  assumes "unat a < 2 ^ 63" "unat b < 2 ^ 63"
  shows "sint (a - b :: u64) > 0 \<longleftrightarrow> b < a"
proof -
  have "int (unat a) < int (2 ^ 63)" "int (unat b) < int (2 ^ 63)" using assms by (simp_all only: of_nat_less_iff)
  then have u: "uint a < 2 ^ 63" "uint b < 2 ^ 63" by simp_all
  have "uint (a - b) = (if uint b \<le> uint a then uint a - uint b else uint a - uint b + 2 ^ 64)"
    by (simp add: uint_sub_if')
  from signed_diff_pos [OF _ u(1) _ u(2) this] show ?thesis unfolding sint_u64 word_less_def by simp
qed

text \<open>The height counter follows every committed batch, also backwards, because its difference is taken as an
  unsigned number; the sequence counters only grow, as long as the numbers stay below \<open>2^63\<close>.\<close>

theorem counters_follow:
  "lb_lastHeight (updateLastHeightNum h lb) = h \<and>
   (unat s < 2 ^ 63 \<and> unat (lb_lastSeqNo lb) < 2 ^ 63 \<longrightarrow> lb_lastSeqNo (updateLastSeqNo s lb) = max (lb_lastSeqNo lb) s) \<and>
   (unat s < 2 ^ 63 \<and> unat (lb_verifySeqNo lb) < 2 ^ 63 \<longrightarrow> lb_verifySeqNo (updateVerifySeqNo s lb) = max (lb_verifySeqNo lb) s)"
proof -
  have "h = l" if "\<not> 0 < h - l" for h l :: u32 using that by (simp add: word_neq_0_conv [symmetric])
  then show ?thesis
    by (auto simp: updateLastHeightNum_def updateLastSeqNo_def updateVerifySeqNo_def Let_def sint_diff_pos_iff max_def)
qed

theorem counters_follow_witness:
  "lb_lastHeight (updateLastHeightNum 2 (sample_lb\<lparr>lb_lastHeight := 9\<rparr>)) = 2 \<and>
   lb_lastSeqNo (updateLastSeqNo 3 (sample_lb\<lparr>lb_lastSeqNo := 5\<rparr>)) = 5"
  using counters_follow [of 2 "sample_lb\<lparr>lb_lastHeight := 9\<rparr>" 3] counters_follow [of 2 "sample_lb\<lparr>lb_lastSeqNo := 5\<rparr>" 3]
  by (simp add: max_def)

end
