(* ===== verification/Lbft_Checkpoint.thy ===== *)
theory Lbft_Checkpoint
  imports Lbft_Laws
begin

text \<open>
  The checkpoint of the replica: which committed batches one call passes on to execution, and when it gives
  up. Sequence numbers and the window \<open>K\<close> are taken below \<open>2^63\<close>, where the differences of the code do
  not wrap into the range of the keys.
\<close>

section \<open>Words without wrap-around\<close>

lemma small_less_Suc: "unat (x :: u64) < 2 ^ 63 \<Longrightarrow> x < x + 1"
  by (simp add: word_less_nat_alt unat_word_ariths)

text \<open>Subtracting the window from a small number gives a number that is not larger, or one out of the range of
  the keys.\<close>

lemma small_minus:
  assumes "unat (x :: u64) < 2 ^ 63" "unat w < 2 ^ 63"
  shows "x - w \<le> x \<or> 2 ^ 63 \<le> unat (x - w)"
proof (cases "unat w \<le> unat x")
  case True
  then have "unat (x - w) = unat x - unat w" by (simp add: unat_sub word_le_nat_alt)
  then show ?thesis by (simp add: word_le_nat_alt)
next
  case False
  then have "unat (x - w) = 2 ^ 64 + unat x - unat w"
    using unat_sub_if' [of x w] by (simp add: word_le_nat_alt)
  with assms(2) have "2 ^ 63 \<le> unat (x - w)" by simp
  then show ?thesis ..
qed

section \<open>The loop\<close>

definition batch_at :: "(u64, RequestBatch) gomap \<Rightarrow> u64 \<Rightarrow> committedRequestBatch" where
  "batch_at m s = \<lparr>cb_seqNo = s, cb_requestBatch = the (gm_get m s)\<rparr>"

definition run_of :: "u64 \<Rightarrow> nat \<Rightarrow> u64 list" where
  "run_of e n = map (\<lambda>i. e + word_of_nat i) [1 ..< Suc n]"

lemma run_of_Suc: "run_of e (Suc n) = (e + 1) # run_of (e + 1) n"
proof -
  have "[1 ..< Suc (Suc n)] = 1 # map Suc [1 ..< Suc n]" by (simp add: map_Suc_upt upt_conv_Cons del: upt_Suc)
  then show ?thesis by (simp add: run_of_def algebra_simps del: upt_Suc)
qed

lemma run_of_0 [simp]: "run_of e 0 = []"
  by (simp add: run_of_def)

lemma run_end_not_before:
  assumes "set (run_of e n) \<subseteq> J" "\<forall>j \<in> J. k < j \<and> unat j < 2 ^ 63" "k \<noteq> e + 1"
  shows "e + word_of_nat n + 1 \<noteq> k"
proof (cases n)
  case (Suc l)
  then have "e + word_of_nat n \<in> J" using assms(1) by (auto simp: run_of_def)
  then have "k < e + word_of_nat n" "e + word_of_nat n < e + word_of_nat n + 1"
    using assms(2) small_less_Suc by blast+
  then show ?thesis by (meson less_imp_neq less_trans)
qed (use assms in auto)

lemma get_del_committed: "k \<noteq> n \<Longrightarrow> gm_get (lb_committedRequestBatch (del_committed n lb)) k = gm_get (lb_committedRequestBatch lb) k"
  by (simp add: del_committed_def)

lemma cp_loop_spec:
  assumes "sorted ks" "distinct ks" "\<forall>k \<in> set ks. unat k < 2 ^ 63 \<and> k \<noteq> 0" "unat (option_K lb) < 2 ^ 63" "unat (lb_execSeqNo lb) < 2 ^ 63"
    and "\<forall>k \<in> set ks. gm_get (lb_committedRequestBatch lb) k = gm_get m k \<and> gm_get m k \<noteq> None"
  shows "\<exists>n lb'. cp_loop first ks (lb_execSeqNo lb + 1) lb = Ret (lb_execSeqNo lb + word_of_nat n + 1, lb') \<and>
    set (run_of (lb_execSeqNo lb) n) \<subseteq> set ks \<and> lb_execSeqNo lb + word_of_nat n + 1 \<notin> set ks \<and>
    lb_execSeqNo lb' = lb_execSeqNo lb + word_of_nat n \<and> option_K lb' = option_K lb \<and>
    lb_committedRequestBatchChan lb' = lb_committedRequestBatchChan lb @ map (batch_at m) (run_of (lb_execSeqNo lb) n)"
  using assms
proof (induction ks arbitrary: lb)
  case Nil
  show ?case by (intro exI [of _ 0] exI [of _ lb]) simp
next
  case (Cons k ks)
  let ?e = "lb_execSeqNo lb"
  have later: "k < j" if "j \<in> set ks" for j using Cons.prems(1,2) that by (auto simp: order.strict_iff_order)
  have gone: "k - option_K lb \<noteq> j" if "j \<in> set ks" for j
    using small_minus [of k "option_K lb"] Cons.prems(3,4) later [OF that] that by fastforce
  have small: "\<forall>j \<in> set ks. k < j \<and> unat j < 2 ^ 63" using later Cons.prems(3) by auto
  consider (old) "k < ?e + 1" | (now) "k = ?e + 1" | (gap) "?e + 1 < k" by (rule linorder_cases)
  then show ?case
  proof cases
    case old
    define lb1 where "lb1 = (if k - option_K lb \<ge> first then del_committed (k - option_K lb) lb else lb)"
    have f: "lb_execSeqNo lb1 = ?e" "option_K lb1 = option_K lb" "lb_committedRequestBatchChan lb1 = lb_committedRequestBatchChan lb"
      by (simp_all add: lb1_def del_committed_def option_K_def)
    have "gm_get (lb_committedRequestBatch lb1) j = gm_get (lb_committedRequestBatch lb) j" if "j \<in> set ks" for j
      using gone [OF that] by (simp add: lb1_def get_del_committed)
    with Cons.IH [of lb1] Cons.prems f obtain n lb' where n:
        "cp_loop first ks (?e + 1) lb1 = Ret (?e + word_of_nat n + 1, lb')" "set (run_of ?e n) \<subseteq> set ks"
        "?e + word_of_nat n + 1 \<notin> set ks" "lb_execSeqNo lb' = ?e + word_of_nat n" "option_K lb' = option_K lb"
        "lb_committedRequestBatchChan lb' = lb_committedRequestBatchChan lb @ map (batch_at m) (run_of ?e n)"
      by auto
    have "?e + word_of_nat n + 1 \<noteq> k" using run_end_not_before [OF n(2)] small old by auto
    with n old show ?thesis by (intro exI [of _ n] exI [of _ lb']) (auto simp: lb1_def [symmetric] Let_def)
  next
    case now
    then obtain rb where rb: "gm_get (lb_committedRequestBatch lb) k = Some rb" "gm_get m k = Some rb"
      using Cons.prems(6) by (metis list.set_intros(1) not_None_eq)
    define lb1 where "lb1 = del_committed (k - option_K lb) ((incrExecSeqNum lb)
      \<lparr>lb_committedRequestBatchChan := lb_committedRequestBatchChan lb @ [\<lparr>cb_seqNo = ?e + 1, cb_requestBatch = rb\<rparr>]\<rparr>)"
    have f: "lb_execSeqNo lb1 = ?e + 1" "option_K lb1 = option_K lb"
      "lb_committedRequestBatchChan lb1 = lb_committedRequestBatchChan lb @ [batch_at m (?e + 1)]"
      using rb now by (simp_all add: lb1_def del_committed_def option_K_def incrExecSeqNum_def batch_at_def)
    have "gm_get (lb_committedRequestBatch lb1) j = gm_get (lb_committedRequestBatch lb) j" if "j \<in> set ks" for j
      using gone [OF that] by (simp add: lb1_def get_del_committed incrExecSeqNum_def)
    moreover have "unat (?e + 1) < 2 ^ 63" using Cons.prems(3) now by auto
    ultimately obtain n lb' where n:
        "cp_loop first ks (?e + 1 + 1) lb1 = Ret (?e + 1 + word_of_nat n + 1, lb')" "set (run_of (?e + 1) n) \<subseteq> set ks"
        "?e + 1 + word_of_nat n + 1 \<notin> set ks" "lb_execSeqNo lb' = ?e + 1 + word_of_nat n" "option_K lb' = option_K lb"
        "lb_committedRequestBatchChan lb' = lb_committedRequestBatchChan lb @ batch_at m (?e + 1) # map (batch_at m) (run_of (?e + 1) n)"
      using Cons.IH [of lb1] Cons.prems f by auto
    have e: "?e + 1 + word_of_nat n = ?e + word_of_nat (Suc n)" by simp
    have "?e + word_of_nat (Suc n) + 1 \<noteq> k"
      using run_end_not_before [OF n(2), of k] small now unfolding e by auto
    moreover have "cp_loop first (k # ks) (?e + 1) lb = cp_loop first ks (?e + 1 + 1) lb1"
      using now rb by (simp add: Let_def lb1_def incrExecSeqNum_def option_K_def del_committed_def)
    ultimately show ?thesis using n now unfolding e
      by (intro exI [of _ "Suc n"] exI [of _ lb']) (auto simp: run_of_Suc simp del: of_nat_Suc)
  next
    case gap
    then have "?e + 1 \<notin> set (k # ks)" using later by fastforce
    with gap show ?thesis
      by (intro exI [of _ 0]) (auto simp: lb_broadcast_def option_K_def)
  qed
qed

section \<open>One call\<close>

lemma sorted_last_max: "sorted (xs :: 'a :: linorder list) \<Longrightarrow> x \<in> set xs \<Longrightarrow> x \<le> last xs"
  by (induction xs) auto

lemma less_last_iff: "sorted (xs :: 'a :: linorder list) \<Longrightarrow> xs \<noteq> [] \<Longrightarrow> (\<exists>k. k \<in> set xs \<and> x < k) \<longleftrightarrow> x < last xs"
  by (meson last_in_set order_less_le_trans sorted_last_max)

lemma unat_word_of_int_small: "0 \<le> i \<Longrightarrow> i < 2 ^ 63 \<Longrightarrow> unat (word_of_int i :: u64) < 2 ^ 63"
  by (simp add: unsigned_of_int take_bit_int_eq_self nat_less_iff unat_eq_nat_uint uint_word_of_int)

lemma updateExecSeqNo_noop: "lb_execSeqNo lb \<noteq> 0 \<Longrightarrow> updateExecSeqNo n lb = lb"
  by (simp add: updateExecSeqNo_def)

text \<open>C17: The batches that a call passes on are exactly those that follow the last executed one without a gap, each
  once and in order; the replica gives up when a committed number is more than \<open>K\<close> above the first gap.\<close>

theorem checkpoint_delivers:
  assumes "gm_wf (lb_committedRequestBatch lb)" "lb_execSeqNo lb \<noteq> 0" "unat (lb_execSeqNo lb) < 2 ^ 63"
    and "\<forall>k. gm_has (lb_committedRequestBatch lb) k \<longrightarrow> k \<noteq> 0 \<and> unat k < 2 ^ 63"
    and "0 \<le> op_K (lb_options lb)" "op_K (lb_options lb) < 2 ^ 63"
  shows "\<exists>n. (\<forall>s \<in> set (run_of (lb_execSeqNo lb) n). gm_has (lb_committedRequestBatch lb) s) \<and>
    \<not> gm_has (lb_committedRequestBatch lb) (lb_execSeqNo lb + word_of_nat n + 1) \<and>
    (if \<exists>k. gm_has (lb_committedRequestBatch lb) k \<and> lb_execSeqNo lb + word_of_nat n + 1 + option_K lb < k
     then checkpoint lb = Panic ''fallen behind''
     else \<exists>lb'. checkpoint lb = Ret lb' \<and> lb_execSeqNo lb' = lb_execSeqNo lb + word_of_nat n \<and>
       lb_committedRequestBatchChan lb' =
         lb_committedRequestBatchChan lb @ map (batch_at (lb_committedRequestBatch lb)) (run_of (lb_execSeqNo lb) n))"
proof -
  let ?m = "lb_committedRequestBatch lb"
  let ?ks = "sort (map fst ?m)"
  have has: "gm_has ?m k \<longleftrightarrow> k \<in> set ?ks" for k by (auto simp: gm_has_iff_dom)
  have K: "unat (option_K lb) < 2 ^ 63" using assms(5,6) unfolding option_K_def by (rule unat_word_of_int_small)
  show ?thesis
  proof (cases "?ks")
    case Nil
    then show ?thesis using has by (intro exI [of _ 0]) (auto simp: checkpoint_def)
  next
    case (Cons f fs)
    have "\<forall>k \<in> set ?ks. gm_get ?m k \<noteq> None" using has by (auto simp: gm_has_def)
    then obtain n lb' where n: "cp_loop f ?ks (lb_execSeqNo lb + 1) lb = Ret (lb_execSeqNo lb + word_of_nat n + 1, lb')"
        "set (run_of (lb_execSeqNo lb) n) \<subseteq> set ?ks" "lb_execSeqNo lb + word_of_nat n + 1 \<notin> set ?ks"
        "lb_execSeqNo lb' = lb_execSeqNo lb + word_of_nat n" "option_K lb' = option_K lb"
        "lb_committedRequestBatchChan lb' = lb_committedRequestBatchChan lb @ map (batch_at ?m) (run_of (lb_execSeqNo lb) n)"
      using cp_loop_spec [of ?ks lb ?m f] assms has K by (auto simp: gm_wf_def)
    have max: "(\<exists>k. gm_has ?m k \<and> x < k) \<longleftrightarrow> x < last ?ks" for x
      unfolding has using less_last_iff [of ?ks x] Cons by (metis list.discI sorted_sort)
    have cp: "checkpoint lb = (if last ?ks > lb_execSeqNo lb + word_of_nat n + 1 + option_K lb then Panic ''fallen behind'' else Ret lb')"
      using n(1,5) Cons updateExecSeqNo_noop [OF assms(2)] by (simp add: checkpoint_def Let_def)
    show ?thesis
      unfolding max cp using n(2-4,6) has by (intro exI [of _ n]) auto
  qed
qed

text \<open>Two batches after the first executed one, and a third after a gap.\<close>

definition sample_committed :: "unit Lbft" where
  "sample_committed = sample_lb\<lparr>lb_execSeqNo := 1, lb_committedRequestBatch := map (\<lambda>n. (n, RequestBatch.make 3 [] 5 0 1)) [5, 3, 2]\<rparr>"

theorem checkpoint_delivers_witness:
  "\<exists>n. \<not> gm_has (lb_committedRequestBatch sample_committed) (1 + word_of_nat n + 1) \<and>
     (if \<exists>k. gm_has (lb_committedRequestBatch sample_committed) k \<and> 1 + word_of_nat n + 1 + option_K sample_committed < k
      then checkpoint sample_committed = Panic ''fallen behind''
      else \<exists>lb'. checkpoint sample_committed = Ret lb' \<and> lb_execSeqNo lb' = 1 + word_of_nat n)"
proof -
  have "op_K (lb_options sample_lb) = 20"
    by (simp add: sample_lb_def NewLbft_def checked_times_def checked_quorum_def NewDefaultOptions_def second_def Let_def)
  then have "gm_wf (lb_committedRequestBatch sample_committed)" "unat (lb_execSeqNo sample_committed) < 2 ^ 63"
    "\<forall>k. gm_has (lb_committedRequestBatch sample_committed) k \<longrightarrow> k \<noteq> 0 \<and> unat k < 2 ^ 63"
    "0 \<le> op_K (lb_options sample_committed)" "op_K (lb_options sample_committed) < 2 ^ 63"
    and e: "lb_execSeqNo sample_committed = 1"
    by (simp_all add: sample_committed_def gm_wf_def gm_has_def)
  from checkpoint_delivers [OF this(1) _ this(2-5), unfolded e, OF one_neq_zero] obtain n where
      "\<not> gm_has (lb_committedRequestBatch sample_committed) (1 + word_of_nat n + 1)"
      "if \<exists>k. gm_has (lb_committedRequestBatch sample_committed) k \<and> 1 + word_of_nat n + 1 + option_K sample_committed < k
       then checkpoint sample_committed = Panic ''fallen behind''
       else \<exists>lb'. checkpoint sample_committed = Ret lb' \<and> lb_execSeqNo lb' = 1 + word_of_nat n \<and>
         lb_committedRequestBatchChan lb' = lb_committedRequestBatchChan sample_committed @
           map (batch_at (lb_committedRequestBatch sample_committed)) (run_of 1 n)"
    by blast
  then show ?thesis by (intro exI [of _ n]) (auto split: if_splits)
qed

end
