(* ===== verification/Db.thy ===== *)
theory Db
  imports Types
begin

text \<open>
  The database layer (\<^verbatim>\<open>components/db/db.go\<close>): column families of byte keys and values over
  RocksDB. RocksDB is a parameter, the record \<open>rocks\<close> of the calls the code makes; \<open>rocks_ok\<close>
  states what its documentation promises of them.
\<close>

datatype gerr = ErrDb string | ErrNegativeBalance | ErrText string

section \<open>RocksDB\<close>

datatype wop = WPut string bytes bytes | WDel string bytes

text \<open>\<open>'d\<close> is the state of the engine. A read gives an error or the value, if the key has one.\<close>

record 'd rocks =
  GetCF :: "'d \<Rightarrow> string \<Rightarrow> bytes \<Rightarrow> string + bytes option"
  PutCF :: "string \<Rightarrow> bytes \<Rightarrow> bytes \<Rightarrow> 'd \<Rightarrow> string option \<times> 'd"
  DeleteCF :: "string \<Rightarrow> bytes \<Rightarrow> 'd \<Rightarrow> string option \<times> 'd"
  WriteCF :: "wop list \<Rightarrow> 'd \<Rightarrow> string option \<times> 'd"
  OpenDb :: "string list \<Rightarrow> string + 'd"

type_synonym reads = "string \<Rightarrow> bytes \<Rightarrow> string + bytes option"

fun apply_wop :: "wop \<Rightarrow> reads \<Rightarrow> reads" where
  "apply_wop (WPut cf k v) g = (\<lambda>cf' k'. if cf' = cf \<and> k' = k then Inr (Some v) else g cf' k')"
| "apply_wop (WDel cf k) g = (\<lambda>cf' k'. if cf' = cf \<and> k' = k then Inr None else g cf' k')"

text \<open>A write that succeeds shows in the later reads and nothing else does; a write that fails changes
  nothing, and a batch is applied in its order, wholly or not at all.\<close>

definition rocks_ok :: "'d rocks \<Rightarrow> bool" where
  "rocks_ok r \<longleftrightarrow>
     (\<forall>cf k v d. GetCF r (snd (PutCF r cf k v d)) =
        (if fst (PutCF r cf k v d) = None then apply_wop (WPut cf k v) (GetCF r d) else GetCF r d)) \<and>
     (\<forall>cf k d. GetCF r (snd (DeleteCF r cf k d)) =
        (if fst (DeleteCF r cf k d) = None then apply_wop (WDel cf k) (GetCF r d) else GetCF r d)) \<and>
     (\<forall>ops d. GetCF r (snd (WriteCF r ops d)) =
        (if fst (WriteCF r ops d) = None then fold apply_wop ops (GetCF r d) else GetCF r d))"

section \<open>The database\<close>

record Config =
  Columnfamilies :: "string list"

definition DefaultConfig :: Config where
  "DefaultConfig = \<lparr>Columnfamilies = [''account'', ''balance'', ''ledger'', ''peer'', ''index'', ''state'', ''block'',
     ''storage'', ''scontract'', ''persistCacheTxs'']\<rparr>"

record 'd BlockchainDB =
  DB :: 'd
  cfHandlers :: "string list"

definition OperationPut :: nat where "OperationPut = 0"
definition OperationDelete :: nat where "OperationDelete = 1"

record WriteBatch =
  wb_CfName :: string
  wb_Operation :: nat
  wb_Key :: bytes
  wb_Value :: bytes

definition NewWriteBatch :: "string \<Rightarrow> nat \<Rightarrow> bytes \<Rightarrow> bytes \<Rightarrow> WriteBatch" where
  "NewWriteBatch cfName operation key value =
     \<lparr>wb_CfName = cfName, wb_Operation = operation, wb_Key = key, wb_Value = value\<rparr>"

definition db_open :: "'d rocks \<Rightarrow> Config \<Rightarrow> 'd BlockchainDB go" where
  "db_open r config =
     (let cfs = Columnfamilies config @ [''default''] in
      case OpenDb r cfs of
        Inl err \<Rightarrow> Panic (''failed to open db, error: ['' @ err @ '']'')
      | Inr d \<Rightarrow> Ret \<lparr>DB = d, cfHandlers = cfs\<rparr>)"

definition checkIfColumnExists :: "'d BlockchainDB \<Rightarrow> string \<Rightarrow> unit go" where
  "checkIfColumnExists db cfName =
     (if cfName \<in> set (cfHandlers db) then Ret () else Panic ''column family does not exist'')"

text \<open>A key without a value reads as the empty slice.\<close>

definition db_Get :: "'d rocks \<Rightarrow> 'd BlockchainDB \<Rightarrow> string \<Rightarrow> bytes \<Rightarrow> (gerr + bytes) go" where
  "db_Get r db cfName key =
     go_bind (checkIfColumnExists db cfName) (\<lambda>_.
       Ret (case GetCF r (DB db) cfName key of
              Inl err \<Rightarrow> Inl (ErrDb err)
            | Inr None \<Rightarrow> Inr []
            | Inr (Some data) \<Rightarrow> Inr data))"

definition db_result :: "string option \<times> 'd \<Rightarrow> 'd BlockchainDB \<Rightarrow> (gerr + unit) \<times> 'd BlockchainDB" where
  "db_result w db = (case fst w of None \<Rightarrow> Inr () | Some err \<Rightarrow> Inl (ErrDb err), db\<lparr>DB := snd w\<rparr>)"

definition db_Put :: "'d rocks \<Rightarrow> string \<Rightarrow> bytes \<Rightarrow> bytes \<Rightarrow> (gerr, 'd BlockchainDB, unit) exec" where
  "db_Put r cfName key value db =
     go_bind (checkIfColumnExists db cfName) (\<lambda>_. Ret (db_result (PutCF r cfName key value (DB db)) db))"

definition db_Delete :: "'d rocks \<Rightarrow> string \<Rightarrow> bytes \<Rightarrow> (gerr, 'd BlockchainDB, unit) exec" where
  "db_Delete r cfName key db =
     go_bind (checkIfColumnExists db cfName) (\<lambda>_. Ret (db_result (DeleteCF r cfName key (DB db)) db))"

text \<open>\<^verbatim>\<open>AtomicWrite\<close> looks the handles up without a check: a missing one is nil. An operation that is
  neither put nor delete is skipped.\<close>

fun batch_ops :: "string list \<Rightarrow> WriteBatch list \<Rightarrow> wop list go" where
  "batch_ops cfs [] = Ret []"
| "batch_ops cfs (wb # wbs) =
     (if wb_Operation wb = OperationPut then
        (if wb_CfName wb \<in> set cfs
         then go_bind (batch_ops cfs wbs) (\<lambda>ops. Ret (WPut (wb_CfName wb) (wb_Key wb) (wb_Value wb) # ops))
         else nil_deref)
      else if wb_Operation wb = OperationDelete then
        (if wb_CfName wb \<in> set cfs
         then go_bind (batch_ops cfs wbs) (\<lambda>ops. Ret (WDel (wb_CfName wb) (wb_Key wb) # ops))
         else nil_deref)
      else batch_ops cfs wbs)"

definition db_AtomicWrite :: "'d rocks \<Rightarrow> WriteBatch list \<Rightarrow> (gerr, 'd BlockchainDB, unit) exec" where
  "db_AtomicWrite r writeBatchs db =
     go_bind (batch_ops (cfHandlers db) writeBatchs) (\<lambda>ops. Ret (db_result (WriteCF r ops (DB db)) db))"

section \<open>What reads see\<close>

text \<open>\<open>db_ready r db\<close>: the column families of the program are open and reads do not fail.
  \<open>db_val r db cf k\<close> is what a read then returns.\<close>

definition db_val :: "'d rocks \<Rightarrow> 'd BlockchainDB \<Rightarrow> string \<Rightarrow> bytes \<Rightarrow> bytes" where
  "db_val r db cf k = (case GetCF r (DB db) cf k of Inr (Some v) \<Rightarrow> v | _ \<Rightarrow> [])"

definition db_ready :: "'d rocks \<Rightarrow> 'd BlockchainDB \<Rightarrow> bool" where
  "db_ready r db \<longleftrightarrow> set (Columnfamilies DefaultConfig) \<subseteq> set (cfHandlers db) \<and>
     (\<forall>cf k. \<exists>v. GetCF r (DB db) cf k = Inr v)"

lemma db_Get_ready:
  assumes "db_ready r db" and "cf \<in> set (Columnfamilies DefaultConfig)"
  shows "db_Get r db cf k = Ret (Inr (db_val r db cf k))"
proof -
  obtain v where "GetCF r (DB db) cf k = Inr v" using assms(1) unfolding db_ready_def by blast
  moreover have "cf \<in> set (cfHandlers db)" using assms unfolding db_ready_def by blast
  ultimately show ?thesis
    by (simp add: db_Get_def checkIfColumnExists_def db_val_def split: option.splits)
qed

text \<open>The contents as a function of batches: a put sets a value, a delete the empty slice.\<close>

definition apply_wb :: "WriteBatch \<Rightarrow> (string \<Rightarrow> bytes \<Rightarrow> bytes) \<Rightarrow> string \<Rightarrow> bytes \<Rightarrow> bytes" where
  "apply_wb wb g =
     (if wb_Operation wb = OperationPut
      then (\<lambda>cf k. if cf = wb_CfName wb \<and> k = wb_Key wb then wb_Value wb else g cf k)
      else if wb_Operation wb = OperationDelete
      then (\<lambda>cf k. if cf = wb_CfName wb \<and> k = wb_Key wb then [] else g cf k)
      else g)"

definition known_cfs :: "WriteBatch list \<Rightarrow> bool" where
  "known_cfs wbs \<longleftrightarrow> list_all (\<lambda>wb. wb_CfName wb \<in> set (Columnfamilies DefaultConfig)) wbs"

definition plain :: "reads \<Rightarrow> string \<Rightarrow> bytes \<Rightarrow> bytes" where
  "plain g cf k = (case g cf k of Inr (Some v) \<Rightarrow> v | _ \<Rightarrow> [])"

lemma db_val_plain: "db_val r db = plain (GetCF r (DB db))"
  by (simp add: db_val_def plain_def fun_eq_iff)

lemma batch_ops_known:
  assumes "known_cfs wbs" and "set (Columnfamilies DefaultConfig) \<subseteq> set cfs"
  shows "\<exists>ops. batch_ops cfs wbs = Ret ops \<and>
    (\<forall>g. plain (fold apply_wop ops g) = fold apply_wb wbs (plain g)) \<and>
    (\<forall>g. (\<forall>cf k. \<exists>v. g cf k = Inr v) \<longrightarrow> (\<forall>cf k. \<exists>v. fold apply_wop ops g cf k = Inr v))"
  using assms(1)
proof (induction wbs)
  case (Cons wb wbs)
  then obtain ops where IH: "batch_ops cfs wbs = Ret ops"
    "\<And>g. plain (fold apply_wop ops g) = fold apply_wb wbs (plain g)"
    "\<And>g. \<forall>cf k. \<exists>v. g cf k = Inr v \<Longrightarrow> \<forall>cf k. \<exists>v. fold apply_wop ops g cf k = Inr v"
    by (auto simp: known_cfs_def)
  have cf: "wb_CfName wb \<in> set cfs" using Cons.prems assms(2) by (auto simp: known_cfs_def)
  show ?case
  proof (cases "wb_Operation wb = OperationPut \<or> wb_Operation wb = OperationDelete")
    case True
    define op where "op = (if wb_Operation wb = OperationPut then WPut (wb_CfName wb) (wb_Key wb) (wb_Value wb)
      else WDel (wb_CfName wb) (wb_Key wb))"
    have "batch_ops cfs (wb # wbs) = Ret (op # ops)"
      using True IH(1) cf by (auto simp: op_def)
    moreover have "plain (apply_wop op g) = apply_wb wb (plain g)" for g
      using True by (auto simp: op_def plain_def fun_eq_iff apply_wb_def)
    moreover have "\<forall>cf k. \<exists>v. apply_wop op g cf k = Inr v" if "\<forall>cf k. \<exists>v. g cf k = Inr v" for g
      using that by (simp add: op_def)
    ultimately show ?thesis using IH(2,3) by simp
  next
    case False
    then have "apply_wb wb g = g" for g by (simp add: apply_wb_def)
    with False IH show ?thesis by simp
  qed
qed (simp add: fun_eq_iff)

lemma db_AtomicWrite_ready:
  assumes "rocks_ok r" and "db_ready r db" and "known_cfs wbs"
  shows "\<exists>res db'. db_AtomicWrite r wbs db = Ret (res, db') \<and> db_ready r db' \<and> cfHandlers db' = cfHandlers db \<and>
    (case res of Inr _ \<Rightarrow> db_val r db' = fold apply_wb wbs (db_val r db) | Inl _ \<Rightarrow> db_val r db' = db_val r db)"
proof -
  from assms batch_ops_known [of wbs "cfHandlers db"] obtain ops where
    ops: "batch_ops (cfHandlers db) wbs = Ret ops"
    "\<And>g. plain (fold apply_wop ops g) = fold apply_wb wbs (plain g)"
    "\<And>g. \<forall>cf k. \<exists>v. g cf k = Inr v \<Longrightarrow> \<forall>cf k. \<exists>v. fold apply_wop ops g cf k = Inr v"
    unfolding db_ready_def by blast
  let ?w = "WriteCF r ops (DB db)"
  have g: "GetCF r (snd ?w) = (if fst ?w = None then fold apply_wop ops (GetCF r (DB db)) else GetCF r (DB db))"
    using assms(1) unfolding rocks_ok_def by blast
  have "db_ready r (db\<lparr>DB := snd ?w\<rparr>)"
    using assms(2) ops(3) by (auto simp: db_ready_def g)
  then show ?thesis
    by (cases "fst ?w") (simp_all add: db_AtomicWrite_def ops db_result_def db_val_plain g)
qed

lemma db_Put_ready:
  assumes "rocks_ok r" and "db_ready r db" and "cf \<in> set (Columnfamilies DefaultConfig)"
  shows "\<exists>res db'. db_Put r cf k v db = Ret (res, db') \<and> db_ready r db' \<and> cfHandlers db' = cfHandlers db \<and>
    (case res of Inr _ \<Rightarrow> db_val r db' = (db_val r db)(cf := (db_val r db cf)(k := v)) | Inl _ \<Rightarrow> db_val r db' = db_val r db)"
proof -
  let ?w = "PutCF r cf k v (DB db)"
  have g: "GetCF r (snd ?w) = (if fst ?w = None then apply_wop (WPut cf k v) (GetCF r (DB db)) else GetCF r (DB db))"
    using assms(1) unfolding rocks_ok_def by blast
  have "cf \<in> set (cfHandlers db)" using assms(2,3) unfolding db_ready_def by blast
  moreover have "db_ready r (db\<lparr>DB := snd ?w\<rparr>)"
    using assms(2) by (auto simp: db_ready_def g)
  ultimately show ?thesis
    by (cases "fst ?w") (simp_all add: db_Put_def checkIfColumnExists_def db_result_def db_val_plain g plain_def fun_eq_iff)
qed

lemma db_Delete_ready:
  assumes "rocks_ok r" and "db_ready r db" and "cf \<in> set (Columnfamilies DefaultConfig)"
  shows "\<exists>res db'. db_Delete r cf k db = Ret (res, db') \<and> db_ready r db' \<and> cfHandlers db' = cfHandlers db \<and>
    (case res of Inr _ \<Rightarrow> db_val r db' = (db_val r db)(cf := (db_val r db cf)(k := [])) | Inl _ \<Rightarrow> db_val r db' = db_val r db)"
proof -
  let ?w = "DeleteCF r cf k (DB db)"
  have g: "GetCF r (snd ?w) = (if fst ?w = None then apply_wop (WDel cf k) (GetCF r (DB db)) else GetCF r (DB db))"
    using assms(1) unfolding rocks_ok_def by blast
  have "cf \<in> set (cfHandlers db)" using assms(2,3) unfolding db_ready_def by blast
  moreover have "db_ready r (db\<lparr>DB := snd ?w\<rparr>)"
    using assms(2) by (auto simp: db_ready_def g)
  ultimately show ?thesis
    by (cases "fst ?w") (simp_all add: db_Delete_def checkIfColumnExists_def db_result_def db_val_plain g plain_def fun_eq_iff)
qed

text \<open>An engine that has room for every write.\<close>

definition rocks_live :: "'d rocks \<Rightarrow> bool" where
  "rocks_live r \<longleftrightarrow> (\<forall>cf k v d. fst (PutCF r cf k v d) = None) \<and> (\<forall>cf k d. fst (DeleteCF r cf k d) = None) \<and>
     (\<forall>ops d. fst (WriteCF r ops d) = None)"

lemma db_Put_live:
  assumes "rocks_ok r" and "rocks_live r" and "db_ready r db" and "cf \<in> set (Columnfamilies DefaultConfig)"
  shows "\<exists>db'. db_Put r cf k v db = Ret (Inr (), db') \<and> db_ready r db' \<and>
    db_val r db' = (db_val r db)(cf := (db_val r db cf)(k := v))"
proof -
  obtain res db' where w: "db_Put r cf k v db = Ret (res, db')" "db_ready r db'"
    "case res of Inr _ \<Rightarrow> db_val r db' = (db_val r db)(cf := (db_val r db cf)(k := v)) | Inl _ \<Rightarrow> db_val r db' = db_val r db"
    using db_Put_ready [OF assms(1,3,4)] by blast
  then have "res = Inr ()" using assms(2) by (auto simp: db_Put_def db_result_def rocks_live_def)
  with w show ?thesis by simp
qed

lemma db_Delete_live:
  assumes "rocks_ok r" and "rocks_live r" and "db_ready r db" and "cf \<in> set (Columnfamilies DefaultConfig)"
  shows "\<exists>db'. db_Delete r cf k db = Ret (Inr (), db') \<and> db_ready r db' \<and>
    db_val r db' = (db_val r db)(cf := (db_val r db cf)(k := []))"
proof -
  obtain res db' where w: "db_Delete r cf k db = Ret (res, db')" "db_ready r db'"
    "case res of Inr _ \<Rightarrow> db_val r db' = (db_val r db)(cf := (db_val r db cf)(k := [])) | Inl _ \<Rightarrow> db_val r db' = db_val r db"
    using db_Delete_ready [OF assms(1,3,4)] by blast
  then have "res = Inr ()" using assms(2) by (auto simp: db_Delete_def db_result_def rocks_live_def)
  with w show ?thesis by simp
qed

lemma db_AtomicWrite_live:
  assumes "rocks_ok r" and "rocks_live r" and "db_ready r db" and "known_cfs wbs"
  shows "\<exists>db'. db_AtomicWrite r wbs db = Ret (Inr (), db') \<and> db_ready r db' \<and>
    db_val r db' = fold apply_wb wbs (db_val r db)"
proof -
  obtain res db' where w: "db_AtomicWrite r wbs db = Ret (res, db')" "db_ready r db'"
    "case res of Inr _ \<Rightarrow> db_val r db' = fold apply_wb wbs (db_val r db) | Inl _ \<Rightarrow> db_val r db' = db_val r db"
    using db_AtomicWrite_ready [OF assms(1,3,4)] by blast
  then have "res = Inr ()" using assms(2) by (auto simp: db_AtomicWrite_def db_result_def rocks_live_def)
  with w show ?thesis by simp
qed

section \<open>An engine in memory\<close>

text \<open>A function from families and keys to values meets \<open>rocks_ok\<close>; the witnesses run on it.\<close>

type_synonym mem = "string \<Rightarrow> bytes \<Rightarrow> bytes option"

fun mem_apply :: "wop \<Rightarrow> mem \<Rightarrow> mem" where
  "mem_apply (WPut cf k v) m = (\<lambda>cf' k'. if cf' = cf \<and> k' = k then Some v else m cf' k')"
| "mem_apply (WDel cf k) m = (\<lambda>cf' k'. if cf' = cf \<and> k' = k then None else m cf' k')"

definition mem_rocks :: "mem rocks" where
  "mem_rocks = \<lparr>GetCF = \<lambda>d cf k. Inr (d cf k), PutCF = \<lambda>cf k v d. (None, mem_apply (WPut cf k v) d),
     DeleteCF = \<lambda>cf k d. (None, mem_apply (WDel cf k) d), WriteCF = \<lambda>ops d. (None, fold mem_apply ops d),
     OpenDb = \<lambda>cfs. Inr (\<lambda>_ _. None)\<rparr>"

definition mem_db :: "mem BlockchainDB" where
  "mem_db = \<lparr>DB = \<lambda>_ _. None, cfHandlers = Columnfamilies DefaultConfig\<rparr>"

lemma mem_fold: "fold apply_wop ops (\<lambda>cf k. Inr (m cf k)) = (\<lambda>cf k. Inr (fold mem_apply ops m cf k))"
proof (induction ops arbitrary: m)
  case (Cons op ops)
  have "apply_wop op (\<lambda>cf k. Inr (m cf k)) = (\<lambda>cf k. Inr (mem_apply op m cf k))"
    by (cases op) (simp_all add: fun_eq_iff)
  with Cons show ?case by simp
qed simp

lemma mem_rocks_ok: "rocks_ok mem_rocks"
  by (simp add: rocks_ok_def mem_rocks_def mem_fold fun_eq_iff)

lemma mem_rocks_live: "rocks_live mem_rocks"
  by (simp add: rocks_live_def mem_rocks_def)

lemma mem_db_ready: "db_ready mem_rocks (mem_db\<lparr>DB := m\<rparr>)"
  by (simp add: db_ready_def mem_rocks_def mem_db_def)

lemma mem_db_ready0: "db_ready mem_rocks mem_db"
  by (simp add: db_ready_def mem_rocks_def mem_db_def)

lemma mem_db_val: "db_val mem_rocks mem_db = (\<lambda>_ _. [])"
  by (simp add: db_val_def mem_rocks_def mem_db_def fun_eq_iff)

end
