(* ===== verification/Block_Storage.thy ===== *)
theory Block_Storage
  imports Db
begin

text \<open>
  The block store (\<^verbatim>\<open>core/ledger/block_storage/block_storage.go\<close>). The family \<^verbatim>\<open>block\<close> maps the
  hash of a block to its header and the hash of a transaction to the transaction; the family
  \<^verbatim>\<open>index\<close> maps a height to the hash of the block, a prefixed height to the hashes of its
  transactions and a fixed key to the last height. An object read from the store is a new
  one, at the address \<open>p\<close>.
\<close>

section \<open>Operations\<close>

definition heightKey :: bytes where
  "heightKey = str_bytes ''blockLastHeight''"

definition prependKeyPrefix :: "bytes \<Rightarrow> bytes \<Rightarrow> bytes" where
  "prependKeyPrefix prefix key = prefix @ key"

definition txPrefix :: bytes where
  "txPrefix = str_bytes ''tx_''"

definition hashes_ty :: gty where
  "hashes_ty = TSlice (TArray 32)"

definition hashes_val :: "Hash list \<Rightarrow> gval" where
  "hashes_val hs = VSlice (map VArray hs)"

definition val_hashes :: "gval \<Rightarrow> Hash list" where
  "val_hashes v = map as_bytes (as_fields v)"

definition res_bind :: "(gerr + 'a) go \<Rightarrow> ('a \<Rightarrow> (gerr + 'b) go) \<Rightarrow> (gerr + 'b) go" where
  "res_bind m k = go_bind m (\<lambda>res. case res of Inl e \<Rightarrow> Ret (Inl e) | Inr x \<Rightarrow> k x)"

definition bs_GetBlockByHash :: "'d rocks \<Rightarrow> 'd BlockchainDB \<Rightarrow> bytes \<Rightarrow> (gerr + BlockHeader) go" where
  "bs_GetBlockByHash r db blockHash =
     res_bind (db_Get r db ''block'' blockHash) (\<lambda>blockHeaderBytes.
       Ret (if length blockHeaderBytes = 0 then Inl (ErrText ''not found block. '')
            else Inr (bh_Deserialize blockHeaderBytes)))"

definition bs_GetTransactionHashList :: "'d rocks \<Rightarrow> 'd BlockchainDB \<Rightarrow> u32 \<Rightarrow> (gerr + bytes) go" where
  "bs_GetTransactionHashList r db blockHeight =
     res_bind (db_Get r db ''index'' (prependKeyPrefix txPrefix (Uint32ToBytes blockHeight))) (\<lambda>txHashsBytes.
       Ret (if length txHashsBytes = 0 \<and> blockHeight \<noteq> 0 then Inl (ErrText ''not found transactions'')
            else Inr txHashsBytes))"

text \<open>An error of the read counts as an empty value here.\<close>

definition bs_GetBlockchainHeight :: "'d rocks \<Rightarrow> 'd BlockchainDB \<Rightarrow> (gerr + u32) go" where
  "bs_GetBlockchainHeight r db =
     go_bind (db_Get r db ''index'' heightKey) (\<lambda>res.
       let heightBytes = (case res of Inl _ \<Rightarrow> [] | Inr b \<Rightarrow> b) in
       if length heightBytes = 0 then Ret (Inl (ErrText ''failed to get the height''))
       else go_bind (BytesToUint32 heightBytes) (\<lambda>height. Ret (Inr height)))"

definition bs_GetBlockHashByNumber :: "'d rocks \<Rightarrow> 'd BlockchainDB \<Rightarrow> u32 \<Rightarrow> (gerr + bytes) go" where
  "bs_GetBlockHashByNumber r db blockNum =
     res_bind (bs_GetBlockchainHeight r db) (\<lambda>currentHeight.
       if blockNum > currentHeight then Ret (Inl (ErrText ''exceeds the max height''))
       else res_bind (db_Get r db ''index'' (Uint32ToBytes blockNum)) (\<lambda>blockHashBytes.
         Ret (if length blockHashBytes = 0 then Inl (ErrText ''not found block Hash'') else Inr blockHashBytes)))"

definition bs_GetBlockByNumber :: "'d rocks \<Rightarrow> 'd BlockchainDB \<Rightarrow> u32 \<Rightarrow> (gerr + BlockHeader) go" where
  "bs_GetBlockByNumber r db blockNum =
     res_bind (bs_GetBlockHashByNumber r db blockNum) (\<lambda>blockHashBytes. bs_GetBlockByHash r db blockHashBytes)"

text \<open>The error of the decoder is passed on.\<close>

definition bs_GetTransactionByTxHash :: "nat \<Rightarrow> 'd rocks \<Rightarrow> 'd BlockchainDB \<Rightarrow> bytes \<Rightarrow> (gerr + Transaction) go" where
  "bs_GetTransactionByTxHash p r db txHash =
     res_bind (db_Get r db ''block'' txHash) (\<lambda>txBytes.
       Ret (if length txBytes = 0 then Inl (ErrText ''not found transaction by txHash'')
            else case tx_Deserialize p txBytes of
              (tx, None) \<Rightarrow> Inr tx
            | (tx, Some err) \<Rightarrow> Inl (ErrText ''decode'')))"

fun bs_getTransactionsByHashList :: "nat \<Rightarrow> 'd rocks \<Rightarrow> 'd BlockchainDB \<Rightarrow> Hash list \<Rightarrow> u32 \<Rightarrow>
    (gerr + Transaction list) go" where
  "bs_getTransactionsByHashList p r db [] transactionType = Ret (Inr [])"
| "bs_getTransactionsByHashList p r db (txHash # txHashs) transactionType =
     res_bind (bs_GetTransactionByTxHash p r db txHash) (\<lambda>tx.
     res_bind (bs_getTransactionsByHashList (Suc p) r db txHashs transactionType) (\<lambda>txs.
       Ret (Inr (if transactionType = 100 then tx # txs
                 else if tx_Type tx = transactionType then tx # txs else txs))))"

definition bs_GetTransactionsByNumber :: "nat \<Rightarrow> 'd rocks \<Rightarrow> 'd BlockchainDB \<Rightarrow> u32 \<Rightarrow> u32 \<Rightarrow>
    (gerr + Transaction list) go" where
  "bs_GetTransactionsByNumber p r db blockNum transactionType =
     res_bind (bs_GetTransactionHashList r db blockNum) (\<lambda>txHashsBytes.
       bs_getTransactionsByHashList p r db (val_hashes (fst (Deserialize hashes_ty txHashsBytes))) transactionType)"

definition bs_GetTransactionsByHash :: "nat \<Rightarrow> 'd rocks \<Rightarrow> 'd BlockchainDB \<Rightarrow> bytes \<Rightarrow> u32 \<Rightarrow>
    (gerr + Transaction list) go" where
  "bs_GetTransactionsByHash p r db blockHash transactionType =
     res_bind (bs_GetBlockByHash r db blockHash) (\<lambda>blockHeader.
     res_bind (bs_GetTransactionHashList r db (bh_Height blockHeader)) (\<lambda>txHashsBytes.
       bs_getTransactionsByHashList p r db (val_hashes (fst (Deserialize hashes_ty txHashsBytes))) transactionType))"

text \<open>The batches of a block, and the block with the hashes it computed cached.\<close>

definition bs_AppendBlock :: "crypto_env \<Rightarrow> Block \<Rightarrow> WriteBatch list \<times> Block" where
  "bs_AppendBlock c block =
     (case bk_Hash c block of (blockHash, block') \<Rightarrow>
        let height = Uint32ToBytes (bh_Height (bk_Header block));
            txs = bk_Transactions block
        in ([NewWriteBatch ''block'' OperationPut blockHash (bh_Serialize (bk_Header block)),
             NewWriteBatch ''index'' OperationPut height blockHash,
             NewWriteBatch ''index'' OperationPut heightKey height] @
            map (\<lambda>tx. NewWriteBatch ''block'' OperationPut (tx_hash c tx) (tx_Serialize tx)) txs @
            [NewWriteBatch ''index'' OperationPut (prependKeyPrefix txPrefix height)
               (Serialize (hashes_val (map (tx_hash c) txs)))],
            block'\<lparr>bk_Transactions := map (\<lambda>tx. snd (tx_Hash c tx)) txs\<rparr>))"

section \<open>Batches of puts\<close>

text \<open>Puts to distinct places: each place gets its value, every other place keeps its own.\<close>

definition wb_place :: "WriteBatch \<Rightarrow> string \<times> bytes" where
  "wb_place wb = (wb_CfName wb, wb_Key wb)"

definition all_puts :: "WriteBatch list \<Rightarrow> bool" where
  "all_puts wbs \<longleftrightarrow> list_all (\<lambda>wb. wb_Operation wb = OperationPut) wbs"

lemma fold_wb_other:
  "(cf, k) \<notin> wb_place ` set wbs \<Longrightarrow> fold apply_wb wbs g cf k = g cf k"
  by (induction wbs arbitrary: g) (auto simp: apply_wb_def wb_place_def)

lemma fold_wb_at:
  assumes "distinct (map wb_place wbs)" and "wb \<in> set wbs"
  shows "fold apply_wb wbs g (wb_CfName wb) (wb_Key wb) = apply_wb wb g (wb_CfName wb) (wb_Key wb)"
  using assms
proof (induction wbs arbitrary: g)
  case (Cons x wbs)
  show ?case
  proof (cases "wb \<in> set wbs")
    case True
    then have "wb_place x \<noteq> wb_place wb" using Cons.prems(1) by auto
    then have "apply_wb wb (apply_wb x g) (wb_CfName wb) (wb_Key wb) = apply_wb wb g (wb_CfName wb) (wb_Key wb)"
      by (auto simp: apply_wb_def wb_place_def)
    with True Cons show ?thesis by simp
  next
    case False
    with Cons.prems have "wb = x" by simp
    moreover have "(wb_CfName x, wb_Key x) \<notin> wb_place ` set wbs"
      using Cons.prems(1) by (auto simp: wb_place_def)
    ultimately show ?thesis by (simp add: fold_wb_other)
  qed
qed simp

lemma fold_wb_place:
  assumes "all_puts wbs" and "distinct (map wb_place wbs)" and "wb \<in> set wbs"
  shows "fold apply_wb wbs g (wb_CfName wb) (wb_Key wb) = wb_Value wb"
proof -
  have "wb_Operation wb = OperationPut" using assms(1,3) by (auto simp: all_puts_def list_all_iff)
  then show ?thesis using fold_wb_at [OF assms(2,3)] by (simp add: apply_wb_def)
qed

section \<open>Reading an appended block\<close>

lemma res_bind_simps [simp]:
  "res_bind (Ret (Inr x)) k = k x"
  "res_bind (Ret (Inl e)) k = Ret (Inl e)"
  "res_bind (Panic s) k = Panic s"
  by (simp_all add: res_bind_def)

lemma cfs [simp]:
  "''block'' \<in> set (Columnfamilies DefaultConfig)" "''index'' \<in> set (Columnfamilies DefaultConfig)"
  by (simp_all add: DefaultConfig_def)

lemma length_keys [simp]: "length heightKey = 15" "length txPrefix = 3"
  by (simp_all add: heightKey_def txPrefix_def str_bytes_def)

lemma index_keys_distinct:
  "Uint32ToBytes n \<noteq> heightKey" "prependKeyPrefix txPrefix (Uint32ToBytes n) \<noteq> heightKey"
  "prependKeyPrefix txPrefix (Uint32ToBytes n) \<noteq> Uint32ToBytes m"
  by (auto simp: prependKeyPrefix_def dest: arg_cong [of _ _ length])

lemmas index_keys [simp] = index_keys_distinct index_keys_distinct [THEN not_sym]

definition block_hash :: "crypto_env \<Rightarrow> Block \<Rightarrow> Hash" where
  "block_hash c b = fst (bk_Hash c b)"

text \<open>No two of the hashes of a block collide; all of them have their length.\<close>

definition hashes_distinct :: "crypto_env \<Rightarrow> Block \<Rightarrow> bool" where
  "hashes_distinct c b \<longleftrightarrow> distinct (block_hash c b # map (tx_hash c) (bk_Transactions b)) \<and>
     list_all (\<lambda>h. length h = 32) (block_hash c b # map (tx_hash c) (bk_Transactions b))"

lemma bs_AppendBlock_batches:
  "fst (bs_AppendBlock c b) =
     [NewWriteBatch ''block'' OperationPut (block_hash c b) (bh_Serialize (bk_Header b)),
      NewWriteBatch ''index'' OperationPut (Uint32ToBytes (bh_Height (bk_Header b))) (block_hash c b),
      NewWriteBatch ''index'' OperationPut heightKey (Uint32ToBytes (bh_Height (bk_Header b)))] @
     map (\<lambda>tx. NewWriteBatch ''block'' OperationPut (tx_hash c tx) (tx_Serialize tx)) (bk_Transactions b) @
     [NewWriteBatch ''index'' OperationPut (prependKeyPrefix txPrefix (Uint32ToBytes (bh_Height (bk_Header b))))
        (Serialize (hashes_val (map (tx_hash c) (bk_Transactions b))))]"
  by (simp add: bs_AppendBlock_def block_hash_def Let_def split: prod.splits)

lemma bs_AppendBlock_puts: "all_puts (fst (bs_AppendBlock c b))" "known_cfs (fst (bs_AppendBlock c b))"
  by (simp_all add: bs_AppendBlock_batches all_puts_def known_cfs_def NewWriteBatch_def list_all_iff)

lemma bs_AppendBlock_places:
  assumes "hashes_distinct c b"
  shows "distinct (map wb_place (fst (bs_AppendBlock c b)))"
proof -
  have "distinct (map (Pair cf) (map (tx_hash c) (bk_Transactions b)))" for cf :: string
    using assms unfolding hashes_distinct_def by (metis distinct.simps(2) distinct_map inj_onI prod.inject)
  then show ?thesis
    using assms
    by (auto simp: hashes_distinct_def bs_AppendBlock_batches wb_place_def NewWriteBatch_def comp_def)
qed

lemma bs_AppendBlock_contents:
  fixes g :: "string \<Rightarrow> bytes \<Rightarrow> bytes"
  assumes "hashes_distinct c b"
  defines "g' \<equiv> fold apply_wb (fst (bs_AppendBlock c b)) g"
  shows "g' ''block'' (block_hash c b) = bh_Serialize (bk_Header b)"
    and "g' ''index'' (Uint32ToBytes (bh_Height (bk_Header b))) = block_hash c b"
    and "g' ''index'' heightKey = Uint32ToBytes (bh_Height (bk_Header b))"
    and "tx \<in> set (bk_Transactions b) \<Longrightarrow> g' ''block'' (tx_hash c tx) = tx_Serialize tx"
    and "g' ''index'' (prependKeyPrefix txPrefix (Uint32ToBytes (bh_Height (bk_Header b)))) =
      Serialize (hashes_val (map (tx_hash c) (bk_Transactions b)))"
    and "n \<noteq> bh_Height (bk_Header b) \<Longrightarrow> g' ''index'' (Uint32ToBytes n) = g ''index'' (Uint32ToBytes n)"
proof -
  note put = fold_wb_place [OF bs_AppendBlock_puts(1) bs_AppendBlock_places [OF assms(1)], of _ g, folded g'_def]
  note sel = bs_AppendBlock_batches NewWriteBatch_def
  show "g' ''block'' (block_hash c b) = bh_Serialize (bk_Header b)"
    using put [of "NewWriteBatch ''block'' OperationPut (block_hash c b) (bh_Serialize (bk_Header b))"] by (simp add: sel)
  show "g' ''index'' (Uint32ToBytes (bh_Height (bk_Header b))) = block_hash c b"
    using put [of "NewWriteBatch ''index'' OperationPut (Uint32ToBytes (bh_Height (bk_Header b))) (block_hash c b)"] by (simp add: sel)
  show "g' ''index'' heightKey = Uint32ToBytes (bh_Height (bk_Header b))"
    using put [of "NewWriteBatch ''index'' OperationPut heightKey (Uint32ToBytes (bh_Height (bk_Header b)))"] by (simp add: sel)
  show "g' ''block'' (tx_hash c tx) = tx_Serialize tx" if "tx \<in> set (bk_Transactions b)"
    using put [of "NewWriteBatch ''block'' OperationPut (tx_hash c tx) (tx_Serialize tx)"] that by (auto simp: sel)
  show "g' ''index'' (prependKeyPrefix txPrefix (Uint32ToBytes (bh_Height (bk_Header b)))) =
      Serialize (hashes_val (map (tx_hash c) (bk_Transactions b)))"
    using put [of "NewWriteBatch ''index'' OperationPut (prependKeyPrefix txPrefix (Uint32ToBytes (bh_Height (bk_Header b))))
        (Serialize (hashes_val (map (tx_hash c) (bk_Transactions b))))"] by (simp add: sel)
  show "g' ''index'' (Uint32ToBytes n) = g ''index'' (Uint32ToBytes n)" if "n \<noteq> bh_Height (bk_Header b)"
    unfolding g'_def using that by (intro fold_wb_other) (auto simp: sel wb_place_def)
qed

lemma hashes_roundtrip:
  assumes "list_all (\<lambda>h. length h = 32) hs" and "length hs < 2 ^ 64"
  shows "val_hashes (fst (Deserialize hashes_ty (Serialize (hashes_val hs)))) = hs"
proof -
  have "h \<noteq> []" if "h \<in> set hs" for h
    using assms(1) that by (auto simp: list_all_iff)
  then have "good (hashes_val hs) hashes_ty"
    using assms by (auto simp: hashes_val_def hashes_ty_def list_all_iff)
  from dec_recursiveEncode [OF this, of "[]"] have "fst (Deserialize hashes_ty (Serialize (hashes_val hs))) = norm (hashes_val hs)"
    by (simp add: Deserialize_def Serialize_def)
  then show ?thesis
    by (simp add: hashes_val_def val_hashes_def as_fields_def as_bytes_def comp_def)
qed

lemma tx_Serialize_not_Nil [simp]: "tx_Serialize tx \<noteq> []"
  by (simp add: tx_Serialize_def Serialize_def tx_val_def txdata_val_def)

lemma bh_Serialize_not_Nil [simp]: "bh_Serialize h \<noteq> []"
  by (simp add: bh_Serialize_def Serialize_def bh_val_def)

lemma hashes_not_Nil [simp]: "Serialize (hashes_val hs) \<noteq> []"
  by (simp add: Serialize_def hashes_val_def)

lemma bs_getTransactions_all:
  assumes "db_ready r db" and "list_all tx_wf txs"
    and "\<And>tx. tx \<in> set txs \<Longrightarrow> db_val r db ''block'' (tx_hash c tx) = tx_Serialize tx"
  shows "bs_getTransactionsByHashList p r db (map (tx_hash c) txs) 100 =
    Ret (Inr (map2 (\<lambda>i tx. tx_norm (p + i) tx) [0 ..< length txs] txs))"
  using assms(2,3)
proof (induction txs arbitrary: p)
  case (Cons tx txs)
  have "bs_GetTransactionByTxHash p r db (tx_hash c tx) = Ret (Inr (tx_norm p tx))"
    using Cons.prems tx_Deserialize_Serialize [of tx p "[]"]
    by (simp add: bs_GetTransactionByTxHash_def db_Get_ready [OF assms(1)])
  moreover have "map2 (\<lambda>i tx. tx_norm (p + i) tx) [0 ..< length (tx # txs)] (tx # txs) =
      tx_norm p tx # map2 (\<lambda>i tx. tx_norm (Suc p + i) tx) [0 ..< length txs] txs"
    by (simp only: length_Cons upt_conv_Cons zip_Cons_Cons list.map prod.case map_Suc_upt [symmetric] zip_map1 zero_less_Suc)
      (simp add: comp_def case_prod_beta)
  ultimately show ?case using Cons by simp
qed simp

lemma appended_readable:
  assumes rd: "db_ready r db'" and wf: "bk_wf b" and hd: "hashes_distinct c b"
    and "db_val r db' ''block'' = fold apply_wb (fst (bs_AppendBlock c b)) g ''block''"
    and "db_val r db' ''index'' = fold apply_wb (fst (bs_AppendBlock c b)) g ''index''"
  shows "bs_GetBlockchainHeight r db' = Ret (Inr (bh_Height (bk_Header b)))"
    and "bs_GetBlockByNumber r db' (bh_Height (bk_Header b)) = Ret (Inr (bk_Header b))"
    and "bs_GetBlockByHash r db' (block_hash c b) = Ret (Inr (bk_Header b))"
    and "bs_GetTransactionsByNumber p r db' (bh_Height (bk_Header b)) 100 =
      Ret (Inr (map2 (\<lambda>i tx. tx_norm (p + i) tx) [0 ..< length (bk_Transactions b)] (bk_Transactions b)))"
    and "\<And>n. n \<noteq> bh_Height (bk_Header b) \<Longrightarrow> db_val r db' ''index'' (Uint32ToBytes n) = g ''index'' (Uint32ToBytes n)"
proof -
  note v = bs_AppendBlock_contents [OF hd, where g = g, folded assms(4,5)]
  note get = db_Get_ready [OF rd]
  have [simp]: "block_hash c b \<noteq> []" using hd by (auto simp: hashes_distinct_def)
  have [simp]: "bh_Deserialize (bh_Serialize (bk_Header b)) = bk_Header b"
    using dec_recursiveEncode [OF good_bh, of "bk_Header b" "[]"] wf
    by (simp add: bh_Deserialize_def bh_Serialize_def Deserialize_def Serialize_def bk_wf_def norm_bh)
  show H: "bs_GetBlockchainHeight r db' = Ret (Inr (bh_Height (bk_Header b)))"
    by (simp add: bs_GetBlockchainHeight_def get v Let_def)
  show "bs_GetTransactionsByNumber p r db' (bh_Height (bk_Header b)) 100 =
      Ret (Inr (map2 (\<lambda>i tx. tx_norm (p + i) tx) [0 ..< length (bk_Transactions b)] (bk_Transactions b)))"
    using wf hd bs_getTransactions_all [OF rd _ v(4), of "bk_Transactions b" p]
    by (simp add: bs_GetTransactionsByNumber_def bs_GetTransactionHashList_def get v hashes_roundtrip bk_wf_def hashes_distinct_def)
  show "bs_GetBlockByNumber r db' (bh_Height (bk_Header b)) = Ret (Inr (bk_Header b))"
    and "bs_GetBlockByHash r db' (block_hash c b) = Ret (Inr (bk_Header b))"
    by (simp_all add: bs_GetBlockByNumber_def bs_GetBlockHashByNumber_def bs_GetBlockByHash_def get v H)
  show "db_val r db' ''index'' (Uint32ToBytes n) = g ''index'' (Uint32ToBytes n)" if "n \<noteq> bh_Height (bk_Header b)" for n
    using v(6) that .
qed

section \<open>Properties\<close>

text \<open>C14: after the batches of a block are written, the store is at its height, the block is found by number and by
  hash, its transactions come back in their order (each as the wire carries it), and the
  index entries of all other heights are as before. Two kinds of keys never meet.\<close>

theorem AppendBlock_readable:
  assumes "rocks_ok r" and "db_ready r db" and "bk_wf b" and "hashes_distinct c b"
    and "db_AtomicWrite r (fst (bs_AppendBlock c b)) db = Ret (Inr (), db')"
  shows "bs_GetBlockchainHeight r db' = Ret (Inr (bh_Height (bk_Header b))) \<and>
    bs_GetBlockByNumber r db' (bh_Height (bk_Header b)) = Ret (Inr (bk_Header b)) \<and>
    bs_GetBlockByHash r db' (block_hash c b) = Ret (Inr (bk_Header b)) \<and>
    bs_GetTransactionsByNumber p r db' (bh_Height (bk_Header b)) 100 =
      Ret (Inr (map2 (\<lambda>i tx. tx_norm (p + i) tx) [0 ..< length (bk_Transactions b)] (bk_Transactions b))) \<and>
    (\<forall>n. n \<noteq> bh_Height (bk_Header b) \<longrightarrow> db_val r db' ''index'' (Uint32ToBytes n) = db_val r db ''index'' (Uint32ToBytes n))"
proof -
  have rd: "db_ready r db'" and g: "db_val r db' = fold apply_wb (fst (bs_AppendBlock c b)) (db_val r db)"
    using db_AtomicWrite_ready [OF assms(1,2) bs_AppendBlock_puts(2) [of c b]] assms(5) by auto
  show ?thesis using appended_readable [OF rd assms(3,4), where g = "db_val r db"] g by simp
qed

definition sample_c :: crypto_env where
  "sample_c = \<lparr>sum256 = \<lambda>b. replicate 32 7, RecoverPubkey = \<lambda>h s. None, curve_N = 5\<rparr>"

definition sample_block :: Block where
  "sample_block = (NewBlock zero_hash 7 3 0 zero_hash
     [(NewTransaction 1 [0] [0] TypeAtomic 1 zero_addr zero_addr (Some 5) (Some 1) 3)\<lparr>tx_hash_cache := Some (replicate 32 2)\<rparr>])
     \<lparr>bk_hash_cache := Some (replicate 32 1)\<rparr>"

lemma sample_block_ok: "bk_wf sample_block" "hashes_distinct c sample_block"
  by (simp_all add: sample_block_def NewBlock_def NewBlockHeader_def NewTransaction_def bk_wf_def bh_wf_def tx_wf_def
      txdata_wf_def amount_fits_def zero_hash_def hashes_distinct_def block_hash_def bk_Hash_def tx_Hash_def be_bytes.simps)

theorem AppendBlock_readable_witness:
  "\<exists>db'. db_AtomicWrite mem_rocks (fst (bs_AppendBlock sample_c sample_block)) mem_db = Ret (Inr (), db') \<and>
     bs_GetBlockchainHeight mem_rocks db' = Ret (Inr 3)"
proof -
  obtain res db' where w: "db_AtomicWrite mem_rocks (fst (bs_AppendBlock sample_c sample_block)) mem_db = Ret (res, db')"
    using db_AtomicWrite_ready [OF mem_rocks_ok mem_db_ready0 bs_AppendBlock_puts(2) [of sample_c sample_block]] by blast
  then have "res = Inr ()" by (auto simp: db_AtomicWrite_def db_result_def mem_rocks_def)
  with w have w: "db_AtomicWrite mem_rocks (fst (bs_AppendBlock sample_c sample_block)) mem_db = Ret (Inr (), db')" by simp
  from AppendBlock_readable [OF mem_rocks_ok mem_db_ready0 sample_block_ok w]
  have "bs_GetBlockchainHeight mem_rocks db' = Ret (Inr (bh_Height (bk_Header sample_block)))" by blast
  moreover have "bh_Height (bk_Header sample_block) = 3"
    by (simp add: sample_block_def NewBlock_def NewBlockHeader_def)
  ultimately show ?thesis using w by simp
qed

end
