(* ===== verification/Contract.thy ===== *)
theory Contract
  imports Block_Storage
begin

text \<open>
  The state of smart contracts (\<^verbatim>\<open>core/ledger/contract\<close>): while a block executes, the changes of
  each contract are cached, keyed by the contract's address and the key; at the end of the
  block the cache becomes batches of the family \<^verbatim>\<open>scontract\<close>. A contract can also ask for
  transfers, which become transactions of the block.
\<close>

section \<open>Keys\<close>

text \<open>\<^verbatim>\<open>contract/utils.go\<close>\<close>

definition stateKeyDelimiter :: char where
  "stateKeyDelimiter = CHR ''|''"

definition EnSmartContractKey :: "string \<Rightarrow> string \<Rightarrow> string" where
  "EnSmartContractKey scAddr key = scAddr @ [stateKeyDelimiter] @ key"

definition DeSmartContractKey :: "string \<Rightarrow> (string \<times> string) go" where
  "DeSmartContractKey deKey =
     (case dropWhile (\<lambda>ch. ch \<noteq> stateKeyDelimiter) deKey of
        [] \<Rightarrow> Panic ''index out of range''
      | _ # rest \<Rightarrow> Ret (takeWhile (\<lambda>ch. ch \<noteq> stateKeyDelimiter) deKey, rest))"

section \<open>The cache\<close>

text \<open>\<^verbatim>\<open>contract/state_extra.go\<close>\<close>

record CacheKVs =
  kv_optype :: nat
  kv_key :: string
  kv_value :: bytes

definition newCacheKVs :: "nat \<Rightarrow> string \<Rightarrow> bytes \<Rightarrow> CacheKVs" where
  "newCacheKVs typ key value = \<lparr>kv_optype = typ, kv_key = key, kv_value = value\<rparr>"

record ContractStateDelta =
  csd_contract :: string
  csd_cacheKVs :: "(string, CacheKVs) gomap"

definition newContractStateDelta :: "string \<Rightarrow> ContractStateDelta" where
  "newContractStateDelta scAddr = \<lparr>csd_contract = scAddr, csd_cacheKVs = gm_empty\<rparr>"

definition csd_get :: "ContractStateDelta \<Rightarrow> string \<Rightarrow> bytes" where
  "csd_get csd key =
     (case gm_get (csd_cacheKVs csd) key of
        Some value \<Rightarrow> if kv_optype value \<noteq> OperationDelete then kv_value value else []
      | None \<Rightarrow> [])"

definition csd_set :: "string \<Rightarrow> bytes \<Rightarrow> ContractStateDelta \<Rightarrow> ContractStateDelta" where
  "csd_set key value csd = csd\<lparr>csd_cacheKVs := gm_set key (newCacheKVs OperationPut key value) (csd_cacheKVs csd)\<rparr>"

definition csd_remove :: "string \<Rightarrow> ContractStateDelta \<Rightarrow> ContractStateDelta" where
  "csd_remove key csd = csd\<lparr>csd_cacheKVs := gm_set key (newCacheKVs OperationDelete key []) (csd_cacheKVs csd)\<rparr>"

record StateExtra =
  se_Deltas :: "(string, ContractStateDelta) gomap"

definition NewStateExtra :: StateExtra where
  "NewStateExtra = \<lparr>se_Deltas = gm_empty\<rparr>"

definition se_get :: "StateExtra \<Rightarrow> string \<Rightarrow> string \<Rightarrow> bytes" where
  "se_get stateExtra scAddr key =
     (case gm_get (se_Deltas stateExtra) scAddr of
        Some delta \<Rightarrow> csd_get delta (EnSmartContractKey scAddr key)
      | None \<Rightarrow> [])"

definition se_getOrCreate :: "StateExtra \<Rightarrow> string \<Rightarrow> ContractStateDelta" where
  "se_getOrCreate stateExtra scAddr =
     (case gm_get (se_Deltas stateExtra) scAddr of
        Some delta \<Rightarrow> delta
      | None \<Rightarrow> newContractStateDelta scAddr)"

definition se_set :: "string \<Rightarrow> string \<Rightarrow> bytes \<Rightarrow> StateExtra \<Rightarrow> StateExtra" where
  "se_set scAddr key value stateExtra =
     stateExtra\<lparr>se_Deltas := gm_set scAddr
       (csd_set (EnSmartContractKey scAddr key) value (se_getOrCreate stateExtra scAddr)) (se_Deltas stateExtra)\<rparr>"

definition se_delete :: "string \<Rightarrow> string \<Rightarrow> StateExtra \<Rightarrow> StateExtra" where
  "se_delete scAddr key stateExtra =
     stateExtra\<lparr>se_Deltas := gm_set scAddr
       (csd_remove (EnSmartContractKey scAddr key) (se_getOrCreate stateExtra scAddr)) (se_Deltas stateExtra)\<rparr>"

section \<open>The contract context\<close>

text \<open>\<^verbatim>\<open>contract/contract.go\<close>\<close>

record SmartConstract =
  sc_stateExtra :: StateExtra
  sc_height :: u32
  sc_scAddr :: string
  sc_committed :: bool
  sc_currentTx :: "Transaction option"
  sc_smartContractTxs :: "Transaction list"

definition NewSmartConstract :: SmartConstract where
  "NewSmartConstract = \<lparr>sc_stateExtra = NewStateExtra, sc_height = 0, sc_scAddr = [], sc_committed = False,
     sc_currentTx = None, sc_smartContractTxs = []\<rparr>"

definition StartConstract :: "u32 \<Rightarrow> SmartConstract \<Rightarrow> SmartConstract" where
  "StartConstract blockHeight sctx = sctx\<lparr>sc_height := blockHeight\<rparr>"

definition StopContract :: "u32 \<Rightarrow> SmartConstract \<Rightarrow> SmartConstract" where
  "StopContract blockHeight sctx = sctx\<lparr>sc_height := 0, sc_stateExtra := NewStateExtra\<rparr>"

definition ExecTransaction :: "Transaction \<Rightarrow> string \<Rightarrow> SmartConstract \<Rightarrow> SmartConstract" where
  "ExecTransaction tx scAddr sctx =
     sctx\<lparr>sc_committed := False, sc_currentTx := Some tx, sc_scAddr := scAddr, sc_smartContractTxs := []\<rparr>"

text \<open>An empty cached value sends the read to the database.\<close>

definition sc_GetState :: "'d rocks \<Rightarrow> 'd BlockchainDB \<Rightarrow> SmartConstract \<Rightarrow> string \<Rightarrow> (gerr + bytes) go" where
  "sc_GetState r db sctx key =
     (let value = se_get (sc_stateExtra sctx) (sc_scAddr sctx) key in
      if length value = 0 then
        go_bind (db_Get r db ''scontract'' (str_bytes (EnSmartContractKey (sc_scAddr sctx) key))) (\<lambda>res.
          Ret (case res of Inl err \<Rightarrow> Inl (ErrText ''can't get date from db'') | Inr v \<Rightarrow> Inr v))
      else Ret (Inr value))"

definition sc_AddState :: "string \<Rightarrow> bytes \<Rightarrow> SmartConstract \<Rightarrow> SmartConstract" where
  "sc_AddState key value sctx = sctx\<lparr>sc_stateExtra := se_set (sc_scAddr sctx) key value (sc_stateExtra sctx)\<rparr>"

definition sc_DelState :: "string \<Rightarrow> SmartConstract \<Rightarrow> SmartConstract" where
  "sc_DelState key sctx = sctx\<lparr>sc_stateExtra := se_delete (sc_scAddr sctx) key (sc_stateExtra sctx)\<rparr>"

definition SmartContractFailed :: "SmartConstract \<Rightarrow> SmartConstract" where
  "SmartContractFailed sctx = sctx\<lparr>sc_committed := False\<rparr>"

definition SmartContractCommitted :: "SmartConstract \<Rightarrow> SmartConstract" where
  "SmartContractCommitted sctx = sctx\<lparr>sc_committed := True\<rparr>"

text \<open>The new transaction is an object at the address \<open>p\<close>.\<close>

definition sc_AddTransfer :: "nat \<Rightarrow> string \<Rightarrow> string \<Rightarrow> int \<Rightarrow> u32 \<Rightarrow> SmartConstract \<Rightarrow> SmartConstract go" where
  "sc_AddTransfer p fromAddr toAddr amount txType sctx =
     (case sc_currentTx sctx of
        None \<Rightarrow> nil_deref
      | Some cur \<Rightarrow>
          let d = tx_Data cur;
              tx = NewTransaction p (td_FromChain d) (td_ToChain d) txType (td_Nonce d) (HexToAddress fromAddr)
                     (HexToAddress toAddr) (Some amount) (td_Fee d) (td_CreateTime d)
          in Ret (sctx\<lparr>sc_smartContractTxs := sc_smartContractTxs sctx @ [tx]\<rparr>))"

definition FinishContractTransaction :: "SmartConstract \<Rightarrow> gerr + Transaction list" where
  "FinishContractTransaction sctx =
     (if \<not> sc_committed sctx then Inl (ErrText ''Execute VM Fail'') else Inr (sc_smartContractTxs sctx))"

text \<open>The two loops range over maps; \<open>o1\<close> and \<open>o2\<close> are their orders. An operation that is neither put
  nor delete is only logged.\<close>

definition kv_batch :: "CacheKVs \<Rightarrow> WriteBatch list" where
  "kv_batch value =
     (if kv_optype value = OperationDelete then [NewWriteBatch ''scontract'' OperationDelete (str_bytes (kv_key value)) (kv_value value)]
      else if kv_optype value = OperationPut then [NewWriteBatch ''scontract'' OperationPut (str_bytes (kv_key value)) (kv_value value)]
      else [])"

definition AddChangesForPersistence ::
    "((string, ContractStateDelta) gomap \<Rightarrow> (string \<times> ContractStateDelta) list) \<Rightarrow>
     ((string, CacheKVs) gomap \<Rightarrow> (string \<times> CacheKVs) list) \<Rightarrow> WriteBatch list \<Rightarrow> SmartConstract \<Rightarrow> WriteBatch list" where
  "AddChangesForPersistence o1 o2 writeBatch sctx =
     writeBatch @ concat (map (\<lambda>(_, delta). concat (map (\<lambda>(_, value). kv_batch value) (o2 (csd_cacheKVs delta))))
       (o1 (se_Deltas (sc_stateExtra sctx))))"

section \<open>The cache as a map\<close>

text \<open>Every cached entry carries its own key, which belongs to its contract, and is a put or a delete.\<close>

definition kv_ok :: "string \<Rightarrow> string \<Rightarrow> CacheKVs \<Rightarrow> bool" where
  "kv_ok a k kv \<longleftrightarrow> kv_key kv = k \<and> (\<exists>key. k = EnSmartContractKey a key) \<and>
     (kv_optype kv = OperationPut \<or> kv_optype kv = OperationDelete)"

definition se_wf :: "StateExtra \<Rightarrow> bool" where
  "se_wf se \<longleftrightarrow> gm_wf (se_Deltas se) \<and>
     (\<forall>a d. gm_get (se_Deltas se) a = Some d \<longrightarrow> gm_wf (csd_cacheKVs d) \<and>
        (\<forall>k kv. gm_get (csd_cacheKVs d) k = Some kv \<longrightarrow> kv_ok a k kv))"

definition se_kv :: "StateExtra \<Rightarrow> string \<Rightarrow> string \<Rightarrow> CacheKVs option" where
  "se_kv se a key = gm_get (csd_cacheKVs (se_getOrCreate se a)) (EnSmartContractKey a key)"

lemma EnSmartContractKey_inj [simp]: "EnSmartContractKey a k = EnSmartContractKey a k' \<longleftrightarrow> k = k'"
  by (simp add: EnSmartContractKey_def)

lemma EnSmartContractKey_inj_len:
  "length a = length a' \<Longrightarrow> EnSmartContractKey a k = EnSmartContractKey a' k' \<longleftrightarrow> a = a' \<and> k = k'"
  by (simp add: EnSmartContractKey_def)

lemma Operation_neq [simp]: "OperationPut \<noteq> OperationDelete" "OperationDelete \<noteq> OperationPut"
  by (simp_all add: OperationPut_def OperationDelete_def)

lemma se_wf_new [simp]: "se_wf NewStateExtra"
  by (simp add: se_wf_def NewStateExtra_def)

lemma se_getOrCreate_wf:
  assumes "se_wf se"
  shows "gm_wf (csd_cacheKVs (se_getOrCreate se a)) \<and>
    (\<forall>k kv. gm_get (csd_cacheKVs (se_getOrCreate se a)) k = Some kv \<longrightarrow> kv_ok a k kv)"
  using assms by (auto simp: se_wf_def se_getOrCreate_def newContractStateDelta_def split: option.splits)

lemma se_wf_update:
  assumes "se_wf se" and "kv_ok a k kv"
  shows "se_wf (se\<lparr>se_Deltas := gm_set a ((se_getOrCreate se a)\<lparr>csd_cacheKVs :=
    gm_set k kv (csd_cacheKVs (se_getOrCreate se a))\<rparr>) (se_Deltas se)\<rparr>)"
  using assms se_getOrCreate_wf [OF assms(1), of a] unfolding se_wf_def by (auto simp: gm_get_set)

lemma se_set_wf: "se_wf se \<Longrightarrow> se_wf (se_set a key v se)"
  unfolding se_set_def csd_set_def by (rule se_wf_update) (auto simp: kv_ok_def newCacheKVs_def)

lemma se_delete_wf: "se_wf se \<Longrightarrow> se_wf (se_delete a key se)"
  unfolding se_delete_def csd_remove_def by (rule se_wf_update) (auto simp: kv_ok_def newCacheKVs_def)

lemma se_kv_set:
  "se_kv (se_set a key v se) a' key' = (if a' = a \<and> key' = key
     then Some (newCacheKVs OperationPut (EnSmartContractKey a key) v) else se_kv se a' key')"
  by (auto simp: se_kv_def se_set_def csd_set_def se_getOrCreate_def gm_get_set)

lemma se_kv_delete:
  "se_kv (se_delete a key se) a' key' = (if a' = a \<and> key' = key
     then Some (newCacheKVs OperationDelete (EnSmartContractKey a key) []) else se_kv se a' key')"
  by (auto simp: se_kv_def se_delete_def csd_remove_def se_getOrCreate_def gm_get_set)

lemma se_get_kv:
  "se_get se a key = (case se_kv se a key of None \<Rightarrow> [] | Some kv \<Rightarrow> if kv_optype kv \<noteq> OperationDelete then kv_value kv else [])"
  by (simp add: se_get_def se_kv_def se_getOrCreate_def csd_get_def newContractStateDelta_def split: option.splits)

lemma scontract_cf [simp]: "''scontract'' \<in> set (Columnfamilies DefaultConfig)"
  by (simp add: DefaultConfig_def)

text \<open>Within a block a contract reads the values it wrote, and a write to one key changes no other. But deleting
  a key, or writing an empty value, uncovers the value that the database had before the block.\<close>

theorem contract_reads:
  assumes "db_ready r db"
  shows "(v \<noteq> [] \<longrightarrow> sc_GetState r db (sc_AddState key v sctx) key = Ret (Inr v)) \<and>
    (key' \<noteq> key \<longrightarrow> sc_GetState r db (sc_AddState key v sctx) key' = sc_GetState r db sctx key' \<and>
       sc_GetState r db (sc_DelState key sctx) key' = sc_GetState r db sctx key') \<and>
    sc_GetState r db (sc_DelState key sctx) key =
      Ret (Inr (db_val r db ''scontract'' (str_bytes (EnSmartContractKey (sc_scAddr sctx) key))))"
  by (simp add: sc_GetState_def sc_AddState_def sc_DelState_def se_get_kv se_kv_set se_kv_delete newCacheKVs_def
      db_Get_ready [OF assms] Let_def)

theorem contract_reads_witness:
  "sc_GetState mem_rocks mem_db (sc_AddState ''k'' [1] NewSmartConstract) ''k'' = Ret (Inr [1])"
  using contract_reads [OF mem_db_ready0, of "[1]" "''k''" NewSmartConstract] by blast

section \<open>Persistence\<close>

definition all_kvs :: "((string, ContractStateDelta) gomap \<Rightarrow> (string \<times> ContractStateDelta) list) \<Rightarrow>
     ((string, CacheKVs) gomap \<Rightarrow> (string \<times> CacheKVs) list) \<Rightarrow> StateExtra \<Rightarrow> CacheKVs list" where
  "all_kvs o1 o2 se = concat (map (\<lambda>(_, d). map snd (o2 (csd_cacheKVs d))) (o1 (se_Deltas se)))"

definition kv_wb :: "CacheKVs \<Rightarrow> WriteBatch" where
  "kv_wb kv = NewWriteBatch ''scontract'' (kv_optype kv) (str_bytes (kv_key kv)) (kv_value kv)"

lemma concat_map_concat: "concat (map f (concat xss)) = concat (map (\<lambda>xs. concat (map f xs)) xss)"
  by (induction xss) simp_all

lemma AddChanges_all_kvs:
  "AddChangesForPersistence o1 o2 wbs sctx = wbs @ concat (map kv_batch (all_kvs o1 o2 (sc_stateExtra sctx)))"
  by (simp add: AddChangesForPersistence_def all_kvs_def concat_map_concat comp_def case_prod_beta case_prod_unfold)

lemma all_kvs_mem:
  assumes "\<And>m. range_order (o1 m) m" and "\<And>m. range_order (o2 m) m" and "se_wf se"
  shows "kv \<in> set (all_kvs o1 o2 se) \<longleftrightarrow> (\<exists>a key. se_kv se a key = Some kv)"
proof
  have wf: "gm_wf (se_Deltas se)" using assms(3) by (simp add: se_wf_def)
  assume "kv \<in> set (all_kvs o1 o2 se)"
  then obtain a d k where "(a, d) \<in> set (se_Deltas se)" and kv: "(k, kv) \<in> set (csd_cacheKVs d)"
    by (auto simp: all_kvs_def range_order_set [OF assms(1)] range_order_set [OF assms(2)])
  then have "gm_get (se_Deltas se) a = Some d" using gm_get_in [OF wf] by blast
  moreover from this have "gm_get (csd_cacheKVs d) k = Some kv" "kv_ok a k kv"
    using assms(3) kv gm_get_in [of "csd_cacheKVs d"] by (auto simp: se_wf_def)
  moreover from this obtain key where "k = EnSmartContractKey a key" by (auto simp: kv_ok_def)
  ultimately have "se_kv se a key = Some kv" by (simp add: se_kv_def se_getOrCreate_def)
  then show "\<exists>a key. se_kv se a key = Some kv" by blast
next
  have wf: "gm_wf (se_Deltas se)" using assms(3) by (simp add: se_wf_def)
  assume "\<exists>a key. se_kv se a key = Some kv"
  then obtain a key d where d: "gm_get (se_Deltas se) a = Some d"
    and "gm_get (csd_cacheKVs d) (EnSmartContractKey a key) = Some kv"
    by (auto simp: se_kv_def se_getOrCreate_def newContractStateDelta_def split: option.splits)
  then have "(EnSmartContractKey a key, kv) \<in> set (csd_cacheKVs d)" "(a, d) \<in> set (se_Deltas se)"
    using assms(3) gm_get_in [of "csd_cacheKVs d"] gm_get_in [OF wf] by (auto simp: se_wf_def)
  then show "kv \<in> set (all_kvs o1 o2 se)"
    by (force simp: all_kvs_def range_order_set [OF assms(1)] range_order_set [OF assms(2)])
qed

text \<open>Contract addresses have one length, so the keys of different contracts differ.\<close>

definition same_length :: "StateExtra \<Rightarrow> bool" where
  "same_length se \<longleftrightarrow> (\<forall>a a'. gm_has (se_Deltas se) a \<longrightarrow> gm_has (se_Deltas se) a' \<longrightarrow> length a = length a')"

lemma distinct_contract_keys:
  assumes "distinct (map fst es)"
    and "\<And>a d. (a, d) \<in> set es \<Longrightarrow> distinct (map kv_key (ks d)) \<and> (\<forall>kv \<in> set (ks d). \<exists>key. kv_key kv = EnSmartContractKey a key)"
    and "\<And>a d a' d'. (a, d) \<in> set es \<Longrightarrow> (a', d') \<in> set es \<Longrightarrow> length a = length a'"
  shows "distinct (map kv_key (concat (map (\<lambda>(_, d). ks d) es)))"
  using assms
proof (induction es)
  case (Cons e es)
  obtain a d where e: "e = (a, d)" by (cases e)
  have "kv_key kv \<noteq> kv_key kv'" if m: "kv \<in> set (ks d)" "(a', d') \<in> set es" "kv' \<in> set (ks d')" for kv kv' a' d'
  proof -
    have "\<exists>k. kv_key kv = EnSmartContractKey a k" "\<exists>k. kv_key kv' = EnSmartContractKey a' k"
      using Cons.prems(2) [of a d] Cons.prems(2) [of a' d'] e m by auto
    then obtain k k' where "kv_key kv = EnSmartContractKey a k" "kv_key kv' = EnSmartContractKey a' k'" by blast
    moreover have "length a = length a'" using Cons.prems(3) [of a d a' d'] e m by auto
    moreover have "a \<noteq> a'" using Cons.prems(1) e m(2) by force
    ultimately show ?thesis by (simp add: EnSmartContractKey_inj_len)
  qed
  moreover have "distinct (map kv_key (concat (map (\<lambda>(_, d). ks d) es)))"
  proof (rule Cons.IH)
    show "distinct (map fst es)" using Cons.prems(1) by simp
    show "length b = length b'" if "(b, d) \<in> set es" "(b', d') \<in> set es" for b d b' d'
      using Cons.prems(3) [of b d b' d'] that by simp
    show "distinct (map kv_key (ks d)) \<and> (\<forall>kv \<in> set (ks d). \<exists>key. kv_key kv = EnSmartContractKey b key)"
      if "(b, d) \<in> set es" for b d
      using Cons.prems(2) [of b d] that by simp
  qed
  ultimately show ?case
    using Cons.prems(2) [of a d] e by (fastforce simp: distinct_map inj_on_def)
qed simp

lemma all_kvs_distinct:
  assumes "\<And>m. range_order (o1 m) m" and "\<And>m. range_order (o2 m) m" and "se_wf se" and "same_length se"
  shows "distinct (map kv_key (all_kvs o1 o2 se))"
  unfolding all_kvs_def
proof (rule distinct_contract_keys)
  have wf: "gm_wf (se_Deltas se)" using assms(3) by (simp add: se_wf_def)
  show "distinct (map fst (o1 (se_Deltas se)))"
    using range_order_wf [OF assms(1) wf] by (simp add: gm_wf_def)
  show "length a = length a'" if "(a, d) \<in> set (o1 (se_Deltas se))" "(a', d') \<in> set (o1 (se_Deltas se))" for a d a' d'
    using that assms(4) range_order_set [OF assms(1), of "se_Deltas se"]
    by (auto simp: same_length_def gm_has_iff_dom) (metis fst_conv image_eqI)
  fix a d assume "(a, d) \<in> set (o1 (se_Deltas se))"
  then have "gm_get (se_Deltas se) a = Some d"
    using range_order_set [OF assms(1)] gm_get_in [OF wf] by metis
  then have d: "gm_wf (csd_cacheKVs d)" "\<And>k kv. (k, kv) \<in> set (o2 (csd_cacheKVs d)) \<Longrightarrow> kv_ok a k kv"
    using assms(3) range_order_set [OF assms(2), of "csd_cacheKVs d"] gm_get_in [of "csd_cacheKVs d"] by (auto simp: se_wf_def)
  have mk: "map (kv_key \<circ> snd) (o2 (csd_cacheKVs d)) = map fst (o2 (csd_cacheKVs d))"
    using d(2) by (auto simp: kv_ok_def)
  show "distinct (map kv_key (map snd (o2 (csd_cacheKVs d)))) \<and>
      (\<forall>kv \<in> set (map snd (o2 (csd_cacheKVs d))). \<exists>key. kv_key kv = EnSmartContractKey a key)"
    unfolding map_map mk using range_order_wf [OF assms(2) d(1)] d(2) by (auto simp: gm_wf_def kv_ok_def)
qed


lemma NewStateExtra_length: "same_length (se_set a key v NewStateExtra)"
  by (auto simp: same_length_def se_set_def NewStateExtra_def gm_has_def split: if_splits)


end
