(* ===== verification/State.thy ===== *)
theory State
  imports Db
begin

text \<open>
  The account state (\<^verbatim>\<open>core/ledger/state/state.go\<close>, \<^verbatim>\<open>balance.go\<close>): balances in the column family
  \<^verbatim>\<open>balance\<close>, and a cache \<^verbatim>\<open>tmpBalance\<close> of the accounts that the block being executed touches.
  Every operation changes the cache through the pointer it holds and returns the batch that would
  make the change durable. The operations refine a bank, a function from addresses to an
  amount and a nonce.
\<close>

section \<open>Balances\<close>

record Balance =
  bl_Amount :: "int option"
  bl_Nonce :: u32

definition NewBalance :: "int option \<Rightarrow> u32 \<Rightarrow> Balance" where
  "NewBalance amount nonce = \<lparr>bl_Amount = amount, bl_Nonce = nonce\<rparr>"

definition bl_ty :: gty where
  "bl_ty = TStruct [TBig, TUint 32]"

definition bl_val :: "Balance \<Rightarrow> gval" where
  "bl_val b = VStruct [VBig (bl_Amount b), VUint (ucast (bl_Nonce b))]"

definition val_bl :: "gval \<Rightarrow> Balance" where
  "val_bl v = (let f = as_fields v in \<lparr>bl_Amount = as_big (f ! 0), bl_Nonce = ucast (as_uint (f ! 1))\<rparr>)"

definition bl_serialize :: "Balance \<Rightarrow> bytes" where
  "bl_serialize b = Serialize (bl_val b)"

text \<open>The error of the decoder is only logged.\<close>

definition bl_deserialize :: "bytes \<Rightarrow> Balance" where
  "bl_deserialize balanceBytes = val_bl (fst (Deserialize bl_ty balanceBytes))"

section \<open>The state\<close>

record State =
  tmpBalance :: "(string, Balance) gomap"

definition st_OperationPlus :: u32 where "st_OperationPlus = 0"
definition st_OperationSub :: u32 where "st_OperationSub = 1"

definition NewState :: State where
  "NewState = \<lparr>tmpBalance = gm_empty\<rparr>"

definition balanceKey :: "Address \<Rightarrow> bytes" where
  "balanceKey a = str_bytes ''bl_'' @ a"

definition st_GetBalance :: "'d rocks \<Rightarrow> 'd BlockchainDB \<Rightarrow> Address \<Rightarrow> (int option \<times> u32 \<times> gerr option) go" where
  "st_GetBalance r db a =
     go_bind (db_Get r db ''balance'' (balanceKey a)) (\<lambda>res. Ret (
       case res of
         Inl err \<Rightarrow> (Some 0, 0, Some err)
       | Inr balanceBytes \<Rightarrow>
           if length balanceBytes = 0 then (Some 0, 0, None)
           else let balance = bl_deserialize balanceBytes in (bl_Amount balance, bl_Nonce balance, None)))"

definition st_Init :: "'d rocks \<Rightarrow> Address \<Rightarrow> (gerr, 'd BlockchainDB, unit) exec" where
  "st_Init r a = db_Put r ''balance'' (balanceKey a) (be_bytes 0)"

definition st_GetTmpBalance :: "'d rocks \<Rightarrow> 'd BlockchainDB \<Rightarrow> Address \<Rightarrow> (gerr, State, Balance) exec" where
  "st_GetTmpBalance r db addr st =
     (case gm_get (tmpBalance st) (addr_String addr) of
        Some balance \<Rightarrow> Ret (Inr balance, st)
      | None \<Rightarrow>
          go_bind (st_GetBalance r db addr) (\<lambda>(amount, nonce, err).
            case err of
              Some e \<Rightarrow> Ret (Inl e, st)
            | None \<Rightarrow> let b = NewBalance amount nonce in
                Ret (Inr b, st\<lparr>tmpBalance := gm_set (addr_String addr) b (tmpBalance st)\<rparr>)))"

text \<open>An assignment through the pointer that \<^verbatim>\<open>GetTmpBalance\<close> returned.\<close>

definition st_store :: "Address \<Rightarrow> Balance \<Rightarrow> State \<Rightarrow> State" where
  "st_store addr b st = st\<lparr>tmpBalance := gm_set (addr_String addr) b (tmpBalance st)\<rparr>"

definition st_checkBalance :: "int option \<Rightarrow> int option \<Rightarrow> int option \<Rightarrow> u32 \<Rightarrow> bool go" where
  "st_checkBalance balance change fee operation =
     go_bind (big_val balance) (\<lambda>b. go_bind (big_val change) (\<lambda>c. go_bind (big_val fee) (\<lambda>f.
       let tmp = (if operation = st_OperationPlus then b + c
                  else if operation = st_OperationSub then (b - f) - c else b)
       in Ret (\<not> tmp < 0))))"

definition put_balance :: "Address \<Rightarrow> Balance \<Rightarrow> WriteBatch" where
  "put_balance a b = NewWriteBatch ''balance'' OperationPut (balanceKey a) (bl_serialize b)"

definition st_UpdateBalance :: "'d rocks \<Rightarrow> 'd BlockchainDB \<Rightarrow> Address \<Rightarrow> Balance \<Rightarrow> int option \<Rightarrow> u32 \<Rightarrow>
    (gerr, State, WriteBatch list) exec" where
  "st_UpdateBalance r db a balance fee operation =
     ex_bind (st_GetTmpBalance r db a) (\<lambda>tmp.
       if operation = st_OperationPlus then
         ex_bind (ex_go (st_checkBalance (bl_Amount tmp) (bl_Amount balance) (Some 0) st_OperationPlus)) (\<lambda>ok.
           if \<not> ok then ex_err ErrNegativeBalance
           else ex_bind (ex_go (big_val (bl_Amount tmp))) (\<lambda>t. ex_bind (ex_go (big_val (bl_Amount balance))) (\<lambda>c. \<lambda>st.
             let tmp' = tmp\<lparr>bl_Amount := Some (t + c)\<rparr>
             in Ret (Inr [put_balance a tmp'], st_store a tmp' st))))
       else if operation = st_OperationSub then
         ex_bind (ex_go (st_checkBalance (bl_Amount tmp) (bl_Amount balance) fee st_OperationSub)) (\<lambda>ok.
           if \<not> ok then ex_err ErrNegativeBalance
           else ex_bind (ex_go (big_val (bl_Amount tmp))) (\<lambda>t. ex_bind (ex_go (big_val fee)) (\<lambda>f.
             ex_bind (ex_go (big_val (bl_Amount balance))) (\<lambda>c. \<lambda>st.
             let tmp' = tmp\<lparr>bl_Amount := Some (t - f - c), bl_Nonce := bl_Nonce balance\<rparr>
             in Ret (Inr [put_balance a tmp'], st_store a tmp' st)))))
       else ex_err (ErrText ''unknown operation''))"

definition st_Transfer :: "'d rocks \<Rightarrow> 'd BlockchainDB \<Rightarrow> Address \<Rightarrow> Address \<Rightarrow> int option \<Rightarrow> Balance \<Rightarrow> u32 \<Rightarrow>
    (gerr, State, WriteBatch list) exec" where
  "st_Transfer r db sender recipient fee balance txType =
     ex_bind (st_GetTmpBalance r db sender) (\<lambda>senderBalance.
       if addr_Equal sender recipient then
         ex_bind (ex_go (st_checkBalance (bl_Amount senderBalance) (Some 0) fee st_OperationSub)) (\<lambda>ok.
           if \<not> ok \<and> txType \<noteq> TypeIssue then ex_err ErrNegativeBalance
           else ex_bind (ex_go (big_val (bl_Amount senderBalance))) (\<lambda>s. ex_bind (ex_go (big_val fee)) (\<lambda>f. \<lambda>st.
             let sb = senderBalance\<lparr>bl_Amount := Some (s - f), bl_Nonce := bl_Nonce balance\<rparr>
             in Ret (Inr [put_balance sender sb], st_store sender sb st))))
       else
         ex_bind (ex_go (st_checkBalance (bl_Amount senderBalance) (bl_Amount balance) fee st_OperationSub)) (\<lambda>ok.
           if \<not> ok \<and> txType \<noteq> TypeIssue then ex_err ErrNegativeBalance
           else
             ex_bind (ex_go (big_val (bl_Amount senderBalance))) (\<lambda>s. ex_bind (ex_go (big_val fee)) (\<lambda>f.
             ex_bind (ex_go (big_val (bl_Amount balance))) (\<lambda>c.
             let sb = senderBalance\<lparr>bl_Amount := Some (s - f - c), bl_Nonce := bl_Nonce balance\<rparr> in
             ex_bind (\<lambda>st. Ret (Inr (), st_store sender sb st)) (\<lambda>_.
             ex_bind (st_GetTmpBalance r db recipient) (\<lambda>recipientBalance.
             ex_bind (ex_go (st_checkBalance (bl_Amount recipientBalance) (bl_Amount balance) (Some 0) st_OperationPlus)) (\<lambda>ok.
               if \<not> ok \<and> txType \<noteq> TypeIssue then ex_err ErrNegativeBalance
               else ex_bind (ex_go (big_val (bl_Amount recipientBalance))) (\<lambda>t. \<lambda>st.
                 let rb = recipientBalance\<lparr>bl_Amount := Some (t + c)\<rparr>
                 in Ret (Inr [put_balance sender sb, put_balance recipient rb], st_store recipient rb st))))))))))"

text \<open>The cache is emptied when the write succeeds.\<close>

definition st_AtomicWrite :: "'d rocks \<Rightarrow> WriteBatch list \<Rightarrow> (gerr, State \<times> 'd BlockchainDB, unit) exec" where
  "st_AtomicWrite r writeBatchs s =
     (case s of (st, db) \<Rightarrow>
        go_bind (db_AtomicWrite r writeBatchs db) (\<lambda>(res, db').
          case res of
            Inl err \<Rightarrow> Ret (Inl err, (st, db'))
          | Inr _ \<Rightarrow> Ret (Inr (), (st\<lparr>tmpBalance := gm_empty\<rparr>, db'))))"

section \<open>The bank\<close>

type_synonym bank = "Address \<Rightarrow> int \<times> u32"

definition bank_transfer :: "Address \<Rightarrow> Address \<Rightarrow> int \<Rightarrow> int \<Rightarrow> u32 \<Rightarrow> bool \<Rightarrow> bank \<Rightarrow> bank option" where
  "bank_transfer sender recipient fee amount nonce issue b =
     (if sender = recipient then
        (if fst (b sender) - fee < 0 \<and> \<not> issue then None else Some (b(sender := (fst (b sender) - fee, nonce))))
      else if (fst (b sender) - fee - amount < 0 \<or> fst (b recipient) + amount < 0) \<and> \<not> issue then None
      else Some (b(sender := (fst (b sender) - fee - amount, nonce),
                   recipient := (fst (b recipient) + amount, snd (b recipient)))))"

definition bank_plus :: "Address \<Rightarrow> int \<Rightarrow> bank \<Rightarrow> bank option" where
  "bank_plus a amount b =
     (if fst (b a) + amount < 0 then None else Some (b(a := (fst (b a) + amount, snd (b a)))))"

definition bank_sub :: "Address \<Rightarrow> int \<Rightarrow> int \<Rightarrow> u32 \<Rightarrow> bank \<Rightarrow> bank option" where
  "bank_sub a fee amount nonce b =
     (if fst (b a) - fee - amount < 0 then None else Some (b(a := (fst (b a) - fee - amount, nonce))))"

text \<open>The account that contents of the database hold, and the account as the cache shows it.\<close>

type_synonym contents = "string \<Rightarrow> bytes \<Rightarrow> bytes"

definition acct_of :: "Balance \<Rightarrow> int \<times> u32" where
  "acct_of b = (the (bl_Amount b), bl_Nonce b)"

definition db_balance :: "contents \<Rightarrow> Address \<Rightarrow> Balance" where
  "db_balance g a = (case g ''balance'' (balanceKey a) of [] \<Rightarrow> NewBalance (Some 0) 0 | bs \<Rightarrow> bl_deserialize bs)"

definition db_bank :: "contents \<Rightarrow> bank" where
  "db_bank g a = acct_of (db_balance g a)"

definition tmp_balance :: "contents \<Rightarrow> State \<Rightarrow> Address \<Rightarrow> Balance" where
  "tmp_balance g st a = (case gm_get (tmpBalance st) (addr_String a) of Some b \<Rightarrow> b | None \<Rightarrow> db_balance g a)"

definition st_bank :: "contents \<Rightarrow> State \<Rightarrow> bank" where
  "st_bank g st a = acct_of (tmp_balance g st a)"

text \<open>Every balance that can be read has an amount.\<close>

definition st_wf :: "contents \<Rightarrow> State \<Rightarrow> bool" where
  "st_wf g st \<longleftrightarrow> (\<forall>a. bl_Amount (tmp_balance g st a) \<noteq> None)"

definition put_acct :: "bank \<Rightarrow> Address \<Rightarrow> WriteBatch" where
  "put_acct b a = put_balance a (NewBalance (Some (fst (b a))) (snd (b a)))"

section \<open>Reading and storing\<close>

lemma balanceKey_inj [simp]: "balanceKey a = balanceKey b \<longleftrightarrow> a = b"
  by (simp add: balanceKey_def)

lemma balance_cf [simp]: "''balance'' \<in> set (Columnfamilies DefaultConfig)"
  by (simp add: DefaultConfig_def)

lemma tmp_balance_store [simp]: "tmp_balance g (st_store a b st) = (tmp_balance g st)(a := b)"
  by (simp add: tmp_balance_def st_store_def fun_eq_iff gm_get_set)

lemma st_bank_store [simp]: "st_bank g (st_store a b st) = (st_bank g st)(a := acct_of b)"
  by (simp add: st_bank_def fun_eq_iff)

lemma NewBalance_collapse [simp]: "NewBalance (bl_Amount b) (bl_Nonce b) = b"
  by (simp add: NewBalance_def)

lemma st_GetTmpBalance_ready:
  assumes "db_ready r db"
  shows "\<exists>st'. st_GetTmpBalance r db a st = Ret (Inr (tmp_balance (db_val r db) st a), st') \<and>
    tmp_balance (db_val r db) st' = tmp_balance (db_val r db) st"
proof (cases "gm_get (tmpBalance st) (addr_String a)")
  case None
  let ?b = "db_balance (db_val r db) a"
  have "st_GetBalance r db a = Ret (bl_Amount ?b, bl_Nonce ?b, None)"
    by (simp add: st_GetBalance_def db_Get_ready [OF assms] db_balance_def NewBalance_def Let_def split: list.split)
  moreover have "tmp_balance (db_val r db) (st\<lparr>tmpBalance := gm_set (addr_String a) ?b (tmpBalance st)\<rparr>)
      = tmp_balance (db_val r db) st"
    using None by (simp add: tmp_balance_def fun_eq_iff gm_get_set)
  ultimately show ?thesis
    using None by (simp add: st_GetTmpBalance_def Let_def) (simp add: tmp_balance_def)
qed (simp add: st_GetTmpBalance_def tmp_balance_def)

text \<open>Two states with the same readable balances are the same bank.\<close>

lemma st_bank_cong: "tmp_balance g st' = tmp_balance g st \<Longrightarrow> st_bank g st' = st_bank g st"
  by (simp add: st_bank_def fun_eq_iff)

lemma st_wf_cong: "tmp_balance g st' = tmp_balance g st \<Longrightarrow> st_wf g st' = st_wf g st"
  by (simp add: st_wf_def)

lemma st_wf_store: "st_wf g st \<Longrightarrow> bl_Amount b \<noteq> None \<Longrightarrow> st_wf g (st_store a b st)"
  by (simp add: st_wf_def)

lemma st_wf_balance:
  "st_wf g st \<Longrightarrow> tmp_balance g st a = NewBalance (Some (fst (st_bank g st a))) (snd (st_bank g st a))"
proof -
  assume "st_wf g st"
  then have "Some (the (bl_Amount (tmp_balance g st a))) = bl_Amount (tmp_balance g st a)" by (simp add: st_wf_def)
  then show ?thesis by (simp add: st_bank_def acct_of_def)
qed

lemma st_checkBalance_Some [simp]:
  "st_checkBalance (Some b) (Some c) (Some f) st_OperationPlus = Ret (0 \<le> b + c)"
  "st_checkBalance (Some b) (Some c) (Some f) st_OperationSub = Ret (0 \<le> b - f - c)"
  by (auto simp: st_checkBalance_def st_OperationPlus_def st_OperationSub_def Let_def)

lemma st_op_neq [simp]: "st_OperationSub \<noteq> st_OperationPlus" "st_OperationPlus \<noteq> st_OperationSub"
  by (simp_all add: st_OperationPlus_def st_OperationSub_def)

lemma NewBalance_sel [simp]: "bl_Amount (NewBalance a n) = a" "bl_Nonce (NewBalance a n) = n"
  "(NewBalance a n)\<lparr>bl_Amount := a'\<rparr> = NewBalance a' n" "(NewBalance a n)\<lparr>bl_Nonce := n'\<rparr> = NewBalance a n'"
  "acct_of (NewBalance (Some x) n) = (x, n)"
  by (simp_all add: NewBalance_def acct_of_def)

section \<open>Refinement of the bank\<close>

lemma st_Plus_refines:
  assumes db: "db_ready r db" and wf: "st_wf (db_val r db) st"
  shows "\<exists>st'. st_wf (db_val r db) st' \<and>
    (case bank_plus a amount (st_bank (db_val r db) st) of
       Some b \<Rightarrow> st_UpdateBalance r db a (NewBalance (Some amount) n) fee st_OperationPlus st = Ret (Inr [put_acct b a], st') \<and>
         st_bank (db_val r db) st' = b
     | None \<Rightarrow> st_UpdateBalance r db a (NewBalance (Some amount) n) fee st_OperationPlus st = Ret (Inl ErrNegativeBalance, st') \<and>
         st_bank (db_val r db) st' = st_bank (db_val r db) st)"
proof -
  let ?g = "db_val r db"
  obtain st1 where s1: "st_GetTmpBalance r db a st = Ret (Inr (tmp_balance ?g st a), st1)"
    and e1: "tmp_balance ?g st1 = tmp_balance ?g st" using st_GetTmpBalance_ready [OF db] by blast
  note b1 = st_wf_balance [OF wf, of a]
  have w1: "st_wf ?g st1" and bk1: "st_bank ?g st1 = st_bank ?g st"
    using wf st_wf_cong [OF e1] st_bank_cong [OF e1] by simp_all
  show ?thesis
  proof (cases "0 \<le> fst (st_bank ?g st a) + amount")
    case True
    let ?b = "NewBalance (Some (fst (st_bank ?g st a) + amount)) (snd (st_bank ?g st a))"
    from True have "st_UpdateBalance r db a (NewBalance (Some amount) n) fee st_OperationPlus st
        = Ret (Inr [put_balance a ?b], st_store a ?b st1)"
      by (simp add: st_UpdateBalance_def s1 b1 Let_def)
    then show ?thesis
      using True w1 e1 by (intro exI [of _ "st_store a ?b st1"])
        (simp add: bank_plus_def put_acct_def st_wf_store bk1)
  next
    case False
    then show ?thesis
      using w1 e1 by (intro exI [of _ st1]) (simp add: st_UpdateBalance_def s1 b1 bank_plus_def bk1)
  qed
qed

lemma st_Sub_refines:
  assumes db: "db_ready r db" and wf: "st_wf (db_val r db) st"
  shows "\<exists>st'. st_wf (db_val r db) st' \<and>
    (case bank_sub a fee amount n (st_bank (db_val r db) st) of
       Some b \<Rightarrow> st_UpdateBalance r db a (NewBalance (Some amount) n) (Some fee) st_OperationSub st = Ret (Inr [put_acct b a], st') \<and>
         st_bank (db_val r db) st' = b
     | None \<Rightarrow> st_UpdateBalance r db a (NewBalance (Some amount) n) (Some fee) st_OperationSub st = Ret (Inl ErrNegativeBalance, st') \<and>
         st_bank (db_val r db) st' = st_bank (db_val r db) st)"
proof -
  let ?g = "db_val r db"
  obtain st1 where s1: "st_GetTmpBalance r db a st = Ret (Inr (tmp_balance ?g st a), st1)"
    and e1: "tmp_balance ?g st1 = tmp_balance ?g st" using st_GetTmpBalance_ready [OF db] by blast
  note b1 = st_wf_balance [OF wf, of a]
  have w1: "st_wf ?g st1" and bk1: "st_bank ?g st1 = st_bank ?g st"
    using wf st_wf_cong [OF e1] st_bank_cong [OF e1] by simp_all
  show ?thesis
  proof (cases "0 \<le> fst (st_bank ?g st a) - fee - amount")
    case True
    let ?b = "NewBalance (Some (fst (st_bank ?g st a) - fee - amount)) n"
    from True have "st_UpdateBalance r db a (NewBalance (Some amount) n) (Some fee) st_OperationSub st
        = Ret (Inr [put_balance a ?b], st_store a ?b st1)"
      by (simp add: st_UpdateBalance_def s1 b1 Let_def)
    then show ?thesis
      using True w1 e1 by (intro exI [of _ "st_store a ?b st1"])
        (simp add: bank_sub_def put_acct_def st_wf_store bk1)
  next
    case False
    then show ?thesis
      using w1 e1 by (intro exI [of _ st1]) (simp add: st_UpdateBalance_def s1 b1 bank_sub_def bk1)
  qed
qed

text \<open>What the cache holds after a transfer: the bank's answer or, when only the recipient's check fails,
  the debit of the sender.\<close>

definition failed_transfer :: "Address \<Rightarrow> Address \<Rightarrow> int \<Rightarrow> int \<Rightarrow> u32 \<Rightarrow> bank \<Rightarrow> bank" where
  "failed_transfer sender recipient fee amount n b =
     (if sender \<noteq> recipient \<and> 0 \<le> fst (b sender) - fee - amount
      then b(sender := (fst (b sender) - fee - amount, n)) else b)"

lemma st_Transfer_self:
  assumes db: "db_ready r db" and wf: "st_wf (db_val r db) st" and len: "length a = 20"
  shows "\<exists>st'. st_wf (db_val r db) st' \<and>
    (case bank_transfer a a fee amount n (txType = TypeIssue) (st_bank (db_val r db) st) of
       Some b \<Rightarrow> st_Transfer r db a a (Some fee) (NewBalance amt n) txType st = Ret (Inr [put_acct b a], st') \<and>
         st_bank (db_val r db) st' = b
     | None \<Rightarrow> st_Transfer r db a a (Some fee) (NewBalance amt n) txType st = Ret (Inl ErrNegativeBalance, st') \<and>
         st_bank (db_val r db) st' = st_bank (db_val r db) st)"
proof -
  let ?g = "db_val r db"
  obtain st1 where s1: "st_GetTmpBalance r db a st = Ret (Inr (tmp_balance ?g st a), st1)"
    and e1: "tmp_balance ?g st1 = tmp_balance ?g st" using st_GetTmpBalance_ready [OF db] by blast
  note b1 = st_wf_balance [OF wf, of a]
  have w1: "st_wf ?g st1" and bk1: "st_bank ?g st1 = st_bank ?g st"
    using wf st_wf_cong [OF e1] st_bank_cong [OF e1] by simp_all
  have eq: "addr_Equal a a" using len by (simp add: addr_Equal_iff)
  show ?thesis
  proof (cases "0 \<le> fst (st_bank ?g st a) - fee \<or> txType = TypeIssue")
    case True
    let ?b = "NewBalance (Some (fst (st_bank ?g st a) - fee)) n"
    have "st_Transfer r db a a (Some fee) (NewBalance amt n) txType st = Ret (Inr [put_balance a ?b], st_store a ?b st1)"
      using True by (auto simp: st_Transfer_def s1 b1 Let_def eq)
    then show ?thesis
      using True w1 by (intro exI [of _ "st_store a ?b st1"])
        (auto simp: bank_transfer_def put_acct_def st_wf_store bk1)
  next
    case False
    then show ?thesis
      using w1 by (intro exI [of _ st1]) (simp add: st_Transfer_def s1 b1 eq bank_transfer_def bk1)
  qed
qed

lemma st_Transfer_other:
  assumes db: "db_ready r db" and wf: "st_wf (db_val r db) st" and len: "length s = 20" "length t = 20" and "s \<noteq> t"
  shows "\<exists>st'. st_wf (db_val r db) st' \<and>
    (case bank_transfer s t fee amount n (txType = TypeIssue) (st_bank (db_val r db) st) of
       Some b \<Rightarrow> st_Transfer r db s t (Some fee) (NewBalance (Some amount) n) txType st
                   = Ret (Inr [put_acct b s, put_acct b t], st') \<and> st_bank (db_val r db) st' = b
     | None \<Rightarrow> st_Transfer r db s t (Some fee) (NewBalance (Some amount) n) txType st = Ret (Inl ErrNegativeBalance, st') \<and>
         st_bank (db_val r db) st' = failed_transfer s t fee amount n (st_bank (db_val r db) st))"
proof -
  let ?g = "db_val r db"
  let ?B = "st_bank ?g st"
  obtain st1 where s1: "st_GetTmpBalance r db s st = Ret (Inr (tmp_balance ?g st s), st1)"
    and e1: "tmp_balance ?g st1 = tmp_balance ?g st" using st_GetTmpBalance_ready [OF db] by blast
  have w1: "st_wf ?g st1" and bk1: "st_bank ?g st1 = ?B"
    using wf st_wf_cong [OF e1] st_bank_cong [OF e1] by simp_all
  let ?sb = "NewBalance (Some (fst (?B s) - fee - amount)) n"
  let ?st = "st_store s ?sb st1"
  obtain st2 where s2: "st_GetTmpBalance r db t ?st = Ret (Inr (tmp_balance ?g ?st t), st2)"
    and e2: "tmp_balance ?g st2 = tmp_balance ?g ?st" using st_GetTmpBalance_ready [OF db] by blast
  have w2: "st_wf ?g st2" and bk2: "st_bank ?g st2 = ?B(s := (fst (?B s) - fee - amount, n))"
    using st_wf_store [OF w1, of ?sb s] st_wf_cong [OF e2] st_bank_cong [OF e2] by (simp_all add: bk1)
  have ne: "\<not> addr_Equal s t" using len \<open>s \<noteq> t\<close> by (simp add: addr_Equal_iff)
  note b1 = st_wf_balance [OF wf, of s]
  have b2: "tmp_balance ?g st1 t = NewBalance (Some (fst (?B t))) (snd (?B t))"
    using e1 st_wf_balance [OF wf, of t] by simp
  let ?rb = "NewBalance (Some (fst (?B t) + amount)) (snd (?B t))"
  consider (low) "\<not> 0 \<le> fst (?B s) - fee - amount" "txType \<noteq> TypeIssue"
    | (neg) "0 \<le> fst (?B s) - fee - amount" "\<not> 0 \<le> fst (?B t) + amount" "txType \<noteq> TypeIssue"
    | (ok) "0 \<le> fst (?B s) - fee - amount \<and> 0 \<le> fst (?B t) + amount \<or> txType = TypeIssue" by blast
  then show ?thesis
  proof cases
    case low
    then show ?thesis using w1 \<open>s \<noteq> t\<close> by (intro exI [of _ st1])
      (simp add: st_Transfer_def s1 b1 ne bank_transfer_def bk1 failed_transfer_def)
  next
    case neg
    then show ?thesis using w2 \<open>s \<noteq> t\<close> by (intro exI [of _ st2])
      (simp add: st_Transfer_def s1 b1 ne s2 b2 bank_transfer_def bk2 failed_transfer_def Let_def)
  next
    case ok
    then have "st_Transfer r db s t (Some fee) (NewBalance (Some amount) n) txType st
        = Ret (Inr [put_balance s ?sb, put_balance t ?rb], st_store t ?rb st2)"
      using \<open>s \<noteq> t\<close> by (auto simp: st_Transfer_def s1 b1 ne s2 b2 Let_def)
    then show ?thesis using ok w2 \<open>s \<noteq> t\<close> by (intro exI [of _ "st_store t ?rb st2"])
      (auto simp: bank_transfer_def put_acct_def st_wf_store bk2)
  qed
qed

section \<open>What a written balance reads as\<close>

lemma bl_roundtrip:
  assumes "amount_fits (Some x)"
  shows "bl_deserialize (bl_serialize (NewBalance (Some x) n)) = NewBalance (Some \<bar>x\<bar>) n"
proof -
  have "good (bl_val (NewBalance (Some x) n)) bl_ty"
    using assms by (simp add: bl_val_def bl_ty_def good_big amount_fits_def)
  then have "dec bl_ty (zero bl_ty) (recursiveEncode (bl_val (NewBalance (Some x) n)) @ []) =
      (norm (bl_val (NewBalance (Some x) n)), None, [])"
    using dec_recursiveEncode [of "bl_val (NewBalance (Some x) n)" bl_ty "[]"] by (simp add: bl_val_def)
  then show ?thesis
    by (simp add: bl_deserialize_def bl_serialize_def Deserialize_def Serialize_def bl_val_def val_bl_def as_fields_def
        as_big_def as_uint_def NewBalance_def)
qed

lemma bl_serialize_not_Nil [simp]: "bl_serialize b \<noteq> []"
  by (simp add: bl_serialize_def Serialize_def bl_val_def)

lemma db_balance_put:
  assumes "amount_fits (Some (fst (b a)))"
  shows "db_balance (apply_wb (put_acct b a) g) = (db_balance g)(a := NewBalance (Some \<bar>fst (b a)\<bar>) (snd (b a)))"
  using bl_roundtrip [OF assms, of "snd (b a)"]
  by (auto simp: db_balance_def put_acct_def put_balance_def NewWriteBatch_def apply_wb_def fun_eq_iff split: list.split)

lemma db_bank_put:
  assumes "amount_fits (Some (fst (b a)))"
  shows "db_bank (apply_wb (put_acct b a) g) = (db_bank g)(a := (\<bar>fst (b a)\<bar>, snd (b a)))"
  by (simp add: db_bank_def fun_eq_iff db_balance_put [where b = b, OF assms])

lemma st_bank_empty: "tmpBalance st = gm_empty \<Longrightarrow> st_bank g st = db_bank g"
  by (simp add: st_bank_def tmp_balance_def db_bank_def fun_eq_iff)

lemma st_AtomicWrite_ok:
  assumes "rocks_ok r" and "db_ready r db" and "known_cfs wbs"
    and "st_AtomicWrite r wbs (st, db) = Ret (Inr (), (st', db'))"
  shows "db_ready r db' \<and> db_val r db' = fold apply_wb wbs (db_val r db) \<and>
    st_bank (db_val r db') st' = db_bank (db_val r db')"
proof -
  from db_AtomicWrite_ready [OF assms(1-3)] obtain res d where
    d: "db_AtomicWrite r wbs db = Ret (res, d)" "db_ready r d"
    "case res of Inr _ \<Rightarrow> db_val r d = fold apply_wb wbs (db_val r db) | Inl _ \<Rightarrow> db_val r d = db_val r db"
    by blast
  show ?thesis
    using assms(4) d by (cases res) (auto simp: st_AtomicWrite_def st_bank_empty)
qed

lemma known_put [simp]: "known_cfs (put_acct b a # wbs) = known_cfs wbs"
  by (simp add: known_cfs_def put_acct_def put_balance_def NewWriteBatch_def)

lemma known_Nil [simp]: "known_cfs []"
  by (simp add: known_cfs_def)

lemma known_append [simp]: "known_cfs (xs @ ys) \<longleftrightarrow> known_cfs xs \<and> known_cfs ys"
  by (simp add: known_cfs_def)

section \<open>Properties\<close>

text \<open>C6: \<^verbatim>\<open>Transfer\<close> refines the transfer of a bank: when the sender can pay fee and amount, and always for an
  issuing transaction, it moves the amount, burns the fee, sets the nonce of the sender and
  returns exactly the batches of the changed accounts; otherwise it reports
  \<^verbatim>\<open>ErrNegativeBalance\<close>. If only the recipient's check fails (a negative amount) the debit of the
  sender stays in the cache.\<close>

theorem Transfer_refines:
  assumes "db_ready r db" and "st_wf (db_val r db) st" and "length s = 20" and "length t = 20"
  shows "\<exists>st'. st_wf (db_val r db) st' \<and>
    (case bank_transfer s t fee amount n (txType = TypeIssue) (st_bank (db_val r db) st) of
       Some b \<Rightarrow> st_Transfer r db s t (Some fee) (NewBalance (Some amount) n) txType st
                   = Ret (Inr (put_acct b s # (if s = t then [] else [put_acct b t])), st') \<and>
         st_bank (db_val r db) st' = b
     | None \<Rightarrow> st_Transfer r db s t (Some fee) (NewBalance (Some amount) n) txType st = Ret (Inl ErrNegativeBalance, st') \<and>
         st_bank (db_val r db) st' = failed_transfer s t fee amount n (st_bank (db_val r db) st))"
proof (cases "s = t")
  case True
  show ?thesis
    using st_Transfer_self [OF assms(1,2,4), where fee = fee and amount = amount and amt = "Some amount" and n = n and txType = txType]
    unfolding True by (cases "bank_transfer t t fee amount n (txType = TypeIssue) (st_bank (db_val r db) st)")
      (simp_all add: failed_transfer_def)
next
  case False
  with st_Transfer_other [OF assms False, where fee = fee and amount = amount and n = n and txType = txType] show ?thesis
    by (cases "bank_transfer s t fee amount n (txType = TypeIssue) (st_bank (db_val r db) st)") simp_all
qed

lemma mem_st_wf: "st_wf (db_val mem_rocks mem_db) NewState"
  by (simp add: st_wf_def tmp_balance_def NewState_def db_balance_def mem_db_val)

lemma mem_st_bank: "st_bank (db_val mem_rocks mem_db) NewState = (\<lambda>_. (0, 0))"
  by (simp add: st_bank_def tmp_balance_def NewState_def db_balance_def mem_db_val fun_eq_iff)

theorem Transfer_refines_witness:
  "\<exists>st'. st_Transfer mem_rocks mem_db zero_addr (replicate 20 1) (Some 0) (NewBalance (Some 5) 1) TypeAtomic NewState
     = Ret (Inl ErrNegativeBalance, st')"
  using Transfer_refines [OF mem_db_ready0 mem_st_wf, where s = zero_addr and t = "replicate 20 1" and fee = 0 and amount = 5 and n = 1
    and txType = TypeAtomic]
  by (auto simp: mem_st_bank bank_transfer_def zero_addr_def TypeAtomic_def TypeIssue_def)

text \<open>An issuing account is overdrawn in the cache, and the durable form of a balance has no sign. So after the
  batches of an issue are written, an issuer that could not pay owns what it owed: the
  absolute value of its negative balance.\<close>

theorem Issue_sign_lost:
  assumes "rocks_ok r" and "db_ready r db" and "st_wf (db_val r db) st" and "length s = 20" and "length t = 20" and "s \<noteq> t"
    and "fst (st_bank (db_val r db) st s) < fee + amount"
    and "amount_fits (Some (fst (st_bank (db_val r db) st s) - fee - amount))"
    and "amount_fits (Some (fst (st_bank (db_val r db) st t) + amount))"
    and "st_Transfer r db s t (Some fee) (NewBalance (Some amount) n) TypeIssue st = Ret (Inr wbs, st')"
    and "st_AtomicWrite r wbs (st', db) = Ret (Inr (), (st'', db'))"
  shows "st_bank (db_val r db') st'' s = (fee + amount - fst (st_bank (db_val r db) st s), n)"
proof -
  let ?B = "st_bank (db_val r db) st"
  let ?b = "?B(s := (fst (?B s) - fee - amount, n), t := (fst (?B t) + amount, snd (?B t)))"
  have wbs: "wbs = [put_acct ?b s, put_acct ?b t]"
    using st_Transfer_other [OF assms(2-6), where fee = fee and amount = amount and n = n and txType = TypeIssue] assms(6,10)
    by (auto simp: bank_transfer_def split: if_splits)
  have "db_bank (fold apply_wb wbs (db_val r db)) s = (\<bar>fst (?B s) - fee - amount\<bar>, n)"
    using assms(6,8,9) by (simp add: wbs db_bank_put)
  moreover have "st_bank (db_val r db') st'' = db_bank (fold apply_wb wbs (db_val r db))"
    using st_AtomicWrite_ok [OF assms(1,2) _ assms(11)] wbs by (metis known_put known_Nil)
  ultimately show ?thesis using assms(7) by simp
qed

theorem Issue_sign_lost_witness:
  "\<exists>wbs st' st'' db'.
     st_Transfer mem_rocks mem_db zero_addr (replicate 20 1) (Some 1) (NewBalance (Some 100) 1) TypeIssue NewState
       = Ret (Inr wbs, st') \<and>
     st_AtomicWrite mem_rocks wbs (st', mem_db) = Ret (Inr (), (st'', db')) \<and>
     st_bank (db_val mem_rocks db') st'' zero_addr = (101, 1)"
proof -
  have l: "length zero_addr = 20" "length (replicate 20 1 :: Address) = 20" "zero_addr \<noteq> replicate 20 1"
    by (simp_all add: zero_addr_def)
  obtain wbs st' where T: "st_Transfer mem_rocks mem_db zero_addr (replicate 20 1) (Some 1) (NewBalance (Some 100) 1) TypeIssue NewState
       = Ret (Inr wbs, st')" and k: "known_cfs wbs"
    using st_Transfer_other [OF mem_db_ready0 mem_st_wf l, where fee = 1 and amount = 100 and n = 1 and txType = TypeIssue] l(3)
    by (auto simp: bank_transfer_def)
  obtain res db' where "db_AtomicWrite mem_rocks wbs mem_db = Ret (res, db')"
    using db_AtomicWrite_ready [OF mem_rocks_ok mem_db_ready0 k] by blast
  moreover from this have "res = Inr ()"
    by (auto simp: db_AtomicWrite_def db_result_def mem_rocks_def)
  ultimately obtain st'' where W: "st_AtomicWrite mem_rocks wbs (st', mem_db) = Ret (Inr (), (st'', db'))"
    by (simp add: st_AtomicWrite_def)
  have "amount_fits (Some (- 101))" "amount_fits (Some 100)"
    by (simp_all add: amount_fits_def be_bytes.simps)
  then have "st_bank (db_val mem_rocks db') st'' zero_addr = (101, 1)"
    using Issue_sign_lost [OF mem_rocks_ok mem_db_ready0 mem_st_wf l _ _ _ T W] by (simp add: mem_st_bank)
  with T W show ?thesis by blast
qed

end
