(* ===== verification/Vm.thy ===== *)
theory Vm
  imports Contract State
begin

text \<open>
  The contract machine (\<^verbatim>\<open>vm\<close>, \<^verbatim>\<open>vm/luavm\<close>, \<^verbatim>\<open>vm/jsvm\<close>). A script runs in a child process; its calls
  read from the parent and collect changes in two queues of the child, and only when the
  script has returned true does \<^verbatim>\<open>CCallCommit\<close> send the queues to the parent.

  The script engines (gopher-lua, otto) are parameters: a run of a script is a value of the
  type \<open>script\<close>, a tree of the calls it makes. The pipe between the processes is not modelled; a call
  of the parent is a function on the parent's state.
\<close>

section \<open>Checks\<close>

text \<open>\<^verbatim>\<open>vm/check.go\<close>. An error is a message; a panic of the child is \<open>VPanic\<close>.\<close>

datatype verr = VErr string | VPanic string

record VMConfig =
  MaxScriptSize :: nat
  MaxStateValueSize :: nat
  MaxStateKeyLength :: nat

definition vm_DefaultConfig :: VMConfig where
  "vm_DefaultConfig = \<lparr>MaxScriptSize = 10240, MaxStateValueSize = 5120, MaxStateKeyLength = 256\<rparr>"

definition contractCodeKey :: string where
  "contractCodeKey = ''__CONTRACT_CODE_KEY__''"

definition CheckStateKey :: "VMConfig \<Rightarrow> string \<Rightarrow> verr option" where
  "CheckStateKey conf key =
     (if contractCodeKey = key then Some (VErr ''state key illegal'')
      else if length key > MaxStateKeyLength conf then Some (VErr ''state key too long'')
      else None)"

definition CheckStateValue :: "VMConfig \<Rightarrow> bytes option \<Rightarrow> verr option" where
  "CheckStateValue conf value =
     (case value of
        None \<Rightarrow> None
      | Some v \<Rightarrow> if length v > MaxStateValueSize conf then Some (VErr ''state value too long'') else None)"

definition CheckStateKeyValue :: "VMConfig \<Rightarrow> string \<Rightarrow> bytes option \<Rightarrow> verr option" where
  "CheckStateKeyValue conf key value =
     (case CheckStateKey conf key of
        Some err \<Rightarrow> Some err
      | None \<Rightarrow> (case CheckStateValue conf value of Some err \<Rightarrow> Some err | None \<Rightarrow> None))"

text \<open>The prefix is taken without a look at the length.\<close>

definition CheckAddr :: "string \<Rightarrow> verr option" where
  "CheckAddr addr =
     (if length addr < 2 then Some (VPanic ''slice bounds out of range'')
      else
        let addr' = (if take 2 addr = ''0x'' then drop 2 addr else addr) in
        case hex_decode addr' of
          None \<Rightarrow> Some (VErr ''account address illegal'')
        | Some addrByte \<Rightarrow>
            if length addrByte \<noteq> AddressLength then Some (VErr ''account address illegal'') else None)"

definition CheckContractCode :: "VMConfig \<Rightarrow> string \<Rightarrow> verr option" where
  "CheckContractCode conf code =
     (if length code = 0 \<or> length code > MaxScriptSize conf then Some (VErr ''contract script code size illegal'')
      else None)"

section \<open>Queues\<close>

text \<open>\<^verbatim>\<open>vm/callstack.go\<close>: lists that are filled at the front and emptied from the back.\<close>

datatype stateOp = StatePut string "bytes option" | StateDelete string

record stateQueue =
  ss_lst :: "stateOp golist"
  ss_stateMap :: "(string, bytes option) gomap"

definition NewStateQueue :: stateQueue where
  "NewStateQueue = \<lparr>ss_lst = gl_new, ss_stateMap = gm_empty\<rparr>"

definition ss_offer :: "stateOp \<Rightarrow> stateQueue \<Rightarrow> stateQueue" where
  "ss_offer opfunc ss = ss\<lparr>ss_lst := snd (gl_PushFront (ss_lst ss) opfunc)\<rparr>"

definition ss_poll :: "stateQueue \<Rightarrow> stateOp option \<times> stateQueue" where
  "ss_poll ss =
     (case gl_Back (ss_lst ss) of
        Some e \<Rightarrow> (Some (evalue e), ss\<lparr>ss_lst := gl_Remove (ss_lst ss) e\<rparr>)
      | None \<Rightarrow> (None, ss))"

record transferOp =
  to_txType :: u32
  to_from :: string
  to_to :: string
  to_amount :: i64

record transferQueue =
  tq_lst :: "transferOp golist"
  tq_balancesMap :: "(string, i64) gomap"

definition NewTransferQueue :: transferQueue where
  "NewTransferQueue = \<lparr>tq_lst = gl_new, tq_balancesMap = gm_empty\<rparr>"

definition tq_offer :: "transferOp \<Rightarrow> transferQueue \<Rightarrow> transferQueue" where
  "tq_offer opfunc tq = tq\<lparr>tq_lst := snd (gl_PushFront (tq_lst tq) opfunc)\<rparr>"

definition tq_poll :: "transferQueue \<Rightarrow> transferOp option \<times> transferQueue" where
  "tq_poll tq =
     (case gl_Back (tq_lst tq) of
        Some e \<Rightarrow> (Some (evalue e), tq\<lparr>tq_lst := gl_Remove (tq_lst tq) e\<rparr>)
      | None \<Rightarrow> (None, tq))"

section \<open>The two processes\<close>

record ContractSpec =
  cs_ContractAddr :: bytes
  cs_ContractCode :: bytes
  cs_ContractParams :: "string list"

record ContractData =
  cd_ContractCode :: string
  cd_ContractAddr :: string
  cd_ContractParams :: "string list"
  cd_Transaction :: Transaction

definition NewContractData :: "Transaction \<Rightarrow> ContractSpec \<Rightarrow> string \<Rightarrow> ContractData" where
  "NewContractData tx cs contractCode =
     \<lparr>cd_ContractCode = contractCode, cd_ContractAddr = BytesToHex (cs_ContractAddr cs),
      cd_ContractParams = cs_ContractParams cs, cd_Transaction = tx\<rparr>"

text \<open>The child, with the scripts that the Lua machine has compiled, by contract address.\<close>

record VMProc =
  vp_ContractAddr :: string
  vp_StateChangeQueue :: stateQueue
  vp_TransferQueue :: transferQueue
  vp_luaProto :: "(string, string) gomap"

definition resetProc :: "ContractData \<Rightarrow> VMProc \<Rightarrow> VMProc" where
  "resetProc cd vp = vp\<lparr>vp_ContractAddr := cd_ContractAddr cd, vp_StateChangeQueue := NewStateQueue,
     vp_TransferQueue := NewTransferQueue\<rparr>"

text \<open>The parent: the contract context, the account state, and the address of the next object.\<close>

record parent =
  pa_sc :: SmartConstract
  pa_st :: State
  pa_next :: nat

type_synonym procs = "VMProc \<times> parent"

text \<open>The parent's side of a call (\<^verbatim>\<open>requestHandle\<close> of \<^verbatim>\<open>vm/vm.go\<close>). A byte slice of length 0 arrives as nil.
  \<^verbatim>\<open>Ledger.GetTmpBalance\<close> reads the amount also when there is no balance.\<close>

definition rq_GetState :: "'d rocks \<Rightarrow> 'd BlockchainDB \<Rightarrow> string \<Rightarrow> (verr, procs, bytes option) exec" where
  "rq_GetState r db key s =
     go_bind (sc_GetState r db (pa_sc (snd s)) key) (\<lambda>res.
       Ret (case res of Inl err \<Rightarrow> Inl (VErr ''can't get date from db'')
                      | Inr v \<Rightarrow> Inr (if v = [] then None else Some v), s))"

definition ledger_GetTmpBalance :: "'d rocks \<Rightarrow> 'd BlockchainDB \<Rightarrow> Address \<Rightarrow> State \<Rightarrow> (int \<times> State) go" where
  "ledger_GetTmpBalance r db addr st =
     go_bind (st_GetTmpBalance r db addr st) (\<lambda>(res, st').
       case res of Inl err \<Rightarrow> nil_deref | Inr b \<Rightarrow> go_bind (big_val (bl_Amount b)) (\<lambda>n. Ret (n, st')))"

definition rq_GetBalances :: "'d rocks \<Rightarrow> 'd BlockchainDB \<Rightarrow> string \<Rightarrow> (verr, procs, i64) exec" where
  "rq_GetBalances r db addr s =
     (case s of (vp, pa) \<Rightarrow>
        go_bind (ledger_GetTmpBalance r db (HexToAddress addr) (pa_st pa)) (\<lambda>(n, st').
          Ret (Inr (word_of_int n), (vp, pa\<lparr>pa_st := st'\<rparr>))))"

definition rq_CurrentBlockHeight :: "'d rocks \<Rightarrow> 'd BlockchainDB \<Rightarrow> (verr, procs, u32) exec" where
  "rq_CurrentBlockHeight r db s =
     go_bind (bs_GetBlockchainHeight r db) (\<lambda>res. Ret (Inr (case res of Inl err \<Rightarrow> 0 | Inr h \<Rightarrow> h), s))"

definition rq_AddTransfer :: "transferOp \<Rightarrow> (verr, procs, unit) exec" where
  "rq_AddTransfer op s =
     (case s of (vp, pa) \<Rightarrow>
        go_bind (sc_AddTransfer (pa_next pa) (to_from op) (to_to op) (sint (to_amount op)) (to_txType op) (pa_sc pa)) (\<lambda>sc'.
          Ret (Inr (), (vp, pa\<lparr>pa_sc := sc', pa_next := Suc (pa_next pa)\<rparr>))))"

definition rq_ChangeState :: "stateOp \<Rightarrow> (verr, procs, unit) exec" where
  "rq_ChangeState op s =
     (case s of (vp, pa) \<Rightarrow>
        Ret (Inr (), (vp, pa\<lparr>pa_sc := (case op of
            StatePut key value \<Rightarrow> sc_AddState key (case value of None \<Rightarrow> [] | Some v \<Rightarrow> v) (pa_sc pa)
          | StateDelete key \<Rightarrow> sc_DelState key (pa_sc pa))\<rparr>)))"

definition rq_SmartContractFailed :: "(verr, procs, unit) exec" where
  "rq_SmartContractFailed s = (case s of (vp, pa) \<Rightarrow> Ret (Inr (), (vp, pa\<lparr>pa_sc := SmartContractFailed (pa_sc pa)\<rparr>)))"

definition rq_SmartContractCommitted :: "(verr, procs, unit) exec" where
  "rq_SmartContractCommitted s = (case s of (vp, pa) \<Rightarrow> Ret (Inr (), (vp, pa\<lparr>pa_sc := SmartContractCommitted (pa_sc pa)\<rparr>)))"

section \<open>The calls of a script\<close>

text \<open>\<^verbatim>\<open>vm/invoke.go\<close>, the child's side.\<close>

definition with_check :: "verr option \<Rightarrow> ('s \<Rightarrow> ((verr + 'a) \<times> 's) go) \<Rightarrow> 's \<Rightarrow> ((verr + 'a) \<times> 's) go" where
  "with_check err k = (case err of Some e \<Rightarrow> ex_err e | None \<Rightarrow> k)"

definition CCallGetState :: "VMConfig \<Rightarrow> 'd rocks \<Rightarrow> 'd BlockchainDB \<Rightarrow> string \<Rightarrow> (verr, procs, bytes option) exec" where
  "CCallGetState conf r db key =
     with_check (CheckStateKey conf key) (\<lambda>s.
       case gm_get (ss_stateMap (vp_StateChangeQueue (fst s))) key of
         Some v \<Rightarrow> Ret (Inr v, s)
       | None \<Rightarrow> rq_GetState r db key s)"

definition queue_state :: "string \<Rightarrow> bytes option \<Rightarrow> stateOp \<Rightarrow> VMProc \<Rightarrow> VMProc" where
  "queue_state key v op vp =
     vp\<lparr>vp_StateChangeQueue := ss_offer op ((vp_StateChangeQueue vp)
       \<lparr>ss_stateMap := gm_set key v (ss_stateMap (vp_StateChangeQueue vp))\<rparr>)\<rparr>"

definition CCallPutState :: "VMConfig \<Rightarrow> string \<Rightarrow> bytes option \<Rightarrow> (verr, procs, unit) exec" where
  "CCallPutState conf key value =
     with_check (CheckStateKeyValue conf key value) (\<lambda>(vp, pa).
       Ret (Inr (), (queue_state key value (StatePut key value) vp, pa)))"

definition CCallDelState :: "VMConfig \<Rightarrow> string \<Rightarrow> (verr, procs, unit) exec" where
  "CCallDelState conf key =
     with_check (CheckStateKey conf key) (\<lambda>(vp, pa).
       Ret (Inr (), (queue_state key None (StateDelete key) vp, pa)))"

definition cached_balance :: "'d rocks \<Rightarrow> 'd BlockchainDB \<Rightarrow> string \<Rightarrow> (verr, procs, i64) exec" where
  "cached_balance r db addr s =
     (case gm_get (tq_balancesMap (vp_TransferQueue (fst s))) addr of
        Some v \<Rightarrow> Ret (Inr v, s)
      | None \<Rightarrow> rq_GetBalances r db addr s)"

definition CCallGetBalances :: "'d rocks \<Rightarrow> 'd BlockchainDB \<Rightarrow> string \<Rightarrow> (verr, procs, i64) exec" where
  "CCallGetBalances r db addr = with_check (CheckAddr addr) (cached_balance r db addr)"

definition CCallCurrentBlockHeight :: "'d rocks \<Rightarrow> 'd BlockchainDB \<Rightarrow> (verr, procs, u32) exec" where
  "CCallCurrentBlockHeight r db = rq_CurrentBlockHeight r db"

text \<open>The two balances are read before either is written: a transfer to the own address ends with the
  recipient's sum.\<close>

definition queue_transfer :: "transferOp \<Rightarrow> i64 \<Rightarrow> i64 \<Rightarrow> VMProc \<Rightarrow> VMProc" where
  "queue_transfer op contractBalances recipientBalances vp =
     (let tq = vp_TransferQueue vp;
          m = gm_set (to_to op) (recipientBalances + to_amount op)
                (gm_set (to_from op) (contractBalances - to_amount op) (tq_balancesMap tq))
      in vp\<lparr>vp_TransferQueue := tq_offer op (tq\<lparr>tq_balancesMap := m\<rparr>)\<rparr>)"

definition do_transfer :: "'d rocks \<Rightarrow> 'd BlockchainDB \<Rightarrow> transferOp \<Rightarrow> (verr, procs, unit) exec" where
  "do_transfer r db op =
     ex_bind (cached_balance r db (to_from op)) (\<lambda>contractBalances.
       if sint contractBalances < sint (to_amount op) then ex_err (VErr ''balances not enough'')
       else ex_bind (cached_balance r db (to_to op)) (\<lambda>recipientBalances. \<lambda>(vp, pa).
         Ret (Inr (), (queue_transfer op contractBalances recipientBalances vp, pa))))"

definition CCallTransfer :: "'d rocks \<Rightarrow> 'd BlockchainDB \<Rightarrow> string \<Rightarrow> i64 \<Rightarrow> u32 \<Rightarrow> (verr, procs, unit) exec" where
  "CCallTransfer r db recipientAddr amount txType =
     with_check (CheckAddr recipientAddr) (\<lambda>s.
       if sint amount \<le> 0 then Ret (Inl (VErr ''amount must above 0''), s)
       else do_transfer r db \<lparr>to_txType = txType, to_from = vp_ContractAddr (fst s), to_to = recipientAddr,
              to_amount = amount\<rparr> s)"

text \<open>The loops of \<^verbatim>\<open>CCallCommit\<close>.\<close>

lemma gl_Remove_Back_length: "gl_Back l = Some e \<Longrightarrow> length (elems (gl_Remove l e)) < length (elems l)"
  by (cases "elems l" rule: rev_cases) (auto simp: gl_Back_def gl_Remove_def le_imp_less_Suc)

lemma tq_poll_length: "tq_poll tq = (Some op, tq') \<Longrightarrow> length (elems (tq_lst tq')) < length (elems (tq_lst tq))"
  using gl_Remove_Back_length by (auto simp: tq_poll_def split: option.splits)

lemma ss_poll_length: "ss_poll ss = (Some op, ss') \<Longrightarrow> length (elems (ss_lst ss')) < length (elems (ss_lst ss))"
  using gl_Remove_Back_length by (auto simp: ss_poll_def split: option.splits)

function commit_transfers :: "(verr, procs, unit) exec" where
  "commit_transfers (vp, pa) =
     (case tq_poll (vp_TransferQueue vp) of
        (None, tq') \<Rightarrow> Ret (Inr (), (vp\<lparr>vp_TransferQueue := tq'\<rparr>, pa))
      | (Some op, tq') \<Rightarrow>
          (case rq_AddTransfer op (vp\<lparr>vp_TransferQueue := tq'\<rparr>, pa) of
             Panic m \<Rightarrow> Panic m
           | Ret (Inl e, s') \<Rightarrow> Ret (Inl e, s')
           | Ret (Inr u, (_, pa')) \<Rightarrow> commit_transfers (vp\<lparr>vp_TransferQueue := tq'\<rparr>, pa')))"
  by pat_completeness auto
termination
  by (relation "measure (\<lambda>(vp, pa). length (elems (tq_lst (vp_TransferQueue vp))))")
    (auto dest: tq_poll_length [OF sym])

function commit_states :: "(verr, procs, unit) exec" where
  "commit_states (vp, pa) =
     (case ss_poll (vp_StateChangeQueue vp) of
        (None, ss') \<Rightarrow> Ret (Inr (), (vp\<lparr>vp_StateChangeQueue := ss'\<rparr>, pa))
      | (Some op, ss') \<Rightarrow>
          (case rq_ChangeState op (vp\<lparr>vp_StateChangeQueue := ss'\<rparr>, pa) of
             Panic m \<Rightarrow> Panic m
           | Ret (Inl e, s') \<Rightarrow> Ret (Inl e, s')
           | Ret (Inr u, (_, pa')) \<Rightarrow> commit_states (vp\<lparr>vp_StateChangeQueue := ss'\<rparr>, pa')))"
  by pat_completeness auto
termination
  by (relation "measure (\<lambda>(vp, pa). length (elems (ss_lst (vp_StateChangeQueue vp))))")
    (auto dest: ss_poll_length [OF sym])

definition CCallCommit :: "(verr, procs, unit) exec" where
  "CCallCommit = ex_bind commit_transfers (\<lambda>_. ex_bind commit_states (\<lambda>_. rq_SmartContractCommitted))"

section \<open>Running a script\<close>

datatype sres = RBool bool | RStr string | RNil

text \<open>A script returns, raises, or makes a call and goes on with its answer. A panic in a call ends it.\<close>

datatype script =
    SReturn sres
  | SRaise string
  | SGetState string "string + bytes option \<Rightarrow> script"
  | SPutState string "bytes option" "string option \<Rightarrow> script"
  | SDelState string "string option \<Rightarrow> script"
  | SGetBalances string "string + i64 \<Rightarrow> script"
  | SHeight "string + u32 \<Rightarrow> script"
  | STransfer string i64 "string option \<Rightarrow> script"

definition answer :: "(verr, 's, 'a) exec \<Rightarrow> (string + 'a \<Rightarrow> (verr, 's, sres) exec) \<Rightarrow> (verr, 's, sres) exec" where
  "answer call k s =
     go_bind (call s) (\<lambda>(res, s').
       case res of
         Inr x \<Rightarrow> k (Inr x) s'
       | Inl (VErr m) \<Rightarrow> k (Inl m) s'
       | Inl (VPanic m) \<Rightarrow> Ret (Inl (VPanic m), s'))"

definition err_of :: "string + unit \<Rightarrow> string option" where
  "err_of res = (case res of Inl m \<Rightarrow> Some m | Inr _ \<Rightarrow> None)"

primrec run_script :: "VMConfig \<Rightarrow> 'd rocks \<Rightarrow> 'd BlockchainDB \<Rightarrow> script \<Rightarrow> (verr, procs, sres) exec" where
  "run_script conf r db (SReturn v) = ex_ret v"
| "run_script conf r db (SRaise m) = ex_err (VErr m)"
| "run_script conf r db (SGetState key f) = answer (CCallGetState conf r db key) (\<lambda>x. run_script conf r db (f x))"
| "run_script conf r db (SPutState key v f) = answer (CCallPutState conf key v) (\<lambda>x. run_script conf r db (f (err_of x)))"
| "run_script conf r db (SDelState key f) = answer (CCallDelState conf key) (\<lambda>x. run_script conf r db (f (err_of x)))"
| "run_script conf r db (SGetBalances a f) = answer (CCallGetBalances r db a) (\<lambda>x. run_script conf r db (f x))"
| "run_script conf r db (SHeight f) = answer (CCallCurrentBlockHeight r db) (\<lambda>x. run_script conf r db (f x))"
| "run_script conf r db (STransfer a n f) = answer (CCallTransfer r db a n 0) (\<lambda>x. run_script conf r db (f (err_of x)))"

text \<open>The engines: whether the Lua compiler takes a text, and the run of a function of a text; whether a
  child process can be started.\<close>

record engines =
  lua_compile :: "string \<Rightarrow> string option"
  lua_run :: "string \<Rightarrow> string \<Rightarrow> ContractData \<Rightarrow> script"
  js_run :: "string \<Rightarrow> string \<Rightarrow> ContractData \<Rightarrow> script"
  proc_start :: "string \<Rightarrow> string option"

text \<open>The value and the error that \<^verbatim>\<open>execContract\<close> returns. Lua compiles the text of an address once and
  turns a panic of a call into an error; in the JavaScript machine the panic is recovered
  and both results are nil.\<close>

type_synonym exec_result = "sres \<times> string option"

definition lua_execContract :: "engines \<Rightarrow> VMConfig \<Rightarrow> 'd rocks \<Rightarrow> 'd BlockchainDB \<Rightarrow> ContractData \<Rightarrow> string \<Rightarrow> procs \<Rightarrow>
    (exec_result \<times> procs) go" where
  "lua_execContract en conf r db cd funcName s =
     (case s of (vp, pa) \<Rightarrow>
      case CheckContractCode conf (cd_ContractCode cd) of
        Some (VErr m) \<Rightarrow> Ret ((RBool False, Some m), s)
      | Some (VPanic m) \<Rightarrow> Ret ((RNil, None), s)
      | None \<Rightarrow>
          (case (case gm_get (vp_luaProto vp) (cd_ContractAddr cd) of
                   Some code \<Rightarrow> Inr (code, vp)
                 | None \<Rightarrow> (case lua_compile en (cd_ContractCode cd) of
                     Some m \<Rightarrow> Inl m
                   | None \<Rightarrow> Inr (cd_ContractCode cd,
                       vp\<lparr>vp_luaProto := gm_set (cd_ContractAddr cd) (cd_ContractCode cd) (vp_luaProto vp)\<rparr>))) of
             Inl m \<Rightarrow> Ret ((RNil, Some m), s)
           | Inr (code, vp') \<Rightarrow>
               go_bind (run_script conf r db (lua_run en code funcName cd) (vp', pa)) (\<lambda>(res, s').
                 Ret (case res of
                        Inr v \<Rightarrow> (v, None)
                      | Inl (VErr m) \<Rightarrow> (RBool False, Some m)
                      | Inl (VPanic m) \<Rightarrow> (RBool False, Some m), s'))))"

definition js_execContract :: "engines \<Rightarrow> VMConfig \<Rightarrow> 'd rocks \<Rightarrow> 'd BlockchainDB \<Rightarrow> ContractData \<Rightarrow> string \<Rightarrow> procs \<Rightarrow>
    (exec_result \<times> procs) go" where
  "js_execContract en conf r db cd funcName s =
     (case CheckContractCode conf (cd_ContractCode cd) of
        Some (VErr m) \<Rightarrow> Ret ((RBool False, Some m), s)
      | Some (VPanic m) \<Rightarrow> Ret ((RNil, None), s)
      | None \<Rightarrow>
          go_bind (run_script conf r db (js_run en (cd_ContractCode cd) funcName cd) s) (\<lambda>(res, s').
            Ret (case res of
                   Inr v \<Rightarrow> (v, None)
                 | Inl (VErr m) \<Rightarrow> (RBool False, Some m)
                 | Inl (VPanic m) \<Rightarrow> (RNil, None), s')))"

definition execContract :: "engines \<Rightarrow> VMConfig \<Rightarrow> 'd rocks \<Rightarrow> 'd BlockchainDB \<Rightarrow> string \<Rightarrow> ContractData \<Rightarrow> string \<Rightarrow> procs \<Rightarrow>
    (exec_result \<times> procs) go" where
  "execContract en conf r db lang = (if lang = ''luavm'' then lua_execContract en conf r db else js_execContract en conf r db)"

text \<open>\<^verbatim>\<open>RealInitContract\<close> and \<^verbatim>\<open>RealExecute\<close> of both machines: run, and commit if the script returned true.
  A result that is no boolean makes the type assertion panic.\<close>

definition vm_real :: "engines \<Rightarrow> VMConfig \<Rightarrow> 'd rocks \<Rightarrow> 'd BlockchainDB \<Rightarrow> string \<Rightarrow> ContractData \<Rightarrow> string \<Rightarrow> procs \<Rightarrow>
    ((bool \<times> string option) \<times> procs) go" where
  "vm_real en conf r db lang cd funcName s =
     (case s of (vp, pa) \<Rightarrow>
      go_bind (execContract en conf r db lang cd funcName (resetProc cd vp, pa)) (\<lambda>((v, err), s1).
        case v of
          RBool ok \<Rightarrow>
            if \<not> ok \<or> err \<noteq> None then Ret ((ok, err), s1)
            else go_bind (CCallCommit s1) (\<lambda>(res, s2).
              case res of
                Inr _ \<Rightarrow> Ret ((ok, None), s2)
              | Inl e \<Rightarrow> go_bind (rq_SmartContractFailed s2) (\<lambda>(_, s3).
                  Ret ((False, Some (case e of VErr m \<Rightarrow> m | VPanic m \<Rightarrow> m)), s3)))
        | _ \<Rightarrow> Panic ''interface conversion: interface is not bool''))"

definition QueryContract :: "engines \<Rightarrow> VMConfig \<Rightarrow> 'd rocks \<Rightarrow> 'd BlockchainDB \<Rightarrow> string \<Rightarrow> ContractData \<Rightarrow> procs \<Rightarrow>
    ((bytes \<times> string option) \<times> procs) go" where
  "QueryContract en conf r db lang cd s =
     (case s of (vp, pa) \<Rightarrow>
      go_bind (execContract en conf r db lang cd ''L0Query'' (resetProc cd vp, pa)) (\<lambda>((v, err), s1).
        if err \<noteq> None then Ret (([], err), s1)
        else case v of RStr x \<Rightarrow> Ret ((str_bytes x, None), s1)
             | _ \<Rightarrow> Panic ''interface conversion: interface is not string''))"

section \<open>Executing a transaction\<close>

text \<open>\<^verbatim>\<open>vm/vm.go\<close>, for the calls that commit; \<^verbatim>\<open>PreExecute\<close> has no caller.\<close>

definition code_ty :: gty where
  "code_ty = TStruct [TBytes, TString]"

definition code_val :: "bytes \<Rightarrow> string \<Rightarrow> gval" where
  "code_val code lang = VStruct [VBytes code, VString (str_bytes lang)]"

text \<open>Code in the transaction wins over the code of the contract.\<close>

definition getContractCode :: "'d rocks \<Rightarrow> 'd BlockchainDB \<Rightarrow> ContractSpec \<Rightarrow> u32 \<Rightarrow> SmartConstract \<Rightarrow>
    (gerr + (string \<times> string)) go" where
  "getContractCode r db cs txType sctx =
     (if length (cs_ContractCode cs) > 0 then
        Ret (Inr (bytes_str (cs_ContractCode cs), if txType = TypeJSContractInit then ''jsvm'' else ''luavm''))
      else go_bind (sc_GetState r db sctx contractCodeKey) (\<lambda>res.
        Ret (case res of
               Inl err \<Rightarrow> Inl err
             | Inr code \<Rightarrow>
                 if length code \<noteq> 0 then
                   let f = as_fields (fst (Deserialize code_ty code))
                   in Inr (bytes_str (as_bytes (f ! 0)), bytes_str (as_bytes (f ! 1)))
                 else Inl (ErrText ''cat't find contract code in db''))))"

definition text_err :: "string option \<Rightarrow> gerr option" where
  "text_err e = map_option ErrText e"

definition bool_result :: "(bool \<times> string option) \<times> procs \<Rightarrow> ((bool + bytes) \<times> gerr option) \<times> procs" where
  "bool_result x = (case x of ((ok, err), s) \<Rightarrow> ((Inl ok, text_err err), s))"

definition bytes_result :: "(bytes \<times> string option) \<times> procs \<Rightarrow> ((bool + bytes) \<times> gerr option) \<times> procs" where
  "bytes_result x = (case x of ((b, err), s) \<Rightarrow> ((Inr b, text_err err), s))"

definition add_code :: "ContractSpec \<Rightarrow> string \<Rightarrow> procs \<Rightarrow> procs" where
  "add_code cs lang s =
     (case s of (vp, pa) \<Rightarrow>
        (vp, pa\<lparr>pa_sc := sc_AddState contractCodeKey (Serialize (code_val (cs_ContractCode cs) lang)) (pa_sc pa)\<rparr>))"

text \<open>A code entry of neither machine leaves the machine nil. The result is a boolean or bytes.\<close>

definition vm_execute :: "engines \<Rightarrow> VMConfig \<Rightarrow> 'd rocks \<Rightarrow> 'd BlockchainDB \<Rightarrow> Transaction \<Rightarrow> ContractSpec \<Rightarrow> procs \<Rightarrow>
    (((bool + bytes) \<times> gerr option) \<times> procs) go" where
  "vm_execute en conf r db tx cs s =
     go_bind (getContractCode r db cs (tx_Type tx) (pa_sc (snd s))) (\<lambda>res.
       case res of
         Inl err \<Rightarrow> Ret ((Inl False, Some err), s)
       | Inr (contractCode, contractType) \<Rightarrow>
           (case (if contractType = ''jsvm'' \<or> contractType = ''luavm'' then proc_start en contractType else None) of
              Some err \<Rightarrow> Ret ((Inl False, Some (ErrText err)), s)
            | None \<Rightarrow>
                let cd = NewContractData tx cs contractCode;
                    missing = (contractType \<noteq> ''jsvm'' \<and> contractType \<noteq> ''luavm'');
                    real = (\<lambda>f s. if missing then nil_deref else
                              go_bind (vm_real en conf r db contractType cd f s) (\<lambda>x. Ret (bool_result x)))
                in if tx_Type tx = TypeJSContractInit then real ''L0Init'' (add_code cs ''jsvm'' s)
                   else if tx_Type tx = TypeLuaContractInit then real ''L0Init'' (add_code cs ''luavm'' s)
                   else if tx_Type tx = TypeContractInvoke then real ''L0Invoke'' s
                   else if tx_Type tx = TypeContractQuery then
                     (if missing then nil_deref
                      else go_bind (QueryContract en conf r db contractType cd s) (\<lambda>x. Ret (bytes_result x)))
                   else Ret ((Inl False, Some (ErrText ''Transaction type error'')), s)))"

definition vm_RealExecute :: "engines \<Rightarrow> VMConfig \<Rightarrow> 'd rocks \<Rightarrow> 'd BlockchainDB \<Rightarrow> Transaction \<Rightarrow> ContractSpec \<Rightarrow> procs \<Rightarrow>
    ((bool \<times> gerr option) \<times> procs) go" where
  "vm_RealExecute en conf r db tx cs s =
     go_bind (vm_execute en conf r db tx cs s) (\<lambda>((ret, err), s').
       if err \<noteq> None then Ret ((False, err), s')
       else case ret of Inl b \<Rightarrow> Ret ((b, None), s')
            | Inr _ \<Rightarrow> Panic ''interface conversion: interface is not bool'')"

definition vm_Query :: "engines \<Rightarrow> VMConfig \<Rightarrow> 'd rocks \<Rightarrow> 'd BlockchainDB \<Rightarrow> Transaction \<Rightarrow> ContractSpec \<Rightarrow> procs \<Rightarrow>
    ((bytes \<times> gerr option) \<times> procs) go" where
  "vm_Query en conf r db tx cs s =
     go_bind (vm_execute en conf r db tx cs s) (\<lambda>((ret, err), s').
       if err \<noteq> None then Ret (([], err), s')
       else case ret of Inr b \<Rightarrow> Ret ((b, None), s')
            | Inl _ \<Rightarrow> Panic ''interface conversion: interface is not bytes'')"

section \<open>A script cannot touch the parent\<close>

text \<open>Two parents that differ at most in which balances they have cached.\<close>

definition same_parent :: "(string \<Rightarrow> bytes \<Rightarrow> bytes) \<Rightarrow> parent \<Rightarrow> parent \<Rightarrow> bool" where
  "same_parent g pa pa' \<longleftrightarrow> pa_sc pa' = pa_sc pa \<and> pa_next pa' = pa_next pa \<and>
     tmp_balance g (pa_st pa') = tmp_balance g (pa_st pa)"

text \<open>The queues stay well formed.\<close>

definition vp_wf :: "VMProc \<Rightarrow> bool" where
  "vp_wf vp \<longleftrightarrow> gl_wf (ss_lst (vp_StateChangeQueue vp)) \<and> gl_wf (tq_lst (vp_TransferQueue vp))"

definition isolated :: "(string \<Rightarrow> bytes \<Rightarrow> bytes) \<Rightarrow> (verr, procs, 'a) exec \<Rightarrow> bool" where
  "isolated g m \<longleftrightarrow> (\<forall>s res s'. m s = Ret (res, s') \<longrightarrow> vp_wf (fst s) \<longrightarrow>
     same_parent g (snd s) (snd s') \<and> vp_wf (fst s'))"

lemma isolatedI:
  "(\<And>vp pa res vp' pa'. m (vp, pa) = Ret (res, (vp', pa')) \<Longrightarrow> vp_wf vp \<Longrightarrow> same_parent g pa pa' \<and> vp_wf vp') \<Longrightarrow> isolated g m"
  by (auto simp: isolated_def)

lemma same_parent_refl [simp]: "same_parent g pa pa"
  by (simp add: same_parent_def)

lemma same_parent_trans: "same_parent g a b \<Longrightarrow> same_parent g b c \<Longrightarrow> same_parent g a c"
  by (simp add: same_parent_def)

lemma isolated_ret [simp]: "isolated g (ex_ret v)" "isolated g (ex_err e)"
  by (simp_all add: isolated_def)

lemma isolated_bind:
  assumes "isolated g m" and "\<And>x. isolated g (k x)"
  shows "isolated g (ex_bind m k)"
proof (rule isolatedI)
  fix vp pa res vp' pa'
  assume e: "ex_bind m k (vp, pa) = Ret (res, (vp', pa'))" and "vp_wf vp"
  then obtain q vp1 pa1 where m: "m (vp, pa) = Ret (q, (vp1, pa1))" by (auto simp: ex_bind_def)
  with assms(1) \<open>vp_wf vp\<close> have 1: "same_parent g pa pa1" "vp_wf vp1" by (auto simp: isolated_def)
  show "same_parent g pa pa' \<and> vp_wf vp'"
  proof (cases q)
    case (Inl a)
    with e m 1 show ?thesis by simp
  next
    case (Inr b)
    with e m have "k b (vp1, pa1) = Ret (res, (vp', pa'))" by simp
    with assms(2) 1 have "same_parent g pa1 pa' \<and> vp_wf vp'" by (auto simp: isolated_def)
    with 1 show ?thesis by (blast intro: same_parent_trans)
  qed
qed

lemma isolated_answer:
  assumes "isolated g m" and "\<And>x. isolated g (k x)"
  shows "isolated g (answer m k)"
proof (rule isolatedI)
  fix vp pa res vp' pa'
  assume e: "answer m k (vp, pa) = Ret (res, (vp', pa'))" and "vp_wf vp"
  then obtain q vp1 pa1 where m: "m (vp, pa) = Ret (q, (vp1, pa1))" by (auto simp: answer_def)
  with assms(1) \<open>vp_wf vp\<close> have 1: "same_parent g pa pa1" "vp_wf vp1" by (auto simp: isolated_def)
  from e m consider "vp' = vp1 \<and> pa' = pa1" | x where "k x (vp1, pa1) = Ret (res, (vp', pa'))"
    by (auto simp: answer_def split: sum.splits verr.splits)
  then show "same_parent g pa pa' \<and> vp_wf vp'"
  proof cases
    case 2
    with assms(2) 1 have "same_parent g pa1 pa' \<and> vp_wf vp'" by (auto simp: isolated_def)
    with 1 show ?thesis by (blast intro: same_parent_trans)
  qed (use 1 in simp)
qed

lemma isolated_check: "isolated g m \<Longrightarrow> isolated g (with_check e m)"
  by (cases e) (simp_all add: with_check_def)

lemma isolated_GetBalances: "db_ready r db \<Longrightarrow> isolated (db_val r db) (rq_GetBalances r db a)"
proof (rule isolatedI)
  fix vp pa res vp' pa'
  assume db: "db_ready r db" and e: "rq_GetBalances r db a (vp, pa) = Ret (res, (vp', pa'))" and "vp_wf vp"
  obtain st' where "st_GetTmpBalance r db (HexToAddress a) (pa_st pa) =
      Ret (Inr (tmp_balance (db_val r db) (pa_st pa) (HexToAddress a)), st')"
    "tmp_balance (db_val r db) st' = tmp_balance (db_val r db) (pa_st pa)"
    using st_GetTmpBalance_ready [OF db] by blast
  with e \<open>vp_wf vp\<close> show "same_parent (db_val r db) pa pa' \<and> vp_wf vp'"
    by (auto simp: rq_GetBalances_def ledger_GetTmpBalance_def same_parent_def)
qed

lemma isolated_calls:
  assumes "db_ready r db"
  shows "isolated (db_val r db) (CCallGetState conf r db key)"
    and "isolated (db_val r db) (CCallPutState conf key v)"
    and "isolated (db_val r db) (CCallDelState conf key)"
    and "isolated (db_val r db) (cached_balance r db a)"
    and "isolated (db_val r db) (CCallCurrentBlockHeight r db)"
proof -
  show "isolated (db_val r db) (CCallGetState conf r db key)"
    unfolding CCallGetState_def
    by (intro isolated_check isolatedI) (auto simp: rq_GetState_def split: option.splits)
  show "isolated (db_val r db) (CCallPutState conf key v)" "isolated (db_val r db) (CCallDelState conf key)"
    unfolding CCallPutState_def CCallDelState_def
    by (intro isolated_check isolatedI; auto simp: queue_state_def ss_offer_def vp_wf_def)+
  show "isolated (db_val r db) (cached_balance r db a)"
    using isolated_GetBalances [OF assms, of a]
    by (auto simp: isolated_def cached_balance_def split: option.splits)
  show "isolated (db_val r db) (CCallCurrentBlockHeight r db)"
    unfolding CCallCurrentBlockHeight_def by (intro isolatedI) (auto simp: rq_CurrentBlockHeight_def)
qed

lemma isolated_queue: "isolated g (\<lambda>(vp, pa). Ret (Inr (), (queue_transfer op cb rb vp, pa)))"
  by (rule isolatedI) (auto simp: queue_transfer_def Let_def tq_offer_def vp_wf_def)

lemma isolated_if: "isolated g m \<Longrightarrow> isolated g n \<Longrightarrow> isolated g (if b then m else n)"
  by simp

lemma isolated_do_transfer: "db_ready r db \<Longrightarrow> isolated (db_val r db) (do_transfer r db op)"
  unfolding do_transfer_def
  by (intro isolated_bind isolated_calls isolated_if isolated_queue isolated_ret)

lemma isolated_Transfer:
  assumes "db_ready r db"
  shows "isolated (db_val r db) (CCallTransfer r db a n ty)"
  unfolding CCallTransfer_def
  using isolated_do_transfer [OF assms]
  by (intro isolated_check) (auto simp: isolated_def)

lemma run_isolated:
  assumes "db_ready r db"
  shows "isolated (db_val r db) (run_script conf r db scr)"
proof (induction scr)
  case (SGetBalances a f)
  then show ?case by (auto intro!: isolated_answer isolated_check isolated_calls [OF assms] simp: CCallGetBalances_def)
qed (auto intro!: isolated_answer isolated_calls [OF assms] isolated_Transfer [OF assms] simp: isolated_def [of _ "\<lambda>s. Ret (_, s)"])

lemma exec_isolated:
  assumes "db_ready r db" and "vp_wf vp" and "execContract en conf r db lang cd f (vp, pa) = Ret (ve, (vp', pa'))"
  shows "same_parent (db_val r db) pa pa' \<and> vp_wf vp'"
proof -
  have run: "same_parent (db_val r db) pa pa' \<and> vp_wf vp'"
    if "run_script conf r db scr (vp1, pa) = Ret (res, (vp', pa'))" "vp_wf vp1" for scr vp1 res
    using run_isolated [OF assms(1), of conf scr] that unfolding isolated_def by fastforce
  have "vp_wf (vp\<lparr>vp_luaProto := m\<rparr>)" for m using assms(2) by (simp add: vp_wf_def)
  with assms(2,3) show ?thesis
    by (auto simp: execContract_def lua_execContract_def js_execContract_def split: if_splits option.splits verr.splits dest!: run)
qed

text \<open>C24: a script cannot change the ledger: whatever it calls, in whatever order, the contract context of the
  parent and every balance that the parent can read stay as they are until the commit.\<close>

theorem script_isolated:
  assumes "db_ready r db" and "vp_wf vp" and "run_script conf r db scr (vp, pa) = Ret (res, (vp', pa'))"
  shows "pa_sc pa' = pa_sc pa \<and> st_bank (db_val r db) (pa_st pa') = st_bank (db_val r db) (pa_st pa) \<and> vp_wf vp'"
proof -
  have "same_parent (db_val r db) pa pa' \<and> vp_wf vp'"
    using run_isolated [OF assms(1), of conf scr] assms(2,3) unfolding isolated_def by fastforce
  then show ?thesis by (simp add: same_parent_def st_bank_def fun_eq_iff)
qed

section \<open>The commit\<close>

text \<open>The queued operations in the order of the calls, and what replaying them gives.\<close>

definition queued_transfers :: "VMProc \<Rightarrow> transferOp list" where
  "queued_transfers vp = rev (gl_vals (tq_lst (vp_TransferQueue vp)))"

definition queued_states :: "VMProc \<Rightarrow> stateOp list" where
  "queued_states vp = rev (gl_vals (ss_lst (vp_StateChangeQueue vp)))"

definition contract_tx :: "Transaction \<Rightarrow> nat \<Rightarrow> transferOp \<Rightarrow> Transaction" where
  "contract_tx cur p op =
     NewTransaction p (td_FromChain (tx_Data cur)) (td_ToChain (tx_Data cur)) (to_txType op) (td_Nonce (tx_Data cur))
       (HexToAddress (to_from op)) (HexToAddress (to_to op)) (Some (sint (to_amount op))) (td_Fee (tx_Data cur))
       (td_CreateTime (tx_Data cur))"

fun contract_txs :: "Transaction \<Rightarrow> nat \<Rightarrow> transferOp list \<Rightarrow> Transaction list" where
  "contract_txs cur p [] = []"
| "contract_txs cur p (op # ops) = contract_tx cur p op # contract_txs cur (Suc p) ops"

fun apply_stateOp :: "stateOp \<Rightarrow> SmartConstract \<Rightarrow> SmartConstract" where
  "apply_stateOp (StatePut key v) sc = sc_AddState key (case v of None \<Rightarrow> [] | Some b \<Rightarrow> b) sc"
| "apply_stateOp (StateDelete key) sc = sc_DelState key sc"

lemma gl_poll_snoc:
  assumes "gl_wf l" and "gl_vals l = vs @ [v]"
  shows "\<exists>e. gl_Back l = Some e \<and> evalue e = v \<and> gl_wf (gl_Remove l e) \<and> gl_vals (gl_Remove l e) = vs"
proof -
  obtain es e where es: "elems l = es @ [e]" "map evalue es = vs" "evalue e = v"
    using assms(2) by (cases "elems l" rule: rev_cases) (auto simp: gl_vals_def)
  then have "eaddr e \<notin> eaddr ` set es" using assms(1) by (auto simp: gl_wf_def)
  then have "filter (\<lambda>x. eaddr x \<noteq> eaddr e) es = es" by (rule filter_neq_id)
  with es assms(1) gl_wf_Remove [OF assms(1), of e] show ?thesis
    by (simp add: gl_Back_def gl_Remove_def gl_vals_def)
qed

lemma gl_poll_empty: "gl_vals l = [] \<Longrightarrow> gl_Back l = None"
  by (simp add: gl_vals_def gl_Back_def)

lemma commit_transfers_replay:
  assumes "gl_wf (tq_lst (vp_TransferQueue vp))" and "sc_currentTx (pa_sc pa) = Some cur"
  shows "\<exists>vp' n. commit_transfers (vp, pa) = Ret (Inr (), (vp', pa\<lparr>pa_next := n, pa_sc := (pa_sc pa)\<lparr>sc_smartContractTxs :=
      sc_smartContractTxs (pa_sc pa) @ contract_txs cur (pa_next pa) (queued_transfers vp)\<rparr>\<rparr>)) \<and>
    vp_StateChangeQueue vp' = vp_StateChangeQueue vp"
  using assms
proof (induction "queued_transfers vp" arbitrary: vp pa)
  case Nil
  then have "gl_vals (tq_lst (vp_TransferQueue vp)) = []" by (simp add: queued_transfers_def)
  then have "tq_poll (vp_TransferQueue vp) = (None, vp_TransferQueue vp)"
    by (simp add: tq_poll_def gl_poll_empty)
  then show ?case using Nil(1) by (intro exI [of _ vp] exI [of _ "pa_next pa"]) (simp add: Nil(1) [symmetric])
next
  case (Cons op ops)
  let ?tq = "vp_TransferQueue vp"
  have "gl_vals (tq_lst ?tq) = rev ops @ [op]"
    using Cons.hyps(2) by (simp add: queued_transfers_def) (metis rev.simps(2) rev_rev_ident)
  then obtain e where e: "gl_Back (tq_lst ?tq) = Some e" "evalue e = op" "gl_wf (gl_Remove (tq_lst ?tq) e)"
    "gl_vals (gl_Remove (tq_lst ?tq) e) = rev ops"
    using gl_poll_snoc [OF Cons.prems(1)] by blast
  let ?vp = "vp\<lparr>vp_TransferQueue := ?tq\<lparr>tq_lst := gl_Remove (tq_lst ?tq) e\<rparr>\<rparr>"
  let ?pa = "pa\<lparr>pa_sc := (pa_sc pa)\<lparr>sc_smartContractTxs := sc_smartContractTxs (pa_sc pa) @ [contract_tx cur (pa_next pa) op]\<rparr>,
    pa_next := Suc (pa_next pa)\<rparr>"
  have step: "commit_transfers (vp, pa) = commit_transfers (?vp, ?pa)"
    by (subst commit_transfers.simps)
      (simp add: tq_poll_def e rq_AddTransfer_def sc_AddTransfer_def Cons.prems(2) contract_tx_def Let_def del: commit_transfers.simps)
  have q: "ops = queued_transfers ?vp" using e(4) by (simp add: queued_transfers_def)
  have w: "gl_wf (tq_lst (vp_TransferQueue ?vp))" using e(3) by simp
  have c: "sc_currentTx (pa_sc ?pa) = Some cur" using Cons.prems(2) by simp
  obtain vp' n where "commit_transfers (?vp, ?pa) = Ret (Inr (), (vp', ?pa\<lparr>pa_next := n, pa_sc := (pa_sc ?pa)\<lparr>sc_smartContractTxs :=
      sc_smartContractTxs (pa_sc ?pa) @ contract_txs cur (pa_next ?pa) (queued_transfers ?vp)\<rparr>\<rparr>))"
    "vp_StateChangeQueue vp' = vp_StateChangeQueue ?vp"
    using Cons.hyps(1) [OF q w c] by blast
  then show ?case
    by (intro exI [of _ vp'] exI [of _ n]) (simp add: step q [symmetric] Cons.hyps(2) [symmetric] del: commit_transfers.simps)
qed

lemma commit_states_replay:
  assumes "gl_wf (ss_lst (vp_StateChangeQueue vp))"
  shows "\<exists>vp'. commit_states (vp, pa) = Ret (Inr (), (vp', pa\<lparr>pa_sc := fold apply_stateOp (queued_states vp) (pa_sc pa)\<rparr>))"
  using assms
proof (induction "queued_states vp" arbitrary: vp pa)
  case Nil
  then have "gl_vals (ss_lst (vp_StateChangeQueue vp)) = []" by (simp add: queued_states_def)
  then have "ss_poll (vp_StateChangeQueue vp) = (None, vp_StateChangeQueue vp)"
    by (simp add: ss_poll_def gl_poll_empty)
  then show ?case using Nil(1) by (intro exI [of _ vp]) (simp add: Nil(1) [symmetric])
next
  case (Cons op ops)
  let ?ss = "vp_StateChangeQueue vp"
  have "gl_vals (ss_lst ?ss) = rev ops @ [op]"
    using Cons.hyps(2) by (simp add: queued_states_def) (metis rev.simps(2) rev_rev_ident)
  then obtain e where e: "gl_Back (ss_lst ?ss) = Some e" "evalue e = op" "gl_wf (gl_Remove (ss_lst ?ss) e)"
    "gl_vals (gl_Remove (ss_lst ?ss) e) = rev ops"
    using gl_poll_snoc [OF Cons.prems(1)] by blast
  let ?vp = "vp\<lparr>vp_StateChangeQueue := ?ss\<lparr>ss_lst := gl_Remove (ss_lst ?ss) e\<rparr>\<rparr>"
  let ?pa = "pa\<lparr>pa_sc := apply_stateOp op (pa_sc pa)\<rparr>"
  have step: "commit_states (vp, pa) = commit_states (?vp, ?pa)"
    by (subst commit_states.simps)
      (cases op; simp add: ss_poll_def e rq_ChangeState_def del: commit_states.simps)
  have q: "ops = queued_states ?vp" using e(4) by (simp add: queued_states_def)
  have w: "gl_wf (ss_lst (vp_StateChangeQueue ?vp))" using e(3) by simp
  obtain vp' where "commit_states (?vp, ?pa) = Ret (Inr (), (vp', ?pa\<lparr>pa_sc := fold apply_stateOp (queued_states ?vp) (pa_sc ?pa)\<rparr>))"
    using Cons.hyps(1) [OF q w] by blast
  then show ?case
    by (intro exI [of _ vp']) (simp add: step q [symmetric] Cons.hyps(2) [symmetric] del: commit_states.simps)
qed

lemma CCallCommit_replay:
  assumes "vp_wf vp" and "sc_currentTx (pa_sc pa) = Some cur"
  shows "\<exists>vp' n. CCallCommit (vp, pa) = Ret (Inr (), (vp', pa\<lparr>pa_next := n, pa_sc := SmartContractCommitted
    (fold apply_stateOp (queued_states vp) ((pa_sc pa)\<lparr>sc_smartContractTxs :=
      sc_smartContractTxs (pa_sc pa) @ contract_txs cur (pa_next pa) (queued_transfers vp)\<rparr>))\<rparr>))"
proof -
  let ?pa = "\<lambda>n. pa\<lparr>pa_next := n, pa_sc := (pa_sc pa)\<lparr>sc_smartContractTxs :=
      sc_smartContractTxs (pa_sc pa) @ contract_txs cur (pa_next pa) (queued_transfers vp)\<rparr>\<rparr>"
  obtain vp1 n where 1: "commit_transfers (vp, pa) = Ret (Inr (), (vp1, ?pa n))"
    "vp_StateChangeQueue vp1 = vp_StateChangeQueue vp"
    using commit_transfers_replay [OF _ assms(2), of vp] assms(1) unfolding vp_wf_def by blast
  have q: "queued_states vp1 = queued_states vp" using 1(2) by (simp add: queued_states_def)
  obtain vp2 where 2: "commit_states (vp1, ?pa n) = Ret (Inr (), (vp2, (?pa n)\<lparr>pa_sc := fold apply_stateOp (queued_states vp) (pa_sc (?pa n))\<rparr>))"
    using commit_states_replay [of vp1 "?pa n"] assms(1) 1(2) q unfolding vp_wf_def by fastforce
  show ?thesis
    by (intro exI [of _ vp2] exI [of _ n])
      (simp add: CCallCommit_def 1(1) 2 rq_SmartContractCommitted_def del: commit_states.simps commit_transfers.simps)
qed

lemma vp_wf_reset [simp]: "vp_wf (resetProc cd vp)"
  by (simp add: vp_wf_def resetProc_def NewStateQueue_def NewTransferQueue_def)


definition sample_engines :: engines where
  "sample_engines = \<lparr>lua_compile = \<lambda>code. None,
     lua_run = \<lambda>code f cd. SPutState ''k'' (Some [1]) (\<lambda>_. SReturn (RBool True)),
     js_run = \<lambda>code f cd. SRaise ''no'', proc_start = \<lambda>lang. None\<rparr>"

definition sample_call :: Transaction where
  "sample_call = NewTransaction 1 [0] [0] TypeContractInvoke 1 zero_addr zero_addr (Some 5) (Some 1) 3"

definition sample_cd :: ContractData where
  "sample_cd = \<lparr>cd_ContractCode = ''x'', cd_ContractAddr = ''00'', cd_ContractParams = [], cd_Transaction = sample_call\<rparr>"

definition sample_parent :: parent where
  "sample_parent = \<lparr>pa_sc = ExecTransaction sample_call ''00'' NewSmartConstract, pa_st = NewState, pa_next = 5\<rparr>"

definition sample_vp :: VMProc where
  "sample_vp = \<lparr>vp_ContractAddr = ''00'', vp_StateChangeQueue = NewStateQueue, vp_TransferQueue = NewTransferQueue,
     vp_luaProto = gm_empty\<rparr>"

lemma sample_vp_wf: "vp_wf sample_vp"
  by (simp add: vp_wf_def sample_vp_def NewStateQueue_def NewTransferQueue_def)

lemma sample_run:
  "run_script vm_DefaultConfig mem_rocks mem_db (lua_run sample_engines ''x'' ''L0Invoke'' sample_cd) (vp, pa) =
     Ret (Inr (RBool True), (queue_state ''k'' (Some [1]) (StatePut ''k'' (Some [1])) vp, pa))"
  by (simp add: sample_engines_def answer_def CCallPutState_def CheckStateKeyValue_def CheckStateKey_def CheckStateValue_def
      vm_DefaultConfig_def contractCodeKey_def with_check_def)

theorem script_isolated_witness:
  "\<exists>vp'. run_script vm_DefaultConfig mem_rocks mem_db (lua_run sample_engines ''x'' ''L0Invoke'' sample_cd) (sample_vp, sample_parent) =
     Ret (Inr (RBool True), (vp', sample_parent)) \<and> vp_wf vp'"
  using script_isolated [OF mem_db_ready0 sample_vp_wf sample_run] sample_run by blast

lemma sample_exec:
  "\<exists>vp1. execContract sample_engines vm_DefaultConfig mem_rocks mem_db ''luavm'' sample_cd ''L0Invoke'' (resetProc sample_cd sample_vp, sample_parent)
     = Ret ((RBool True, None), (vp1, sample_parent))"
  by (simp add: execContract_def lua_execContract_def CheckContractCode_def sample_cd_def vm_DefaultConfig_def resetProc_def sample_vp_def
      sample_engines_def answer_def CCallPutState_def CheckStateKeyValue_def CheckStateKey_def CheckStateValue_def
      contractCodeKey_def with_check_def)


section \<open>Consequences\<close>

text \<open>An invocation that carries code runs that code, as Lua, with the state and the funds of the contract it
  names; the code that the contract was created with is not read.\<close>

lemma invoke_runs_supplied_code:
  assumes "cs_ContractCode cs \<noteq> []" and "tx_Type tx = TypeContractInvoke" and "proc_start en ''luavm'' = None"
  shows "vm_execute en conf r db tx cs s =
    go_bind (vm_real en conf r db ''luavm'' (NewContractData tx cs (bytes_str (cs_ContractCode cs))) ''L0Invoke'' s)
      (\<lambda>x. Ret (bool_result x))"
  using assms by (simp add: vm_execute_def getContractCode_def Type_defs Let_def)

text \<open>The code of a contract is stored before its initialisation runs, and stays when that fails.\<close>

lemma failed_init_keeps_code:
  assumes "db_ready r db" and "cs_ContractCode cs \<noteq> []" and "tx_Type tx = TypeJSContractInit" and "proc_start en ''jsvm'' = None"
    and "execContract en conf r db ''jsvm'' (NewContractData tx cs (bytes_str (cs_ContractCode cs))) ''L0Init''
      (resetProc (NewContractData tx cs (bytes_str (cs_ContractCode cs))) vp, snd (add_code cs ''jsvm'' (vp, pa))) =
      Ret ((RBool ok, err), (vp1, pa1))"
    and "\<not> ok \<or> err \<noteq> None"
  shows "\<exists>s'. vm_execute en conf r db tx cs (vp, pa) = Ret ((Inl ok, text_err err), s') \<and>
    pa_sc (snd s') = sc_AddState contractCodeKey (Serialize (code_val (cs_ContractCode cs) ''jsvm'')) (pa_sc pa)"
proof -
  have "pa_sc pa1 = sc_AddState contractCodeKey (Serialize (code_val (cs_ContractCode cs) ''jsvm'')) (pa_sc pa)"
    using exec_isolated [OF assms(1) vp_wf_reset assms(5)] by (simp add: same_parent_def add_code_def)
  then show ?thesis
    using assms(2-6) by (auto simp: vm_execute_def getContractCode_def vm_real_def add_code_def bool_result_def Let_def)
qed

text \<open>A transfer of a contract to its own address raises the balance that its script sees.\<close>

lemma self_transfer_mints:
  assumes "gm_get (tq_balancesMap (vp_TransferQueue vp)) (to_from op) = Some b" and "to_to op = to_from op"
    and "\<not> sint b < sint (to_amount op)"
  shows "do_transfer r db op (vp, pa) = Ret (Inr (), (queue_transfer op b b vp, pa)) \<and>
    gm_get (tq_balancesMap (vp_TransferQueue (queue_transfer op b b vp))) (to_from op) = Some (b + to_amount op)"
  using assms by (simp add: do_transfer_def cached_balance_def queue_transfer_def tq_offer_def Let_def)

end
