(* ===== verification/Merge_Storage.thy ===== *)
theory Merge_Storage
  imports Block_Storage
begin

text \<open>
  The store of transactions that wait to be merged (\<^verbatim>\<open>core/ledger/merge/storage.go\<close>): the family
  \<^verbatim>\<open>storage\<close> maps a creation time to the transactions of that second and a fixed key to the
  list of the times in use. The map \<^verbatim>\<open>m\<close> in memory collects the transactions by time.
\<close>

section \<open>Operations\<close>

record Storage =
  ms_timeArray :: "u32 list"
  ms_m :: "(u32, Transaction list) gomap"

definition NewStorage :: Storage where
  "NewStorage = \<lparr>ms_timeArray = [], ms_m = gm_empty\<rparr>"

definition timeKey :: bytes where
  "timeKey = str_bytes ''timeKey''"

text \<open>\<^verbatim>\<open>utils.Contain\<close> on a slice.\<close>

fun Contain :: "'a \<Rightarrow> 'a list \<Rightarrow> bool" where
  "Contain obj [] = False"
| "Contain obj (t # ts) = (if t = obj then True else Contain obj ts)"

definition txs_ty :: gty where
  "txs_ty = TSlice (TPtr tx_ty)"

definition txs_val :: "Transaction list \<Rightarrow> gval" where
  "txs_val txs = VSlice (map (\<lambda>tx. VPtr (Some (tx_val tx))) txs)"

definition val_txs :: "nat \<Rightarrow> gval \<Rightarrow> Transaction list" where
  "val_txs p v = map2 (\<lambda>i t. val_tx (p + i) (case as_ptr t of Some u \<Rightarrow> u | None \<Rightarrow> zero tx_ty))
     [0 ..< length (as_fields v)] (as_fields v)"

definition ms_getTxTime :: "'d rocks \<Rightarrow> 'd BlockchainDB \<Rightarrow> (gerr + u32 list) go" where
  "ms_getTxTime r db =
     res_bind (db_Get r db ''storage'' timeKey) (\<lambda>timeBytes.
       if length timeBytes = 0 then Ret (Inr [])
       else go_bind (BytesToUint32Arrary timeBytes) (\<lambda>array. Ret (Inr array)))"

definition ms_putTxTime :: "'d rocks \<Rightarrow> u32 list \<Rightarrow> (gerr, 'd BlockchainDB, unit) exec" where
  "ms_putTxTime r array = db_Put r ''storage'' timeKey (Uint32ArrayToBytes array)"

definition ms_getTxByTime :: "nat \<Rightarrow> 'd rocks \<Rightarrow> u32 \<Rightarrow> 'd BlockchainDB \<Rightarrow> (gerr + Transaction list) go" where
  "ms_getTxByTime p r time db =
     res_bind (db_Get r db ''storage'' (Uint32ToBytes time)) (\<lambda>txsBytes.
       Ret (Inr (val_txs p (fst (Deserialize txs_ty txsBytes)))))"

definition ms_deleteTxByTime :: "'d rocks \<Rightarrow> u32 \<Rightarrow> (gerr, 'd BlockchainDB, unit) exec" where
  "ms_deleteTxByTime r time = db_Delete r ''storage'' (Uint32ToBytes time)"

abbreviation tx_CreateTime :: "Transaction \<Rightarrow> u32" where
  "tx_CreateTime tx \<equiv> td_CreateTime (tx_Data tx)"

definition ms_persistenceTransaction :: "Transaction \<Rightarrow> Storage \<Rightarrow> Storage" where
  "ms_persistenceTransaction tx s =
     (let t = tx_CreateTime tx;
          ts = (if \<not> Contain t (ms_timeArray s) then ms_timeArray s @ [t] else ms_timeArray s);
          old = (case gm_get (ms_m s) t of None \<Rightarrow> [] | Some txs \<Rightarrow> txs)
      in s\<lparr>ms_timeArray := ts, ms_m := gm_set t (old @ [tx]) (ms_m s)\<rparr>)"

fun ms_putAll :: "'d rocks \<Rightarrow> (u32 \<times> Transaction list) list \<Rightarrow> (gerr, 'd BlockchainDB, unit) exec" where
  "ms_putAll r [] = ex_ret ()"
| "ms_putAll r ((time, txs) # es) =
     ex_bind (db_Put r ''storage'' (Uint32ToBytes time) (Serialize (txs_val txs))) (\<lambda>_. ms_putAll r es)"

text \<open>\<open>ord\<close> is the order in which the loop over the map visits its entries.\<close>

definition ms_ClassifiedTransaction :: "'d rocks \<Rightarrow>
    ((u32, Transaction list) gomap \<Rightarrow> (u32 \<times> Transaction list) list) \<Rightarrow> Transaction list \<Rightarrow>
    (gerr, Storage \<times> 'd BlockchainDB, unit) exec" where
  "ms_ClassifiedTransaction r ord txs sd =
     (case sd of (s, db) \<Rightarrow>
        go_bind (ms_getTxTime r db) (\<lambda>res.
          case res of
            Inl err \<Rightarrow> Ret (Inl err, (s, db))
          | Inr array \<Rightarrow>
              let s' = fold ms_persistenceTransaction txs (s\<lparr>ms_timeArray := array\<rparr>) in
              go_bind (ex_bind (ms_putAll r (ord (ms_m s'))) (\<lambda>_. ms_putTxTime r (ms_timeArray s')) db) (\<lambda>(res, db').
                Ret (res, (s', db')))))"

text \<open>Unsigned arithmetic wraps.\<close>

definition ms_checkTxsIsEnough :: "u32 \<Rightarrow> u32 list \<Rightarrow> bool" where
  "ms_checkTxsIsEnough delay array =
     (if length array = 0 then False
      else if array ! (length array - 1) > array ! 0 + 2 * delay then True else False)"

text \<open>The loop over the sorted times from index \<open>k\<close> on: \<open>vs\<close> are the times left, \<open>a0\<close> the first time of
  the array. The objects read get addresses from \<open>p\<close> on.\<close>

fun ms_mergeLoop :: "nat \<Rightarrow> 'd rocks \<Rightarrow> u32 \<Rightarrow> u32 \<Rightarrow> u32 list \<Rightarrow> Transaction list \<Rightarrow>
    (gerr, 'd BlockchainDB, Transaction list) exec" where
  "ms_mergeLoop p r a0 delay [] txs = ex_ret txs"
| "ms_mergeLoop p r a0 delay (v # vs) txs =
     (if v < a0 + delay then
        ex_bind (\<lambda>db. go_bind (ms_getTxByTime p r v db) (\<lambda>res. Ret (res, db))) (\<lambda>tmpTxs.
        ex_bind (ms_deleteTxByTime r v) (\<lambda>_.
        ex_bind (if vs = [] then ms_putTxTime r [] else ex_ret ()) (\<lambda>_.
          ms_mergeLoop (p + length tmpTxs) r a0 delay vs (txs @ tmpTxs))))
      else ex_bind (ms_putTxTime r (v # vs)) (\<lambda>_. ex_ret txs))"

definition ms_GetMergedTransaction :: "nat \<Rightarrow> 'd rocks \<Rightarrow> u32 \<Rightarrow> (gerr, 'd BlockchainDB, Transaction list) exec" where
  "ms_GetMergedTransaction p r delay db =
     go_bind (ms_getTxTime r db) (\<lambda>res.
       case res of
         Inl err \<Rightarrow> Ret (Inl err, db)
       | Inr array0 \<Rightarrow>
           let array = sort array0 in
           if \<not> ms_checkTxsIsEnough delay array then Ret (Inr [], db)
           else ms_mergeLoop p r (array ! 0) delay array [] db)"

definition ms_PutTxsHashByMergeTxHash :: "'d rocks \<Rightarrow> Hash \<Rightarrow> Hash list \<Rightarrow> (gerr, 'd BlockchainDB, unit) exec" where
  "ms_PutTxsHashByMergeTxHash r mergeTXHash txsHashs =
     db_Put r ''storage'' mergeTXHash (Serialize (hashes_val txsHashs))"

definition ms_GetTxsByMergeTxHash :: "'d rocks \<Rightarrow> 'd BlockchainDB \<Rightarrow> Hash \<Rightarrow> (gerr + Hash list) go" where
  "ms_GetTxsByMergeTxHash r db mergeTXHash =
     res_bind (db_Get r db ''storage'' mergeTXHash) (\<lambda>txsHashsBytes.
       Ret (if length txsHashsBytes = 0 then Inl (ErrText ''not found txsHashs'')
            else Inr (val_hashes (fst (Deserialize hashes_ty txsHashsBytes)))))"

section \<open>Classifying\<close>

lemma Contain_iff [simp]: "Contain x ts \<longleftrightarrow> x \<in> set ts"
  by (induction ts) auto

lemma storage_cf [simp]: "''storage'' \<in> set (Columnfamilies DefaultConfig)"
  by (simp add: DefaultConfig_def)

lemma time_key_distinct [simp]: "Uint32ToBytes n \<noteq> timeKey" "timeKey \<noteq> Uint32ToBytes n"
  by (auto simp: timeKey_def str_bytes_def dest: arg_cong [of _ _ length])

text \<open>The transactions that the map holds for a time.\<close>

definition pending :: "Storage \<Rightarrow> u32 \<Rightarrow> Transaction list" where
  "pending s t = (case gm_get (ms_m s) t of None \<Rightarrow> [] | Some txs \<Rightarrow> txs)"

definition no_empty :: "Storage \<Rightarrow> bool" where
  "no_empty s \<longleftrightarrow> gm_wf (ms_m s) \<and> (\<forall>t. gm_get (ms_m s) t \<noteq> Some [])"

lemma persist_one:
  assumes "no_empty s"
  shows "no_empty (ms_persistenceTransaction tx s)"
    and "pending (ms_persistenceTransaction tx s) t = pending s t @ (if tx_CreateTime tx = t then [tx] else [])"
    and "set (ms_timeArray (ms_persistenceTransaction tx s)) = insert (tx_CreateTime tx) (set (ms_timeArray s))"
    and "length (ms_timeArray (ms_persistenceTransaction tx s)) \<le> Suc (length (ms_timeArray s))"
    and "distinct (ms_timeArray s) \<Longrightarrow> distinct (ms_timeArray (ms_persistenceTransaction tx s))"
  using assms
  by (auto simp: ms_persistenceTransaction_def Let_def no_empty_def pending_def gm_get_set split: option.splits)

lemma persist_all:
  assumes "no_empty s"
  shows "no_empty (fold ms_persistenceTransaction txs s) \<and>
    (\<forall>t. pending (fold ms_persistenceTransaction txs s) t = pending s t @ filter (\<lambda>tx. tx_CreateTime tx = t) txs) \<and>
    set (ms_timeArray (fold ms_persistenceTransaction txs s)) = set (ms_timeArray s) \<union> tx_CreateTime ` set txs \<and>
    length (ms_timeArray (fold ms_persistenceTransaction txs s)) \<le> length (ms_timeArray s) + length txs \<and>
    (distinct (ms_timeArray s) \<longrightarrow> distinct (ms_timeArray (fold ms_persistenceTransaction txs s)))"
  using assms
proof (induction txs arbitrary: s)
  case (Cons tx txs)
  note one = persist_one [OF Cons.prems, of tx]
  from Cons.IH [OF one(1)] one(2-5) show ?case by fastforce
qed simp

lemma ms_putAll_live:
  assumes "rocks_ok r" and "rocks_live r" and "db_ready r db" and "distinct (map fst es)"
  shows "\<exists>db'. ms_putAll r es db = Ret (Inr (), db') \<and> db_ready r db' \<and>
    (\<forall>t txs. (t, txs) \<in> set es \<longrightarrow> db_val r db' ''storage'' (Uint32ToBytes t) = Serialize (txs_val txs)) \<and>
    (\<forall>t. t \<notin> fst ` set es \<longrightarrow> db_val r db' ''storage'' (Uint32ToBytes t) = db_val r db ''storage'' (Uint32ToBytes t)) \<and>
    (\<forall>cf. cf \<noteq> ''storage'' \<longrightarrow> db_val r db' cf = db_val r db cf)"
  using assms(3,4)
proof (induction es arbitrary: db)
  case (Cons e es)
  obtain t txs where e: "e = (t, txs)" by (cases e)
  obtain d where d: "db_Put r ''storage'' (Uint32ToBytes t) (Serialize (txs_val txs)) db = Ret (Inr (), d)" "db_ready r d"
    "db_val r d = (db_val r db)(''storage'' := (db_val r db ''storage'')(Uint32ToBytes t := Serialize (txs_val txs)))"
    using db_Put_live [OF assms(1,2) Cons.prems(1) storage_cf] by blast
  obtain d' where d': "ms_putAll r es d = Ret (Inr (), d')" "db_ready r d'"
    "\<forall>t txs. (t, txs) \<in> set es \<longrightarrow> db_val r d' ''storage'' (Uint32ToBytes t) = Serialize (txs_val txs)"
    "\<forall>t. t \<notin> fst ` set es \<longrightarrow> db_val r d' ''storage'' (Uint32ToBytes t) = db_val r d ''storage'' (Uint32ToBytes t)"
    "\<forall>cf. cf \<noteq> ''storage'' \<longrightarrow> db_val r d' cf = db_val r d cf"
    using Cons.IH [OF d(2)] Cons.prems(2) by auto
  have "t \<notin> fst ` set es" using Cons.prems(2) e by auto
  then have "db_val r d' ''storage'' (Uint32ToBytes t) = Serialize (txs_val txs)"
    using d'(4) d(3) by simp
  with d(1,3) d' e show ?case by auto
qed simp

text \<open>Times are 32-bit numbers, so a list of different ones is short enough for its encoding.\<close>

lemma distinct_times: "distinct (ts :: u32 list) \<Longrightarrow> length ts < 2 ^ 64"
proof -
  assume "distinct ts"
  then have "length ts = card (set ts)" by (simp add: distinct_card)
  also have "\<dots> \<le> card (UNIV :: u32 set)" by (intro card_mono) simp_all
  also have "\<dots> < 2 ^ 64" by (simp add: card_word)
  finally show ?thesis .
qed

lemma Classified_live:
  assumes "rocks_ok r" and "rocks_live r" and "db_ready r db" and "\<And>m. range_order (ord m) m" and "no_empty s"
    and "ms_getTxTime r db = Ret (Inr array)" and "distinct array"
  shows "\<exists>s' db' array'. ms_ClassifiedTransaction r ord txs (s, db) = Ret (Inr (), (s', db')) \<and> no_empty s' \<and>
    db_ready r db' \<and> (\<forall>cf. cf \<noteq> ''storage'' \<longrightarrow> db_val r db' cf = db_val r db cf) \<and>
    (\<forall>t. pending s' t = pending s t @ filter (\<lambda>tx. tx_CreateTime tx = t) txs) \<and>
    (\<forall>t. pending s' t \<noteq> [] \<longrightarrow> db_val r db' ''storage'' (Uint32ToBytes t) = Serialize (txs_val (pending s' t))) \<and>
    ms_getTxTime r db' = Ret (Inr array') \<and> distinct array' \<and> set array' = set array \<union> tx_CreateTime ` set txs"
proof -
  define s' where "s' = fold ms_persistenceTransaction txs (s\<lparr>ms_timeArray := array\<rparr>)"
  have "no_empty (s\<lparr>ms_timeArray := array\<rparr>)" using assms(5) by (simp add: no_empty_def)
  from persist_all [OF this, of txs, folded s'_def] assms(7)
  have s': "no_empty s'" "\<And>t. pending s' t = pending s t @ filter (\<lambda>tx. tx_CreateTime tx = t) txs"
    "set (ms_timeArray s') = set array \<union> tx_CreateTime ` set txs"
    "distinct (ms_timeArray s')" by (simp_all add: pending_def)
  have wf: "gm_wf (ms_m s')" using s'(1) by (simp add: no_empty_def)
  have "distinct (map fst (ord (ms_m s')))"
    using range_order_wf [OF assms(4) wf] by (simp add: gm_wf_def)
  then obtain d where d: "ms_putAll r (ord (ms_m s')) db = Ret (Inr (), d)" "db_ready r d"
    "\<And>t txs. (t, txs) \<in> set (ord (ms_m s')) \<Longrightarrow> db_val r d ''storage'' (Uint32ToBytes t) = Serialize (txs_val txs)"
    "\<And>cf. cf \<noteq> ''storage'' \<Longrightarrow> db_val r d cf = db_val r db cf"
    using ms_putAll_live [OF assms(1-3)] by blast
  obtain d' where d': "ms_putTxTime r (ms_timeArray s') d = Ret (Inr (), d')" "db_ready r d'"
    "db_val r d' = (db_val r d)(''storage'' := (db_val r d ''storage'')(timeKey := Uint32ArrayToBytes (ms_timeArray s')))"
    using db_Put_live [OF assms(1,2) d(2) storage_cf] unfolding ms_putTxTime_def by blast
  have "db_val r d' ''storage'' (Uint32ToBytes t) = Serialize (txs_val (pending s' t))" if "pending s' t \<noteq> []" for t
  proof -
    from that have "gm_get (ms_m s') t = Some (pending s' t)" by (simp add: pending_def split: option.splits)
    then have "(t, pending s' t) \<in> set (ord (ms_m s'))"
      using gm_get_in [OF wf] range_order_set [OF assms(4)] by metis
    then show ?thesis using d(3) d'(3) by simp
  qed
  moreover have "ms_getTxTime r d' = Ret (Inr (ms_timeArray s'))"
    using distinct_times [OF s'(4)] by (simp add: ms_getTxTime_def db_Get_ready [OF d'(2)] d'(3) Uint32Array_roundtrip)
  moreover have "ms_ClassifiedTransaction r ord txs (s, db) = Ret (Inr (), (s', d'))"
    by (simp add: ms_ClassifiedTransaction_def assms(6) s'_def [symmetric] d d' Let_def)
  moreover have "\<forall>cf. cf \<noteq> ''storage'' \<longrightarrow> db_val r d' cf = db_val r db cf" using d(4) d'(3) by simp
  ultimately show ?thesis using s' d'(2) by blast
qed

text \<open>\<^verbatim>\<open>ClassifiedTransaction\<close> adds every transaction to the list of its creation time and writes, for every
  time the map has ever seen, the whole list: nothing is ever taken out of the map, so a
  transaction that was handed out for merging is written again with the next block.\<close>

theorem ClassifiedTransaction_accumulates:
  assumes "rocks_ok r" and "rocks_live r" and "db_ready r db" and "\<And>m. range_order (ord m) m" and "no_empty s"
    and "ms_getTxTime r db = Ret (Inr array)" and "distinct array"
  shows "\<exists>s' db' array'. ms_ClassifiedTransaction r ord txs (s, db) = Ret (Inr (), (s', db')) \<and> no_empty s' \<and>
    (\<forall>t. pending s' t = pending s t @ filter (\<lambda>tx. tx_CreateTime tx = t) txs) \<and>
    (\<forall>t. pending s' t \<noteq> [] \<longrightarrow> db_val r db' ''storage'' (Uint32ToBytes t) = Serialize (txs_val (pending s' t))) \<and>
    ms_getTxTime r db' = Ret (Inr array') \<and> distinct array' \<and> set array' = set array \<union> tx_CreateTime ` set txs"
  using Classified_live [OF assms, of txs] by blast

lemma mem_no_times: "ms_getTxTime mem_rocks mem_db = Ret (Inr [])"
  by (simp add: ms_getTxTime_def db_Get_ready [OF mem_db_ready0] mem_db_val)

lemma NewStorage_ok: "no_empty NewStorage" "pending NewStorage t = []"
  by (simp_all add: NewStorage_def no_empty_def pending_def)

definition cross_tx :: "nat \<Rightarrow> u32 \<Rightarrow> Transaction" where
  "cross_tx p time = NewTransaction p [0] [1] TypeAcrossChain 1 zero_addr zero_addr (Some 5) (Some 1) time"

lemma cross_tx_time [simp]: "tx_CreateTime (cross_tx p time) = time"
  by (simp add: cross_tx_def NewTransaction_def)

theorem ClassifiedTransaction_accumulates_witness:
  "\<exists>s' db'. ms_ClassifiedTransaction mem_rocks id [cross_tx 1 7, cross_tx 2 8] (NewStorage, mem_db) = Ret (Inr (), (s', db')) \<and>
     pending s' 7 = [cross_tx 1 7]"
proof -
  have "\<exists>s' db' array'. ms_ClassifiedTransaction mem_rocks id [cross_tx 1 7, cross_tx 2 8] (NewStorage, mem_db) = Ret (Inr (), (s', db')) \<and>
      no_empty s' \<and> (\<forall>t. pending s' t = pending NewStorage t @ filter (\<lambda>tx. tx_CreateTime tx = t) [cross_tx 1 7, cross_tx 2 8]) \<and>
      (\<forall>t. pending s' t \<noteq> [] \<longrightarrow> db_val mem_rocks db' ''storage'' (Uint32ToBytes t) = Serialize (txs_val (pending s' t))) \<and>
      ms_getTxTime mem_rocks db' = Ret (Inr array') \<and> distinct array' \<and>
      set array' = set [] \<union> tx_CreateTime ` set [cross_tx 1 7, cross_tx 2 8]"
    by (rule ClassifiedTransaction_accumulates [OF mem_rocks_ok mem_rocks_live mem_db_ready0 _ NewStorage_ok(1) mem_no_times]) simp_all
  then obtain s' db' where w: "ms_ClassifiedTransaction mem_rocks id [cross_tx 1 7, cross_tx 2 8] (NewStorage, mem_db) = Ret (Inr (), (s', db'))"
    and "\<forall>t. pending s' t = pending NewStorage t @ filter (\<lambda>tx. tx_CreateTime tx = t) [cross_tx 1 7, cross_tx 2 8]" by blast
  then have "pending s' 7 = [cross_tx 1 7]" by (simp add: NewStorage_ok)
  with w show ?thesis by blast
qed

section \<open>Handing out\<close>

lemma sorted_takeWhile_filter:
  "sorted xs \<Longrightarrow> takeWhile (\<lambda>v. v < b) xs = filter (\<lambda>v. v < b) xs \<and> dropWhile (\<lambda>v. v < b) xs = filter (\<lambda>v. \<not> v < b) xs"
  for xs :: "'a::linorder list"
proof (induction xs)
  case (Cons x xs)
  show ?case
  proof (cases "x < b")
    case False
    then have "\<forall>y \<in> set xs. \<not> y < b" using Cons.prems by auto
    with False show ?thesis by (simp add: filter_empty_conv)
  qed (use Cons in auto)
qed simp

text \<open>The transactions stored at some times, in the order of the times.\<close>

fun ms_collect :: "nat \<Rightarrow> (bytes \<Rightarrow> bytes) \<Rightarrow> u32 list \<Rightarrow> Transaction list" where
  "ms_collect p h [] = []"
| "ms_collect p h (v # vs) =
     (let txs = val_txs p (fst (Deserialize txs_ty (h (Uint32ToBytes v)))) in txs @ ms_collect (p + length txs) h vs)"

lemma ms_collect_cong:
  "(\<And>v. v \<in> set vs \<Longrightarrow> h (Uint32ToBytes v) = h' (Uint32ToBytes v)) \<Longrightarrow> ms_collect p h vs = ms_collect p h' vs"
  by (induction vs arbitrary: p) (simp_all add: Let_def)

definition after_merge :: "u32 list \<Rightarrow> u32 list \<Rightarrow> (bytes \<Rightarrow> bytes) \<Rightarrow> bytes \<Rightarrow> bytes" where
  "after_merge out left h k =
     (if k = timeKey then Uint32ArrayToBytes left else if k \<in> Uint32ToBytes ` set out then [] else h k)"

lemma ms_mergeLoop_live:
  assumes "rocks_ok r" and "rocks_live r" and "db_ready r db" and "distinct vs" and "vs \<noteq> []"
  shows "\<exists>db'. ms_mergeLoop p r a0 delay vs txs db =
      Ret (Inr (txs @ ms_collect p (db_val r db ''storage'') (takeWhile (\<lambda>v. v < a0 + delay) vs)), db') \<and> db_ready r db' \<and>
    db_val r db' = (db_val r db)(''storage'' :=
      after_merge (takeWhile (\<lambda>v. v < a0 + delay) vs) (dropWhile (\<lambda>v. v < a0 + delay) vs) (db_val r db ''storage''))"
  using assms(3-5)
proof (induction vs arbitrary: p db txs)
  case (Cons v vs)
  show ?case
  proof (cases "v < a0 + delay")
    case False
    obtain d where d: "ms_putTxTime r (v # vs) db = Ret (Inr (), d)" "db_ready r d"
      "db_val r d = (db_val r db)(''storage'' := (db_val r db ''storage'')(timeKey := Uint32ArrayToBytes (v # vs)))"
      using db_Put_live [OF assms(1,2) Cons.prems(1) storage_cf] unfolding ms_putTxTime_def by blast
    then show ?thesis using False by (simp add: after_merge_def fun_eq_iff)
  next
    case True
    let ?txs = "val_txs p (fst (Deserialize txs_ty (db_val r db ''storage'' (Uint32ToBytes v))))"
    have rd: "ms_getTxByTime p r v db = Ret (Inr ?txs)"
      by (simp add: ms_getTxByTime_def db_Get_ready [OF Cons.prems(1)])
    obtain d where d: "ms_deleteTxByTime r v db = Ret (Inr (), d)" "db_ready r d"
      "db_val r d = (db_val r db)(''storage'' := (db_val r db ''storage'')(Uint32ToBytes v := []))"
      using db_Delete_live [OF assms(1,2) Cons.prems(1) storage_cf] unfolding ms_deleteTxByTime_def by blast
    show ?thesis
    proof (cases "vs = []")
      case empty: True
      obtain d' where d': "ms_putTxTime r [] d = Ret (Inr (), d')" "db_ready r d'"
        "db_val r d' = (db_val r d)(''storage'' := (db_val r d ''storage'')(timeKey := Uint32ArrayToBytes []))"
        using db_Put_live [OF assms(1,2) d(2) storage_cf] unfolding ms_putTxTime_def by blast
      then show ?thesis using True empty by (simp add: rd d after_merge_def fun_eq_iff Let_def)
    next
      case False
      let ?low = "takeWhile (\<lambda>v. v < a0 + delay) vs"
      have dv: "distinct vs" using Cons.prems(2) by simp
      obtain d' where d': "ms_mergeLoop (p + length ?txs) r a0 delay vs (txs @ ?txs) d =
          Ret (Inr ((txs @ ?txs) @ ms_collect (p + length ?txs) (db_val r d ''storage'') ?low), d')" "db_ready r d'"
        "db_val r d' = (db_val r d)(''storage'' :=
          after_merge ?low (dropWhile (\<lambda>v. v < a0 + delay) vs) (db_val r d ''storage''))"
        using Cons.IH [OF d(2) dv False, of "p + length ?txs" "txs @ ?txs"] by blast
      have "v \<notin> set ?low" using Cons.prems(2) by (auto dest: set_takeWhileD)
      then have "ms_collect q (db_val r d ''storage'') ?low = ms_collect q (db_val r db ''storage'') ?low" for q
        using d(3) by (intro ms_collect_cong) auto
      with d' True False show ?thesis by (simp add: rd d Let_def) (auto simp: after_merge_def fun_eq_iff)
    qed
  qed
qed simp

text \<open>\<^verbatim>\<open>GetMergedTransaction\<close> hands out nothing until the newest time is more than twice the delay after the
  oldest; then it hands out the transactions of all times before the oldest plus the delay, in
  the order of the times, removes them and keeps the later times. The sums wrap at 32 bits.\<close>

theorem GetMergedTransaction_spec:
  assumes "rocks_ok r" and "rocks_live r" and "db_ready r db"
    and "ms_getTxTime r db = Ret (Inr array)" and "distinct array"
  shows "if array = [] \<or> \<not> Min (set array) + 2 * delay < Max (set array)
    then ms_GetMergedTransaction p r delay db = Ret (Inr [], db)
    else \<exists>db'. let out = filter (\<lambda>v. v < Min (set array) + delay) (sort array);
                   left = filter (\<lambda>v. \<not> v < Min (set array) + delay) (sort array)
               in ms_GetMergedTransaction p r delay db = Ret (Inr (ms_collect p (db_val r db ''storage'') out), db') \<and>
                  db_ready r db' \<and>
                  db_val r db' = (db_val r db)(''storage'' := after_merge out left (db_val r db ''storage''))"
proof (cases "array = []")
  case False
  let ?a = "sort array"
  have ne: "?a \<noteq> []" using False by (metis set_empty set_sort)
  have lo: "?a ! 0 = Min (set array)"
    using False ne by (metis Min_eqI finite_set in_set_conv_nth length_greater_0_conv nth_mem set_sort sorted_nth_mono sorted_sort le0)
  have hi: "?a ! (length ?a - 1) = Max (set array)"
  proof (rule Max_eqI [symmetric])
    show "?a ! (length ?a - 1) \<in> set array" using ne by (metis One_nat_def diff_Suc_less length_greater_0_conv nth_mem set_sort)
    show "y \<le> ?a ! (length ?a - 1)" if "y \<in> set array" for y
    proof -
      from that obtain i where "i < length ?a" "y = ?a ! i" by (metis in_set_conv_nth set_sort)
      then show ?thesis using sorted_nth_mono [OF sorted_sort, of i "length ?a - 1" array] by simp
    qed
  qed simp
  have tw: "takeWhile (\<lambda>v. v < b) ?a = filter (\<lambda>v. v < b) ?a" "dropWhile (\<lambda>v. v < b) ?a = filter (\<lambda>v. \<not> v < b) ?a" for b
    using sorted_takeWhile_filter [OF sorted_sort] by auto
  have "ms_checkTxsIsEnough delay ?a \<longleftrightarrow> Min (set array) + 2 * delay < Max (set array)"
    using False lo hi by (simp add: ms_checkTxsIsEnough_def)
  moreover obtain db' where "ms_mergeLoop p r (?a ! 0) delay ?a [] db =
      Ret (Inr ([] @ ms_collect p (db_val r db ''storage'') (takeWhile (\<lambda>v. v < ?a ! 0 + delay) ?a)), db')" "db_ready r db'"
    "db_val r db' = (db_val r db)(''storage'' :=
      after_merge (takeWhile (\<lambda>v. v < ?a ! 0 + delay) ?a) (dropWhile (\<lambda>v. v < ?a ! 0 + delay) ?a) (db_val r db ''storage''))"
    using ms_mergeLoop_live [OF assms(1-3) _ ne] assms(5) by fastforce
  ultimately show ?thesis
    using False by (auto simp: ms_GetMergedTransaction_def assms(4) Let_def tw lo)
qed (simp add: ms_GetMergedTransaction_def assms(4) ms_checkTxsIsEnough_def)

definition waiting_db :: "mem BlockchainDB" where
  "waiting_db = mem_db\<lparr>DB := (\<lambda>cf k. if cf = ''storage'' \<and> k = timeKey then Some (Uint32ArrayToBytes [100, 10])
     else if cf = ''storage'' \<and> k = Uint32ToBytes 10 then Some (Serialize (txs_val [cross_tx 1 10])) else None)\<rparr>"

lemma waiting_ready: "db_ready mem_rocks waiting_db"
  by (simp add: waiting_db_def mem_db_ready)

lemma waiting_times: "ms_getTxTime mem_rocks waiting_db = Ret (Inr [100, 10])"
proof -
  have "db_val mem_rocks waiting_db ''storage'' timeKey = Uint32ArrayToBytes [100, 10]"
    by (simp add: db_val_def mem_rocks_def waiting_db_def)
  then show ?thesis
    by (simp add: ms_getTxTime_def db_Get_ready [OF waiting_ready] Uint32Array_roundtrip)
qed

theorem GetMergedTransaction_spec_witness:
  "\<exists>txs db'. ms_GetMergedTransaction 0 mem_rocks 20 waiting_db = Ret (Inr txs, db') \<and>
     db_val mem_rocks db' ''storage'' timeKey = Uint32ArrayToBytes [100]"
proof -
  have "Min (set [100, 10 :: u32]) = 10" "Max (set [100, 10 :: u32]) = 100" "sort [100, 10 :: u32] = [10, 100]"
    by (simp_all add: min_def max_def)
  then show ?thesis
    using GetMergedTransaction_spec [OF mem_rocks_ok mem_rocks_live waiting_ready waiting_times, of 20 0]
    by (auto simp: Let_def after_merge_def)
qed

end
