(* ===== verification/Ledger.thy ===== *)
theory Ledger
  imports Vm Merge_Storage Validator
begin

text \<open>
  The ledger (\<^verbatim>\<open>core/ledger/ledger.go\<close>): executing the transactions of a block against the account
  state and the contracts, and storing the block with all its effects in one atomic write.
\<close>

section \<open>State and environment\<close>

text \<open>The ledger with the database that its parts share, the child process of the contracts, the
  validator that it informs and the address of the next object.\<close>

record 'd Ledger =
  lg_db :: "'d BlockchainDB"
  lg_state :: State
  lg_storage :: Storage
  lg_contract :: SmartConstract
  lg_vm :: VMProc
  lg_Validator :: "Validator option"
  lg_next :: nat

text \<open>Everything that the code calls and that is not part of it, with the parameters of the node and the
  orders in which maps are visited.\<close>

record 'd env =
  e_crypto :: crypto_env
  e_rocks :: "'d rocks"
  e_engines :: engines
  e_vmconf :: VMConfig
  e_params :: params
  e_ord_delta :: "(string, ContractStateDelta) gomap \<Rightarrow> (string \<times> ContractStateDelta) list"
  e_ord_kv :: "(string, CacheKVs) gomap \<Rightarrow> (string \<times> CacheKVs) list"
  e_ord_time :: "(u32, Transaction list) gomap \<Rightarrow> (u32 \<times> Transaction list) list"

section \<open>Executing one transaction\<close>

definition on_state :: "('d rocks \<Rightarrow> 'd BlockchainDB \<Rightarrow> (gerr, State, 'a) exec) \<Rightarrow> 'd env \<Rightarrow> (gerr, 'd Ledger, 'a) exec" where
  "on_state f E lg =
     go_bind (f (e_rocks E) (lg_db lg) (lg_state lg)) (\<lambda>(res, st'). Ret (res, lg\<lparr>lg_state := st'\<rparr>))"

text \<open>Appends the batches of an operation; one that reports a negative balance is skipped with a log entry.\<close>

definition or_skip :: "WriteBatch list \<Rightarrow> (gerr, 's, WriteBatch list) exec \<Rightarrow> (gerr, 's, WriteBatch list) exec" where
  "or_skip writeBatchs m s =
     go_bind (m s) (\<lambda>(res, s').
       case res of
         Inr batchs \<Rightarrow> Ret (Inr (writeBatchs @ batchs), s')
       | Inl err \<Rightarrow> if err = ErrNegativeBalance then Ret (Inr writeBatchs, s') else Ret (Inl err, s'))"

definition tx_balance :: "Transaction \<Rightarrow> Balance" where
  "tx_balance tx = NewBalance (tx_Amount tx) (tx_Nonce tx)"

definition executeIssueTx :: "'d env \<Rightarrow> WriteBatch list \<Rightarrow> Transaction \<Rightarrow> (gerr, 'd Ledger, WriteBatch list) exec" where
  "executeIssueTx E writeBatchs tx =
     ex_bind (on_state (\<lambda>r db. st_Transfer r db (tx_Sender tx) (tx_Recipient tx) (tx_Fee tx) (tx_balance tx) TypeIssue) E)
       (\<lambda>batchs. ex_ret (writeBatchs @ batchs))"

definition executeAtomicTx :: "'d env \<Rightarrow> WriteBatch list \<Rightarrow> Transaction \<Rightarrow> (gerr, 'd Ledger, WriteBatch list) exec" where
  "executeAtomicTx E writeBatchs tx =
     or_skip writeBatchs
       (on_state (\<lambda>r db. st_Transfer r db (tx_Sender tx) (tx_Recipient tx) (tx_Fee tx) (tx_balance tx) TypeAtomic) E)"

definition executeACrossChainTx :: "'d env \<Rightarrow> WriteBatch list \<Rightarrow> Transaction \<Rightarrow> (gerr, 'd Ledger, WriteBatch list) exec" where
  "executeACrossChainTx E writeBatchs tx =
     (if HexToChainCoordinate (tx_FromChain tx) = ChainID (e_params E) then
        or_skip writeBatchs
          (on_state (\<lambda>r db. st_UpdateBalance r db (tx_Sender tx) (tx_balance tx) (tx_Fee tx) st_OperationSub) E)
      else
        or_skip writeBatchs
          (on_state (\<lambda>r db. st_UpdateBalance r db (tx_Recipient tx) (tx_balance tx) (tx_Fee tx) st_OperationPlus) E))"

definition checkCoordinate :: "Transaction \<Rightarrow> bool" where
  "checkCoordinate tx = (HexToChainCoordinate (tx_FromChain tx) = HexToChainCoordinate (tx_ToChain tx))"

text \<open>The sender of a merged transaction is read off its signature.\<close>

definition executeMergedTx :: "'d env \<Rightarrow> WriteBatch list \<Rightarrow> Transaction \<Rightarrow> (gerr, 'd Ledger, WriteBatch list) exec" where
  "executeMergedTx E writeBatchs tx =
     (if tx_Type tx = TypeMerged \<and> checkCoordinate tx then
        (case td_Signature (tx_Data tx) of
           None \<Rightarrow> (\<lambda>lg. nil_deref)
         | Some sender \<Rightarrow>
             (case NewAddress sender of
                Panic m \<Rightarrow> (\<lambda>lg. Panic m)
              | Ret senderAddress \<Rightarrow>
                  or_skip writeBatchs
                    (on_state (\<lambda>r db. st_Transfer r db senderAddress (tx_Recipient tx) (tx_Fee tx) (tx_balance tx) (tx_Type tx)) E)))
      else executeACrossChainTx E writeBatchs tx)"

text \<open>A distributing or returning transaction first moves the balance of a chain's address. When that would
  become negative, the whole transaction is skipped.\<close>

definition chain_update :: "'d env \<Rightarrow> WriteBatch list \<Rightarrow> Transaction \<Rightarrow> u32 \<Rightarrow> (gerr, 'd Ledger, WriteBatch list) exec" where
  "chain_update E writeBatchs tx operation =
     (case ChainCoordinateToAddress (e_crypto E) (HexToChainCoordinate (tx_ToChain tx)) of
        Panic m \<Rightarrow> (\<lambda>lg. Panic m)
      | Ret chainAddress \<Rightarrow> (\<lambda>lg.
          go_bind (on_state (\<lambda>r db. st_UpdateBalance r db chainAddress (NewBalance (tx_Amount tx) 0) (Some 0) operation) E lg) (\<lambda>(res, lg').
            case res of
              Inr batchs \<Rightarrow> executeACrossChainTx E (writeBatchs @ batchs) tx lg'
            | Inl err \<Rightarrow> if err = ErrNegativeBalance then Ret (Inr writeBatchs, lg') else Ret (Inl err, lg'))))"

definition executeDistriTx :: "'d env \<Rightarrow> WriteBatch list \<Rightarrow> Transaction \<Rightarrow> (gerr, 'd Ledger, WriteBatch list) exec" where
  "executeDistriTx E writeBatchs tx =
     (if HexToChainCoordinate (tx_FromChain tx) = ChainID (e_params E) then chain_update E writeBatchs tx st_OperationPlus
      else executeACrossChainTx E writeBatchs tx)"

definition executeBackfrontTx :: "'d env \<Rightarrow> WriteBatch list \<Rightarrow> Transaction \<Rightarrow> (gerr, 'd Ledger, WriteBatch list) exec" where
  "executeBackfrontTx E writeBatchs tx =
     (if HexToChainCoordinate (tx_ToChain tx) = ChainID (e_params E) then chain_update E writeBatchs tx st_OperationSub
      else executeACrossChainTx E writeBatchs tx)"

definition commitedTranaction :: "'d env \<Rightarrow> Transaction \<Rightarrow> WriteBatch list \<Rightarrow> (gerr, 'd Ledger, WriteBatch list) exec" where
  "commitedTranaction E tx writeBatchs =
     (if tx_Type tx = TypeIssue then executeIssueTx E writeBatchs tx
      else if tx_Type tx = TypeAtomic then executeAtomicTx E writeBatchs tx
      else if tx_Type tx = TypeAcrossChain then executeACrossChainTx E writeBatchs tx
      else if tx_Type tx = TypeMerged then executeMergedTx E writeBatchs tx
      else if tx_Type tx = TypeBackfront then executeBackfrontTx E writeBatchs tx
      else if tx_Type tx = TypeDistribut then executeDistriTx E writeBatchs tx
      else ex_ret writeBatchs)"

section \<open>Contracts\<close>

definition spec_ty :: gty where
  "spec_ty = TStruct [TBytes, TBytes, TSlice TString]"

definition val_spec :: "gval \<Rightarrow> ContractSpec" where
  "val_spec v = (let f = as_fields v in
     \<lparr>cs_ContractAddr = as_bytes (f ! 0), cs_ContractCode = as_bytes (f ! 1),
      cs_ContractParams = map (\<lambda>x. bytes_str (as_bytes x)) (as_fields (f ! 2))\<rparr>)"

definition payload_spec :: "Transaction \<Rightarrow> ContractSpec" where
  "payload_spec tx = val_spec (fst (Deserialize spec_ty (tx_Payload tx)))"

definition lg_procs :: "'d Ledger \<Rightarrow> procs" where
  "lg_procs lg = (lg_vm lg, \<lparr>pa_sc = lg_contract lg, pa_st = lg_state lg, pa_next = lg_next lg\<rparr>)"

definition set_procs :: "procs \<Rightarrow> 'd Ledger \<Rightarrow> 'd Ledger" where
  "set_procs s lg = lg\<lparr>lg_vm := fst s, lg_contract := pa_sc (snd s), lg_state := pa_st (snd s), lg_next := pa_next (snd s)\<rparr>"

definition executeSmartContractTx :: "'d env \<Rightarrow> Transaction \<Rightarrow> (gerr, 'd Ledger, Transaction list) exec" where
  "executeSmartContractTx E tx lg =
     (let spec = payload_spec tx;
          lg1 = lg\<lparr>lg_contract := ExecTransaction tx (bytes_str (cs_ContractAddr spec)) (lg_contract lg)\<rparr>
      in go_bind (vm_RealExecute (e_engines E) (e_vmconf E) (e_rocks E) (lg_db lg) tx spec (lg_procs lg1)) (\<lambda>((_, err), s).
           let lg2 = set_procs s lg1 in
           if err \<noteq> None then Ret (Inl (ErrText ''contract execute failed''), lg2)
           else Ret (FinishContractTransaction (lg_contract lg2), lg2)))"

definition ledger_QueryContract :: "'d env \<Rightarrow> Transaction \<Rightarrow> (gerr, 'd Ledger, bytes) exec" where
  "ledger_QueryContract E tx lg =
     (let spec = payload_spec tx;
          lg1 = lg\<lparr>lg_contract := ExecTransaction tx (bytes_str (cs_ContractAddr spec)) (lg_contract lg)\<rparr>
      in go_bind (vm_Query (e_engines E) (e_vmconf E) (e_rocks E) (lg_db lg) tx spec (lg_procs lg1)) (\<lambda>((result, err), s).
           Ret (if err \<noteq> None then Inl (ErrText ''contract query execute failed'') else Inr result, set_procs s lg1)))"

definition is_contract :: "Transaction \<Rightarrow> bool" where
  "is_contract tx \<longleftrightarrow> tx_Type tx = TypeJSContractInit \<or> tx_Type tx = TypeLuaContractInit \<or> tx_Type tx = TypeContractInvoke"

definition on_validator :: "(Validator \<Rightarrow> Validator go) \<Rightarrow> 'd Ledger \<Rightarrow> 'd Ledger go" where
  "on_validator f lg =
     (case lg_Validator lg of
        None \<Rightarrow> Ret lg
      | Some v \<Rightarrow> go_bind (f v) (\<lambda>v'. Ret (lg\<lparr>lg_Validator := Some v'\<rparr>)))"

section \<open>Executing a block\<close>

text \<open>The transactions that a contract generated.\<close>

fun commit_generated :: "'d env \<Rightarrow> Transaction list \<Rightarrow> WriteBatch list \<Rightarrow> (gerr, 'd Ledger, WriteBatch list) exec" where
  "commit_generated E [] writeBatchs = ex_ret writeBatchs"
| "commit_generated E (v # txs) writeBatchs =
     ex_bind (commitedTranaction E v writeBatchs) (\<lambda>writeBatchs'.
     ex_bind (\<lambda>lg. go_bind (on_validator (UpdateAccount v) lg) (\<lambda>lg'. Ret (Inr (), lg'))) (\<lambda>_.
       commit_generated E txs writeBatchs'))"

text \<open>The loop over the transactions of the block. \<open>sync\<close> collects the generated transactions when a block is
  synchronised, \<open>gen\<close> those appended to the block when it is packed.\<close>

record loop_state =
  ls_writeBatchs :: "WriteBatch list"
  ls_sync :: "Transaction list"
  ls_gen :: "Transaction list"

definition exec_other :: "'d env \<Rightarrow> bool \<Rightarrow> Transaction \<Rightarrow> loop_state \<Rightarrow> (gerr, 'd Ledger, loop_state) exec" where
  "exec_other E flag tx ls =
     (if length (ls_sync ls) \<noteq> 0 \<and> \<not> flag \<and>
         (\<exists>v \<in> set (ls_sync ls). tx_hash (e_crypto E) tx = tx_hash (e_crypto E) v)
      then ex_ret ls
      else ex_bind (commitedTranaction E tx (ls_writeBatchs ls)) (\<lambda>writeBatchs'. ex_ret (ls\<lparr>ls_writeBatchs := writeBatchs'\<rparr>)))"

text \<open>Whether a contract transaction goes on to the rest of the loop body, or to the next transaction.\<close>

definition exec_contract :: "'d env \<Rightarrow> bool \<Rightarrow> Transaction \<Rightarrow> loop_state \<Rightarrow> (gerr, 'd Ledger, bool \<times> loop_state) exec" where
  "exec_contract E flag tx ls =
     ex_bind (executeAtomicTx E [] tx) (\<lambda>tmpAtomicWriteBatchs. \<lambda>lg.
       go_bind (executeSmartContractTx E tx lg) (\<lambda>(res, lg1).
         case res of
           Inl err \<Rightarrow> go_bind (on_validator (RollBackAccount tx) lg1) (\<lambda>lg2. Ret (Inr (False, ls), lg2))
         | Inr txs \<Rightarrow>
             ex_bind (commit_generated E txs (ls_writeBatchs ls @ tmpAtomicWriteBatchs)) (\<lambda>writeBatchs'.
               ex_ret (True, ls\<lparr>ls_writeBatchs := writeBatchs',
                 ls_sync := (if length txs \<noteq> 0 \<and> \<not> flag then ls_sync ls @ txs else ls_sync ls),
                 ls_gen := (if flag then ls_gen ls @ txs else ls_gen ls)\<rparr>)) lg1))"

fun exec_loop :: "'d env \<Rightarrow> bool \<Rightarrow> Transaction list \<Rightarrow> loop_state \<Rightarrow> (gerr, 'd Ledger, loop_state) exec" where
  "exec_loop E flag [] ls = ex_ret ls"
| "exec_loop E flag (tx # txs) ls =
     ex_bind (if is_contract tx then exec_contract E flag tx ls else ex_ret (True, ls)) (\<lambda>(go_on, ls1).
       if go_on then ex_bind (exec_other E flag tx ls1) (\<lambda>ls2. exec_loop E flag txs ls2)
       else exec_loop E flag txs ls1)"

definition executeTransaction :: "'d env \<Rightarrow> Transaction list \<Rightarrow> bool \<Rightarrow> (gerr, 'd Ledger, WriteBatch list \<times> Transaction list) exec" where
  "executeTransaction E Txs flag =
     ex_bind (exec_loop E flag Txs \<lparr>ls_writeBatchs = [], ls_sync = [], ls_gen = []\<rparr>) (\<lambda>ls. \<lambda>lg.
       Ret (Inr (AddChangesForPersistence (e_ord_delta E) (e_ord_kv E) (ls_writeBatchs ls) (lg_contract lg), Txs @ ls_gen ls), lg))"

definition merkleRootHash :: "crypto_env \<Rightarrow> Transaction list \<Rightarrow> Hash go" where
  "merkleRootHash c txs =
     (if length txs > 0 then
        (case ComputeMerkleHash c (map (tx_hash c) txs) of [] \<Rightarrow> Panic ''index out of range'' | h # _ \<Rightarrow> Ret h)
      else Ret zero_hash)"

definition lg_AtomicWrite :: "'d env \<Rightarrow> WriteBatch list \<Rightarrow> (gerr, 'd Ledger, unit) exec" where
  "lg_AtomicWrite E writeBatchs lg =
     go_bind (st_AtomicWrite (e_rocks E) writeBatchs (lg_state lg, lg_db lg)) (\<lambda>(res, (st', db')).
       Ret (res, lg\<lparr>lg_state := st', lg_db := db'\<rparr>))"

definition lg_Classified :: "'d env \<Rightarrow> Transaction list \<Rightarrow> (gerr, 'd Ledger, unit) exec" where
  "lg_Classified E txs lg =
     go_bind (ms_ClassifiedTransaction (e_rocks E) (e_ord_time E) txs (lg_storage lg, lg_db lg)) (\<lambda>(res, (s', db')).
       Ret (res, lg\<lparr>lg_storage := s', lg_db := db'\<rparr>))"

definition ledger_Height :: "'d env \<Rightarrow> 'd Ledger \<Rightarrow> (gerr + u32) go" where
  "ledger_Height E lg = bs_GetBlockchainHeight (e_rocks E) (lg_db lg)"

definition needs_merge :: "Transaction \<Rightarrow> bool" where
  "needs_merge tx \<longleftrightarrow> (tx_Type tx = TypeMerged \<and> \<not> checkCoordinate tx) \<or> tx_Type tx = TypeAcrossChain"

text \<open>\<^verbatim>\<open>AppendBlock\<close> returns its error and the block as it left it. An error of the write ends it without an
  error and before the contract context is closed.\<close>

definition ledger_AppendBlock :: "'d env \<Rightarrow> Block \<Rightarrow> bool \<Rightarrow> 'd Ledger \<Rightarrow> ((gerr option \<times> Block) \<times> 'd Ledger) go" where
  "ledger_AppendBlock E block flag lg0 =
     go_bind (ledger_Height E lg0) (\<lambda>h.
       let bh = (case h of Inl _ \<Rightarrow> 0 | Inr n \<Rightarrow> n);
           lg = lg0\<lparr>lg_contract := StartConstract bh (lg_contract lg0)\<rparr>
       in go_bind (executeTransaction E (bk_Transactions block) flag lg) (\<lambda>(res, lg1).
            case res of
              Inl err \<Rightarrow> Ret ((Some err, block\<lparr>bk_Transactions := []\<rparr>), lg1)
            | Inr (txWriteBatchs, txs) \<Rightarrow>
                go_bind (merkleRootHash (e_crypto E) txs) (\<lambda>root.
                  let block1 = block\<lparr>bk_Transactions := txs, bk_Header := (bk_Header block)\<lparr>bh_TxsMerkleHash := root\<rparr>\<rparr>;
                      appended = bs_AppendBlock (e_crypto E) block1
                  in go_bind (lg_AtomicWrite E (fst appended @ txWriteBatchs) lg1) (\<lambda>(res, lg2).
                       case res of
                         Inl err \<Rightarrow> Ret ((None, snd appended), lg2)
                       | Inr _ \<Rightarrow>
                           go_bind (lg_Classified E (filter needs_merge txs) (lg2\<lparr>lg_contract := StopContract bh (lg_contract lg2)\<rparr>))
                             (\<lambda>(res, lg3). Ret ((case res of Inl err \<Rightarrow> Some err | Inr _ \<Rightarrow> None, snd appended), lg3))))))"

section \<open>Genesis and reading\<close>

definition genesis_block :: Block where
  "genesis_block = \<lparr>bk_Header = \<lparr>bh_PreviousHash = zero_hash, bh_TimeStamp = 0, bh_Nonce = 100, bh_TxsMerkleHash = zero_hash,
     bh_Height = 0\<rparr>, bk_Transactions = [], bk_hash_cache = None\<rparr>"

definition ledger_init :: "'d env \<Rightarrow> (gerr, 'd Ledger, unit) exec" where
  "ledger_init E = lg_AtomicWrite E (fst (bs_AppendBlock (e_crypto E) genesis_block))"

text \<open>There is one ledger; \<open>inst\<close> is the instance if it exists. The result of \<^verbatim>\<open>init\<close> is not looked at.\<close>

definition NewLedger :: "'d env \<Rightarrow> 'd Ledger option \<Rightarrow> 'd BlockchainDB \<Rightarrow> VMProc \<Rightarrow> 'd Ledger go" where
  "NewLedger E inst db vp =
     go_bind
       (case inst of
          Some lg \<Rightarrow> Ret lg
        | None \<Rightarrow>
            let lg = \<lparr>lg_db = db, lg_state = NewState, lg_storage = NewStorage, lg_contract = NewSmartConstract, lg_vm = vp,
                      lg_Validator = None, lg_next = 0\<rparr>
            in go_bind (ledger_Height E lg) (\<lambda>h.
                 case h of
                   Inr _ \<Rightarrow> Ret lg
                 | Inl _ \<Rightarrow> go_bind (ledger_init E lg) (\<lambda>(_, lg'). Ret lg')))
       (\<lambda>lg. Ret (lg\<lparr>lg_contract := NewSmartConstract\<rparr>))"

definition ledger_GetBlockByNumber :: "'d env \<Rightarrow> 'd Ledger \<Rightarrow> u32 \<Rightarrow> (gerr + BlockHeader) go" where
  "ledger_GetBlockByNumber E lg number = bs_GetBlockByNumber (e_rocks E) (lg_db lg) number"

definition GetGenesisBlock :: "'d env \<Rightarrow> 'd Ledger \<Rightarrow> BlockHeader go" where
  "GetGenesisBlock E lg =
     go_bind (ledger_GetBlockByNumber E lg 0) (\<lambda>res. case res of Inl err \<Rightarrow> Panic ''genesis'' | Inr h \<Rightarrow> Ret h)"

definition GetLastBlockHash :: "'d env \<Rightarrow> 'd Ledger \<Rightarrow> (gerr + Hash) go" where
  "GetLastBlockHash E lg =
     res_bind (ledger_Height E lg) (\<lambda>height.
     res_bind (bs_GetBlockByNumber (e_rocks E) (lg_db lg) height) (\<lambda>lastBlock.
       Ret (Inr (bh_Hash (e_crypto E) lastBlock))))"

definition ledger_GetBlockHashByNumber :: "'d env \<Rightarrow> 'd Ledger \<Rightarrow> u32 \<Rightarrow> (gerr + Hash) go" where
  "ledger_GetBlockHashByNumber E lg blockNum =
     res_bind (bs_GetBlockHashByNumber (e_rocks E) (lg_db lg) blockNum) (\<lambda>hashBytes.
       Ret (Inr (hash_SetBytes zero_hash hashBytes)))"

definition ledger_GetTransactionHashList :: "'d env \<Rightarrow> 'd Ledger \<Rightarrow> u32 \<Rightarrow> (gerr + Hash list) go" where
  "ledger_GetTransactionHashList E lg number =
     res_bind (bs_GetTransactionHashList (e_rocks E) (lg_db lg) number) (\<lambda>txHashsBytes.
       Ret (Inr (val_hashes (fst (Deserialize hashes_ty txHashsBytes)))))"

definition ledger_GetBalance :: "'d env \<Rightarrow> 'd Ledger \<Rightarrow> Address \<Rightarrow> (int option \<times> u32 \<times> gerr option) go" where
  "ledger_GetBalance E lg addr = st_GetBalance (e_rocks E) (lg_db lg) addr"

fun txs_by_hash :: "nat \<Rightarrow> 'd env \<Rightarrow> 'd Ledger \<Rightarrow> Hash list \<Rightarrow> (gerr + Transaction list) go" where
  "txs_by_hash p E lg [] = Ret (Inr [])"
| "txs_by_hash p E lg (v # txsHashs) =
     res_bind (bs_GetTransactionByTxHash p (e_rocks E) (lg_db lg) v) (\<lambda>tx.
     res_bind (txs_by_hash (Suc p) E lg txsHashs) (\<lambda>txs. Ret (Inr (tx # txs))))"

definition ledger_GetTxsByMergeTxHash :: "nat \<Rightarrow> 'd env \<Rightarrow> 'd Ledger \<Rightarrow> Hash \<Rightarrow> (gerr + Transaction list) go" where
  "ledger_GetTxsByMergeTxHash p E lg mergeTxHash =
     res_bind (ms_GetTxsByMergeTxHash (e_rocks E) (lg_db lg) mergeTxHash) (\<lambda>txsHashs. txs_by_hash p E lg txsHashs)"

text \<open>\<^verbatim>\<open>VerifyChain\<close>: the loop from height \<open>i\<close> down, with the header of height \<open>i\<close>, if it was found. A header that
  is missing is dereferenced.\<close>

fun verify_from :: "'d env \<Rightarrow> 'd Ledger \<Rightarrow> nat \<Rightarrow> BlockHeader option \<Rightarrow> unit go" where
  "verify_from E lg 0 cur = Ret ()"
| "verify_from E lg (Suc i) cur =
     go_bind (bs_GetBlockByNumber (e_rocks E) (lg_db lg) (word_of_nat i)) (\<lambda>res.
       case res of
         Inl err \<Rightarrow> nil_deref
       | Inr prev \<Rightarrow>
           (case cur of
              None \<Rightarrow> nil_deref
            | Some c \<Rightarrow>
                if \<not> hash_Equal (bh_Hash (e_crypto E) prev) (bh_PreviousHash c) then Panic ''veifychain breaks''
                else verify_from E lg i (Some prev)))"

definition VerifyChain :: "'d env \<Rightarrow> 'd Ledger \<Rightarrow> unit go" where
  "VerifyChain E lg =
     go_bind (ledger_Height E lg) (\<lambda>res.
       case res of
         Inl err \<Rightarrow> Panic ''height''
       | Inr height \<Rightarrow>
           go_bind (bs_GetBlockByNumber (e_rocks E) (lg_db lg) height) (\<lambda>cur.
             verify_from E lg (unat height) (case cur of Inl _ \<Rightarrow> None | Inr h \<Rightarrow> Some h)))"

section \<open>The bank of a block\<close>

definition bank_skip :: "(bank \<Rightarrow> bank option) \<Rightarrow> bank \<Rightarrow> bank" where
  "bank_skip f b = (case f b of None \<Rightarrow> b | Some b' \<Rightarrow> b')"

abbreviation amt :: "Transaction \<Rightarrow> int" where "amt tx \<equiv> the (tx_Amount tx)"
abbreviation fee :: "Transaction \<Rightarrow> int" where "fee tx \<equiv> the (tx_Fee tx)"

definition bank_cross :: "ChainCoordinate \<Rightarrow> Transaction \<Rightarrow> bank \<Rightarrow> bank option" where
  "bank_cross chain tx =
     (if td_FromChain (tx_Data tx) = chain then bank_sub (tx_Sender tx) (fee tx) (amt tx) (tx_Nonce tx)
      else bank_plus (tx_Recipient tx) (amt tx))"

definition chain_addr :: "crypto_env \<Rightarrow> Transaction \<Rightarrow> Address" where
  "chain_addr c tx = (case ChainCoordinateToAddress c (td_ToChain (tx_Data tx)) of Ret a \<Rightarrow> a | Panic _ \<Rightarrow> zero_addr)"

definition bank_chain :: "(bank \<Rightarrow> bank option) \<Rightarrow> ChainCoordinate \<Rightarrow> Transaction \<Rightarrow> bank \<Rightarrow> bank" where
  "bank_chain f chain tx b = (case f b of None \<Rightarrow> b | Some b' \<Rightarrow> bank_skip (bank_cross chain tx) b')"

text \<open>What a transaction that is no contract and no issue does to the accounts of a chain.\<close>

definition bank_tx :: "crypto_env \<Rightarrow> ChainCoordinate \<Rightarrow> Transaction \<Rightarrow> bank \<Rightarrow> bank" where
  "bank_tx c chain tx =
     (if tx_Type tx = TypeAtomic then
        bank_skip (bank_transfer (tx_Sender tx) (tx_Recipient tx) (fee tx) (amt tx) (tx_Nonce tx) False)
      else if tx_Type tx = TypeAcrossChain then bank_skip (bank_cross chain tx)
      else if tx_Type tx = TypeMerged then
        (if td_FromChain (tx_Data tx) = td_ToChain (tx_Data tx) then
           bank_skip (bank_transfer (take 20 (the (td_Signature (tx_Data tx)))) (tx_Recipient tx) (fee tx) (amt tx) (tx_Nonce tx) False)
         else bank_skip (bank_cross chain tx))
      else if tx_Type tx = TypeBackfront then
        (if td_ToChain (tx_Data tx) = chain then bank_chain (bank_sub (chain_addr c tx) 0 (amt tx) 0) chain tx
         else bank_skip (bank_cross chain tx))
      else if tx_Type tx = TypeDistribut then
        (if td_FromChain (tx_Data tx) = chain then bank_chain (bank_plus (chain_addr c tx) (amt tx)) chain tx
         else bank_skip (bank_cross chain tx))
      else id)"

text \<open>A transaction that can be executed: amounts that are present and not negative, addresses of the right
  length, for a merged transaction the signature that names its sender, and for a distributing or returning one
  the coordinate whose address it moves.\<close>

definition payable :: "Transaction \<Rightarrow> bool" where
  "payable tx \<longleftrightarrow> (\<exists>a f. tx_Amount tx = Some a \<and> tx_Fee tx = Some f \<and> 0 \<le> a \<and> 0 \<le> f) \<and>
     length (tx_Sender tx) = 20 \<and> length (tx_Recipient tx) = 20"

definition plain_tx :: "Transaction \<Rightarrow> bool" where
  "plain_tx tx \<longleftrightarrow> payable tx \<and> \<not> is_contract tx \<and> tx_Type tx \<noteq> TypeIssue \<and>
     (tx_Type tx = TypeMerged \<longrightarrow> (\<exists>s. td_Signature (tx_Data tx) = Some s \<and> 20 \<le> length s)) \<and>
     (tx_Type tx = TypeBackfront \<or> tx_Type tx = TypeDistribut \<longrightarrow> td_ToChain (tx_Data tx) \<noteq> [])"

definition bounded :: "int \<Rightarrow> bank \<Rightarrow> bool" where
  "bounded N b \<longleftrightarrow> (\<forall>a. 0 \<le> fst (b a) \<and> fst (b a) \<le> N)"

definition bank_op :: "int \<Rightarrow> (bank \<Rightarrow> bank option) \<Rightarrow> Address list \<Rightarrow> bool" where
  "bank_op n f accts \<longleftrightarrow> (\<forall>b b' N. bounded N b \<longrightarrow> f b = Some b' \<longrightarrow> bounded (N + n) b' \<and> (\<forall>a. a \<notin> set accts \<longrightarrow> b' a = b a))"

definition implements :: "contents \<Rightarrow> (gerr, State, WriteBatch list) exec \<Rightarrow> (bank \<Rightarrow> bank option) \<Rightarrow> Address list \<Rightarrow> bool" where
  "implements g m f accts \<longleftrightarrow> (\<forall>st N. st_wf g st \<longrightarrow> bounded N (st_bank g st) \<longrightarrow>
     (\<exists>st'. st_wf g st' \<and>
        (case f (st_bank g st) of
           Some b \<Rightarrow> m st = Ret (Inr (map (put_acct b) accts), st') \<and> st_bank g st' = b
         | None \<Rightarrow> m st = Ret (Inl ErrNegativeBalance, st') \<and> st_bank g st' = st_bank g st)))"

lemma boundedD:
  assumes "bounded N b" and "0 \<le> n"
  shows "0 \<le> fst (b a)" and "fst (b a) \<le> N" and "fst (b a) \<le> N + n"
proof -
  show "0 \<le> fst (b a)" and le: "fst (b a) \<le> N" using assms(1) by (simp_all add: bounded_def)
  with assms(2) show "fst (b a) \<le> N + n" by linarith
qed

lemma bank_op_transfer:
  assumes "0 \<le> n" and "0 \<le> f"
  shows "bank_op n (bank_transfer s t f n k False) (if s = t then [s] else [s, t])"
  unfolding bank_op_def
proof (intro allI impI)
  fix b b' N assume B: "bounded N b" and e: "bank_transfer s t f n k False b = Some b'"
  note P = boundedD [OF B assms(1)]
  from e show "bounded (N + n) b' \<and> (\<forall>a. a \<notin> set (if s = t then [s] else [s, t]) \<longrightarrow> b' a = b a)"
    using assms by (auto simp: bank_transfer_def bounded_def P split: if_splits)
      (use P(2) [of s] P(2) [of t] in linarith)+
qed

lemma bank_op_plus:
  assumes "0 \<le> n"
  shows "bank_op n (bank_plus a n) [a]"
  unfolding bank_op_def
proof (intro allI impI)
  fix b b' N assume B: "bounded N b" and e: "bank_plus a n b = Some b'"
  note P = boundedD [OF B assms(1)]
  from e show "bounded (N + n) b' \<and> (\<forall>x. x \<notin> set [a] \<longrightarrow> b' x = b x)"
    by (auto simp: bank_plus_def bounded_def P split: if_splits)
qed

lemma bank_op_sub:
  assumes "0 \<le> n" and "0 \<le> f"
  shows "bank_op n (bank_sub a f n k) [a]"
  unfolding bank_op_def
proof (intro allI impI)
  fix b b' N assume B: "bounded N b" and e: "bank_sub a f n k b = Some b'"
  note P = boundedD [OF B assms(1)]
  from e show "bounded (N + n) b' \<and> (\<forall>x. x \<notin> set [a] \<longrightarrow> b' x = b x)"
    using assms by (auto simp: bank_sub_def bounded_def P split: if_splits) (use P(2) [of a] in linarith)
qed

lemma implements_plus:
  assumes "db_ready r db"
  shows "implements (db_val r db) (st_UpdateBalance r db a (NewBalance (Some n) k) f st_OperationPlus) (bank_plus a n) [a]"
  unfolding implements_def
proof (intro allI impI, goal_cases)
  case (1 st N)
  from st_Plus_refines [OF assms 1(1), where a = a and amount = n and n = k and fee = f] show ?case
    by (cases "bank_plus a n (st_bank (db_val r db) st)") simp_all
qed

lemma implements_sub:
  assumes "db_ready r db"
  shows "implements (db_val r db) (st_UpdateBalance r db a (NewBalance (Some n) k) (Some f) st_OperationSub) (bank_sub a f n k) [a]"
  unfolding implements_def
proof (intro allI impI, goal_cases)
  case (1 st N)
  from st_Sub_refines [OF assms 1(1), where a = a and amount = n and n = k and fee = f] show ?case
    by (cases "bank_sub a f n k (st_bank (db_val r db) st)") simp_all
qed

lemma implements_transfer:
  assumes db: "db_ready r db" and len: "length s = 20" "length t = 20" and "0 \<le> n" and ty: "txType \<noteq> TypeIssue"
  shows "implements (db_val r db) (st_Transfer r db s t (Some f) (NewBalance (Some n) k) txType)
    (bank_transfer s t f n k False) (if s = t then [s] else [s, t])"
  unfolding implements_def
proof (intro allI impI)
  fix st N
  assume wf: "st_wf (db_val r db) st" and b: "bounded N (st_bank (db_val r db) st)"
  show "\<exists>st'. st_wf (db_val r db) st' \<and> (case bank_transfer s t f n k False (st_bank (db_val r db) st) of
      Some b \<Rightarrow> st_Transfer r db s t (Some f) (NewBalance (Some n) k) txType st =
          Ret (Inr (map (put_acct b) (if s = t then [s] else [s, t])), st') \<and> st_bank (db_val r db) st' = b
    | None \<Rightarrow> st_Transfer r db s t (Some f) (NewBalance (Some n) k) txType st = Ret (Inl ErrNegativeBalance, st') \<and>
        st_bank (db_val r db) st' = st_bank (db_val r db) st)"
  proof (cases "s = t")
    case True
    show ?thesis
      using st_Transfer_self [OF db wf len(2), where fee = f and amount = n and amt = "Some n" and n = k and txType = txType] ty
      unfolding True by (cases "bank_transfer t t f n k False (st_bank (db_val r db) st)") simp_all
  next
    case False
    have "0 \<le> fst (st_bank (db_val r db) st t) + n" using b \<open>0 \<le> n\<close> by (simp add: bounded_def)
    then have "bank_transfer s t f n k False (st_bank (db_val r db) st) = None \<Longrightarrow>
        failed_transfer s t f n k (st_bank (db_val r db) st) = st_bank (db_val r db) st"
      using False by (auto simp: bank_transfer_def failed_transfer_def split: if_splits)
    then show ?thesis
      using st_Transfer_other [OF db wf len False, where fee = f and amount = n and n = k and txType = txType] ty False
      by (cases "bank_transfer s t f n k False (st_bank (db_val r db) st)") auto
  qed
qed

section \<open>Batches and cache agree\<close>

lemma length_be_bytes_mono: "m \<le> n \<Longrightarrow> length (be_bytes m) \<le> length (be_bytes n)"
proof (induction n arbitrary: m rule: be_bytes.induct)
  case (1 n)
  show ?case
  proof (cases "m = 0")
    case False
    with 1(2) have "n \<noteq> 0" "m div 256 \<le> n div 256" by (auto intro: div_le_mono)
    with 1(1) have "length (be_bytes (m div 256)) \<le> length (be_bytes (n div 256))" by blast
    with False \<open>n \<noteq> 0\<close> show ?thesis by (subst (1 2) be_bytes.simps) simp
  qed (simp add: be_bytes.simps)
qed

lemma amount_fits_mono: "0 \<le> x \<Longrightarrow> x \<le> N \<Longrightarrow> amount_fits (Some N) \<Longrightarrow> amount_fits (Some x)"
  using length_be_bytes_mono [of "nat x" "nat N"] by (simp add: amount_fits_def nat_mono)

text \<open>The cached accounts are what the database would hold if the batches were written now.\<close>

definition lg_bank :: "'d env \<Rightarrow> 'd Ledger \<Rightarrow> bank" where
  "lg_bank E lg = st_bank (db_val (e_rocks E) (lg_db lg)) (lg_state lg)"

definition in_sync :: "'d env \<Rightarrow> int \<Rightarrow> WriteBatch list \<Rightarrow> 'd Ledger \<Rightarrow> bool" where
  "in_sync E N wbs lg \<longleftrightarrow> db_ready (e_rocks E) (lg_db lg) \<and> st_wf (db_val (e_rocks E) (lg_db lg)) (lg_state lg) \<and>
     bounded N (lg_bank E lg) \<and> db_bank (fold apply_wb wbs (db_val (e_rocks E) (lg_db lg))) = lg_bank E lg \<and>
     st_wf (fold apply_wb wbs (db_val (e_rocks E) (lg_db lg))) NewState \<and>
     list_all (\<lambda>wb. wb_CfName wb = ''balance'') wbs"

text \<open>Only the account state changed.\<close>

definition same_rest :: "'d Ledger \<Rightarrow> 'd Ledger \<Rightarrow> bool" where
  "same_rest lg lg' \<longleftrightarrow> lg_db lg' = lg_db lg \<and> lg_storage lg' = lg_storage lg \<and> lg_contract lg' = lg_contract lg \<and>
     lg_vm lg' = lg_vm lg \<and> lg_Validator lg' = lg_Validator lg \<and> lg_next lg' = lg_next lg"

lemma same_rest_refl [simp]: "same_rest lg lg"
  by (simp add: same_rest_def)

lemma same_rest_trans: "same_rest a b \<Longrightarrow> same_rest b c \<Longrightarrow> same_rest a c"
  by (simp add: same_rest_def)

lemma same_rest_db: "same_rest lg lg' \<Longrightarrow> lg_db lg' = lg_db lg"
  by (simp add: same_rest_def)

lemma db_bank_puts:
  assumes "\<And>a. a \<in> set accts \<Longrightarrow> 0 \<le> fst (b a) \<and> amount_fits (Some (fst (b a)))"
  shows "db_bank (fold apply_wb (map (put_acct b) accts) h) = (\<lambda>a. if a \<in> set accts then b a else db_bank h a)"
  using assms
proof (induction accts arbitrary: h)
  case (Cons x accts)
  have "db_bank (apply_wb (put_acct b x) h) = (db_bank h)(x := b x)"
    using Cons.prems [of x] db_bank_put [of b x h] by simp
  with Cons show ?case by (auto simp: fun_eq_iff)
qed simp

lemma st_wf_New: "st_wf g NewState \<longleftrightarrow> (\<forall>a. bl_Amount (db_balance g a) \<noteq> None)"
  by (simp add: st_wf_def tmp_balance_def NewState_def)

lemma st_wf_New_cong: "g ''balance'' = h ''balance'' \<Longrightarrow> st_wf g NewState = st_wf h NewState"
  by (simp add: st_wf_New db_balance_def)

lemma st_wf_puts:
  assumes "\<And>a. amount_fits (Some (fst (b a)))" and "st_wf h NewState"
  shows "st_wf (fold apply_wb (map (put_acct b) accts) h) NewState"
  using assms(2)
proof (induction accts arbitrary: h)
  case (Cons x accts)
  have "st_wf (apply_wb (put_acct b x) h) NewState"
    using Cons.prems by (auto simp: st_wf_New db_balance_put [where b = b, OF assms(1)])
  with Cons.IH show ?case by simp
qed simp

lemma put_acct_cf [simp]: "wb_CfName (put_acct b a) = ''balance''"
  by (simp add: put_acct_def put_balance_def NewWriteBatch_def)

lemma in_sync_puts:
  assumes "in_sync E N wbs lg" and "bank_op n f accts" and "f (lg_bank E lg) = Some b" and "amount_fits (Some (N + n))"
    and "st_wf (db_val (e_rocks E) (lg_db lg)) st'" and "st_bank (db_val (e_rocks E) (lg_db lg)) st' = b"
  shows "in_sync E (N + n) (wbs @ map (put_acct b) accts) (lg\<lparr>lg_state := st'\<rparr>)"
proof -
  have B: "bounded (N + n) b" and other: "\<And>a. a \<notin> set accts \<Longrightarrow> b a = lg_bank E lg a"
    using assms(1-3) unfolding in_sync_def bank_op_def by blast+
  have fits: "amount_fits (Some (fst (b a)))" for a
    using amount_fits_mono [OF _ _ assms(4), of "fst (b a)"] B by (simp add: bounded_def)
  then have "db_bank (fold apply_wb (map (put_acct b) accts) (fold apply_wb wbs (db_val (e_rocks E) (lg_db lg)))) = b"
    using B assms(1) other by (subst db_bank_puts) (auto simp: bounded_def in_sync_def fun_eq_iff)
  then show ?thesis
    using assms(1,5,6) B st_wf_puts [where b = b, OF fits] by (auto simp: in_sync_def lg_bank_def list_all_iff)
qed

lemma bounded_mono: "bounded N b \<Longrightarrow> 0 \<le> n \<Longrightarrow> bounded (N + n) b"
  using boundedD(1) [of N b n] boundedD(3) [of N b n] by (simp add: bounded_def [of "N + n"])

lemma in_sync_skip:
  assumes "in_sync E N wbs lg" and "0 \<le> n" and "st_wf (db_val (e_rocks E) (lg_db lg)) st'"
    and "st_bank (db_val (e_rocks E) (lg_db lg)) st' = lg_bank E lg"
  shows "in_sync E (N + n) wbs (lg\<lparr>lg_state := st'\<rparr>)"
  using assms by (simp add: in_sync_def lg_bank_def bounded_mono)

lemma on_state_step:
  assumes "in_sync E N wbs lg" and "implements (db_val (e_rocks E) (lg_db lg)) (m (e_rocks E) (lg_db lg)) f accts"
    and "bank_op n f accts" and "0 \<le> n" and "amount_fits (Some (N + n))"
  shows "\<exists>st'. case f (lg_bank E lg) of
      Some b \<Rightarrow> on_state m E lg = Ret (Inr (map (put_acct b) accts), lg\<lparr>lg_state := st'\<rparr>) \<and>
        in_sync E (N + n) (wbs @ map (put_acct b) accts) (lg\<lparr>lg_state := st'\<rparr>) \<and> lg_bank E (lg\<lparr>lg_state := st'\<rparr>) = b
    | None \<Rightarrow> on_state m E lg = Ret (Inl ErrNegativeBalance, lg\<lparr>lg_state := st'\<rparr>) \<and>
        in_sync E (N + n) wbs (lg\<lparr>lg_state := st'\<rparr>) \<and> lg_bank E (lg\<lparr>lg_state := st'\<rparr>) = lg_bank E lg"
proof -
  let ?g = "db_val (e_rocks E) (lg_db lg)"
  have "st_wf ?g (lg_state lg)" "bounded N (st_bank ?g (lg_state lg))"
    using assms(1) by (simp_all add: in_sync_def lg_bank_def)
  with assms(2) obtain st' where st': "st_wf ?g st'"
    "case f (lg_bank E lg) of
       Some b \<Rightarrow> m (e_rocks E) (lg_db lg) (lg_state lg) = Ret (Inr (map (put_acct b) accts), st') \<and> st_bank ?g st' = b
     | None \<Rightarrow> m (e_rocks E) (lg_db lg) (lg_state lg) = Ret (Inl ErrNegativeBalance, st') \<and> st_bank ?g st' = lg_bank E lg"
    unfolding implements_def lg_bank_def by blast
  show ?thesis
  proof (cases "f (lg_bank E lg)")
    case None
    with st' in_sync_skip [OF assms(1,4) st'(1)] show ?thesis
      by (intro exI [of _ st']) (simp add: on_state_def lg_bank_def)
  next
    case (Some b)
    with st' in_sync_puts [OF assms(1,3) Some assms(5) st'(1)] show ?thesis
      by (intro exI [of _ st']) (simp add: on_state_def lg_bank_def)
  qed
qed

text \<open>A step of the loop: it returns, the batches stay in step with the cache, the accounts change by \<open>f\<close>.\<close>

definition runs :: "'d env \<Rightarrow> int \<Rightarrow> 'd Ledger \<Rightarrow> (gerr, 'd Ledger, WriteBatch list) exec \<Rightarrow> (bank \<Rightarrow> bank) \<Rightarrow> bool" where
  "runs E N lg m f \<longleftrightarrow> (\<exists>wbs' lg'. m lg = Ret (Inr wbs', lg') \<and> in_sync E N wbs' lg' \<and>
     lg_bank E lg' = f (lg_bank E lg) \<and> same_rest lg lg')"

lemma or_skip_step:
  assumes "in_sync E N wbs lg" and "implements (db_val (e_rocks E) (lg_db lg)) (m (e_rocks E) (lg_db lg)) f accts"
    and "bank_op n f accts" and "0 \<le> n" and "amount_fits (Some (N + n))"
  shows "runs E (N + n) lg (or_skip wbs (on_state m E)) (bank_skip f)"
proof -
  from on_state_step [where m = m, OF assms] obtain st' where
    "case f (lg_bank E lg) of
      Some b \<Rightarrow> on_state m E lg = Ret (Inr (map (put_acct b) accts), lg\<lparr>lg_state := st'\<rparr>) \<and>
        in_sync E (N + n) (wbs @ map (put_acct b) accts) (lg\<lparr>lg_state := st'\<rparr>) \<and> lg_bank E (lg\<lparr>lg_state := st'\<rparr>) = b
    | None \<Rightarrow> on_state m E lg = Ret (Inl ErrNegativeBalance, lg\<lparr>lg_state := st'\<rparr>) \<and>
        in_sync E (N + n) wbs (lg\<lparr>lg_state := st'\<rparr>) \<and> lg_bank E (lg\<lparr>lg_state := st'\<rparr>) = lg_bank E lg" by blast
  then show ?thesis
    by (cases "f (lg_bank E lg)") (auto simp: runs_def or_skip_def bank_skip_def same_rest_def)
qed

lemma cross_step:
  assumes "in_sync E N wbs lg" and "plain_tx tx" and "amount_fits (Some (N + amt tx))"
  shows "runs E (N + amt tx) lg (executeACrossChainTx E wbs tx) (bank_skip (bank_cross (ChainID (e_params E)) tx))"
proof -
  have db: "db_ready (e_rocks E) (lg_db lg)" using assms(1) by (simp add: in_sync_def)
  obtain a f where a: "tx_Amount tx = Some a" "tx_Fee tx = Some f" "0 \<le> a" "0 \<le> f" using assms(2) by (auto simp: plain_tx_def payable_def)
  show ?thesis
    using or_skip_step [where m = "\<lambda>r db. st_UpdateBalance r db (tx_Sender tx) (NewBalance (Some a) (tx_Nonce tx)) (Some f) st_OperationSub",
        OF assms(1) implements_sub [OF db] bank_op_sub [OF a(3,4)] a(3)]
      or_skip_step [where m = "\<lambda>r db. st_UpdateBalance r db (tx_Recipient tx) (NewBalance (Some a) (tx_Nonce tx)) (Some f) st_OperationPlus",
        OF assms(1) implements_plus [OF db] bank_op_plus [OF a(3)] a(3)] assms(3) a
    by (auto simp: executeACrossChainTx_def bank_cross_def tx_balance_def tx_FromChain_def)
qed

lemma transfer_step:
  assumes "in_sync E N wbs lg" and "payable tx" and "amount_fits (Some (N + amt tx))" and "length s = 20" and "ty \<noteq> TypeIssue"
  shows "runs E (N + amt tx) lg
    (or_skip wbs (on_state (\<lambda>r db. st_Transfer r db s (tx_Recipient tx) (tx_Fee tx) (tx_balance tx) ty) E))
    (bank_skip (bank_transfer s (tx_Recipient tx) (fee tx) (amt tx) (tx_Nonce tx) False))"
proof -
  have db: "db_ready (e_rocks E) (lg_db lg)" using assms(1) by (simp add: in_sync_def)
  obtain a f where a: "tx_Amount tx = Some a" "tx_Fee tx = Some f" "0 \<le> a" "0 \<le> f" and t: "length (tx_Recipient tx) = 20"
    using assms(2) by (auto simp: payable_def)
  show ?thesis
    using or_skip_step [where m = "\<lambda>r db. st_Transfer r db s (tx_Recipient tx) (Some f) (NewBalance (Some a) (tx_Nonce tx)) ty",
        OF assms(1) implements_transfer [OF db assms(4) t a(3) assms(5)] bank_op_transfer [OF a(3,4)] a(3)] assms(3) a
    by (simp add: tx_balance_def)
qed

lemma in_sync_mono: "in_sync E N wbs lg \<Longrightarrow> 0 \<le> n \<Longrightarrow> in_sync E (N + n) wbs lg"
  by (simp add: in_sync_def bounded_mono)

lemma runs_mono: "runs E N lg m f \<Longrightarrow> 0 \<le> n \<Longrightarrow> runs E (N + n) lg m f"
  by (auto simp: runs_def intro: in_sync_mono)

lemma runs_ret: "in_sync E N wbs lg \<Longrightarrow> runs E N lg (ex_ret wbs) id"
  by (simp add: runs_def ex_ret_def)

lemma chain_step:
  assumes sync: "in_sync E N wbs lg" and tx: "plain_tx tx" and fits: "amount_fits (Some (N + amt tx + amt tx))"
    and ca: "ChainCoordinateToAddress (e_crypto E) (td_ToChain (tx_Data tx)) = Ret ca"
    and impl: "implements (db_val (e_rocks E) (lg_db lg))
      (st_UpdateBalance (e_rocks E) (lg_db lg) ca (NewBalance (Some (amt tx)) 0) (Some 0) op) f [ca]"
    and bop: "bank_op (amt tx) f [ca]"
  shows "runs E (N + amt tx + amt tx) lg (chain_update E wbs tx op) (bank_chain f (ChainID (e_params E)) tx)"
proof -
  let ?m = "\<lambda>r db. st_UpdateBalance r db ca (NewBalance (tx_Amount tx) 0) (Some 0) op"
  have n: "0 \<le> amt tx" and a: "tx_Amount tx = Some (amt tx)" using tx by (auto simp: plain_tx_def payable_def)
  have "0 \<le> N" using sync by (auto simp: in_sync_def bounded_def intro: order_trans)
  with fits n have fits1: "amount_fits (Some (N + amt tx))" by (auto elim!: amount_fits_mono [rotated 2])
  have eq: "chain_update E wbs tx op lg = go_bind (on_state ?m E lg) (\<lambda>(res, lg').
      case res of Inr batchs \<Rightarrow> executeACrossChainTx E (wbs @ batchs) tx lg'
      | Inl err \<Rightarrow> if err = ErrNegativeBalance then Ret (Inr wbs, lg') else Ret (Inl err, lg'))"
    by (simp add: chain_update_def tx_ToChain_def ca)
  from on_state_step [where m = ?m and f = f and accts = "[ca]", OF sync _ bop n fits1] impl a obtain st' where st':
    "case f (lg_bank E lg) of
      Some b \<Rightarrow> on_state ?m E lg = Ret (Inr (map (put_acct b) [ca]), lg\<lparr>lg_state := st'\<rparr>) \<and>
        in_sync E (N + amt tx) (wbs @ map (put_acct b) [ca]) (lg\<lparr>lg_state := st'\<rparr>) \<and> lg_bank E (lg\<lparr>lg_state := st'\<rparr>) = b
    | None \<Rightarrow> on_state ?m E lg = Ret (Inl ErrNegativeBalance, lg\<lparr>lg_state := st'\<rparr>) \<and>
        in_sync E (N + amt tx) wbs (lg\<lparr>lg_state := st'\<rparr>) \<and> lg_bank E (lg\<lparr>lg_state := st'\<rparr>) = lg_bank E lg" by force
  show ?thesis
  proof (cases "f (lg_bank E lg)")
    case None
    with st' have "in_sync E (N + amt tx) wbs (lg\<lparr>lg_state := st'\<rparr>)" by simp
    from in_sync_mono [OF this n] have "in_sync E (N + amt tx + amt tx) wbs (lg\<lparr>lg_state := st'\<rparr>)" .
    with None st' show ?thesis by (auto simp: runs_def eq bank_chain_def same_rest_def)
  next
    case (Some b)
    with st' have "runs E (N + amt tx + amt tx) (lg\<lparr>lg_state := st'\<rparr>) (executeACrossChainTx E (wbs @ map (put_acct b) [ca]) tx)
        (bank_skip (bank_cross (ChainID (e_params E)) tx))"
      by (intro cross_step tx fits) simp
    with Some st' show ?thesis by (auto simp: runs_def eq bank_chain_def same_rest_def)
  qed
qed

lemmas tx_type_defs = TypeIssue_def TypeAtomic_def TypeAcrossChain_def TypeMerged_def TypeBackfront_def TypeDistribut_def

lemma commit_step:
  assumes sync: "in_sync E N wbs lg" and tx: "plain_tx tx" and fits: "amount_fits (Some (N + amt tx + amt tx))"
  shows "runs E (N + amt tx + amt tx) lg (commitedTranaction E tx wbs) (bank_tx (e_crypto E) (ChainID (e_params E)) tx)"
proof -
  have n: "0 \<le> amt tx" and s: "length (tx_Sender tx) = 20" and ni: "tx_Type tx \<noteq> TypeIssue" using tx by (auto simp: plain_tx_def payable_def)
  have db: "db_ready (e_rocks E) (lg_db lg)" using sync by (simp add: in_sync_def)
  have "0 \<le> N" using sync by (auto simp: in_sync_def bounded_def intro: order_trans)
  with fits n have fits1: "amount_fits (Some (N + amt tx))" by (auto elim!: amount_fits_mono [rotated 2])
  note cross = runs_mono [OF cross_step [OF sync tx fits1] n]
  have "payable tx" using tx by (simp add: plain_tx_def)
  note transfer = runs_mono [OF transfer_step [OF sync this fits1] n]
  note same = runs_mono [OF runs_mono [OF runs_ret [OF sync] n] n]
  show ?thesis
  proof (cases "tx_Type tx = TypeMerged")
    case True
    then obtain g where g: "td_Signature (tx_Data tx) = Some g" "20 \<le> length g" using tx by (auto simp: plain_tx_def payable_def)
    show ?thesis
      using cross transfer [of "take 20 g" TypeMerged] True g
      by (simp add: commitedTranaction_def executeMergedTx_def bank_tx_def checkCoordinate_def tx_FromChain_def tx_ToChain_def
          NewAddress_def tx_type_defs)
  next
    case nm: False
    show ?thesis
    proof (cases "tx_Type tx = TypeBackfront \<or> tx_Type tx = TypeDistribut")
      case True
      then obtain ca where ca: "ChainCoordinateToAddress (e_crypto E) (td_ToChain (tx_Data tx)) = Ret ca"
        using tx by (auto simp: plain_tx_def payable_def ChainCoordinateToAddress_def)
      then have "chain_addr (e_crypto E) tx = ca" by (simp add: chain_addr_def)
      note chain = chain_step [OF sync tx fits ca, folded this]
      show ?thesis
        using cross True chain [OF implements_sub [OF db] bank_op_sub [OF n order_refl]]
          chain [OF implements_plus [OF db] bank_op_plus [OF n]]
        by (auto simp: commitedTranaction_def executeBackfrontTx_def executeDistriTx_def bank_tx_def tx_FromChain_def tx_ToChain_def
            tx_type_defs)
    next
      case False
      then show ?thesis
        using cross transfer [OF s, of TypeAtomic] same nm ni
        by (simp add: commitedTranaction_def executeAtomicTx_def bank_tx_def tx_type_defs)
    qed
  qed
qed

section \<open>A block of payments\<close>

text \<open>By how much the accounts of a block can grow at most.\<close>

definition block_growth :: "Transaction list \<Rightarrow> int" where
  "block_growth txs = (\<Sum>tx\<leftarrow>txs. amt tx + amt tx)"

lemma block_growth_nonneg: "list_all plain_tx txs \<Longrightarrow> 0 \<le> block_growth txs"
  by (induction txs) (auto simp: block_growth_def plain_tx_def payable_def)

lemma exec_loop_plain:
  assumes "list_all plain_tx txs" and "in_sync E N (ls_writeBatchs ls) lg" and "ls_sync ls = []"
    and "amount_fits (Some (N + block_growth txs))"
  shows "\<exists>wbs lg'. exec_loop E flag txs ls lg = Ret (Inr (ls\<lparr>ls_writeBatchs := wbs\<rparr>), lg') \<and> in_sync E (N + block_growth txs) wbs lg' \<and>
    lg_bank E lg' = fold (bank_tx (e_crypto E) (ChainID (e_params E))) txs (lg_bank E lg) \<and> same_rest lg lg'"
  using assms
proof (induction txs arbitrary: N ls lg)
  case Nil
  then show ?case by (intro exI [of _ "ls_writeBatchs ls"] exI [of _ lg]) (simp add: block_growth_def)
next
  case (Cons tx txs)
  have tx: "plain_tx tx" and txs: "list_all plain_tx txs" using Cons.prems(1) by simp_all
  have n: "0 \<le> amt tx" and g: "0 \<le> block_growth txs" using tx block_growth_nonneg [OF txs] by (auto simp: plain_tx_def payable_def)
  have e: "N + block_growth (tx # txs) = N + amt tx + amt tx + block_growth txs" by (simp add: block_growth_def)
  have "0 \<le> N" using Cons.prems(2) by (auto simp: in_sync_def bounded_def intro: order_trans)
  with Cons.prems(4) n g have "amount_fits (Some (N + amt tx + amt tx))"
    unfolding e by (auto elim!: amount_fits_mono [rotated 2])
  from commit_step [OF Cons.prems(2) tx this] obtain wbs1 lg1 where
    one: "commitedTranaction E tx (ls_writeBatchs ls) lg = Ret (Inr wbs1, lg1)" "in_sync E (N + amt tx + amt tx) wbs1 lg1"
    "lg_bank E lg1 = bank_tx (e_crypto E) (ChainID (e_params E)) tx (lg_bank E lg)" "same_rest lg lg1"
    unfolding runs_def by blast
  obtain wbs lg' where "exec_loop E flag txs (ls\<lparr>ls_writeBatchs := wbs1\<rparr>) lg1 = Ret (Inr (ls\<lparr>ls_writeBatchs := wbs\<rparr>), lg')"
    "in_sync E (N + block_growth (tx # txs)) wbs lg'"
    "lg_bank E lg' = fold (bank_tx (e_crypto E) (ChainID (e_params E))) txs (lg_bank E lg1)" "same_rest lg1 lg'"
    using Cons.IH [OF txs, of "N + amt tx + amt tx" "ls\<lparr>ls_writeBatchs := wbs1\<rparr>" lg1] one(2) Cons.prems(3,4) unfolding e by auto
  moreover have "\<not> is_contract tx" using tx by (simp add: plain_tx_def payable_def)
  ultimately show ?case
    using one Cons.prems(3) same_rest_trans [of lg lg1 lg'] by (auto simp: exec_other_def)
qed

text \<open>Between blocks: the engine works, the caches of accounts and contracts are empty, the accounts are
  bounded, and the height and the waiting transactions can be read.\<close>

definition env_ok :: "'d env \<Rightarrow> bool" where
  "env_ok E \<longleftrightarrow> rocks_ok (e_rocks E) \<and> rocks_live (e_rocks E) \<and> (\<forall>m. range_order (e_ord_delta E m) m) \<and>
     (\<forall>m. range_order (e_ord_kv E m) m) \<and> (\<forall>m. range_order (e_ord_time E m) m)"

definition times_ok :: "'d env \<Rightarrow> 'd Ledger \<Rightarrow> bool" where
  "times_ok E lg \<longleftrightarrow> db_ready (e_rocks E) (lg_db lg) \<and> no_empty (lg_storage lg) \<and>
     (\<exists>array. ms_getTxTime (e_rocks E) (lg_db lg) = Ret (Inr array) \<and> distinct array)"

definition ledger_ok :: "'d env \<Rightarrow> int \<Rightarrow> 'd Ledger \<Rightarrow> bool" where
  "ledger_ok E N lg \<longleftrightarrow> db_ready (e_rocks E) (lg_db lg) \<and> lg_state lg = NewState \<and> st_wf (db_val (e_rocks E) (lg_db lg)) NewState \<and>
     bounded N (db_bank (db_val (e_rocks E) (lg_db lg))) \<and> sc_stateExtra (lg_contract lg) = NewStateExtra \<and> times_ok E lg \<and>
     (\<exists>h. ledger_Height E lg = Ret (Inr h))"

lemma st_bank_New [simp]: "st_bank g NewState = db_bank g"
  by (simp add: st_bank_def tmp_balance_def NewState_def db_bank_def fun_eq_iff)

lemma ledger_ok_sync: "ledger_ok E N lg \<Longrightarrow> in_sync E N [] lg"
  by (simp add: ledger_ok_def in_sync_def lg_bank_def)

lemma fold_wb_family: "list_all (\<lambda>wb. wb_CfName wb \<noteq> cf) wbs \<Longrightarrow> fold apply_wb wbs g cf = g cf"
  by (induction wbs arbitrary: g) (auto simp: apply_wb_def fun_eq_iff)

lemma fold_wb_family_cong: "g cf = h cf \<Longrightarrow> fold apply_wb wbs g cf = fold apply_wb wbs h cf"
proof (induction wbs arbitrary: g h)
  case (Cons wb wbs)
  have "apply_wb wb g cf = apply_wb wb h cf" using Cons.prems by (simp add: apply_wb_def fun_eq_iff)
  then show ?case using Cons.IH [of "apply_wb wb g" "apply_wb wb h"] by simp
qed simp

lemma db_bank_cong: "g ''balance'' = h ''balance'' \<Longrightarrow> db_bank g = db_bank h"
  by (simp add: db_bank_def db_balance_def fun_eq_iff)

lemma executeTransaction_plain:
  assumes "env_ok E" and "ledger_ok E N lg" and "list_all plain_tx txs" and "amount_fits (Some (N + block_growth txs))"
  shows "\<exists>wbs lg'. executeTransaction E txs flag lg = Ret (Inr (wbs, txs), lg') \<and> in_sync E (N + block_growth txs) wbs lg' \<and>
    lg_bank E lg' = fold (bank_tx (e_crypto E) (ChainID (e_params E))) txs (lg_bank E lg) \<and> same_rest lg lg'"
proof -
  let ?ls = "\<lparr>ls_writeBatchs = [], ls_sync = [], ls_gen = []\<rparr>"
  from ledger_ok_sync [OF assms(2)] have "in_sync E N (ls_writeBatchs ?ls) lg" by simp
  from exec_loop_plain [OF assms(3) this _ assms(4), of flag] obtain wbs lg' where
    "exec_loop E flag txs ?ls lg = Ret (Inr (?ls\<lparr>ls_writeBatchs := wbs\<rparr>), lg')" "in_sync E (N + block_growth txs) wbs lg'"
    "lg_bank E lg' = fold (bank_tx (e_crypto E) (ChainID (e_params E))) txs (lg_bank E lg)" "same_rest lg lg'" by auto
  moreover have "e_ord_delta E gm_empty = []"
    using assms(1) range_order_set [of "e_ord_delta E gm_empty" gm_empty] by (auto simp: env_ok_def)
  ultimately show ?thesis
    using assms(2)
    by (auto simp: executeTransaction_def AddChangesForPersistence_def same_rest_def ledger_ok_def NewStateExtra_def)
qed

text \<open>The block with the root of its transactions in its header.\<close>

definition sealed :: "crypto_env \<Rightarrow> Block \<Rightarrow> Block" where
  "sealed c b = b\<lparr>bk_Header := (bk_Header b)\<lparr>bh_TxsMerkleHash :=
     (case merkleRootHash c (bk_Transactions b) of Ret h \<Rightarrow> h | Panic _ \<Rightarrow> zero_hash)\<rparr>\<rparr>"

lemma sealed_sel [simp]: "bk_Transactions (sealed c b) = bk_Transactions b" "bh_Height (bk_Header (sealed c b)) = bh_Height (bk_Header b)"
  "bh_PreviousHash (bk_Header (sealed c b)) = bh_PreviousHash (bk_Header b)" "bk_hash_cache (sealed c b) = bk_hash_cache b"
  by (simp_all add: sealed_def)

lemma merkleRootHash_returns: "\<exists>h. merkleRootHash c txs = Ret h"
proof (cases txs)
  case (Cons tx l)
  then have "length (ComputeMerkleHash c (map (tx_hash c) txs)) = 1" by (intro length_ComputeMerkleHash) simp
  then show ?thesis by (auto simp: merkleRootHash_def length_Suc_conv)
qed (simp add: merkleRootHash_def)

lemma sealed_eq:
  "merkleRootHash c (bk_Transactions b) = Ret root \<Longrightarrow> b\<lparr>bk_Header := (bk_Header b)\<lparr>bh_TxsMerkleHash := root\<rparr>\<rparr> = sealed c b"
  by (simp add: sealed_def)

lemma block_families:
  "cf \<noteq> ''block'' \<Longrightarrow> cf \<noteq> ''index'' \<Longrightarrow> fold apply_wb (fst (bs_AppendBlock c b)) g cf = g cf"
  by (intro fold_wb_family) (auto simp: bs_AppendBlock_batches NewWriteBatch_def list_all_iff)

lemma balance_families:
  "list_all (\<lambda>wb. wb_CfName wb = ''balance'') wbs \<Longrightarrow> cf \<noteq> ''balance'' \<Longrightarrow> fold apply_wb wbs g cf = g cf"
  by (intro fold_wb_family) (auto simp: list_all_iff)

text \<open>The write of a block: every family holds what its part of the ledger wrote.\<close>

lemma block_write:
  assumes "env_ok E" and "in_sync E N wbs lg"
  shows "\<exists>lg'. lg_AtomicWrite E (fst (bs_AppendBlock c b) @ wbs) lg = Ret (Inr (), lg') \<and> db_ready (e_rocks E) (lg_db lg') \<and>
    lg' = lg\<lparr>lg_db := lg_db lg', lg_state := NewState\<rparr> \<and>
    (let g = db_val (e_rocks E) (lg_db lg); g' = db_val (e_rocks E) (lg_db lg') in
       g' ''balance'' = fold apply_wb wbs g ''balance'' \<and>
       g' ''block'' = fold apply_wb (fst (bs_AppendBlock c b)) g ''block'' \<and>
       g' ''index'' = fold apply_wb (fst (bs_AppendBlock c b)) g ''index'' \<and> g' ''storage'' = g ''storage'')"
proof -
  let ?blk = "fst (bs_AppendBlock c b)" and ?g = "db_val (e_rocks E) (lg_db lg)"
  have bal: "list_all (\<lambda>wb. wb_CfName wb = ''balance'') wbs" and rd: "db_ready (e_rocks E) (lg_db lg)"
    using assms(2) by (simp_all add: in_sync_def)
  have "known_cfs (?blk @ wbs)"
    using bal bs_AppendBlock_puts(2) [of c b] by (auto simp: known_cfs_def list_all_iff DefaultConfig_def)
  from db_AtomicWrite_live [OF _ _ rd this] assms(1) obtain db' where
    w: "db_AtomicWrite (e_rocks E) (?blk @ wbs) (lg_db lg) = Ret (Inr (), db')" "db_ready (e_rocks E) db'"
    "db_val (e_rocks E) db' = fold apply_wb wbs (fold apply_wb ?blk ?g)" by (auto simp: env_ok_def)
  have "fold apply_wb wbs (fold apply_wb ?blk ?g) ''balance'' = fold apply_wb wbs ?g ''balance''"
    by (rule fold_wb_family_cong [of "fold apply_wb ?blk ?g" _ ?g]) (simp add: block_families)
  with w bal show ?thesis
    by (auto simp: lg_AtomicWrite_def st_AtomicWrite_def NewState_def Let_def balance_families block_families)
qed

lemma ms_getTxTime_cong:
  "db_ready r db \<Longrightarrow> db_ready r db' \<Longrightarrow> db_val r db' ''storage'' = db_val r db ''storage'' \<Longrightarrow>
     ms_getTxTime r db' = ms_getTxTime r db"
  by (simp add: ms_getTxTime_def db_Get_ready)

lemma classify_step:
  assumes "env_ok E" and "times_ok E lg"
  shows "\<exists>lg'. lg_Classified E txs lg = Ret (Inr (), lg') \<and> times_ok E lg' \<and>
    lg' = lg\<lparr>lg_storage := lg_storage lg', lg_db := lg_db lg'\<rparr> \<and>
    (\<forall>cf. cf \<noteq> ''storage'' \<longrightarrow> db_val (e_rocks E) (lg_db lg') cf = db_val (e_rocks E) (lg_db lg) cf)"
proof -
  obtain array where a: "ms_getTxTime (e_rocks E) (lg_db lg) = Ret (Inr array)" "distinct array"
    using assms(2) by (auto simp: times_ok_def)
  have e: "rocks_ok (e_rocks E)" "rocks_live (e_rocks E)" "\<And>m. range_order (e_ord_time E m) m"
    using assms(1) by (simp_all add: env_ok_def)
  have l: "db_ready (e_rocks E) (lg_db lg)" "no_empty (lg_storage lg)" using assms(2) by (simp_all add: times_ok_def)
  obtain s' db' array' where
    "ms_ClassifiedTransaction (e_rocks E) (e_ord_time E) txs (lg_storage lg, lg_db lg) = Ret (Inr (), (s', db'))"
    "no_empty s'" "db_ready (e_rocks E) db'" "\<forall>cf. cf \<noteq> ''storage'' \<longrightarrow> db_val (e_rocks E) db' cf = db_val (e_rocks E) (lg_db lg) cf"
    "ms_getTxTime (e_rocks E) db' = Ret (Inr array')" "distinct array'"
    using Classified_live [where ord = "e_ord_time E" and txs = txs, OF e(1,2) l(1) e(3) l(2) a] by blast
  then show ?thesis
    by (intro exI [of _ "lg\<lparr>lg_storage := s', lg_db := db'\<rparr>"]) (simp add: lg_Classified_def times_ok_def)
qed

lemma AppendBlock_plain:
  assumes E: "env_ok E" and lg: "ledger_ok E N lg" and txs: "list_all plain_tx (bk_Transactions b)"
    and fits: "amount_fits (Some (N + block_growth (bk_Transactions b)))" and wf: "bk_wf (sealed (e_crypto E) b)"
    and hd: "hashes_distinct (e_crypto E) (sealed (e_crypto E) b)"
  shows "\<exists>lg'. ledger_AppendBlock E b flag lg = Ret ((None, snd (bs_AppendBlock (e_crypto E) (sealed (e_crypto E) b))), lg') \<and>
    ledger_ok E (N + block_growth (bk_Transactions b)) lg' \<and> lg_Validator lg' = lg_Validator lg \<and>
    (let g = db_val (e_rocks E) (lg_db lg); g' = db_val (e_rocks E) (lg_db lg') in
       db_bank g' = fold (bank_tx (e_crypto E) (ChainID (e_params E))) (bk_Transactions b) (db_bank g) \<and>
       g' ''block'' = fold apply_wb (fst (bs_AppendBlock (e_crypto E) (sealed (e_crypto E) b))) g ''block'' \<and>
       g' ''index'' = fold apply_wb (fst (bs_AppendBlock (e_crypto E) (sealed (e_crypto E) b))) g ''index'')"
proof -
  let ?c = "e_crypto E" and ?txs = "bk_Transactions b" and ?r = "e_rocks E"
  let ?N = "N + block_growth ?txs" and ?g = "db_val ?r (lg_db lg)"
  have rd: "db_ready ?r (lg_db lg)" and b0: "lg_bank E lg = db_bank ?g" using lg by (simp_all add: ledger_ok_def lg_bank_def)
  obtain bh where h: "ledger_Height E lg = Ret (Inr bh)" using lg by (auto simp: ledger_ok_def)
  define lg0 where "lg0 = lg\<lparr>lg_contract := StartConstract bh (lg_contract lg)\<rparr>"
  have ok0: "ledger_ok E N lg0" and db0: "lg_db lg0 = lg_db lg" and b00: "lg_bank E lg0 = lg_bank E lg"
    using lg by (simp_all add: ledger_ok_def times_ok_def lg0_def StartConstract_def lg_bank_def ledger_Height_def)
  from executeTransaction_plain [OF E this(1) txs fits] obtain wbs lg1 where
    x: "executeTransaction E ?txs flag lg0 = Ret (Inr (wbs, ?txs), lg1)" and sync: "in_sync E ?N wbs lg1"
    and b1: "lg_bank E lg1 = fold (bank_tx ?c (ChainID (e_params E))) ?txs (lg_bank E lg0)" and s1: "same_rest lg0 lg1" by blast
  have db1: "lg_db lg1 = lg_db lg" using s1 db0 by (simp add: same_rest_def)
  obtain root where root: "merkleRootHash ?c ?txs = Ret root" using merkleRootHash_returns by blast
  from block_write [OF E sync, of ?c "sealed ?c b"] obtain lg2 where
    w: "lg_AtomicWrite E (fst (bs_AppendBlock ?c (sealed ?c b)) @ wbs) lg1 = Ret (Inr (), lg2)" and rd2: "db_ready ?r (lg_db lg2)"
    and l2: "lg2 = lg1\<lparr>lg_db := lg_db lg2, lg_state := NewState\<rparr>"
    and bal: "db_val ?r (lg_db lg2) ''balance'' = fold apply_wb wbs ?g ''balance''"
    and blk: "db_val ?r (lg_db lg2) ''block'' = fold apply_wb (fst (bs_AppendBlock ?c (sealed ?c b))) ?g ''block''"
      "db_val ?r (lg_db lg2) ''index'' = fold apply_wb (fst (bs_AppendBlock ?c (sealed ?c b))) ?g ''index''"
    and sto: "db_val ?r (lg_db lg2) ''storage'' = ?g ''storage''" unfolding Let_def db1 by blast
  let ?lg3 = "lg2\<lparr>lg_contract := StopContract bh (lg_contract lg2)\<rparr>"
  have "times_ok E ?lg3"
    using ok0 s1 rd2 ms_getTxTime_cong [OF rd rd2 sto] by (subst l2) (auto simp: times_ok_def ledger_ok_def same_rest_def db0)
  from classify_step [OF E this, of "filter needs_merge ?txs"] obtain lg' where
    c': "lg_Classified E (filter needs_merge ?txs) ?lg3 = Ret (Inr (), lg')" and t': "times_ok E lg'"
    and l': "lg' = ?lg3\<lparr>lg_storage := lg_storage lg', lg_db := lg_db lg'\<rparr>"
    and fam: "\<And>cf. cf \<noteq> ''storage'' \<Longrightarrow> db_val ?r (lg_db lg') cf = db_val ?r (lg_db lg2) cf" by auto
  have f': "lg_state lg' = NewState" "lg_contract lg' = StopContract bh (lg_contract lg2)" "lg_Validator lg' = lg_Validator lg1"
    using arg_cong [OF l', of lg_state] arg_cong [OF l', of lg_contract] arg_cong [OF l', of lg_Validator]
      arg_cong [OF l2, of lg_state] arg_cong [OF l2, of lg_Validator] by simp_all
  have bal': "db_val ?r (lg_db lg') ''balance'' = fold apply_wb wbs ?g ''balance''" using fam bal by simp
  note cong = db_bank_cong [where g = "db_val ?r (lg_db lg')" and h = "fold apply_wb wbs ?g", OF bal']
    st_wf_New_cong [where g = "db_val ?r (lg_db lg')" and h = "fold apply_wb wbs ?g", OF bal']
  have bank': "db_bank (db_val ?r (lg_db lg')) = fold (bank_tx ?c (ChainID (e_params E))) ?txs (db_bank ?g)"
    using sync cong(1) b1 b00 b0 by (simp add: in_sync_def db1)
  have "st_wf (db_val ?r (lg_db lg')) NewState" "bounded ?N (db_bank (db_val ?r (lg_db lg')))"
    using sync cong by (simp_all add: in_sync_def db1)
  moreover have "ledger_Height E lg' = Ret (Inr (bh_Height (bk_Header b)))"
    using appended_readable(1) [OF _ wf hd, of ?r "lg_db lg'" ?g] t' blk fam by (simp add: times_ok_def ledger_Height_def)
  ultimately have "ledger_ok E ?N lg'" and "lg_Validator lg' = lg_Validator lg"
    using t' s1 f' by (simp_all add: ledger_ok_def times_ok_def StopContract_def same_rest_def lg0_def)
  moreover have "ledger_AppendBlock E b flag lg = Ret ((None, snd (bs_AppendBlock ?c (sealed ?c b))), lg')"
    unfolding ledger_AppendBlock_def
    by (simp add: h Let_def lg0_def [symmetric] x root sealed_eq [OF root] w c')
  ultimately show ?thesis using bank' blk fam by (auto simp: Let_def)
qed

end
