(* ===== verification/Ledger_Laws.thy ===== *)
theory Ledger_Laws
  imports Ledger
begin

text \<open>
  What the ledger guarantees from block to block: a block of payments is executed like a sequence of
  operations of the bank and is stored with them in one write, and a chain that was built by appending
  linked blocks passes \<^verbatim>\<open>VerifyChain\<close>.
\<close>

section \<open>A block of payments\<close>

text \<open>C1: \<^verbatim>\<open>AppendBlock\<close> of a block of payments refines the bank. It returns, whatever the transactions are: those that
  an account cannot pay for are skipped. Afterwards the database is at the height of the block, holds its
  header with the root of its transactions and, as accounts, exactly the accounts before with every
  transaction applied in order. No account is negative, all caches are empty again, and the
  validator was not touched.\<close>

theorem AppendBlock_payments:
  assumes "env_ok E" and "ledger_ok E N lg" and "list_all plain_tx (bk_Transactions b)"
    and "amount_fits (Some (N + block_growth (bk_Transactions b)))" and "bk_wf (sealed (e_crypto E) b)"
    and "hashes_distinct (e_crypto E) (sealed (e_crypto E) b)"
  shows "\<exists>lg'. ledger_AppendBlock E b flag lg = Ret ((None, snd (bs_AppendBlock (e_crypto E) (sealed (e_crypto E) b))), lg') \<and>
    ledger_ok E (N + block_growth (bk_Transactions b)) lg' \<and> lg_Validator lg' = lg_Validator lg \<and>
    ledger_Height E lg' = Ret (Inr (bh_Height (bk_Header b))) \<and>
    ledger_GetBlockByNumber E lg' (bh_Height (bk_Header b)) = Ret (Inr (bk_Header (sealed (e_crypto E) b))) \<and>
    db_bank (db_val (e_rocks E) (lg_db lg')) =
      fold (bank_tx (e_crypto E) (ChainID (e_params E))) (bk_Transactions b) (db_bank (db_val (e_rocks E) (lg_db lg))) \<and>
    (\<forall>a. 0 \<le> fst (db_bank (db_val (e_rocks E) (lg_db lg')) a))"
proof -
  obtain lg' where lg': "ledger_AppendBlock E b flag lg = Ret ((None, snd (bs_AppendBlock (e_crypto E) (sealed (e_crypto E) b))), lg')"
    and ok: "ledger_ok E (N + block_growth (bk_Transactions b)) lg'" "lg_Validator lg' = lg_Validator lg"
    and g: "db_bank (db_val (e_rocks E) (lg_db lg')) =
        fold (bank_tx (e_crypto E) (ChainID (e_params E))) (bk_Transactions b) (db_bank (db_val (e_rocks E) (lg_db lg)))"
      "db_val (e_rocks E) (lg_db lg') ''block'' =
        fold apply_wb (fst (bs_AppendBlock (e_crypto E) (sealed (e_crypto E) b))) (db_val (e_rocks E) (lg_db lg)) ''block''"
      "db_val (e_rocks E) (lg_db lg') ''index'' =
        fold apply_wb (fst (bs_AppendBlock (e_crypto E) (sealed (e_crypto E) b))) (db_val (e_rocks E) (lg_db lg)) ''index''"
    using AppendBlock_plain [OF assms, of flag] unfolding Let_def by blast
  have rd: "db_ready (e_rocks E) (lg_db lg')" and bd: "\<forall>a. 0 \<le> fst (db_bank (db_val (e_rocks E) (lg_db lg')) a)"
    using ok(1) by (simp_all add: ledger_ok_def bounded_def)
  from appended_readable(1,2) [OF rd assms(5,6) g(2,3)] bd lg' ok g(1) show ?thesis
    by (auto simp: ledger_Height_def ledger_GetBlockByNumber_def)
qed

section \<open>Verifying the chain\<close>

text \<open>The headers of the chain up to height \<open>h\<close>, and whether each one names its predecessor.\<close>

definition header_at :: "'d env \<Rightarrow> 'd Ledger \<Rightarrow> nat \<Rightarrow> BlockHeader option" where
  "header_at E lg i = (case bs_GetBlockByNumber (e_rocks E) (lg_db lg) (word_of_nat i) of Ret (Inr h) \<Rightarrow> Some h | _ \<Rightarrow> None)"

definition links :: "crypto_env \<Rightarrow> BlockHeader \<Rightarrow> BlockHeader \<Rightarrow> bool" where
  "links c p h \<longleftrightarrow> hash_Equal (bh_Hash c p) (bh_PreviousHash h)"

definition complete :: "'d env \<Rightarrow> 'd Ledger \<Rightarrow> nat \<Rightarrow> bool" where
  "complete E lg h \<longleftrightarrow> ledger_Height E lg = Ret (Inr (word_of_nat h)) \<and> h < 2 ^ 32 \<and> (\<forall>i \<le> h. header_at E lg i \<noteq> None)"

definition linked :: "'d env \<Rightarrow> 'd Ledger \<Rightarrow> nat \<Rightarrow> bool" where
  "linked E lg h \<longleftrightarrow> (\<forall>i < h. links (e_crypto E) (the (header_at E lg i)) (the (header_at E lg (Suc i))))"

lemma header_atD: "header_at E lg i = Some h \<Longrightarrow> bs_GetBlockByNumber (e_rocks E) (lg_db lg) (word_of_nat i) = Ret (Inr h)"
  by (simp add: header_at_def split: go.splits sum.splits)

lemma verify_from_iff:
  assumes "\<forall>i \<le> h. header_at E lg i \<noteq> None"
  shows "verify_from E lg h (header_at E lg h) = (if linked E lg h then Ret () else Panic ''veifychain breaks'')"
  using assms
proof (induction h)
  case (Suc h)
  obtain p where p: "header_at E lg h = Some p" using Suc.prems by force
  obtain c where c: "header_at E lg (Suc h) = Some c" using Suc.prems by force
  have "linked E lg (Suc h) \<longleftrightarrow> links (e_crypto E) p c \<and> linked E lg h"
    by (auto simp: linked_def less_Suc_eq p c)
  with Suc p c header_atD [OF p] show ?case by (simp add: links_def)
qed (simp add: linked_def)

lemma VerifyChain_eq:
  assumes "complete E lg h"
  shows "VerifyChain E lg = (if linked E lg h then Ret () else Panic ''veifychain breaks'')"
proof -
  obtain c where c: "header_at E lg h = Some c" using assms by (auto simp: complete_def)
  have "unat (word_of_nat h :: u32) = h" using assms by (simp add: complete_def unat_of_nat)
  with assms c header_atD [OF c] verify_from_iff [of h E lg] show ?thesis
    by (simp add: VerifyChain_def complete_def)
qed

text \<open>A block that goes on top: the next height, the hash of the last header, and no hash that is already the key
  of a header.\<close>

definition extends :: "'d env \<Rightarrow> 'd Ledger \<Rightarrow> nat \<Rightarrow> Block \<Rightarrow> bool" where
  "extends E lg h b \<longleftrightarrow> Suc h < 2 ^ 32 \<and> bh_Height (bk_Header b) = word_of_nat (Suc h) \<and>
     GetLastBlockHash E lg = Ret (Inr (bh_PreviousHash (bk_Header b))) \<and>
     (\<forall>i \<le> h. db_val (e_rocks E) (lg_db lg) ''index'' (Uint32ToBytes (word_of_nat i)) \<notin>
        set (block_hash (e_crypto E) b # map (tx_hash (e_crypto E)) (bk_Transactions b)))"

lemma GetBlockByNumber_ready:
  assumes "db_ready r db" and "bs_GetBlockchainHeight r db = Ret (Inr H)" and "n \<le> H"
  shows "bs_GetBlockByNumber r db n = (let k = db_val r db ''index'' (Uint32ToBytes n) in
    Ret (if k = [] then Inl (ErrText ''not found block Hash'') else if db_val r db ''block'' k = [] then Inl (ErrText ''not found block. '')
         else Inr (bh_Deserialize (db_val r db ''block'' k))))"
  using assms(3)
  by (simp add: bs_GetBlockByNumber_def bs_GetBlockHashByNumber_def bs_GetBlockByHash_def assms(2) db_Get_ready [OF assms(1)] Let_def)

lemma u32_le: "i \<le> h \<Longrightarrow> h < 2 ^ 32 \<Longrightarrow> (word_of_nat i :: u32) \<le> word_of_nat h"
  by (simp add: word_le_nat_alt unat_of_nat)

lemma u32_neq: "i < h \<Longrightarrow> h < 2 ^ 32 \<Longrightarrow> (word_of_nat i :: u32) \<noteq> word_of_nat h"
proof
  assume "i < h" "h < 2 ^ 32" and e: "(word_of_nat i :: u32) = word_of_nat h"
  moreover have "unat (word_of_nat i :: u32) = unat (word_of_nat h :: u32)" by (simp only: e)
  ultimately show False unfolding unat_of_nat by simp
qed

lemma header_kept:
  assumes rd: "db_ready (e_rocks E) (lg_db lg)" "db_ready (e_rocks E) (lg_db lg')" and c: "complete E lg h" and x: "extends E lg h b"
    and wf: "bk_wf b" and hd: "hashes_distinct (e_crypto E) b"
    and blk: "db_val (e_rocks E) (lg_db lg') ''block'' =
        fold apply_wb (fst (bs_AppendBlock (e_crypto E) b)) (db_val (e_rocks E) (lg_db lg)) ''block''"
      "db_val (e_rocks E) (lg_db lg') ''index'' =
        fold apply_wb (fst (bs_AppendBlock (e_crypto E) b)) (db_val (e_rocks E) (lg_db lg)) ''index''"
    and i: "i \<le> h"
  shows "header_at E lg' i = header_at E lg i"
proof -
  let ?r = "e_rocks E" and ?n = "word_of_nat i :: u32"
  have h: "h < 2 ^ 32" "Suc h < 2 ^ 32" and hb: "bh_Height (bk_Header b) = word_of_nat (Suc h)"
    using c x by (simp_all add: complete_def extends_def)
  note app = appended_readable(1,5) [OF rd(2) wf hd blk]
  have ix: "db_val ?r (lg_db lg') ''index'' (Uint32ToBytes ?n) = db_val ?r (lg_db lg) ''index'' (Uint32ToBytes ?n)"
    using app(2) [of ?n] u32_neq [of i "Suc h"] i h hb by simp
  let ?k = "db_val ?r (lg_db lg) ''index'' (Uint32ToBytes ?n)"
  have "?k \<notin> set (block_hash (e_crypto E) b # map (tx_hash (e_crypto E)) (bk_Transactions b))"
    using x i unfolding extends_def by blast
  then have "(''block'', ?k) \<notin> wb_place ` set (fst (bs_AppendBlock (e_crypto E) b))"
    by (auto simp: bs_AppendBlock_batches NewWriteBatch_def wb_place_def)
  then have bk: "db_val ?r (lg_db lg') ''block'' ?k = db_val ?r (lg_db lg) ''block'' ?k"
    using blk(1) fold_wb_other by metis
  have "bs_GetBlockchainHeight ?r (lg_db lg) = Ret (Inr (word_of_nat h))"
    using c by (simp add: complete_def ledger_Height_def)
  from GetBlockByNumber_ready [OF rd(1) this u32_le [OF i h(1)]]
    GetBlockByNumber_ready [OF rd(2) app(1), of ?n] u32_le [of i "Suc h"] i h hb
  show ?thesis by (simp add: header_at_def ix bk Let_def)
qed

lemma AppendBlock_keeps_chain:
  assumes "env_ok E" and "ledger_ok E N lg" and "list_all plain_tx (bk_Transactions b)"
    and "amount_fits (Some (N + block_growth (bk_Transactions b)))" and "bk_wf (sealed (e_crypto E) b)"
    and "hashes_distinct (e_crypto E) (sealed (e_crypto E) b)"
    and "complete E lg h" and "VerifyChain E lg = Ret ()" and "extends E lg h (sealed (e_crypto E) b)"
  shows "\<exists>lg'. ledger_AppendBlock E b flag lg = Ret ((None, snd (bs_AppendBlock (e_crypto E) (sealed (e_crypto E) b))), lg') \<and>
    ledger_ok E (N + block_growth (bk_Transactions b)) lg' \<and> lg_Validator lg' = lg_Validator lg \<and>
    complete E lg' (Suc h) \<and> VerifyChain E lg' = Ret () \<and> header_at E lg' (Suc h) = Some (bk_Header (sealed (e_crypto E) b)) \<and>
    db_val (e_rocks E) (lg_db lg') ''index'' (Uint32ToBytes (word_of_nat (Suc h))) = block_hash (e_crypto E) (sealed (e_crypto E) b) \<and>
    (\<forall>i \<le> h. header_at E lg' i = header_at E lg i \<and>
       db_val (e_rocks E) (lg_db lg') ''index'' (Uint32ToBytes (word_of_nat i)) =
         db_val (e_rocks E) (lg_db lg) ''index'' (Uint32ToBytes (word_of_nat i)))"
proof -
  let ?b = "sealed (e_crypto E) b"
  obtain lg' where lg': "ledger_AppendBlock E b flag lg = Ret ((None, snd (bs_AppendBlock (e_crypto E) ?b)), lg')"
    and ok: "ledger_ok E (N + block_growth (bk_Transactions b)) lg'" "lg_Validator lg' = lg_Validator lg"
    and g: "db_val (e_rocks E) (lg_db lg') ''block'' =
        fold apply_wb (fst (bs_AppendBlock (e_crypto E) ?b)) (db_val (e_rocks E) (lg_db lg)) ''block''"
      "db_val (e_rocks E) (lg_db lg') ''index'' =
        fold apply_wb (fst (bs_AppendBlock (e_crypto E) ?b)) (db_val (e_rocks E) (lg_db lg)) ''index''"
    using AppendBlock_plain [OF assms(1-6), of flag] unfolding Let_def by blast
  have rd: "db_ready (e_rocks E) (lg_db lg)" "db_ready (e_rocks E) (lg_db lg')" using ok assms(2) by (simp_all add: ledger_ok_def)
  note kept = header_kept [OF rd assms(7,9,5,6) g]
  have hb: "bh_Height (bk_Header ?b) = word_of_nat (Suc h)" and h: "Suc h < 2 ^ 32" using assms(9) by (simp_all add: extends_def)
  note app = appended_readable(1,2,5) [OF rd(2) assms(5,6) g, unfolded hb]
  then have new: "header_at E lg' (Suc h) = Some (bk_Header ?b)" by (simp add: header_at_def)
  have c': "complete E lg' (Suc h)"
    using app(1) h assms(7) kept new by (auto simp: complete_def ledger_Height_def le_Suc_eq)
  obtain p where p: "header_at E lg h = Some p" using assms(7) by (auto simp: complete_def)
  have "bh_PreviousHash (bk_Header ?b) = bh_Hash (e_crypto E) p"
    using assms(9,7) header_atD [OF p] by (simp add: extends_def GetLastBlockHash_def complete_def)
  moreover have "linked E lg h" using VerifyChain_eq [OF assms(7)] assms(8) by (simp split: if_splits)
  ultimately have "linked E lg' (Suc h)"
    using kept new p by (auto simp: linked_def less_Suc_eq links_def hash_Equal_def)
  moreover have "db_val (e_rocks E) (lg_db lg') ''index'' (Uint32ToBytes (word_of_nat (Suc h))) = block_hash (e_crypto E) ?b"
    using bs_AppendBlock_contents(2) [OF assms(6), of "db_val (e_rocks E) (lg_db lg)"] g(2) hb by simp
  moreover have "db_val (e_rocks E) (lg_db lg') ''index'' (Uint32ToBytes (word_of_nat i)) =
      db_val (e_rocks E) (lg_db lg) ''index'' (Uint32ToBytes (word_of_nat i))" if "i \<le> h" for i
    using app(3) u32_neq [of i "Suc h"] that h by simp
  ultimately show ?thesis using VerifyChain_eq [OF c'] c' lg' ok kept new by auto
qed

section \<open>The genesis block\<close>

definition empty_db :: "'d env \<Rightarrow> 'd BlockchainDB \<Rightarrow> bool" where
  "empty_db E db \<longleftrightarrow> db_ready (e_rocks E) db \<and> db_val (e_rocks E) db = (\<lambda>_ _. [])"

lemma genesis_ok: "digest_ok c \<Longrightarrow> hashes_distinct c genesis_block" "bk_wf genesis_block"
  by (simp_all add: hashes_distinct_def genesis_block_def block_hash_def bk_Hash_def bh_Hash_def DoubleSha256_def Sha256_def Let_def
      digest_ok_def bk_wf_def bh_wf_def zero_hash_def)

lemma NewLedger_genesis:
  assumes E: "env_ok E" "digest_ok (e_crypto E)" and db: "empty_db E db"
  shows "\<exists>lg. NewLedger E None db vp = Ret lg \<and> ledger_ok E 0 lg \<and> complete E lg 0 \<and> header_at E lg 0 = Some (bk_Header genesis_block) \<and>
    db_val (e_rocks E) (lg_db lg) ''index'' (Uint32ToBytes 0) = block_hash (e_crypto E) genesis_block"
proof -
  let ?lg = "\<lparr>lg_db = db, lg_state = NewState, lg_storage = NewStorage, lg_contract = NewSmartConstract, lg_vm = vp,
    lg_Validator = None, lg_next = 0\<rparr>"
  have rd: "db_ready (e_rocks E) db" and v: "db_val (e_rocks E) db = (\<lambda>_ _. [])" using db by (simp_all add: empty_db_def)
  have sync: "in_sync E 0 [] ?lg"
    using rd by (simp add: in_sync_def v st_wf_New lg_bank_def bounded_def db_bank_def db_balance_def acct_of_def fun_eq_iff)
  have H: "ledger_Height E ?lg = Ret (Inl (ErrText ''failed to get the height''))"
    by (simp add: ledger_Height_def bs_GetBlockchainHeight_def db_Get_ready [OF rd] v Let_def)
  from block_write [OF E(1) sync, of "e_crypto E" genesis_block] obtain lg where
    w: "lg_AtomicWrite E (fst (bs_AppendBlock (e_crypto E) genesis_block)) ?lg = Ret (Inr (), lg)" and rd': "db_ready (e_rocks E) (lg_db lg)"
    and l: "lg = ?lg\<lparr>lg_db := lg_db lg, lg_state := NewState\<rparr>"
    and f: "db_val (e_rocks E) (lg_db lg) ''balance'' = (\<lambda>_. [])" "db_val (e_rocks E) (lg_db lg) ''storage'' = (\<lambda>_. [])"
      "db_val (e_rocks E) (lg_db lg) ''block'' = fold apply_wb (fst (bs_AppendBlock (e_crypto E) genesis_block)) (\<lambda>_ _. []) ''block''"
      "db_val (e_rocks E) (lg_db lg) ''index'' = fold apply_wb (fst (bs_AppendBlock (e_crypto E) genesis_block)) (\<lambda>_ _. []) ''index''"
    by (auto simp: Let_def v)
  note app = appended_readable(1,2) [OF rd' genesis_ok(2) genesis_ok(1) [OF E(2)] f(3,4)]
  have sel: "lg_state lg = NewState" "lg_storage lg = NewStorage" "lg_contract lg = NewSmartConstract"
    using arg_cong [OF l, of lg_state] arg_cong [OF l, of lg_storage] arg_cong [OF l, of lg_contract] by simp_all
  have "ms_getTxTime (e_rocks E) (lg_db lg) = Ret (Inr [])" by (simp add: ms_getTxTime_def db_Get_ready [OF rd'] f)
  then have "ledger_ok E 0 lg" and "complete E lg 0" and "header_at E lg 0 = Some (bk_Header genesis_block)"
    using rd' app sel f NewStorage_ok(1)
    by (simp_all add: ledger_ok_def times_ok_def st_wf_New db_balance_def bounded_def db_bank_def acct_of_def NewSmartConstract_def
        complete_def ledger_Height_def header_at_def genesis_block_def)
  moreover have "db_val (e_rocks E) (lg_db lg) ''index'' (Uint32ToBytes 0) = block_hash (e_crypto E) genesis_block"
    using bs_AppendBlock_contents(2) [OF genesis_ok(1) [OF E(2)], of "\<lambda>_ _. []"] by (simp add: f(4) genesis_block_def)
  moreover have "NewLedger E None db vp = Ret lg"
    using sel(3) by (simp add: NewLedger_def Let_def H ledger_init_def w)
  ultimately show ?thesis by blast
qed

section \<open>A growing chain\<close>

text \<open>The ledgers that a node comes to, from an empty database, by appending blocks of payments on top.\<close>

inductive grown :: "'d env \<Rightarrow> int \<Rightarrow> nat \<Rightarrow> 'd Ledger \<Rightarrow> bool" for E where
  genesis: "empty_db E db \<Longrightarrow> NewLedger E None db vp = Ret lg \<Longrightarrow> grown E 0 0 lg"
| append: "grown E N h lg \<Longrightarrow> list_all plain_tx (bk_Transactions b) \<Longrightarrow> amount_fits (Some (N + block_growth (bk_Transactions b))) \<Longrightarrow>
    bk_wf (sealed (e_crypto E) b) \<Longrightarrow> hashes_distinct (e_crypto E) (sealed (e_crypto E) b) \<Longrightarrow>
    extends E lg h (sealed (e_crypto E) b) \<Longrightarrow> ledger_AppendBlock E b flag lg = Ret ((None, b'), lg') \<Longrightarrow>
    grown E (N + block_growth (bk_Transactions b)) (Suc h) lg'"

lemma grown_inv:
  assumes "grown E N h lg" and E: "env_ok E" "digest_ok (e_crypto E)"
  shows "ledger_ok E N lg \<and> complete E lg h \<and> VerifyChain E lg = Ret () \<and> header_at E lg 0 = Some (bk_Header genesis_block)"
  using assms(1)
proof induction
  case (genesis db vp lg)
  from NewLedger_genesis [OF E genesis(1), of vp] genesis(2)
  have "ledger_ok E 0 lg" "complete E lg 0" "header_at E lg 0 = Some (bk_Header genesis_block)" by auto
  with VerifyChain_eq [of E lg 0] show ?case by (simp add: linked_def)
next
  case (append N h lg b flag b' lg')
  then have ok: "ledger_ok E N lg" "complete E lg h" "VerifyChain E lg = Ret ()" "header_at E lg 0 = Some (bk_Header genesis_block)"
    by simp_all
  note hyps = E(1) ok(1) append(2-5)
  have "ledger_ok E (N + block_growth (bk_Transactions b)) lg'"
    using AppendBlock_plain [OF hyps, of flag] append(7) by auto
  with AppendBlock_keeps_chain [OF hyps ok(2,3) append(6), of flag] append(7) ok(4) show ?case by auto
qed

section \<open>A contract that fails\<close>

text \<open>An invocation of a contract that does not exist.\<close>

definition no_contract :: "'d env \<Rightarrow> 'd Ledger \<Rightarrow> Transaction \<Rightarrow> bool" where
  "no_contract E lg tx \<longleftrightarrow> tx_Type tx = TypeContractInvoke \<and> cs_ContractCode (payload_spec tx) = [] \<and>
     sc_stateExtra (lg_contract lg) = NewStateExtra \<and>
     db_val (e_rocks E) (lg_db lg) ''scontract'' (str_bytes (EnSmartContractKey (bytes_str (cs_ContractAddr (payload_spec tx))) contractCodeKey)) = []"

lemma executeSmartContractTx_missing:
  assumes "db_ready (e_rocks E) (lg_db lg)" and "no_contract E lg tx"
  shows "\<exists>sc. executeSmartContractTx E tx lg = Ret (Inl (ErrText ''contract execute failed''), lg\<lparr>lg_contract := sc\<rparr>) \<and>
    sc_stateExtra sc = NewStateExtra"
proof -
  have "''scontract'' \<in> set (Columnfamilies DefaultConfig)" by (simp add: DefaultConfig_def)
  with assms show ?thesis
    by (intro exI [of _ "ExecTransaction tx (bytes_str (cs_ContractAddr (payload_spec tx))) (lg_contract lg)"])
      (simp add: executeSmartContractTx_def vm_RealExecute_def vm_execute_def getContractCode_def sc_GetState_def no_contract_def lg_procs_def
        set_procs_def ExecTransaction_def se_get_def NewStateExtra_def db_Get_ready [OF assms(1)] Let_def)
qed

section \<open>Properties\<close>

text \<open>On a complete chain \<^verbatim>\<open>VerifyChain\<close> returns exactly when every header carries the hash of the header before it,
  and panics otherwise.\<close>

theorem VerifyChain_iff:
  assumes "complete E lg h"
  shows "VerifyChain E lg = (if linked E lg h then Ret () else Panic ''veifychain breaks'')"
  using VerifyChain_eq [OF assms] .

text \<open>C3: whatever blocks of payments a node appends on top of each other, from an empty database on, its chain is
  complete from the genesis block to its height, passes \<^verbatim>\<open>VerifyChain\<close>, and no account is negative.\<close>

theorem grown_chain_verified:
  assumes "env_ok E" and "digest_ok (e_crypto E)" and "grown E N h lg"
  shows "complete E lg h \<and> header_at E lg 0 = Some (bk_Header genesis_block) \<and> VerifyChain E lg = Ret () \<and>
    (\<forall>a. 0 \<le> fst (db_bank (db_val (e_rocks E) (lg_db lg)) a))"
  using grown_inv [OF assms(3,1,2)] by (simp add: ledger_ok_def bounded_def)


section \<open>A sample chain\<close>

definition sample_E :: "mem env" where
  "sample_E = \<lparr>e_crypto = sample_c, e_rocks = mem_rocks, e_engines = sample_engines, e_vmconf = vm_DefaultConfig,
     e_params = \<lparr>ChainID = [0], PublicAddress = []\<rparr>, e_ord_delta = id, e_ord_kv = id, e_ord_time = id\<rparr>"

text \<open>A payment that arrives from another chain.\<close>

definition sample_next :: Block where
  "sample_next = (NewBlock (replicate 32 7) 7 1 0 zero_hash
     [(NewTransaction 1 [1] [0] TypeAcrossChain 1 zero_addr zero_addr (Some 5) (Some 1) 3)\<lparr>tx_hash_cache := Some (replicate 32 2)\<rparr>])
     \<lparr>bk_hash_cache := Some (replicate 32 1)\<rparr>"

lemma sample_E_ok: "env_ok sample_E" "digest_ok (e_crypto sample_E)" "empty_db sample_E mem_db"
  by (simp_all add: env_ok_def sample_E_def mem_rocks_ok mem_rocks_live digest_ok_def sample_c_def empty_db_def mem_db_ready0 mem_db_val)

lemma sample_next_ok:
  "list_all plain_tx (bk_Transactions sample_next)" "block_growth (bk_Transactions sample_next) = 10"
  "bk_wf (sealed sample_c sample_next)" "hashes_distinct sample_c (sealed sample_c sample_next)"
  by (simp_all add: sample_next_def NewBlock_def NewBlockHeader_def NewTransaction_def plain_tx_def payable_def is_contract_def block_growth_def
      tx_type_defs TypeJSContractInit_def TypeLuaContractInit_def TypeContractInvoke_def
      zero_addr_def bk_wf_def bh_wf_def tx_wf_def txdata_wf_def amount_fits_def zero_hash_def
      hashes_distinct_def block_hash_def bk_Hash_def tx_Hash_def be_bytes.simps sealed_def merkleRootHash_def
      ComputeMerkleHash.simps)

lemma sample_genesis: "\<exists>lg. NewLedger sample_E None mem_db sample_vp = Ret lg \<and> ledger_ok sample_E 0 lg \<and> complete sample_E lg 0 \<and>
    header_at sample_E lg 0 = Some (bk_Header genesis_block) \<and> extends sample_E lg 0 (sealed sample_c sample_next)"
proof -
  obtain lg where lg: "NewLedger sample_E None mem_db sample_vp = Ret lg" "ledger_ok sample_E 0 lg" "complete sample_E lg 0"
    "header_at sample_E lg 0 = Some (bk_Header genesis_block)"
    "db_val (e_rocks sample_E) (lg_db lg) ''index'' (Uint32ToBytes 0) = block_hash (e_crypto sample_E) genesis_block"
    using NewLedger_genesis [OF sample_E_ok] by blast
  have c: "e_crypto sample_E = sample_c" by (simp add: sample_E_def)
  have h: "bh_Hash sample_c (bk_Header genesis_block) = replicate 32 7"
    by (simp add: bh_Hash_def DoubleSha256_def Sha256_def sample_c_def NewHash_def hash_SetBytes_def)
  have "GetLastBlockHash sample_E lg = Ret (Inr (replicate 32 7))"
    using lg(3) header_atD [OF lg(4)] by (simp add: GetLastBlockHash_def complete_def c h)
  moreover have "block_hash sample_c genesis_block = replicate 32 7"
    using h by (simp add: block_hash_def bk_Hash_def genesis_block_def Let_def)
  ultimately have "extends sample_E lg 0 (sealed sample_c sample_next)"
    using lg(5) by (simp add: extends_def sample_next_def NewBlock_def NewBlockHeader_def c block_hash_def bk_Hash_def tx_Hash_def NewTransaction_def)
  with lg show ?thesis by blast
qed

lemma sample_fits: "amount_fits (Some (0 + block_growth (bk_Transactions sample_next)))"
  by (simp add: sample_next_ok(2) amount_fits_def be_bytes.simps)

lemma sample_crypto: "e_crypto sample_E = sample_c"
  by (simp add: sample_E_def)

lemmas sample_block_hyps = sample_next_ok(1) sample_fits sample_next_ok(3,4) [folded sample_crypto]

lemma sample_grown: "\<exists>lg. grown sample_E 10 1 lg"
proof -
  obtain lg where lg: "NewLedger sample_E None mem_db sample_vp = Ret lg" "ledger_ok sample_E 0 lg"
    "extends sample_E lg 0 (sealed (e_crypto sample_E) sample_next)" using sample_genesis unfolding sample_crypto by blast
  obtain b' lg' where "ledger_AppendBlock sample_E sample_next True lg = Ret ((None, b'), lg')"
    using AppendBlock_plain [OF sample_E_ok(1) lg(2) sample_block_hyps] by blast
  from grown.append [OF grown.genesis [OF sample_E_ok(3) lg(1)] sample_block_hyps lg(3) this]
  show ?thesis by (auto simp: sample_next_ok(2))
qed

theorem AppendBlock_payments_witness:
  "\<exists>lg b' lg'. NewLedger sample_E None mem_db sample_vp = Ret lg \<and>
     ledger_AppendBlock sample_E sample_next True lg = Ret ((None, b'), lg') \<and> ledger_Height sample_E lg' = Ret (Inr 1) \<and>
     db_bank (db_val mem_rocks (lg_db lg')) zero_addr = (fst (db_bank (db_val mem_rocks (lg_db lg)) zero_addr) + 5,
       snd (db_bank (db_val mem_rocks (lg_db lg)) zero_addr))"
proof -
  obtain lg where lg: "NewLedger sample_E None mem_db sample_vp = Ret lg" "ledger_ok sample_E 0 lg" using sample_genesis by blast
  then have "0 \<le> fst (db_bank (db_val mem_rocks (lg_db lg)) zero_addr)"
    by (simp add: ledger_ok_def bounded_def sample_E_def)
  then show ?thesis
    using lg(1) AppendBlock_payments [OF sample_E_ok(1) lg(2) sample_block_hyps, of True]
    by (auto simp: sample_E_def sample_next_def NewBlock_def NewBlockHeader_def NewTransaction_def bank_tx_def bank_cross_def
        bank_skip_def bank_plus_def tx_type_defs)
qed

theorem VerifyChain_iff_witness:
  "\<exists>lg. complete sample_E lg 1 \<and> linked sample_E lg 1 \<and> VerifyChain sample_E lg = Ret ()"
proof -
  obtain lg where "grown sample_E 10 1 lg" using sample_grown by blast
  from grown_inv [OF this sample_E_ok(1,2)] have c: "complete sample_E lg 1" "VerifyChain sample_E lg = Ret ()" by simp_all
  with VerifyChain_iff [OF c(1)] have "linked sample_E lg 1" by (simp split: if_splits)
  with c show ?thesis by blast
qed

theorem grown_chain_verified_witness:
  "\<exists>lg. complete sample_E lg 1 \<and> VerifyChain sample_E lg = Ret ()"
  using sample_grown grown_chain_verified [OF sample_E_ok(1,2)] by blast

definition sample_invoke :: Transaction where
  "sample_invoke = NewTransaction 1 [0] [0] TypeContractInvoke 1 zero_addr (replicate 20 1) (Some 0) (Some 0) 3"

lemma sample_invoke_spec: "cs_ContractCode (payload_spec sample_invoke) = []"
  by code_simp

definition sample_lg :: "mem Ledger" where
  "sample_lg = \<lparr>lg_db = mem_db, lg_state = NewState, lg_storage = NewStorage, lg_contract = NewSmartConstract, lg_vm = sample_vp,
     lg_Validator = None, lg_next = 0\<rparr>"


end
