(* ===== verification/Blockchain.thy ===== *)
theory Blockchain
  imports Ledger_Laws Lbft_State
begin

text \<open>
  The blockchain service (\<^verbatim>\<open>core/blockchain/blockchain.go\<close>, \<^verbatim>\<open>stack.go\<close>, \<^verbatim>\<open>validator_filter.go\<close>): the head of the
  chain over the ledger and the validator, the blocks made from what the consensus hands out, and the
  calls of the consensus into the node. The validator of the service and the one of the ledger are the same object,
  so it is the field \<open>lg_Validator\<close> of the ledger. The goroutine that \<^verbatim>\<open>StartConsensusService\<close> starts is the step
  \<open>on_output\<close>, once per output of the consensus. The network stack behind \<^verbatim>\<open>Relay\<close> is an argument \<open>relay\<close>; its
  contract is the locale \<open>network_stack\<close>.
\<close>

section \<open>State\<close>

record Status =
  sr_Height :: u32
  sr_Tps :: nat

record 'd Blockchain =
  bc_currentBlockHeader :: BlockHeader
  bc_ledger :: "'d Ledger"
  bc_heightStatus :: "Status list"
  bc_orphans :: "OutputTxs golist"
  bc_synced :: bool
  bc_started :: bool

text \<open>The environment of the ledger, the switch \<^verbatim>\<open>params.Validator\<close>, and the orders in which the validator walks its
  maps.\<close>

record 'd bc_env =
  be_env :: "'d env"
  be_Validator :: bool
  be_ord_set :: "Transaction threadUnsafeSet \<Rightarrow> (Transaction \<times> unit) list"
  be_ord_accounts :: "(string, validatorAccount) gomap \<Rightarrow> (string \<times> validatorAccount) list"
  be_inner :: "Transaction list list \<Rightarrow> Transaction list list"
  be_outer :: "(string, Transaction list list) gomap \<Rightarrow> (string \<times> Transaction list list) list"

abbreviation be_crypto :: "'d bc_env \<Rightarrow> crypto_env" where
  "be_crypto E \<equiv> e_crypto (be_env E)"

abbreviation bc_txValidator :: "'d Blockchain \<Rightarrow> Validator option" where
  "bc_txValidator bc \<equiv> lg_Validator (bc_ledger bc)"

definition set_txValidator :: "Validator \<Rightarrow> 'd Blockchain \<Rightarrow> 'd Blockchain" where
  "set_txValidator vr bc = bc\<lparr>bc_ledger := (bc_ledger bc)\<lparr>lg_Validator := Some vr\<rparr>\<rparr>"

text \<open>What the validator reads of the ledger for an account it does not know; the error of the read is dropped. A
  database without its column family panics instead (lemma \<open>lg_balances_ready\<close>).\<close>

definition lg_balances :: "'d env \<Rightarrow> 'd Ledger \<Rightarrow> balances" where
  "lg_balances E lg addr =
     (case ledger_GetBalance E lg addr of
        Ret (amount, nonce, _) \<Rightarrow> (case amount of Some a \<Rightarrow> a | None \<Rightarrow> 0, nonce)
      | Panic _ \<Rightarrow> (0, 0))"

definition bc_balances :: "'d bc_env \<Rightarrow> 'd Blockchain \<Rightarrow> balances" where
  "bc_balances E bc = lg_balances (be_env E) (bc_ledger bc)"

section \<open>Head of the chain\<close>

definition zero_BlockHeader :: BlockHeader where
  "zero_BlockHeader = \<lparr>bh_PreviousHash = zero_hash, bh_TimeStamp = 0, bh_Nonce = 0, bh_TxsMerkleHash = zero_hash, bh_Height = 0\<rparr>"

definition bc_load :: "'d bc_env \<Rightarrow> 'd Blockchain \<Rightarrow> 'd Blockchain go" where
  "bc_load E bc =
     go_bind (VerifyChain (be_env E) (bc_ledger bc)) (\<lambda>_.
     go_bind (ledger_Height (be_env E) (bc_ledger bc)) (\<lambda>res.
       case res of
         Inl err \<Rightarrow> Ret bc
       | Inr height \<Rightarrow>
           go_bind (ledger_GetBlockByNumber (be_env E) (bc_ledger bc) height) (\<lambda>res.
             case res of
               Inl err \<Rightarrow> Panic ''GetBlockByNumber error''
             | Inr header \<Rightarrow> Ret (bc\<lparr>bc_currentBlockHeader := header\<rparr>))))"

definition NewBlockchain :: "'d bc_env \<Rightarrow> 'd Ledger \<Rightarrow> 'd Blockchain go" where
  "NewBlockchain E ledger =
     bc_load E \<lparr>bc_currentBlockHeader = zero_BlockHeader, bc_ledger = ledger, bc_heightStatus = [], bc_orphans = gl_new,
       bc_synced = False, bc_started = False\<rparr>"

definition CurrentHeight :: "'d Blockchain \<Rightarrow> u32" where
  "CurrentHeight bc = bh_Height (bc_currentBlockHeader bc)"

definition CurrentBlockHash :: "'d bc_env \<Rightarrow> 'd Blockchain \<Rightarrow> Hash" where
  "CurrentBlockHash E bc = bh_Hash (be_crypto E) (bc_currentBlockHeader bc)"

text \<open>The hash that was asked for comes back with an error.\<close>

definition GetNextBlockHash :: "'d bc_env \<Rightarrow> 'd Blockchain \<Rightarrow> Hash \<Rightarrow> (Hash \<times> gerr option) go" where
  "GetNextBlockHash E bc h =
     go_bind (bs_GetBlockByHash (e_rocks (be_env E)) (lg_db (bc_ledger bc)) h) (\<lambda>res.
       case res of
         Inl err \<Rightarrow> Ret (h, Some err)
       | Inr blockHeader \<Rightarrow>
           go_bind (ledger_GetBlockByNumber (be_env E) (bc_ledger bc) (bh_Height blockHeader + 1)) (\<lambda>res.
             case res of
               Inl err \<Rightarrow> Ret (h, Some err)
             | Inr nextBlockHeader \<Rightarrow> Ret (bh_Hash (be_crypto E) nextBlockHeader, None)))"

definition bc_GetBalanceNonce :: "'d bc_env \<Rightarrow> Address \<Rightarrow> 'd Blockchain \<Rightarrow> ((int option \<times> u32) \<times> 'd Blockchain) go" where
  "bc_GetBalanceNonce E addr bc =
     (case bc_txValidator bc of
        None \<Rightarrow> go_bind (ledger_GetBalance (be_env E) (bc_ledger bc) addr) (\<lambda>(amount, nonce, _). Ret ((amount, nonce + 1), bc))
      | Some vr \<Rightarrow> go_bind (vr_getBalanceNonce (bc_balances E bc) addr vr) (\<lambda>((amount, nonce), vr').
          Ret ((Some amount, nonce), set_txValidator vr' bc)))"

text \<open>The transaction from the ledger (a new object at the address \<open>p\<close>), else from the validator.\<close>

definition bc_GetTransaction :: "nat \<Rightarrow> 'd bc_env \<Rightarrow> 'd Blockchain \<Rightarrow> Hash \<Rightarrow> (gerr + Transaction) go" where
  "bc_GetTransaction p E bc txHash =
     go_bind (bs_GetTransactionByTxHash p (e_rocks (be_env E)) (lg_db (bc_ledger bc)) txHash) (\<lambda>res.
       Ret (case (res, bc_txValidator bc) of
              (Inl err, Some vr) \<Rightarrow>
                (case vr_getTransactionByHash (be_ord_accounts E (vr_accounts vr)) txHash of
                   Some tx \<Rightarrow> Inr tx
                 | None \<Rightarrow> Inl err)
            | _ \<Rightarrow> res))"

section \<open>Transactions and blocks\<close>

definition StartTxPool :: "'d bc_env \<Rightarrow> 'd Blockchain \<Rightarrow> 'd Blockchain" where
  "StartTxPool E bc = set_txValidator (if be_Validator E then startValidator NewValidator else stopValidator NewValidator) bc"

definition bc_Start :: "'d bc_env \<Rightarrow> 'd Blockchain \<Rightarrow> 'd Blockchain" where
  "bc_Start E bc = StartTxPool E (bc\<lparr>bc_started := True\<rparr>)"

definition validTxPoolSize :: nat where
  "validTxPoolSize = 1000000"

text \<open>Writing the log entry computes the hash of the transaction, which caches it.\<close>

definition ProcessTransaction :: "'d bc_env \<Rightarrow> Transaction \<Rightarrow> 'd Blockchain \<Rightarrow> (bool \<times> 'd Blockchain) go" where
  "ProcessTransaction E tx bc =
     (case bc_txValidator bc of
        None \<Rightarrow> Ret (True, bc)
      | Some vr \<Rightarrow>
          if vr_getValidatorSize vr < validTxPoolSize then
            go_bind (PushTxInTxPool (be_crypto E) (e_params (be_env E)) (bc_balances E bc) (snd (tx_Hash (be_crypto E) tx)) vr)
              (\<lambda>(ok, vr'). Ret (ok, set_txValidator vr' bc))
          else Ret (True, bc))"

text \<open>The block is returned as \<^verbatim>\<open>AppendBlock\<close> and the log entry left it. The error of \<^verbatim>\<open>AppendBlock\<close> is not looked at.\<close>

definition ProcessBlock :: "'d bc_env \<Rightarrow> Block \<Rightarrow> bool \<Rightarrow> 'd Blockchain \<Rightarrow> ((bool \<times> Block) \<times> 'd Blockchain) go" where
  "ProcessBlock E blk flag bc =
     (if bh_PreviousHash (bk_Header blk) = CurrentBlockHash E bc then
        go_bind (ledger_AppendBlock (be_env E) blk flag (bc_ledger bc)) (\<lambda>((err, blk1), lg').
          let blk2 = snd (bk_Hash (be_crypto E) blk1)
          in Ret ((True, blk2),
               bc\<lparr>bc_ledger := lg', bc_currentBlockHeader := bk_Header blk2,
                  bc_heightStatus := bc_heightStatus bc @
                    [\<lparr>sr_Height = bh_Height (bk_Header blk2), sr_Tps = length (bk_Transactions blk2) div 10\<rparr>]\<rparr>))
      else Ret ((False, blk), bc))"

definition GenerateBlock :: "'d bc_env \<Rightarrow> Transaction list \<Rightarrow> u32 \<Rightarrow> 'd Blockchain \<Rightarrow> Block" where
  "GenerateBlock E txs createTime bc =
     NewBlock (CurrentBlockHash E bc) createTime (CurrentHeight bc + 1) 100 zero_hash txs"

definition StartReceiveTx :: "'d Blockchain \<Rightarrow> 'd Blockchain go" where
  "StartReceiveTx bc =
     (case bc_txValidator bc of None \<Rightarrow> nil_deref | Some vr \<Rightarrow> Ret (set_txValidator (startValidator vr) bc))"

definition StopReceiveTx :: "'d Blockchain \<Rightarrow> 'd Blockchain go" where
  "StopReceiveTx bc =
     (case bc_txValidator bc of None \<Rightarrow> nil_deref | Some vr \<Rightarrow> Ret (set_txValidator (stopValidator vr) bc))"

section \<open>Outputs of the consensus\<close>

type_synonym ('d, 'n) relay = "Block \<Rightarrow> 'd Blockchain \<times> 'n \<Rightarrow> ('d Blockchain \<times> 'n) go"

definition processConsensusOutput :: "'d bc_env \<Rightarrow> ('d, 'n) relay \<Rightarrow> OutputTxs \<Rightarrow> 'd Blockchain \<times> 'n \<Rightarrow> ('d Blockchain \<times> 'n) go" where
  "processConsensusOutput E relay output s =
     (case bc_txValidator (fst s) of
        None \<Rightarrow> nil_deref
      | Some vr \<Rightarrow>
          go_bind (GetCommittedTxs (be_crypto E) (bc_balances E (fst s)) (be_ord_set E) (ot_Outputs output) vr) (\<lambda>((txs, time), vr').
            let bc1 = set_txValidator vr' (fst s);
                blk = GenerateBlock E txs time bc1
            in if bh_Height (bk_Header blk) = ot_Height output then relay blk (bc1, snd s) else Ret (bc1, snd s)))"

text \<open>The walk over the outputs that came too early. \<^verbatim>\<open>Remove\<close> takes the element out of its list, so that its \<^verbatim>\<open>Next\<close> is
  nil: the walk ends after the first element it removes.\<close>

lemma gl_Next_removed: "gl_Next (gl_Remove l e) e = None"
  by (auto simp: gl_Next_def gl_Remove_def intro: succ_of_notin)

function orphan_loop :: "'d bc_env \<Rightarrow> ('d, 'n) relay \<Rightarrow> OutputTxs element option \<Rightarrow> u32 \<Rightarrow> 'd Blockchain \<times> 'n \<Rightarrow> ('d Blockchain \<times> 'n) go" where
  "orphan_loop E relay None height s = Ret s"
| "orphan_loop E relay (Some elem) height s =
     (let orphans = gl_Remove (bc_orphans (fst s)) elem;
          s1 = ((fst s)\<lparr>bc_orphans := orphans\<rparr>, snd s)
      in if ot_Height (evalue elem) < height then orphan_loop E relay (gl_Next orphans elem) height s1
         else if ot_Height (evalue elem) = height then
           go_bind (processConsensusOutput E relay (evalue elem) s1) (orphan_loop E relay (gl_Next orphans elem) (height + 1))
         else Ret s)"
  by pat_completeness auto

termination
  by (relation "measure (\<lambda>(E, relay, elem, height, s). if elem = None then 0 else 1)") (auto simp: gl_Next_removed)

text \<open>At most 101 of them are kept; the oldest makes room.\<close>

definition add_orphan :: "OutputTxs \<Rightarrow> OutputTxs golist \<Rightarrow> OutputTxs golist" where
  "add_orphan commitedTxs os =
     snd (gl_PushBack
       (if gl_Len os > 100 then (case gl_Front os of Some e \<Rightarrow> gl_Remove os e | None \<Rightarrow> os) else os) commitedTxs)"

definition on_output :: "'d bc_env \<Rightarrow> ('d, 'n) relay \<Rightarrow> OutputTxs \<Rightarrow> 'd Blockchain \<times> 'n \<Rightarrow> ('d Blockchain \<times> 'n) go" where
  "on_output E relay commitedTxs s =
     go_bind (ledger_Height (be_env E) (bc_ledger (fst s))) (\<lambda>res.
       let height = (case res of Inl _ \<Rightarrow> 0 | Inr h \<Rightarrow> h) + 1 in
       if ot_Height commitedTxs = height then
         processConsensusOutput E relay commitedTxs ((fst s)\<lparr>bc_synced := True\<rparr>, snd s)
       else if ot_Height commitedTxs > height then
         go_bind (orphan_loop E relay (gl_Front (bc_orphans (fst s))) height s)
           (\<lambda>s1. Ret ((fst s1)\<lparr>bc_orphans := add_orphan commitedTxs (bc_orphans (fst s1))\<rparr>, snd s1))
       else Ret s)"

section \<open>What the consensus calls\<close>

definition VerifyTxsInConsensus :: "'d bc_env \<Rightarrow> Transaction list \<Rightarrow> bool \<Rightarrow> 'd Blockchain \<Rightarrow> (bool \<times> 'd Blockchain) go" where
  "VerifyTxsInConsensus E txs primary bc =
     (case bc_txValidator bc of
        None \<Rightarrow> nil_deref
      | Some vr \<Rightarrow> go_bind (VerifyTxsInTxPool (be_crypto E) (bc_balances E bc) txs primary vr) (\<lambda>(ok, vr'). Ret (ok, set_txValidator vr' bc)))"

text \<open>The sizes come from the options of the consensus and are not negative.\<close>

definition bc_FetchGroupingTxsInTxPool :: "'d bc_env \<Rightarrow> int \<Rightarrow> int \<Rightarrow> 'd Blockchain \<Rightarrow> (Transaction list list \<times> 'd Blockchain) go" where
  "bc_FetchGroupingTxsInTxPool E groupingNum maxSizeInGrouping bc =
     (case bc_txValidator bc of
        None \<Rightarrow> nil_deref
      | Some vr \<Rightarrow>
          go_bind (vr_FetchGroupingTxsInTxPool (be_crypto E) (e_params (be_env E)) (map fst (be_ord_accounts E (vr_accounts vr)))
              (be_inner E) (be_outer E) (nat groupingNum) (nat maxSizeInGrouping) vr)
            (\<lambda>(groupingTxs, vr'). Ret (groupingTxs, set_txValidator vr' bc)))"

text \<open>The height, and the sequence number, which is left at 0. A height that cannot be read is 0.\<close>

definition GetBlockchainInfo :: "'d bc_env \<Rightarrow> 'd Blockchain \<Rightarrow> u32 \<times> u64" where
  "GetBlockchainInfo E bc =
     (case ledger_Height (be_env E) (bc_ledger bc) of Ret (Inr height) \<Rightarrow> (height, 0) | _ \<Rightarrow> (0, 0))"

definition bc_istack :: "'d bc_env \<Rightarrow> 'd Blockchain istack" where
  "bc_istack E = \<lparr>sk_Verify = VerifyTxsInConsensus E, sk_Fetch = bc_FetchGroupingTxsInTxPool E, sk_Info = GetBlockchainInfo E\<rparr>"

section \<open>The filter of the validator\<close>

type_synonym validatorFilter = "(Hash, bool) gomap"

definition newValidatorFilter :: validatorFilter where
  "newValidatorFilter = gm_empty"

definition addTxCacheFilter :: "Hash \<Rightarrow> validatorFilter \<Rightarrow> validatorFilter" where
  "addTxCacheFilter txHash vf = gm_set txHash True vf"

definition removeTxCacheFilter :: "Hash \<Rightarrow> validatorFilter \<Rightarrow> validatorFilter" where
  "removeTxCacheFilter txHash vf = gm_del txHash vf"

definition hasTxInCacheFilter :: "validatorFilter \<Rightarrow> Hash \<Rightarrow> bool" where
  "hasTxInCacheFilter vf txHash = gm_has vf txHash"

section \<open>A sample\<close>

definition sample_be :: "mem bc_env" where
  "sample_be = \<lparr>be_env = sample_E, be_Validator = True, be_ord_set = id, be_ord_accounts = id, be_inner = id, be_outer = id\<rparr>"

definition sample_bc :: "mem Blockchain" where
  "sample_bc = bc_Start sample_be \<lparr>bc_currentBlockHeader = bk_Header genesis_block, bc_ledger = sample_lg, bc_heightStatus = [],
     bc_orphans = gl_new, bc_synced = False, bc_started = False\<rparr>"

lemma sample_bc_validator: "bc_txValidator sample_bc = Some NewValidator"
  by (simp add: sample_bc_def bc_Start_def StartTxPool_def set_txValidator_def sample_be_def startValidator_def NewValidator_def)

end
