(* ===== verification/Blockchain_Laws.thy ===== *)
theory Blockchain_Laws
  imports Blockchain
begin

text \<open>
  Laws of the blockchain service: what keeps the head in memory and the chain in the database together, how
  a chain is walked, and what happens when a block cannot be written.
\<close>

section \<open>The head and the stored chain\<close>

lemma lg_balances_ready:
  assumes "db_ready (e_rocks E) (lg_db lg)"
  shows "\<exists>amount nonce. ledger_GetBalance E lg a = Ret (amount, nonce, None)"
  using assms by (simp add: ledger_GetBalance_def st_GetBalance_def db_Get_ready Let_def)

text \<open>A chain of height \<open>h\<close> that is complete and linked, in which each block is stored under the hash of its header and
  carries its number.\<close>

definition chain_ok :: "'d env \<Rightarrow> int \<Rightarrow> nat \<Rightarrow> 'd Ledger \<Rightarrow> bool" where
  "chain_ok E N h lg \<longleftrightarrow> ledger_ok E N lg \<and> complete E lg h \<and> VerifyChain E lg = Ret () \<and>
     (\<forall>i \<le> h. bh_Height (the (header_at E lg i)) = word_of_nat i \<and>
        db_val (e_rocks E) (lg_db lg) ''index'' (Uint32ToBytes (word_of_nat i)) = bh_Hash (e_crypto E) (the (header_at E lg i)))"

definition head_ok :: "'d bc_env \<Rightarrow> int \<Rightarrow> nat \<Rightarrow> 'd Blockchain \<Rightarrow> bool" where
  "head_ok E N h bc \<longleftrightarrow> chain_ok (be_env E) N h (bc_ledger bc) \<and>
     header_at (be_env E) (bc_ledger bc) h = Some (bc_currentBlockHeader bc)"

text \<open>A block of payments that fits on top of a chain of height \<open>h\<close>, whose hash is that of its header when it is stored
  and is not yet in use.\<close>

definition fits_on :: "'d env \<Rightarrow> int \<Rightarrow> nat \<Rightarrow> 'd Ledger \<Rightarrow> Block \<Rightarrow> bool" where
  "fits_on E N h lg b \<longleftrightarrow> list_all plain_tx (bk_Transactions b) \<and> amount_fits (Some (N + block_growth (bk_Transactions b))) \<and>
     bk_wf (sealed (e_crypto E) b) \<and> hashes_distinct (e_crypto E) (sealed (e_crypto E) b) \<and>
     block_hash (e_crypto E) (sealed (e_crypto E) b) = bh_Hash (e_crypto E) (bk_Header (sealed (e_crypto E) b)) \<and>
     Suc h < 2 ^ 32 \<and> bh_Height (bk_Header b) = word_of_nat (Suc h) \<and>
     (\<forall>i \<le> h. bh_Hash (e_crypto E) (the (header_at E lg i)) \<notin>
        set (block_hash (e_crypto E) (sealed (e_crypto E) b) # map (tx_hash (e_crypto E)) (bk_Transactions b)))"

lemma chain_ok_head:
  assumes "chain_ok E N h lg"
  obtains p where "header_at E lg h = Some p" "GetLastBlockHash E lg = Ret (Inr (bh_Hash (e_crypto E) p))"
    "bh_Height p = word_of_nat h"
proof -
  obtain p where p: "header_at E lg h = Some p" using assms by (auto simp: chain_ok_def complete_def)
  moreover have "bh_Height p = word_of_nat h" using assms p unfolding chain_ok_def by (metis le_refl option.sel)
  moreover have "GetLastBlockHash E lg = Ret (Inr (bh_Hash (e_crypto E) p))"
    using assms header_atD [OF p] by (simp add: GetLastBlockHash_def chain_ok_def complete_def)
  ultimately show ?thesis using that by blast
qed

lemma chain_ok_append:
  assumes E: "env_ok E" and c: "chain_ok E N h lg" and f: "fits_on E N h lg b"
    and p: "GetLastBlockHash E lg = Ret (Inr (bh_PreviousHash (bk_Header b)))"
  shows "\<exists>lg'. ledger_AppendBlock E b flag lg = Ret ((None, snd (bs_AppendBlock (e_crypto E) (sealed (e_crypto E) b))), lg') \<and>
    chain_ok E (N + block_growth (bk_Transactions b)) (Suc h) lg' \<and> lg_Validator lg' = lg_Validator lg \<and>
    header_at E lg' (Suc h) = Some (bk_Header (sealed (e_crypto E) b)) \<and> (\<forall>i \<le> h. header_at E lg' i = header_at E lg i)"
proof -
  have "extends E lg h (sealed (e_crypto E) b)"
    using c f p by (auto simp: extends_def fits_on_def chain_ok_def)
  then obtain lg' where "ledger_AppendBlock E b flag lg = Ret ((None, snd (bs_AppendBlock (e_crypto E) (sealed (e_crypto E) b))), lg')"
    "ledger_ok E (N + block_growth (bk_Transactions b)) lg'" "lg_Validator lg' = lg_Validator lg"
    "complete E lg' (Suc h)" "VerifyChain E lg' = Ret ()" "header_at E lg' (Suc h) = Some (bk_Header (sealed (e_crypto E) b))"
    "db_val (e_rocks E) (lg_db lg') ''index'' (Uint32ToBytes (word_of_nat (Suc h))) = block_hash (e_crypto E) (sealed (e_crypto E) b)"
    "\<forall>i \<le> h. header_at E lg' i = header_at E lg i \<and> db_val (e_rocks E) (lg_db lg') ''index'' (Uint32ToBytes (word_of_nat i)) =
       db_val (e_rocks E) (lg_db lg) ''index'' (Uint32ToBytes (word_of_nat i))"
    using AppendBlock_keeps_chain [of E N lg b h flag] E c f by (auto simp: chain_ok_def fits_on_def)
  then show ?thesis
    using c f by (intro exI [of _ lg']) (auto simp: chain_ok_def fits_on_def le_Suc_eq)
qed

lemma snd_AppendBlock [simp]:
  "bk_Header (snd (bs_AppendBlock c b)) = bk_Header b" "length (bk_Transactions (snd (bs_AppendBlock c b))) = length (bk_Transactions b)"
  by (simp_all add: bs_AppendBlock_def bk_Hash_def Let_def split: prod.splits option.splits)

lemma bk_Hash_sel [simp]: "bk_Header (snd (bk_Hash c b)) = bk_Header b" "bk_Transactions (snd (bk_Hash c b)) = bk_Transactions b"
  by (simp_all add: bk_Hash_def Let_def split: option.split)

lemma head_hash:
  assumes "head_ok E N h bc"
  shows "GetLastBlockHash (be_env E) (bc_ledger bc) = Ret (Inr (CurrentBlockHash E bc))" "CurrentHeight bc = word_of_nat h"
proof -
  from assms obtain p where "header_at (be_env E) (bc_ledger bc) h = Some p" "bh_Height p = word_of_nat h"
    "GetLastBlockHash (be_env E) (bc_ledger bc) = Ret (Inr (bh_Hash (be_crypto E) p))"
    by (auto simp: head_ok_def elim: chain_ok_head)
  with assms show "GetLastBlockHash (be_env E) (bc_ledger bc) = Ret (Inr (CurrentBlockHash E bc))" "CurrentHeight bc = word_of_nat h"
    by (simp_all add: head_ok_def CurrentBlockHash_def CurrentHeight_def)
qed

lemma ProcessBlock_step:
  assumes "env_ok (be_env E)" and "head_ok E N h bc" and "fits_on (be_env E) N h (bc_ledger bc) b"
    and "bh_PreviousHash (bk_Header b) = CurrentBlockHash E bc"
  shows "\<exists>bc' b'. ProcessBlock E b flag bc = Ret ((True, b'), bc') \<and> head_ok E (N + block_growth (bk_Transactions b)) (Suc h) bc' \<and>
    bc_currentBlockHeader bc' = bk_Header (sealed (be_crypto E) b) \<and> bk_Header b' = bk_Header (sealed (be_crypto E) b) \<and>
    bc_orphans bc' = bc_orphans bc \<and> bc_synced bc' = bc_synced bc \<and> bc_started bc' = bc_started bc \<and>
    bc_txValidator bc' = bc_txValidator bc \<and>
    (\<forall>i \<le> h. header_at (be_env E) (bc_ledger bc') i = header_at (be_env E) (bc_ledger bc) i)"
proof -
  have c: "chain_ok (be_env E) N h (bc_ledger bc)" using assms(2) by (simp add: head_ok_def)
  have p: "GetLastBlockHash (be_env E) (bc_ledger bc) = Ret (Inr (bh_PreviousHash (bk_Header b)))"
    using head_hash(1) [OF assms(2)] assms(4) by simp
  from chain_ok_append [OF assms(1) c assms(3) p, of flag] obtain lg' where lg':
    "ledger_AppendBlock (be_env E) b flag (bc_ledger bc) = Ret ((None, snd (bs_AppendBlock (be_crypto E) (sealed (be_crypto E) b))), lg')"
    "chain_ok (be_env E) (N + block_growth (bk_Transactions b)) (Suc h) lg'" "lg_Validator lg' = bc_txValidator bc"
    "header_at (be_env E) lg' (Suc h) = Some (bk_Header (sealed (be_crypto E) b))"
    "\<forall>i \<le> h. header_at (be_env E) lg' i = header_at (be_env E) (bc_ledger bc) i" by blast
  then show ?thesis using assms(4) by (simp add: ProcessBlock_def Let_def head_ok_def)
qed

section \<open>Walking the chain\<close>

lemma GetBlockByHash_stored:
  assumes c: "chain_ok E N h lg" and i: "i \<le> h"
  shows "bs_GetBlockByHash (e_rocks E) (lg_db lg) (bh_Hash (e_crypto E) (the (header_at E lg i))) = Ret (Inr (the (header_at E lg i)))"
proof -
  let ?r = "e_rocks E" and ?db = "lg_db lg"
  obtain p where p: "header_at E lg i = Some p" using c i by (auto simp: chain_ok_def complete_def)
  have rd: "db_ready ?r ?db" and H: "bs_GetBlockchainHeight ?r ?db = Ret (Inr (word_of_nat h))" and h: "h < 2 ^ 32"
    using c by (simp_all add: chain_ok_def ledger_ok_def complete_def ledger_Height_def)
  have k: "db_val ?r ?db ''index'' (Uint32ToBytes (word_of_nat i)) = bh_Hash (e_crypto E) p"
    using c i p unfolding chain_ok_def by (metis option.sel)
  have "db_val ?r ?db ''block'' (bh_Hash (e_crypto E) p) \<noteq> []" "bh_Deserialize (db_val ?r ?db ''block'' (bh_Hash (e_crypto E) p)) = p"
    using GetBlockByNumber_ready [OF rd H u32_le [OF i h]] header_atD [OF p] by (simp_all add: k Let_def split: if_splits)
  with p show ?thesis by (simp add: bs_GetBlockByHash_def db_Get_ready [OF rd])
qed

definition hash_at :: "'d env \<Rightarrow> 'd Ledger \<Rightarrow> nat \<Rightarrow> Hash" where
  "hash_at E lg i = bh_Hash (e_crypto E) (the (header_at E lg i))"

lemma GetNextBlockHash_walk:
  assumes c: "chain_ok (be_env E) N h (bc_ledger bc)"
  shows "i < h \<Longrightarrow> GetNextBlockHash E bc (hash_at (be_env E) (bc_ledger bc) i) = Ret (hash_at (be_env E) (bc_ledger bc) (Suc i), None)"
    and "Suc h < 2 ^ 32 \<Longrightarrow> GetNextBlockHash E bc (hash_at (be_env E) (bc_ledger bc) h) =
      Ret (hash_at (be_env E) (bc_ledger bc) h, Some (ErrText ''exceeds the max height''))"
proof -
  let ?lg = "bc_ledger bc" and ?E = "be_env E"
  note found = GetBlockByHash_stored [OF c, folded hash_at_def]
  have n: "bh_Height (the (header_at ?E ?lg i)) + 1 = word_of_nat (Suc i)" if "i \<le> h" for i using c that by (simp add: chain_ok_def)
  show "GetNextBlockHash E bc (hash_at ?E ?lg i) = Ret (hash_at ?E ?lg (Suc i), None)" if "i < h"
  proof -
    have "header_at ?E ?lg (Suc i) \<noteq> None" using c that by (simp add: chain_ok_def complete_def)
    then obtain q where q: "header_at ?E ?lg (Suc i) = Some q" by blast
    show ?thesis using found [of i] n [of i] that header_atD [OF q] q
      by (simp add: GetNextBlockHash_def hash_at_def [of _ _ "Suc i"] ledger_GetBlockByNumber_def del: of_nat_Suc)
  qed
  show "GetNextBlockHash E bc (hash_at ?E ?lg h) = Ret (hash_at ?E ?lg h, Some (ErrText ''exceeds the max height''))" if "Suc h < 2 ^ 32"
  proof -
    have H: "bs_GetBlockchainHeight (e_rocks ?E) (lg_db ?lg) = Ret (Inr (word_of_nat h))"
      using c by (simp add: chain_ok_def complete_def ledger_Height_def)
    have "(word_of_nat h :: u32) < word_of_nat (Suc h)"
      using that by (simp add: word_less_nat_alt unat_of_nat del: of_nat_Suc)
    then show ?thesis using found [of h] n [of h]
      by (simp add: GetNextBlockHash_def ledger_GetBlockByNumber_def bs_GetBlockByNumber_def bs_GetBlockHashByNumber_def H del: of_nat_Suc)
  qed
qed

section \<open>Replacing the validator\<close>

lemma header_at_cong: "lg_db lg = lg_db lg' \<Longrightarrow> header_at E lg = header_at E lg'"
  by (simp add: header_at_def fun_eq_iff)

lemma ledger_Height_cong: "lg_db lg = lg_db lg' \<Longrightarrow> ledger_Height E lg = ledger_Height E lg'"
  by (simp add: ledger_Height_def)

lemma set_txValidator_sel [simp]:
  "bc_txValidator (set_txValidator vr bc) = Some vr" "lg_db (bc_ledger (set_txValidator vr bc)) = lg_db (bc_ledger bc)"
  "bc_currentBlockHeader (set_txValidator vr bc) = bc_currentBlockHeader bc" "bc_orphans (set_txValidator vr bc) = bc_orphans bc"
  "bc_synced (set_txValidator vr bc) = bc_synced bc" "bc_started (set_txValidator vr bc) = bc_started bc"
  "bc_heightStatus (set_txValidator vr bc) = bc_heightStatus bc"
  "CurrentHeight (set_txValidator vr bc) = CurrentHeight bc" "CurrentBlockHash E (set_txValidator vr bc) = CurrentBlockHash E bc"
  "GenerateBlock E txs t (set_txValidator vr bc) = GenerateBlock E txs t bc"
  by (simp_all add: set_txValidator_def CurrentHeight_def CurrentBlockHash_def GenerateBlock_def)

text \<open>The chain does not depend on the validator, nor the head on the queues.\<close>

lemma chain_ok_Validator [simp]: "chain_ok E N h (lg\<lparr>lg_Validator := v\<rparr>) = chain_ok E N h lg"
proof -
  let ?lg = "lg\<lparr>lg_Validator := v\<rparr>"
  have e: "header_at E ?lg = header_at E lg" "ledger_Height E ?lg = ledger_Height E lg"
    by (rule header_at_cong, simp, rule ledger_Height_cong, simp)
  then have c: "complete E ?lg h = complete E lg h" and l: "linked E ?lg h = linked E lg h"
    by (simp_all add: complete_def linked_def)
  have "VerifyChain E ?lg = VerifyChain E lg" if "complete E lg h"
    using VerifyChain_eq [OF that] VerifyChain_eq [of E ?lg h] that c l by simp
  moreover have "ledger_ok E N ?lg = ledger_ok E N lg" using e(2) by (simp add: ledger_ok_def times_ok_def)
  ultimately show ?thesis using e(1) c by (auto simp: chain_ok_def)
qed

lemma fits_on_Validator [simp]: "fits_on E N h (lg\<lparr>lg_Validator := v\<rparr>) b = fits_on E N h lg b"
  using header_at_cong [of "lg\<lparr>lg_Validator := v\<rparr>" lg E] by (simp add: fits_on_def)

lemma head_ok_set [simp]:
  "head_ok E N h (set_txValidator vr bc) = head_ok E N h bc" "head_ok E N h (bc\<lparr>bc_synced := b\<rparr>) = head_ok E N h bc"
  "head_ok E N h (bc\<lparr>bc_orphans := os\<rparr>) = head_ok E N h bc"
  using header_at_cong [of "(bc_ledger bc)\<lparr>lg_Validator := Some vr\<rparr>" "bc_ledger bc" "be_env E"]
  by (simp_all add: head_ok_def set_txValidator_def)

section \<open>Restart\<close>


section \<open>A block that is lost\<close>

text \<open>The state after a block that was not stored: the head is one ahead of the ledger.\<close>

definition ahead :: "'d bc_env \<Rightarrow> u32 \<Rightarrow> BlockHeader \<Rightarrow> 'd BlockchainDB \<Rightarrow> 'd Blockchain \<Rightarrow> bool" where
  "ahead E h hdr db bc \<longleftrightarrow> lg_db (bc_ledger bc) = db \<and> bc_currentBlockHeader bc = hdr \<and> bh_Height hdr = h + 1 \<and>
     ledger_Height (be_env E) (bc_ledger bc) = Ret (Inr h)"

lemma ahead_set [simp]:
  "ahead E h hdr db (set_txValidator vr bc) = ahead E h hdr db bc" "ahead E h hdr db (bc\<lparr>bc_synced := b\<rparr>) = ahead E h hdr db bc"
  "ahead E h hdr db (bc\<lparr>bc_orphans := os\<rparr>) = ahead E h hdr db bc"
  by (simp_all add: ahead_def ledger_Height_def)

lemma ahead_process:
  assumes "ahead E h hdr db bc" and "ot_Height output = h + 1" and "processConsensusOutput E relay output (bc, n) = Ret (bc', n')"
  shows "ahead E h hdr db bc' \<and> n' = n"
proof -
  have "CurrentHeight bc + 1 \<noteq> ot_Height output" using assms(1,2) by (simp add: CurrentHeight_def ahead_def)
  then have "bh_Height (bk_Header (GenerateBlock E txs t bc)) \<noteq> ot_Height output" for txs t
    by (simp add: GenerateBlock_def NewBlock_def NewBlockHeader_def)
  with assms(1,3) show ?thesis
    by (auto simp: processConsensusOutput_def Let_def nil_deref_def split: option.splits)
qed

lemma ahead_orphan:
  assumes "ahead E h hdr db bc" and "orphan_loop E relay e (h + 1) (bc, n) = Ret (bc', n')"
  shows "ahead E h hdr db bc' \<and> n' = n"
proof (cases e)
  case (Some elem)
  show ?thesis
    using assms ahead_process [of E h hdr db "bc\<lparr>bc_orphans := gl_Remove (bc_orphans bc) elem\<rparr>" "evalue elem" relay n]
    by (auto simp: Some Let_def gl_Next_removed split: if_splits)
qed (use assms in auto)

lemma ahead_output:
  assumes "ahead E h hdr db bc" and "on_output E relay out (bc, n) = Ret (bc', n')"
  shows "ahead E h hdr db bc' \<and> n' = n"
proof -
  have H: "ledger_Height (be_env E) (bc_ledger bc) = Ret (Inr h)" using assms(1) by (simp add: ahead_def)
  consider "ot_Height out = h + 1" | "h + 1 < ot_Height out" | "ot_Height out < h + 1" by (metis linorder_less_linear)
  then show ?thesis
  proof cases
    case 1
    then show ?thesis using assms ahead_process [of E h hdr db "bc\<lparr>bc_synced := True\<rparr>" out relay n] by (simp add: on_output_def H)
  next
    case 2
    then have ne: "ot_Height out \<noteq> h + 1" by auto
    with 2 assms(2) obtain bc1 where o: "orphan_loop E relay (gl_Front (bc_orphans bc)) (h + 1) (bc, n) = Ret (bc1, n')"
      and r: "bc' = bc1\<lparr>bc_orphans := add_orphan out (bc_orphans bc1)\<rparr>"
      by (auto simp: on_output_def H Let_def)
    from ahead_orphan [OF assms(1) o] r show ?thesis by simp
  next
    case 3
    then have "ot_Height out \<noteq> h + 1" "\<not> h + 1 < ot_Height out" by auto
    then show ?thesis using assms by (simp add: on_output_def H)
  qed
qed

text \<open>C28: \<^verbatim>\<open>ProcessBlock\<close> ignores the result of \<^verbatim>\<open>AppendBlock\<close>. When a block is not stored, because its execution
  or the write failed, the head moves to it all the same, and from then on no output of the consensus makes a block any more: whatever
  outputs follow, nothing is relayed and neither the head nor the database changes.\<close>

theorem lost_block_stops_chain:
  assumes "ledger_AppendBlock (be_env E) b flag (bc_ledger bc) = Ret ((err, b1), lg1)" and "ledger_Height (be_env E) lg1 = Ret (Inr h)"
    and "bh_Height (bk_Header b1) = h + 1" and "bh_PreviousHash (bk_Header b) = CurrentBlockHash E bc"
  shows "\<exists>bc1 b2. ProcessBlock E b flag bc = Ret ((True, b2), bc1) \<and>
    (\<forall>outs n bc2 n2. go_fold (on_output E relay) outs (bc1, n) = Ret (bc2, n2) \<longrightarrow>
       n2 = n \<and> bc_currentBlockHeader bc2 = bk_Header b1 \<and> lg_db (bc_ledger bc2) = lg_db lg1)"
proof -
  obtain bc1 b2 where p: "ProcessBlock E b flag bc = Ret ((True, b2), bc1)" and a: "ahead E h (bk_Header b1) (lg_db lg1) bc1"
    using assms by (simp add: ProcessBlock_def Let_def ahead_def)
  have "n2 = n \<and> ahead E h (bk_Header b1) (lg_db lg1) bc2" if "go_fold (on_output E relay) outs (bc1, n) = Ret (bc2, n2)" for outs n bc2 n2
    using a that
  proof (induction outs arbitrary: bc1)
    case (Cons out outs)
    then obtain bc' n' where o: "on_output E relay out (bc1, n) = Ret (bc', n')" "go_fold (on_output E relay) outs (bc', n') = Ret (bc2, n2)"
      by auto
    from ahead_output [OF Cons.prems(1) o(1)] o(2) Cons.IH show ?case by auto
  qed simp
  with p show ?thesis unfolding ahead_def by blast
qed

section \<open>The network stack\<close>

text \<open>What the service relies on: the stack that relays a block first has it processed, as one that this node packed, and
  then only notes it for the peers.\<close>

locale network_stack =
  fixes E :: "'d bc_env" and relay :: "('d, 'n) relay" and note_block :: "bool \<Rightarrow> Block \<Rightarrow> 'n \<Rightarrow> 'n"
  assumes relay_processes: "relay blk (bc, n) = go_bind (ProcessBlock E blk True bc) (\<lambda>((ok, b), bc'). Ret (bc', note_block ok b n))"
begin

text \<open>An output of the next height becomes a block on top of the chain.\<close>

lemma output_extends:
  assumes E: "env_ok (be_env E)" and h: "head_ok E N h bc" and v: "bc_txValidator bc = Some vr"
    and g: "GetCommittedTxs (be_crypto E) (bc_balances E bc) (be_ord_set E) (ot_Outputs out) vr = Ret ((txs, time), vr')"
    and o: "ot_Height out = word_of_nat (Suc h)" and f: "fits_on (be_env E) N h (bc_ledger bc) (GenerateBlock E txs time bc)"
  shows "\<exists>bc' b. on_output E relay out (bc, n) = Ret (bc', note_block True b n) \<and> head_ok E (N + block_growth txs) (Suc h) bc' \<and>
    bk_Header b = bc_currentBlockHeader bc' \<and> bc_currentBlockHeader bc' = bk_Header (sealed (be_crypto E) (GenerateBlock E txs time bc)) \<and>
    bc_synced bc' \<and> bc_orphans bc' = bc_orphans bc \<and> bc_txValidator bc' = Some vr' \<and>
    (\<forall>i \<le> h. header_at (be_env E) (bc_ledger bc') i = header_at (be_env E) (bc_ledger bc) i)"
proof -
  define bc1 where "bc1 = set_txValidator vr' (bc\<lparr>bc_synced := True\<rparr>)"
  have H: "ledger_Height (be_env E) (bc_ledger bc) = Ret (Inr (word_of_nat h))"
    using h by (simp add: head_ok_def chain_ok_def complete_def)
  let ?b = "GenerateBlock E txs time bc"
  have b: "GenerateBlock E txs time bc1 = ?b" by (simp add: bc1_def) (simp add: GenerateBlock_def CurrentBlockHash_def CurrentHeight_def)
  have sel: "bk_Transactions ?b = txs" "bh_PreviousHash (bk_Header ?b) = CurrentBlockHash E bc" "bh_Height (bk_Header ?b) = word_of_nat (Suc h)"
    using head_hash(2) [OF h] by (simp_all add: GenerateBlock_def NewBlock_def NewBlockHeader_def)
  have h1: "head_ok E N h bc1" using h by (simp add: bc1_def)
  have f1: "fits_on (be_env E) N h (bc_ledger bc1) ?b" using f by (simp add: bc1_def set_txValidator_def)
  have p1: "bh_PreviousHash (bk_Header ?b) = CurrentBlockHash E bc1" using sel by (simp add: bc1_def) (simp add: CurrentBlockHash_def)
  have k1: "header_at (be_env E) (bc_ledger bc1) = header_at (be_env E) (bc_ledger bc)" by (rule header_at_cong) (simp add: bc1_def)
  from ProcessBlock_step [OF E h1 f1 p1, of True] obtain bc' b' where
    p: "ProcessBlock E ?b True bc1 = Ret ((True, b'), bc')" "head_ok E (N + block_growth txs) (Suc h) bc'"
    "bc_currentBlockHeader bc' = bk_Header (sealed (be_crypto E) ?b)" "bk_Header b' = bk_Header (sealed (be_crypto E) ?b)"
    "bc_orphans bc' = bc_orphans bc" "bc_synced bc'" "bc_txValidator bc' = Some vr'"
    "\<forall>i \<le> h. header_at (be_env E) (bc_ledger bc') i = header_at (be_env E) (bc_ledger bc) i"
    unfolding sel(1) k1 by (auto simp: bc1_def)
  have "on_output E relay out (bc, n) = relay ?b (bc1, n)"
    using v g o b sel(3) by (simp add: on_output_def H processConsensusOutput_def bc_balances_def Let_def bc1_def [symmetric] del: of_nat_Suc)
      (simp add: bc1_def)
  then show ?thesis using p by (intro exI [of _ bc'] exI [of _ b']) (simp add: relay_processes)
qed

text \<open>But it does not release an output that came too early: only a later output that comes too early looks at those, and
  then at the first of them only.\<close>

lemma output_keeps_orphans:
  assumes "ledger_Height (be_env E) (bc_ledger bc) = Ret (Inr h)" and "ot_Height out = h + 1"
    and "on_output E relay out (bc, n) = Ret (bc', n')"
  shows "bc_orphans bc' = bc_orphans bc"
proof -
  have "processConsensusOutput E relay out (bc\<lparr>bc_synced := True\<rparr>, n) = Ret (bc', n')"
    using assms by (simp add: on_output_def)
  then show ?thesis
    by (auto simp: processConsensusOutput_def Let_def relay_processes ProcessBlock_def nil_deref_def split: option.splits if_splits)
qed

end

section \<open>A chain of one block\<close>

lemma genesis_chain:
  assumes "env_ok E" and "digest_ok (e_crypto E)" and "empty_db E db"
  shows "\<exists>lg. NewLedger E None db vp = Ret lg \<and> chain_ok E 0 0 lg \<and> header_at E lg 0 = Some (bk_Header genesis_block)"
proof -
  obtain lg where lg: "NewLedger E None db vp = Ret lg" "ledger_ok E 0 lg" "complete E lg 0" "header_at E lg 0 = Some (bk_Header genesis_block)"
    "db_val (e_rocks E) (lg_db lg) ''index'' (Uint32ToBytes 0) = block_hash (e_crypto E) genesis_block"
    using NewLedger_genesis [OF assms] by blast
  have "VerifyChain E lg = Ret ()" using VerifyChain_eq [OF lg(3)] by (simp add: linked_def)
  moreover have "bh_Height (bk_Header genesis_block) = 0" "block_hash (e_crypto E) genesis_block = bh_Hash (e_crypto E) (bk_Header genesis_block)"
    by (simp_all add: genesis_block_def block_hash_def bk_Hash_def Let_def)
  ultimately show ?thesis using lg by (auto simp: chain_ok_def)
qed

text \<open>A block without transactions fits when its hash is new.\<close>

lemma empty_block_fits:
  assumes "bh_wf (bk_Header b)" and "bk_Transactions b = []" and "bk_hash_cache b = None" and "Suc h < 2 ^ 32"
    and "bh_Height (bk_Header b) = word_of_nat (Suc h)"
    and "\<forall>i \<le> h. bh_Hash (e_crypto E) (the (header_at E lg i)) \<noteq> bh_Hash (e_crypto E) (bk_Header (sealed (e_crypto E) b))"
  shows "fits_on E 0 h lg b"
  using assms
  by (simp add: fits_on_def bk_wf_def hashes_distinct_def block_hash_def bk_Hash_def bh_wf_def sealed_def merkleRootHash_def zero_hash_def
      bh_Hash_def Let_def block_growth_def amount_fits_def be_bytes.simps)

text \<open>A digest that keeps the last byte, which of a header is the number of the block.\<close>

definition last_c :: crypto_env where
  "last_c = sample_c\<lparr>sum256 := \<lambda>b. replicate 31 7 @ [if b = [] then 0 else last b]\<rparr>"

definition last_be :: "mem bc_env" where
  "last_be = sample_be\<lparr>be_env := sample_E\<lparr>e_crypto := last_c\<rparr>\<rparr>"

lemma last_be_ok: "env_ok (be_env last_be)" "digest_ok (be_crypto last_be)" "empty_db (be_env last_be) mem_db"
  using sample_E_ok by (simp_all add: last_be_def env_ok_def digest_ok_def last_c_def empty_db_def)

lemma last_hash: "bh_Height p = 0 \<Longrightarrow> bh_Hash last_c p = replicate 31 7 @ [0]" "bh_Height p = 1 \<Longrightarrow> bh_Hash last_c p = replicate 31 7 @ [1]"
  by (simp_all add: bh_Hash_def DoubleSha256_def NewHash_def hash_SetBytes_def last_c_def bh_Serialize_def Serialize_def bh_val_def VarInt_def)

definition genesis_bc :: "mem Ledger \<Rightarrow> mem Blockchain" where
  "genesis_bc lg = bc_Start last_be \<lparr>bc_currentBlockHeader = bk_Header genesis_block, bc_ledger = lg, bc_heightStatus = [],
     bc_orphans = gl_new, bc_synced = False, bc_started = False\<rparr>"

lemma last_genesis: "\<exists>lg. NewLedger (be_env last_be) None mem_db sample_vp = Ret lg \<and> head_ok last_be 0 0 (genesis_bc lg)"
proof -
  obtain lg where "NewLedger (be_env last_be) None mem_db sample_vp = Ret lg" "chain_ok (be_env last_be) 0 0 lg"
    "header_at (be_env last_be) lg 0 = Some (bk_Header genesis_block)"
    using genesis_chain [OF last_be_ok] by blast
  then show ?thesis by (simp add: genesis_bc_def bc_Start_def StartTxPool_def) (simp add: head_ok_def)
qed

lemma last_fits:
  assumes "head_ok last_be 0 0 bc"
  shows "fits_on (be_env last_be) 0 0 (bc_ledger bc) (GenerateBlock last_be [] time bc)"
proof -
  have c: "be_crypto last_be = last_c" by (simp add: last_be_def)
  have "header_at (be_env last_be) (bc_ledger bc) 0 = Some (bc_currentBlockHeader bc)" "CurrentHeight bc = 0"
    using assms head_hash(2) [OF assms] by (simp_all add: head_ok_def)
  moreover have "length (bh_Hash last_c p) = HashSize" for p by (simp add: bh_Hash_def)
  ultimately show ?thesis
    by (intro empty_block_fits) (simp_all add: c CurrentHeight_def last_hash GenerateBlock_def NewBlock_def NewBlockHeader_def bh_wf_def
        CurrentBlockHash_def zero_hash_def)
qed

lemma restart_next:
  "\<exists>lg b bc. NewLedger (be_env last_be) None mem_db sample_vp = Ret lg \<and>
     ProcessBlock last_be (GenerateBlock last_be [] 5 (genesis_bc lg)) True (genesis_bc lg) = Ret ((True, b), bc) \<and> head_ok last_be 0 1 bc \<and>
     header_at (be_env last_be) (bc_ledger bc) 0 = Some (bk_Header genesis_block)"
proof -
  obtain lg where lg: "NewLedger (be_env last_be) None mem_db sample_vp = Ret lg" "head_ok last_be 0 0 (genesis_bc lg)" using last_genesis by blast
  have "header_at (be_env last_be) (bc_ledger (genesis_bc lg)) 0 = Some (bk_Header genesis_block)"
    using lg(2) by (simp add: head_ok_def) (simp add: genesis_bc_def bc_Start_def StartTxPool_def)
  moreover
  have "bk_Transactions (GenerateBlock last_be [] 5 (genesis_bc lg)) = []"
    "bh_PreviousHash (bk_Header (GenerateBlock last_be [] 5 (genesis_bc lg))) = CurrentBlockHash last_be (genesis_bc lg)"
    by (simp_all add: GenerateBlock_def NewBlock_def NewBlockHeader_def)
  ultimately show ?thesis using ProcessBlock_step [OF last_be_ok(1) lg(2) last_fits [OF lg(2), of 5], of True] lg(1)
    by (auto simp: block_growth_def)
qed


text \<open>A database whose writes fail, with a chain of height 0.\<close>

definition full_be :: "mem bc_env" where
  "full_be = sample_be\<lparr>be_env := sample_E\<lparr>e_rocks := mem_rocks\<lparr>WriteCF := \<lambda>ops d. (Some ''disk full'', d)\<rparr>\<rparr>\<rparr>"

definition full_bc :: "mem Blockchain" where
  "full_bc = sample_bc\<lparr>bc_ledger := sample_lg\<lparr>lg_db := mem_db\<lparr>DB := \<lambda>cf k. if cf = ''index'' \<and> k = heightKey then Some (Uint32ToBytes 0) else None\<rparr>\<rparr>\<rparr>"

lemma full_height: "ledger_Height (be_env full_be) (bc_ledger full_bc) = Ret (Inr 0)"
  by (simp add: ledger_Height_def bs_GetBlockchainHeight_def db_Get_def checkIfColumnExists_def full_be_def full_bc_def mem_db_def
      DefaultConfig_def mem_rocks_def)

lemma full_write:
  assumes "known_cfs wbs" and "cfHandlers (lg_db lg) = Columnfamilies DefaultConfig"
  shows "lg_AtomicWrite (be_env full_be) wbs lg = Ret (Inl (ErrDb ''disk full''), lg)"
proof -
  obtain ops where "batch_ops (cfHandlers (lg_db lg)) wbs = Ret ops" using batch_ops_known [OF assms(1), of "cfHandlers (lg_db lg)"] assms(2) by auto
  then show ?thesis by (simp add: lg_AtomicWrite_def st_AtomicWrite_def db_AtomicWrite_def db_result_def full_be_def)
qed

lemma full_lost:
  "\<exists>b1 lg1. ledger_AppendBlock (be_env full_be) (GenerateBlock full_be [] 5 full_bc) True (bc_ledger full_bc) = Ret ((None, b1), lg1) \<and>
     lg_db lg1 = lg_db (bc_ledger full_bc) \<and> bh_Height (bk_Header b1) = 1"
proof -
  let ?b = "GenerateBlock full_be [] 5 full_bc"
  define lg where "lg = (bc_ledger full_bc)\<lparr>lg_contract := StartConstract 0 (lg_contract (bc_ledger full_bc))\<rparr>"
  have t: "bk_Transactions ?b = []" "bh_Height (bk_Header ?b) = 1"
    by (simp_all add: GenerateBlock_def NewBlock_def NewBlockHeader_def CurrentHeight_def full_bc_def sample_bc_def bc_Start_def
        StartTxPool_def set_txValidator_def genesis_block_def)
  have x: "executeTransaction (be_env full_be) [] True lg = Ret (Inr ([], []), lg)"
    by (simp add: executeTransaction_def ex_bind_def ex_ret_def AddChangesForPersistence_def lg_def full_bc_def sample_lg_def
        StartConstract_def NewSmartConstract_def NewStateExtra_def full_be_def sample_be_def sample_E_def)
  have w: "lg_AtomicWrite (be_env full_be) (fst (bs_AppendBlock c b)) lg = Ret (Inl (ErrDb ''disk full''), lg)" for c b
    by (rule full_write) (simp_all add: bs_AppendBlock_puts lg_def full_bc_def sample_lg_def mem_db_def)
  show ?thesis
    unfolding ledger_AppendBlock_def full_height by (simp add: t x w lg_def [symmetric] merkleRootHash_def Let_def) (simp add: lg_def)
qed

theorem lost_block_stops_chain_witness:
  "\<exists>bc1 b2. ProcessBlock full_be (GenerateBlock full_be [] 5 full_bc) True full_bc = Ret ((True, b2), bc1) \<and>
     CurrentHeight full_bc = 0 \<and> CurrentHeight bc1 = 1 \<and> lg_db (bc_ledger bc1) = lg_db (bc_ledger full_bc)"
proof -
  obtain b1 lg1 where a: "ledger_AppendBlock (be_env full_be) (GenerateBlock full_be [] 5 full_bc) True (bc_ledger full_bc) = Ret ((None, b1), lg1)"
    and d: "lg_db lg1 = lg_db (bc_ledger full_bc)" and h: "bh_Height (bk_Header b1) = 0 + 1" using full_lost by auto
  have H: "ledger_Height (be_env full_be) lg1 = Ret (Inr 0)" using full_height ledger_Height_cong [OF d] by simp
  have p: "bh_PreviousHash (bk_Header (GenerateBlock full_be [] 5 full_bc)) = CurrentBlockHash full_be full_bc"
    by (simp add: GenerateBlock_def NewBlock_def NewBlockHeader_def)
  from lost_block_stops_chain [OF a H h p, where relay = "\<lambda>b s :: mem Blockchain \<times> nat. Ret s"]
  obtain bc1 b2 where r: "ProcessBlock full_be (GenerateBlock full_be [] 5 full_bc) True full_bc = Ret ((True, b2), bc1)"
    and k: "\<forall>outs (n :: nat) bc2 n2. go_fold (on_output full_be (\<lambda>b s. Ret s)) outs (bc1, n) = Ret (bc2, n2) \<longrightarrow>
       n2 = n \<and> bc_currentBlockHeader bc2 = bk_Header b1 \<and> lg_db (bc_ledger bc2) = lg_db lg1"
    by (elim exE conjE) (rule that)
  have "bc_currentBlockHeader bc1 = bk_Header b1" "lg_db (bc_ledger bc1) = lg_db lg1" using k [rule_format, of "[]" 0 bc1 0] by simp_all
  moreover note r
  moreover have "CurrentHeight full_bc = 0"
    by (simp add: CurrentHeight_def full_bc_def sample_bc_def bc_Start_def StartTxPool_def set_txValidator_def genesis_block_def)
  ultimately show ?thesis using d h by (auto simp: CurrentHeight_def)
qed

end
