(* ===== verification/Consenter.thy ===== *)
theory Consenter
  imports Blockchain Lbft_Run
begin

text \<open>
  The consensus plugins behind their common interface: the plugin without consensus (\<^verbatim>\<open>core/consensus/noops\<close>), the choice
  of the plugin (\<^verbatim>\<open>core/consensus/consenter\<close>) and the stack for tests (\<^verbatim>\<open>core/consensus/helper\<close>). The LBFT replica is in the
  theories \<open>Lbft_State\<close> to \<open>Lbft_Run\<close>. A channel is a list, a timer an option, as there.
\<close>

section \<open>The plugin without consensus\<close>

record NoopsOptions =
  no_BlockSize :: int
  no_BlockInterval :: int
  no_CommitTxChanSize :: int
  no_CommittedTxsChanSize :: int
  no_BroadcastChanSize :: int

definition noops_NewDefaultOptions :: NoopsOptions where
  "noops_NewDefaultOptions = \<lparr>no_BlockSize = 100, no_BlockInterval = 10 * second, no_CommitTxChanSize = 100,
     no_CommittedTxsChanSize = 100, no_BroadcastChanSize = 100\<rparr>"

text \<open>\<open>no_exit\<close> is the channel \<^verbatim>\<open>exit\<close>: nil, open, or closed.\<close>

datatype exit_chan = NilChan | OpenChan | ClosedChan

record 'k Noops =
  no_options :: NoopsOptions
  no_stack :: 'k
  no_committedTxsChan :: "OutputTxs list"
  no_blockTimer :: "int option"
  no_seqNo :: u64
  no_height :: u32
  no_exit :: exit_chan

definition NewNoops :: "'k istack \<Rightarrow> NoopsOptions \<Rightarrow> 'k \<Rightarrow> 'k Noops" where
  "NewNoops st options stack =
     \<lparr>no_options = (if no_CommitTxChanSize options < no_BlockSize options
                    then options\<lparr>no_CommitTxChanSize := no_BlockSize options\<rparr> else options),
      no_stack = stack, no_committedTxsChan = [], no_blockTimer = None, no_seqNo = snd (sk_Info st stack),
      no_height = fst (sk_Info st stack), no_exit = NilChan\<rparr>"

definition noops_IsRunning :: "'k Noops \<Rightarrow> bool" where
  "noops_IsRunning noops \<longleftrightarrow> no_exit noops \<noteq> NilChan"

text \<open>\<^verbatim>\<open>Start\<close> up to its loop, whose two cases are \<open>noops_event\<close>.\<close>

definition noops_Start :: "'k Noops \<Rightarrow> 'k Noops" where
  "noops_Start noops =
     (if noops_IsRunning noops then noops
      else noops\<lparr>no_exit := OpenChan, no_blockTimer := Some (no_BlockInterval (no_options noops))\<rparr>)"

definition noops_processBlock :: "'k istack \<Rightarrow> int \<Rightarrow> 'k Noops \<Rightarrow> 'k Noops go" where
  "noops_processBlock st now noops0 =
     (let noops = noops0\<lparr>no_blockTimer := None\<rparr> in
      go_bind (sk_Fetch st (no_BlockSize (no_options noops)) 1 (no_stack noops)) (\<lambda>(txss, k1).
        if length txss \<noteq> 2 then Ret (noops\<lparr>no_stack := k1\<rparr>)
        else
          go_bind (sk_Verify st (txss ! 1) True k1) (\<lambda>(pass, k2).
            if \<not> pass then Ret (noops\<lparr>no_stack := k2\<rparr>)
            else
              let seqNo = no_seqNo noops + 1; height = no_height noops + 1;
                  out = \<lparr>ct_Skip = False, ct_IsLocalChain = False, ct_SeqNo = seqNo, ct_Time = word_of_int (now div second),
                         ct_Transactions = txss ! 1\<rparr>
              in Ret (noops\<lparr>no_stack := k2, no_seqNo := seqNo, no_height := height,
                   no_committedTxsChan := no_committedTxsChan noops @ [\<lparr>ot_Outputs = [out], ot_Height = height\<rparr>],
                   no_blockTimer := Some (no_BlockInterval (no_options noops))\<rparr>))))"

definition noops_Stop :: "'k Noops \<Rightarrow> 'k Noops go" where
  "noops_Stop noops =
     (case no_exit noops of
        NilChan \<Rightarrow> Ret noops
      | OpenChan \<Rightarrow> Ret (noops\<lparr>no_exit := ClosedChan\<rparr>)
      | ClosedChan \<Rightarrow> Panic ''close of closed channel'')"

definition noops_ChangeBlockSize :: "int \<Rightarrow> 'k Noops \<Rightarrow> 'k Noops" where
  "noops_ChangeBlockSize bsize noops = noops\<lparr>no_options := (no_options noops)\<lparr>no_BlockSize := bsize\<rparr>\<rparr>"

datatype noops_input = NTimer int | NExit

text \<open>A case that cannot be taken leaves the state.\<close>

definition noops_event :: "'k istack \<Rightarrow> noops_input \<Rightarrow> 'k Noops \<Rightarrow> 'k Noops go" where
  "noops_event st e noops =
     (case e of
        NTimer now \<Rightarrow> if noops_IsRunning noops \<and> no_blockTimer noops \<noteq> None then noops_processBlock st now noops else Ret noops
      | NExit \<Rightarrow> if no_exit noops = ClosedChan then Ret (noops\<lparr>no_exit := NilChan\<rparr>) else Ret noops)"

section \<open>Choosing the plugin\<close>

datatype 'k Consenter = CLbft "'k Lbft" | CNoops "'k Noops"

record ConsenterOptions =
  co_Noops :: NoopsOptions
  co_Lbft :: Options
  co_Plugin :: string

definition consenter_NewDefaultOptions :: ConsenterOptions where
  "consenter_NewDefaultOptions = \<lparr>co_Noops = noops_NewDefaultOptions, co_Lbft = NewDefaultOptions, co_Plugin = ''noops''\<rparr>"

text \<open>\<^verbatim>\<open>strings.ToLower\<close> on the letters that the names of the plugins have.\<close>

definition lower :: "char \<Rightarrow> char" where
  "lower ch = (if 65 \<le> (of_char ch :: nat) \<and> (of_char ch :: nat) \<le> 90 then char_of ((of_char ch :: nat) + 32) else ch)"

definition NewConsenter :: "'k lbft_env \<Rightarrow> int \<Rightarrow> ConsenterOptions \<Rightarrow> 'k \<Rightarrow> 'k Consenter go" where
  "NewConsenter E now option stack =
     (if map lower (co_Plugin option) = ''lbft''
      then go_bind (NewLbft E now (co_Lbft option) stack) (\<lambda>lb. Ret (CLbft (lbft_Start lb)))
      else Ret (CNoops (noops_Start (NewNoops (le_stack E) (co_Noops option) stack))))"

section \<open>The interface\<close>

definition cs_RecvConsensus :: "bytes \<Rightarrow> 'k Consenter \<Rightarrow> 'k Consenter" where
  "cs_RecvConsensus payload cs = (case cs of CLbft lb \<Rightarrow> CLbft (RecvConsensus payload lb) | CNoops n \<Rightarrow> CNoops n)"

definition cs_ChangeBlockSize :: "int \<Rightarrow> 'k Consenter \<Rightarrow> 'k Consenter" where
  "cs_ChangeBlockSize bsize cs = (case cs of CLbft lb \<Rightarrow> CLbft (ChangeBlockSize bsize lb) | CNoops n \<Rightarrow> CNoops (noops_ChangeBlockSize bsize n))"

definition cs_Quorum :: "'k Consenter \<Rightarrow> int" where
  "cs_Quorum cs = (case cs of CLbft lb \<Rightarrow> intersectionQuorum lb | CNoops n \<Rightarrow> 1)"

text \<open>Receiving from the channels of the plugin.\<close>

definition cs_BroadcastConsensus :: "'k Consenter \<Rightarrow> (BroadcastConsensus \<times> 'k Consenter) option" where
  "cs_BroadcastConsensus cs =
     (case cs of
        CLbft lb \<Rightarrow> (case lb_broadcastChan lb of [] \<Rightarrow> None | m # ms \<Rightarrow> Some (m, CLbft (lb\<lparr>lb_broadcastChan := ms\<rparr>)))
      | CNoops n \<Rightarrow> None)"

definition cs_CommittedTxs :: "'k Consenter \<Rightarrow> (OutputTxs \<times> 'k Consenter) option" where
  "cs_CommittedTxs cs =
     (case cs of
        CLbft lb \<Rightarrow> (case lb_committedTxsChan lb of [] \<Rightarrow> None | m # ms \<Rightarrow> Some (m, CLbft (lb\<lparr>lb_committedTxsChan := ms\<rparr>)))
      | CNoops n \<Rightarrow> (case no_committedTxsChan n of [] \<Rightarrow> None | m # ms \<Rightarrow> Some (m, CNoops (n\<lparr>no_committedTxsChan := ms\<rparr>))))"

section \<open>The stack for tests\<close>

definition helper_stack :: "unit istack" where
  "helper_stack = \<lparr>sk_Verify = \<lambda>txs primary k. Ret (True, k), sk_Fetch = \<lambda>groupingNum maxSizeInGrouping k. Ret ([], k),
     sk_Info = \<lambda>k. (0, 0)\<rparr>"

section \<open>What a plugin relies on\<close>

text \<open>The stack of a node returns one list of everything and then as many groups as were asked for.\<close>

locale grouping_stack =
  fixes st :: "'k istack"
  assumes fetch_groups: "sk_Fetch st n m k = Ret (groups, k') \<Longrightarrow> length groups = Suc (nat n)"
begin

lemma processBlock_idle:
  assumes "no_BlockSize (no_options noops) \<noteq> 1" and "noops_processBlock st now noops = Ret noops'"
  shows "no_committedTxsChan noops' = no_committedTxsChan noops \<and> no_options noops' = no_options noops \<and> no_blockTimer noops' = None"
proof -
  obtain txss k1 where f: "sk_Fetch st (no_BlockSize (no_options noops)) 1 (no_stack noops) = Ret (txss, k1)"
    using assms(2) by (auto simp: noops_processBlock_def Let_def)
  have "length txss \<noteq> 2" using fetch_groups [OF f] assms(1) by auto
  with assms(2) f show ?thesis by (auto simp: noops_processBlock_def Let_def)
qed

lemma event_idle:
  assumes "no_BlockSize (no_options noops) \<noteq> 1" and "noops_event st e noops = Ret noops'"
  shows "no_committedTxsChan noops' = no_committedTxsChan noops \<and> no_options noops' = no_options noops"
  using assms processBlock_idle [OF assms(1)] by (auto simp: noops_event_def split: noops_input.splits if_splits)

lemma run_idle:
  assumes "no_BlockSize (no_options noops) \<noteq> 1" and "go_fold (noops_event st) es noops = Ret noops'"
  shows "no_committedTxsChan noops' = no_committedTxsChan noops"
  using assms
proof (induction es arbitrary: noops)
  case (Cons e es)
  then obtain n1 where "noops_event st e noops = Ret n1" "go_fold (noops_event st) es n1 = Ret noops'" by auto
  with event_idle [OF Cons.prems(1), of e n1] Cons.IH [of n1] Cons.prems(1) show ?case by simp
qed simp

end

lemma bc_Fetch_length: "bc_FetchGroupingTxsInTxPool E n m bc = Ret (groups, bc') \<Longrightarrow> length groups = Suc (nat n)"
  by (auto simp: bc_FetchGroupingTxsInTxPool_def vr_FetchGroupingTxsInTxPool_def fg_emit_def nil_deref_def
      split: option.splits prod.splits if_splits)

interpretation bc_groups: grouping_stack "bc_istack E" for E :: "'d bc_env"
  by unfold_locales (simp add: bc_istack_def bc_Fetch_length)

text \<open>C38: The plugin without consensus never writes a block on a node, unless its block size is 1: it asks for as many groups
  as a block has transactions, gives up when it does not get exactly one, and does not start its timer again.\<close>

theorem noops_never_writes:
  assumes "no_BlockSize opt \<noteq> 1" and "go_fold (noops_event (bc_istack E)) es (noops_Start (NewNoops (bc_istack E) opt bc)) = Ret noops"
  shows "no_committedTxsChan noops = [] \<and> cs_CommittedTxs (CNoops noops) = None"
proof -
  have "no_BlockSize (no_options (noops_Start (NewNoops (bc_istack E) opt bc))) \<noteq> 1"
    and e: "no_committedTxsChan (noops_Start (NewNoops (bc_istack E) opt bc)) = []"
    using assms(1) by (simp_all add: noops_Start_def NewNoops_def noops_IsRunning_def)
  from bc_groups.run_idle [OF this(1) assms(2)] e show ?thesis by (simp add: cs_CommittedTxs_def)
qed

theorem noops_never_writes_witness:
  "\<exists>noops. go_fold (noops_event (bc_istack sample_be)) [NTimer 5]
     (noops_Start (NewNoops (bc_istack sample_be) noops_NewDefaultOptions sample_bc)) = Ret noops \<and> no_committedTxsChan noops = []"
proof -
  have "bc_FetchGroupingTxsInTxPool sample_be 100 1 sample_bc = Ret ([] # replicate 100 [], set_txValidator NewValidator sample_bc)"
    by (simp add: bc_FetchGroupingTxsInTxPool_def sample_bc_validator vr_FetchGroupingTxsInTxPool_def fg_emit_def fg_groups_def fg_start_def
        sample_be_def NewValidator_def)
  then have "\<exists>noops. go_fold (noops_event (bc_istack sample_be)) [NTimer 5]
     (noops_Start (NewNoops (bc_istack sample_be) noops_NewDefaultOptions sample_bc)) = Ret noops"
    by (simp add: noops_event_def noops_Start_def NewNoops_def noops_IsRunning_def noops_NewDefaultOptions_def noops_processBlock_def
        bc_istack_def)
  moreover have "no_BlockSize noops_NewDefaultOptions \<noteq> 1" by (simp add: noops_NewDefaultOptions_def)
  ultimately show ?thesis using noops_never_writes by blast
qed

end
