(* ===== verification/Merge_Cache.thy ===== *)
theory Merge_Cache
  imports Db
begin

text \<open>
  The caches of the merge service (\<^verbatim>\<open>core/merge/cache\<close>): a table of items with a life span, and the cache of
  transactions that is backed by the database. Times are nanoseconds; the current time is an argument. A goroutine that
  waits for a lock forever is the result \<open>blocked\<close>.
\<close>

definition blocked :: "'a go" where
  "blocked = Panic ''deadlock''"

section \<open>The table\<close>

record CacheItem =
  ci_key :: string
  ci_data :: bytes
  ci_lifeSpan :: int
  ci_createdOn :: int

definition NewCacheItem :: "int \<Rightarrow> string \<Rightarrow> int \<Rightarrow> bytes \<Rightarrow> CacheItem" where
  "NewCacheItem now key lifeSpan data = \<lparr>ci_key = key, ci_data = data, ci_lifeSpan = lifeSpan, ci_createdOn = now\<rparr>"

text \<open>\<open>ct_stuck\<close>: some goroutine holds the lock of the table and does not give it back. The callbacks are never set.\<close>

record CacheTable =
  ct_name :: string
  ct_items :: "(string, CacheItem) gomap"
  ct_cleanupTimer :: "int option"
  ct_cleanupInterval :: int
  ct_stuck :: bool

definition NewCacheTable :: "string \<Rightarrow> CacheTable" where
  "NewCacheTable table = \<lparr>ct_name = table, ct_items = gm_empty, ct_cleanupTimer = None, ct_cleanupInterval = 0, ct_stuck = False\<rparr>"

text \<open>The walk over the items, in the order \<open>es\<close>: the smallest time that is left, or \<open>None\<close> at the first item that has expired,
  where the check takes the lock and calls \<^verbatim>\<open>Del\<close>, which waits for the same lock.\<close>

fun expiration_walk :: "int \<Rightarrow> (string \<times> CacheItem) list \<Rightarrow> int \<Rightarrow> int option" where
  "expiration_walk now [] smallestDuration = Some smallestDuration"
| "expiration_walk now ((k, item) # es) smallestDuration =
     (let lifeSpan = ci_lifeSpan item; createdOn = ci_createdOn item in
      if now - createdOn > lifeSpan then None
      else expiration_walk now es
        (if smallestDuration = 0 \<or> lifeSpan - (now - createdOn) < smallestDuration then lifeSpan - (now - createdOn) else smallestDuration))"

text \<open>Whether the goroutine that checks comes back, and the table after it.\<close>

definition expirationCheck :: "int \<Rightarrow> (string \<times> CacheItem) list \<Rightarrow> CacheTable \<Rightarrow> bool \<times> CacheTable" where
  "expirationCheck now es table =
     (if ct_stuck table then (False, table)
      else case expiration_walk now es 0 of
        None \<Rightarrow> (False, table\<lparr>ct_cleanupTimer := None, ct_stuck := True\<rparr>)
      | Some smallestDuration \<Rightarrow>
          (True, table\<lparr>ct_cleanupInterval := smallestDuration,
             ct_cleanupTimer := if smallestDuration > 0 then Some (now + smallestDuration) else None\<rparr>))"

text \<open>The timer fires: its goroutine checks the table.\<close>

definition ct_tick :: "int \<Rightarrow> ((string, CacheItem) gomap \<Rightarrow> (string \<times> CacheItem) list) \<Rightarrow> CacheTable \<Rightarrow> CacheTable" where
  "ct_tick now ord table =
     (case ct_cleanupTimer table of
        Some t \<Rightarrow> if t \<le> now then snd (expirationCheck now (ord (ct_items table)) table) else table
      | None \<Rightarrow> table)"

definition ct_Exists :: "string \<Rightarrow> CacheTable \<Rightarrow> (bool \<times> bytes) go" where
  "ct_Exists key table =
     (if ct_stuck table then blocked
      else Ret (case gm_get (ct_items table) key of Some item \<Rightarrow> (True, ci_data item) | None \<Rightarrow> (False, [])))"

text \<open>The first item starts the check at once; \<open>ord\<close> gives the order in which the check walks the items.\<close>

definition addInternal :: "int \<Rightarrow> ((string, CacheItem) gomap \<Rightarrow> (string \<times> CacheItem) list) \<Rightarrow> CacheItem \<Rightarrow> CacheTable \<Rightarrow> CacheTable go" where
  "addInternal now ord item table =
     (let table1 = table\<lparr>ct_items := gm_set (ci_key item) item (ct_items table), ct_cleanupInterval := 10\<rparr> in
      if ct_cleanupInterval table = 0
      then (case expirationCheck now (ord (ct_items table1)) table1 of (comes_back, table2) \<Rightarrow> if comes_back then Ret table2 else blocked)
      else Ret table1)"

definition ct_Add :: "int \<Rightarrow> ((string, CacheItem) gomap \<Rightarrow> (string \<times> CacheItem) list) \<Rightarrow> string \<Rightarrow> int \<Rightarrow> bytes \<Rightarrow> CacheTable \<Rightarrow> CacheTable go" where
  "ct_Add now ord key lifeSpan data table =
     (if ct_stuck table then blocked else addInternal now ord (NewCacheItem now key lifeSpan data) table)"

definition ct_NotFoundAdd ::
  "int \<Rightarrow> ((string, CacheItem) gomap \<Rightarrow> (string \<times> CacheItem) list) \<Rightarrow> string \<Rightarrow> int \<Rightarrow> bytes \<Rightarrow> CacheTable \<Rightarrow> (bool \<times> CacheTable) go" where
  "ct_NotFoundAdd now ord key lifeSpan data table =
     go_bind (ct_Exists key table) (\<lambda>(ok, _).
       if ok then Ret (True, table)
       else go_bind (ct_Add now ord key lifeSpan data table) (\<lambda>table'. Ret (False, table')))"

definition ct_Del :: "string \<Rightarrow> CacheTable \<Rightarrow> (bool \<times> CacheTable) go" where
  "ct_Del key table =
     (if ct_stuck table then blocked
      else if gm_has (ct_items table) key then Ret (True, table\<lparr>ct_items := gm_del key (ct_items table)\<rparr>) else Ret (False, table))"

section \<open>Items in the database\<close>

text \<open>Here a missing value is told from an empty one: it is nil. The errors are logged.\<close>

definition pi_Exists :: "'d rocks \<Rightarrow> string \<Rightarrow> 'd BlockchainDB \<Rightarrow> (bool \<times> bytes) go" where
  "pi_Exists r key db =
     go_bind (checkIfColumnExists db ''persistCacheTxs'') (\<lambda>_.
       Ret (case GetCF r (DB db) ''persistCacheTxs'' (str_bytes key) of Inr (Some v) \<Rightarrow> (True, v) | _ \<Rightarrow> (False, [])))"

definition pi_Add :: "'d rocks \<Rightarrow> string \<Rightarrow> bytes \<Rightarrow> (gerr, 'd BlockchainDB, unit) exec" where
  "pi_Add r key value = db_Put r ''persistCacheTxs'' (str_bytes key) value"

definition pi_Del :: "'d rocks \<Rightarrow> string \<Rightarrow> (gerr, 'd BlockchainDB, unit) exec" where
  "pi_Del r key = db_Delete r ''persistCacheTxs'' (str_bytes key)"

section \<open>The cache of transactions\<close>

definition defaultLiftSpan :: int where
  "defaultLiftSpan = 1800 * 1000000000"

definition cx_Exists :: "crypto_env \<Rightarrow> 'd rocks \<Rightarrow> Transaction \<Rightarrow> CacheTable \<times> 'd BlockchainDB \<Rightarrow> (bool \<times> bytes) go" where
  "cx_Exists c r tx s =
     (let txKey = hash_String (SignHash c tx) in
      go_bind (ct_Exists txKey (fst s)) (\<lambda>(ok, value).
        if ok then Ret (True, value) else pi_Exists r txKey (snd s)))"

definition cx_Add ::
  "crypto_env \<Rightarrow> 'd rocks \<Rightarrow> int \<Rightarrow> ((string, CacheItem) gomap \<Rightarrow> (string \<times> CacheItem) list) \<Rightarrow> Transaction \<Rightarrow> bytes
    \<Rightarrow> (gerr, CacheTable \<times> 'd BlockchainDB, unit) exec" where
  "cx_Add c r now ord tx chainIDs s =
     (let txKey = hash_String (SignHash c tx) in
      go_bind (ct_Add now ord txKey defaultLiftSpan chainIDs (fst s)) (\<lambda>table'.
      go_bind (pi_Add r txKey chainIDs (snd s)) (\<lambda>(res, db'). Ret (res, (table', db')))))"

definition cx_NotFoundAdd ::
  "crypto_env \<Rightarrow> 'd rocks \<Rightarrow> int \<Rightarrow> ((string, CacheItem) gomap \<Rightarrow> (string \<times> CacheItem) list) \<Rightarrow> Transaction \<Rightarrow> bytes
    \<Rightarrow> CacheTable \<times> 'd BlockchainDB \<Rightarrow> ((bool \<times> (gerr + unit)) \<times> CacheTable \<times> 'd BlockchainDB) go" where
  "cx_NotFoundAdd c r now ord tx chainIDs s =
     go_bind (cx_Exists c r tx s) (\<lambda>(ok, _).
       if ok then Ret ((True, Inr ()), s)
       else go_bind (cx_Add c r now ord tx chainIDs s) (\<lambda>(res, s'). Ret ((False, res), s')))"

text \<open>\<^verbatim>\<open>Del\<close> looks for the bytes of the hash, although the items are kept under its hexadecimal text.\<close>

definition cx_Del :: "crypto_env \<Rightarrow> Transaction \<Rightarrow> CacheTable \<Rightarrow> CacheTable go" where
  "cx_Del c tx table =
     (let txKey = bytes_str (SignHash c tx) in
      go_bind (ct_Exists txKey table) (\<lambda>(ok, _).
        if ok then go_bind (ct_Del txKey table) (\<lambda>(_, table'). Ret table') else Ret table))"

end
