(* ===== verification/P2p_Message.thy ===== *)
theory P2p_Message
  imports Types
begin

text \<open>
  Messages between peers (\<^verbatim>\<open>core/p2p/message.go\<close> and \<^verbatim>\<open>readMsg\<close> of \<^verbatim>\<open>server.go\<close>) and over the message network
  (\<^verbatim>\<open>msgnet/msgnet.go\<close>). A connection that is read from is the bytes that arrive on it until it is closed; what is
  written to one is the bytes.
\<close>

section \<open>Messages\<close>

record Msg =
  ms_Cmd :: u8
  ms_Payload :: bytes
  ms_CheckSum :: bytes

datatype cmd = pingMsg | pongMsg | handshakeMsg | handshakeAckMsg | getPeersMsg | peersMsg

definition cmd_code :: "cmd \<Rightarrow> u8" where
  "cmd_code k = (case k of pingMsg \<Rightarrow> 1 | pongMsg \<Rightarrow> 2 | handshakeMsg \<Rightarrow> 3 | handshakeAckMsg \<Rightarrow> 4 | getPeersMsg \<Rightarrow> 5 | peersMsg \<Rightarrow> 6)"

definition maxMsgSize :: u64 where
  "maxMsgSize = 1024 * 1024 * 100"

definition ms_ty :: gty where
  "ms_ty = TStruct [TUint 8, TBytes, TArray 4]"

definition ms_val :: "Msg \<Rightarrow> gval" where
  "ms_val m = VStruct [VUint (ucast (ms_Cmd m)), VBytes (ms_Payload m), VArray (ms_CheckSum m)]"

definition ms_Serialize :: "Msg \<Rightarrow> bytes" where
  "ms_Serialize m = Serialize (ms_val m)"

definition ms_Deserialize :: "bytes \<Rightarrow> Msg" where
  "ms_Deserialize data =
     (let f = as_fields (fst (Deserialize ms_ty data))
      in \<lparr>ms_Cmd = ucast (as_uint (f ! 0)), ms_Payload = as_bytes (f ! 1), ms_CheckSum = as_bytes (f ! 2)\<rparr>)"

definition zero_Msg :: Msg where
  "zero_Msg = \<lparr>ms_Cmd = 0, ms_Payload = [], ms_CheckSum = replicate 4 0\<rparr>"

definition NewMsg :: "crypto_env \<Rightarrow> u8 \<Rightarrow> bytes \<Rightarrow> Msg" where
  "NewMsg c msgType payload = \<lparr>ms_Cmd = msgType, ms_Payload = payload, ms_CheckSum = take 4 (Sha256 c payload)\<rparr>"

section \<open>Reading and writing\<close>

definition ms_write :: "Msg \<Rightarrow> bytes" where
  "ms_write m = VarInt (len64 (ms_Serialize m)) @ ms_Serialize m"

datatype p2p_err = ErrRead rerr | ErrTooBig | ErrChecksum

text \<open>The number of bytes, the error, the message and what is left on the connection.\<close>

definition ms_read :: "bytes \<Rightarrow> nat \<times> p2p_err option \<times> Msg \<times> bytes" where
  "ms_read r =
     (case ReadVarInt r of (l, err, r1) \<Rightarrow>
        (case err of
           Some e \<Rightarrow> (0, Some (ErrRead e), zero_Msg, r1)
         | None \<Rightarrow>
             if l > maxMsgSize then (0, Some ErrTooBig, zero_Msg, r1)
             else (case read_full (unat l) r1 of (buf, n, err, r2) \<Rightarrow>
                     (n, map_option ErrRead err, if n \<noteq> unat l then zero_Msg else ms_Deserialize buf, r2))))"

text \<open>The message, which is nil when nothing was read or the checksum is wrong, and the error.\<close>

definition readMsg :: "crypto_env \<Rightarrow> bytes \<Rightarrow> Msg option \<times> p2p_err option \<times> bytes" where
  "readMsg c r =
     (case ms_read r of (n, err, msg, r') \<Rightarrow>
        if err \<noteq> None \<or> n = 0 then (None, err, r')
        else if ms_CheckSum msg \<noteq> take 4 (Sha256 c (ms_Payload msg)) then (None, Some ErrChecksum, r')
        else (Some msg, None, r'))"

section \<open>The message network\<close>

datatype mn_cmd = ChainTxMsg | ChainConsensusMsg | ChainMergeTxsMsg | ChainAckMergeTxsMsg | ChainAckedMergeTxsMsg | ChainRpcMsg
  | ChainChangeCfgMsg | ChainNodeStatusMsg

definition mn_code :: "mn_cmd \<Rightarrow> u8" where
  "mn_code k = (case k of ChainTxMsg \<Rightarrow> 100 | ChainConsensusMsg \<Rightarrow> 101 | ChainMergeTxsMsg \<Rightarrow> 102 | ChainAckMergeTxsMsg \<Rightarrow> 103
     | ChainAckedMergeTxsMsg \<Rightarrow> 104 | ChainRpcMsg \<Rightarrow> 105 | ChainChangeCfgMsg \<Rightarrow> 106 | ChainNodeStatusMsg \<Rightarrow> 107)"

record MnMessage =
  mn_Cmd :: u8
  mn_Payload :: bytes

definition mn_Serialize :: "MnMessage \<Rightarrow> bytes" where
  "mn_Serialize m = Serialize (VStruct [VUint (ucast (mn_Cmd m)), VBytes (mn_Payload m)])"

definition mn_Deserialize :: "bytes \<Rightarrow> MnMessage" where
  "mn_Deserialize data =
     (let f = as_fields (fst (Deserialize (TStruct [TUint 8, TBytes]) data))
      in \<lparr>mn_Cmd = ucast (as_uint (f ! 0)), mn_Payload = as_bytes (f ! 1)\<rparr>)"

section \<open>Laws\<close>

lemma take_bit_ucast_u8 [simp]: "take_bit 8 (ucast (w :: u8) :: u64) = ucast w"
  by (rule bit_word_eqI) (auto simp: bit_take_bit_iff bit_unsigned_iff dest: bit_imp_le_length)

lemma ucast_u8_u64 [simp]: "(ucast (ucast (w :: u8) :: u64) :: u8) = w"
  by (rule bit_word_eqI) (auto simp: bit_take_bit_iff bit_unsigned_iff dest: bit_imp_le_length)

lemma ms_Deserialize_Serialize:
  assumes "length (ms_Payload m) < 2 ^ 64" and "length (ms_CheckSum m) = 4"
  shows "ms_Deserialize (ms_Serialize m) = m"
proof -
  have "good (ms_val m) ms_ty" using assms by (auto simp: ms_val_def ms_ty_def)
  then have "Deserialize ms_ty (ms_Serialize m) = (norm (ms_val m), None)"
    unfolding ms_Serialize_def by (rule Deserialize_good) (simp add: ms_val_def)
  then show ?thesis by (simp add: ms_Deserialize_def ms_val_def as_fields_def as_uint_def as_bytes_def)
qed

lemma ms_Serialize_not_Nil [simp]: "ms_Serialize m \<noteq> []"
  by (simp add: ms_Serialize_def ms_val_def Serialize_def)

lemma length_NewMsg [simp]: "length (ms_CheckSum (NewMsg c t p)) = 4"
  by (simp add: NewMsg_def)

lemma readMsg_write:
  assumes "length (ms_Serialize (NewMsg c t p)) \<le> unat maxMsgSize"
  shows "readMsg c (ms_write (NewMsg c t p) @ rest) = (Some (NewMsg c t p), None, rest)"
proof -
  let ?m = "NewMsg c t p" and ?s = "ms_Serialize (NewMsg c t p)"
  have l: "length ?s < 2 ^ 64" using assms by (simp add: maxMsgSize_def)
  have "length (ms_Payload ?m) \<le> length ?s" by (simp add: ms_Serialize_def Serialize_def ms_val_def)
  then have d: "ms_Deserialize ?s = ?m" using l by (intro ms_Deserialize_Serialize) simp_all
  have "\<not> len64 ?s > maxMsgSize" using assms l by (simp add: word_less_nat_alt unat_len64)
  then have "ms_read (ms_write ?m @ rest) = (length ?s, None, ?m, rest)"
    using l d by (simp add: ms_read_def ms_write_def len64_simps)
  then show ?thesis by (simp add: readMsg_def NewMsg_def)
qed

end
