(* ===== verification/P2p.thy ===== *)
theory P2p
  imports P2p_Message Db
begin

text \<open>
  The peer-to-peer layer (\<^verbatim>\<open>core/p2p\<close>: \<^verbatim>\<open>peer.go\<close>, \<^verbatim>\<open>peer_manager.go\<close>, \<^verbatim>\<open>protocol.go\<close>, \<^verbatim>\<open>server.go\<close>): the maps of peers, the
  manager that admits, drops and dials them, the handshake of a new connection and the loop that takes messages
  from one. A connection is a number; what is written to one is recorded in \<open>pk_sent\<close>, and one that was closed in
  \<open>pk_closed\<close>. Channels are lists. The parts of the Go library the code only calls are parameters: PEM, X.509 and RSA
  (\<open>p2_certs\<close>), the parser of URLs (\<open>p2_url_Parse\<close>) and the orders in which maps are walked; the time is an argument.
\<close>

section \<open>Peers\<close>

type_synonym conn = nat

record protoRW =
  rw_BaseCmd :: u8
  rw_in :: "Msg list"

record Peer =
  pe_ID :: bytes
  pe_LastActiveTime :: int
  pe_Address :: string
  pe_Conn :: "conn option"
  pe_running :: "(string, protoRW) gomap"

record Protocol =
  pc_BaseCmd :: u8
  pc_Name :: string
  pc_Version :: string

definition NewPeer :: "bytes \<Rightarrow> conn option \<Rightarrow> string \<Rightarrow> Protocol list \<Rightarrow> Peer" where
  "NewPeer pid conn addr protocols =
     \<lparr>pe_ID = pid, pe_LastActiveTime = 0, pe_Address = addr, pe_Conn = conn,
      pe_running = fold (\<lambda>proto m. gm_set (pc_Name proto) \<lparr>rw_BaseCmd = pc_BaseCmd proto, rw_in = []\<rparr> m) protocols gm_empty\<rparr>"

text \<open>The text of a peer, a URL: \<^verbatim>\<open>net/url\<close> escapes in the host whatever a host may not contain.\<close>

definition host_char :: "char \<Rightarrow> bool" where
  "host_char ch \<longleftrightarrow>
     (let n = of_char ch :: nat in (48 \<le> n \<and> n \<le> 57) \<or> (65 \<le> n \<and> n \<le> 90) \<or> (97 \<le> n \<and> n \<le> 122)) \<or>
     ch \<in> set ''-_.~!$&()*+,;=:[]<>'' \<or> (of_char ch :: nat) \<in> {34, 39}"

definition upper_hex :: "nat \<Rightarrow> char" where
  "upper_hex n = (if n < 10 then char_of (48 + n) else char_of (55 + n))"

definition escape_host :: "string \<Rightarrow> string" where
  "escape_host s = concat (map (\<lambda>ch. if host_char ch then [ch]
     else [CHR ''%'', upper_hex (of_char ch div 16), upper_hex (of_char ch mod 16)]) s)"

definition peer_String :: "Peer \<Rightarrow> string" where
  "peer_String peer = ''encode://'' @ BytesToHex (pe_ID peer) @ ''@'' @ escape_host (pe_Address peer)"

text \<open>The loop over the protocols returns in its first turn; \<open>es\<close> is the order of the map.\<close>

definition getProto :: "(string \<times> protoRW) list \<Rightarrow> u8 \<Rightarrow> string option" where
  "getProto es cmd = (case es of [] \<Rightarrow> None | (name, rw) # _ \<Rightarrow> if cmd > rw_BaseCmd rw then Some name else None)"

type_synonym peerMap = "(conn, Peer) gomap"

definition pm_contains :: "peerMap \<Rightarrow> bytes \<Rightarrow> bool" where
  "pm_contains peers pid \<longleftrightarrow> (\<exists>(_, p) \<in> set peers. pe_ID p = pid)"

text \<open>A parsed URL is its scheme, its user and its host.\<close>

definition ParsePeer :: "(string \<Rightarrow> (string \<times> string option \<times> string) option) \<Rightarrow> string \<Rightarrow> Peer option" where
  "ParsePeer url_Parse rawurl =
     (case url_Parse rawurl of
        None \<Rightarrow> None
      | Some (scheme, user, host) \<Rightarrow>
          if scheme \<noteq> ''encode'' then None
          else case user of None \<Rightarrow> None | Some u \<Rightarrow> Some (NewPeer (HexToBytes u) None host []))"

definition reachable_addr :: "Peer \<Rightarrow> bool" where
  "reachable_addr p \<longleftrightarrow> \<not> (pe_Address p = [] \<or> hd (pe_Address p) = CHR '':'')"

definition pm_getPeers :: "(conn \<times> Peer) list \<Rightarrow> Peer list" where
  "pm_getPeers es = filter reachable_addr (map snd es)"

definition pm_getPeersData :: "(conn \<times> Peer) list \<Rightarrow> bytes \<Rightarrow> bytes" where
  "pm_getPeersData es remotePeerID =
     str_bytes (concat (map (\<lambda>p. if remotePeerID = pe_ID p then [] else peer_String p @ ''&'') (pm_getPeers es)))"

section \<open>The manager\<close>

fun split_at :: "'a \<Rightarrow> 'a list \<Rightarrow> 'a list list" where
  "split_at d [] = [[]]"
| "split_at d (ch # s) = (case split_at d s of [] \<Rightarrow> [[ch]] | p # ps \<Rightarrow> if ch = d then [] # p # ps else (ch # p) # ps)"

record p2pConfig =
  cf_Address :: string
  cf_MaxPeers :: int
  cf_ReconnectTimes :: nat
  cf_ConnectTimeInterval :: int
  cf_KeepAliveInterval :: int
  cf_KeepAliveTimes :: int
  cf_MinPeers :: int
  cf_Protocols :: "Protocol list"
  cf_BootstrapNodes :: "string list"

definition second_ns :: int where
  "second_ns = 1000000000"

definition p2p_DefaultConfig :: p2pConfig where
  "p2p_DefaultConfig = \<lparr>cf_Address = '':20166'', cf_MaxPeers = 8, cf_ReconnectTimes = 3, cf_ConnectTimeInterval = 30 * second_ns,
     cf_KeepAliveInterval = 15 * second_ns, cf_KeepAliveTimes = 30, cf_MinPeers = 3, cf_Protocols = [], cf_BootstrapNodes = []\<rparr>"

record ProtoHandshake =
  ph_Name :: string
  ph_Version :: string
  ph_ID :: bytes
  ph_SrvAddress :: string

record EncHandshake =
  eh_ID :: bytes
  eh_Signature :: bytes
  eh_Hashed :: bytes
  eh_Cert :: bytes

record 'd peerManager =
  pk_localPeer :: Peer
  pk_peers :: peerMap
  pk_handshakings :: peerMap
  pk_dialings :: "(string, bool) gomap"
  pk_dialers :: "(Peer \<times> nat) list"
  pk_addPeer :: "Peer list"
  pk_delPeer :: "conn list"
  pk_alivePeer :: "conn list"
  pk_clientConn :: "conn list"
  pk_dialTask :: "Peer option list"
  pk_broadcastCh :: "Msg list"
  pk_sent :: "(conn \<times> Msg) list"
  pk_closed :: "conn list"
  pk_db :: "'d BlockchainDB"
  pk_encHandshake :: "EncHandshake option"

record 'c certs =
  pem_Decode :: "bytes \<Rightarrow> bytes option"
  ParseCertificate :: "bytes \<Rightarrow> 'c option"
  IsCA :: "'c \<Rightarrow> bool"
  CheckSignatureFrom :: "'c \<Rightarrow> 'c \<Rightarrow> bool"
  rsa_PublicKey :: "'c \<Rightarrow> bool"
  VerifyPKCS1v15 :: "'c \<Rightarrow> bytes \<Rightarrow> bytes \<Rightarrow> bool"
  ParsePKCS1PrivateKey :: "bytes \<Rightarrow> bytes option"
  SignPKCS1v15 :: "bytes \<Rightarrow> bytes \<Rightarrow> bytes option"

record ('d, 'c) p2p_env =
  p2_crypto :: crypto_env
  p2_rocks :: "'d rocks"
  p2_certs :: "'c certs"
  p2_config :: p2pConfig
  p2_url_Parse :: "string \<Rightarrow> (string \<times> string option \<times> string) option"
  p2_order :: "peerMap \<Rightarrow> (conn \<times> Peer) list"
  p2_protos :: "(string, protoRW) gomap \<Rightarrow> (string \<times> protoRW) list"
  p2_writes :: "conn \<Rightarrow> bool"
  p2_SrvAddress :: string
  CAEnabled :: bool
  PrivateKey :: bytes
  RootCertificate :: bytes
  Certificate :: bytes

definition send_msg :: "conn option \<Rightarrow> Msg \<Rightarrow> 'd peerManager \<Rightarrow> 'd peerManager" where
  "send_msg w msg pk = (case w of None \<Rightarrow> pk | Some cn \<Rightarrow> pk\<lparr>pk_sent := pk_sent pk @ [(cn, msg)]\<rparr>)"

definition close_conn :: "conn option \<Rightarrow> 'd peerManager \<Rightarrow> 'd peerManager" where
  "close_conn w pk = (case w of None \<Rightarrow> pk | Some cn \<Rightarrow> pk\<lparr>pk_closed := pk_closed pk @ [cn]\<rparr>)"

definition GetPeer :: "'d peerManager \<Rightarrow> conn \<Rightarrow> Peer option" where
  "GetPeer pk cn = gm_get (pk_peers pk) cn"

text \<open>The errors of the database are only logged. The loops of an added peer, which are started here, would fail on a
  nil connection.\<close>

definition pk_add :: "('d, 'c) p2p_env \<Rightarrow> int \<Rightarrow> Peer \<Rightarrow> 'd peerManager \<Rightarrow> 'd peerManager go" where
  "pk_add E now peer pk =
     (case pe_Conn peer of
        None \<Rightarrow> nil_deref
      | Some cn \<Rightarrow>
          if pm_contains (pk_peers pk) (pe_ID peer) then Ret (close_conn (Some cn) pk)
          else go_bind (db_Put (p2_rocks E) ''peer'' (pe_ID peer) (str_bytes (pe_Address peer)) (pk_db pk)) (\<lambda>(_, db').
            Ret (pk\<lparr>pk_peers := gm_set cn (peer\<lparr>pe_LastActiveTime := now\<rparr>) (pk_peers pk), pk_db := db'\<rparr>)))"

definition pk_del :: "('d, 'c) p2p_env \<Rightarrow> conn \<Rightarrow> 'd peerManager \<Rightarrow> 'd peerManager go" where
  "pk_del E cn pk =
     go_bind
       (case gm_get (pk_peers pk) cn of
          None \<Rightarrow> Ret pk
        | Some peer \<Rightarrow> go_bind (db_Delete (p2_rocks E) ''peer'' (pe_ID peer) (pk_db pk)) (\<lambda>(_, db').
            Ret (pk\<lparr>pk_peers := gm_del cn (pk_peers pk), pk_db := db'\<rparr>)))
       (\<lambda>pk1. Ret (close_conn (Some cn) (pk1\<lparr>pk_handshakings := gm_del cn (pk_handshakings pk1)\<rparr>)))"

definition updateActiveTime :: "int \<Rightarrow> conn \<Rightarrow> 'd peerManager \<Rightarrow> 'd peerManager" where
  "updateActiveTime now cn pk =
     (case gm_get (pk_peers pk) cn of
        None \<Rightarrow> pk
      | Some peer \<Rightarrow> pk\<lparr>pk_peers := gm_set cn (peer\<lparr>pe_LastActiveTime := now\<rparr>) (pk_peers pk)\<rparr>)"

text \<open>\<^verbatim>\<open>connect\<close> starts a goroutine that dials; \<open>dial_step\<close> is one turn of its loop with the connection it got, if any.\<close>

definition pk_connect :: "('d, 'c) p2p_env \<Rightarrow> Peer option \<Rightarrow> 'd peerManager \<Rightarrow> 'd peerManager go" where
  "pk_connect E peer_ptr pk =
     (case peer_ptr of
        None \<Rightarrow> nil_deref
      | Some peer \<Rightarrow>
          if pe_ID (pk_localPeer pk) = pe_ID peer then Ret pk
          else if gm_has (pk_dialings pk) (peer_String peer) \<or> pm_contains (pk_peers pk) (pe_ID peer) \<or>
            pm_contains (pk_handshakings pk) (pe_ID peer) then Ret pk
          else if int (length (pk_peers pk)) \<ge> cf_MaxPeers (p2_config E) then Ret pk
          else Ret (pk\<lparr>pk_dialings := gm_set (peer_String peer) True (pk_dialings pk), pk_dialers := pk_dialers pk @ [(peer, 0)]\<rparr>))"

definition dial_done :: "nat \<Rightarrow> Peer \<Rightarrow> 'd peerManager \<Rightarrow> 'd peerManager" where
  "dial_done j peer pk =
     pk\<lparr>pk_dialers := take j (pk_dialers pk) @ drop (Suc j) (pk_dialers pk), pk_dialings := gm_del (peer_String peer) (pk_dialings pk)\<rparr>"

definition dial_step :: "('d, 'c) p2p_env \<Rightarrow> nat \<Rightarrow> conn option \<Rightarrow> 'd peerManager \<Rightarrow> 'd peerManager" where
  "dial_step E j dialled pk =
     (case pk_dialers pk ! j of (peer, i) \<Rightarrow>
        if i \<ge> cf_ReconnectTimes (p2_config E) then dial_done j peer pk
        else case dialled of
          Some cn \<Rightarrow> dial_done j peer (pk\<lparr>pk_clientConn := pk_clientConn pk @ [cn]\<rparr>)
        | None \<Rightarrow>
            if pm_contains (pk_peers pk) (pe_ID peer) \<or> pm_contains (pk_handshakings pk) (pe_ID peer) then dial_done j peer pk
            else pk\<lparr>pk_dialers := (pk_dialers pk)[j := (peer, Suc i)]\<rparr>)"

definition pk_getPeers :: "('d, 'c) p2p_env \<Rightarrow> 'd peerManager \<Rightarrow> 'd peerManager" where
  "pk_getPeers E pk =
     pk\<lparr>pk_dialTask := pk_dialTask pk @
          concat (map (\<lambda>bNode. case ParsePeer (p2_url_Parse E) bNode of None \<Rightarrow> [] | Some p \<Rightarrow> [Some p]) (cf_BootstrapNodes (p2_config E))),
        pk_broadcastCh := pk_broadcastCh pk @ [NewMsg (p2_crypto E) (cmd_code getPeersMsg) (pe_ID (pk_localPeer pk))]\<rparr>"

text \<open>\<^verbatim>\<open>manage\<close>: silent peers are dropped and dialled again, quiet ones pinged, and more peers asked for when there are
  few.\<close>

definition manage_peer :: "('d, 'c) p2p_env \<Rightarrow> int \<Rightarrow> Peer \<Rightarrow> 'd peerManager \<Rightarrow> 'd peerManager" where
  "manage_peer E now peer pk =
     (let sec = now - pe_LastActiveTime peer; interval = cf_KeepAliveInterval (p2_config E) in
      if sec > interval * cf_KeepAliveTimes (p2_config E)
      then pk\<lparr>pk_delPeer := pk_delPeer pk @ (case pe_Conn peer of Some cn \<Rightarrow> [cn] | None \<Rightarrow> []), pk_dialTask := pk_dialTask pk @ [Some peer]\<rparr>
      else if sec > interval then send_msg (pe_Conn peer) (NewMsg (p2_crypto E) (cmd_code pingMsg) []) pk
      else pk)"

definition pk_manage :: "('d, 'c) p2p_env \<Rightarrow> int \<Rightarrow> 'd peerManager \<Rightarrow> 'd peerManager" where
  "pk_manage E now pk =
     (let pk1 = fold (manage_peer E now) (pm_getPeers (p2_order E (pk_peers pk))) pk in
      if int (length (pk_peers pk1)) < cf_MaxPeers (p2_config E) then pk_getPeers E pk1 else pk1)"

definition pk_broadcast :: "('d, 'c) p2p_env \<Rightarrow> Msg \<Rightarrow> 'd peerManager \<Rightarrow> 'd peerManager" where
  "pk_broadcast E msg pk = fold (\<lambda>peer. send_msg (pe_Conn peer) msg) (pm_getPeers (p2_order E (pk_peers pk))) pk"

section \<open>Saving and loading peers\<close>

text \<open>\<^verbatim>\<open>savePeers\<close> makes the list with the length of the map and then appends to it, so that it begins with as many empty
  entries.\<close>

fun join_bytes :: "'a \<Rightarrow> 'a list list \<Rightarrow> 'a list" where
  "join_bytes d [] = []"
| "join_bytes d [x] = x"
| "join_bytes d (x # xs) = x @ d # join_bytes d xs"

definition save_peer :: "'d rocks \<Rightarrow> Peer \<Rightarrow> bytes list \<times> 'd BlockchainDB \<Rightarrow> (bytes list \<times> 'd BlockchainDB) go" where
  "save_peer r peer st = (case st of (peerList, db) \<Rightarrow>
     go_bind (db_Put r ''peer'' (pe_ID peer) (str_bytes (pe_Address peer)) db) (\<lambda>(res, db').
       Ret (case res of Inl _ \<Rightarrow> (peerList, db') | Inr _ \<Rightarrow> (peerList @ [pe_ID peer], db'))))"

definition savePeers :: "('d, 'c) p2p_env \<Rightarrow> 'd peerManager \<Rightarrow> 'd peerManager go" where
  "savePeers E pk =
     (if pk_peers pk = [] then Ret pk
      else go_bind (go_fold (save_peer (p2_rocks E)) (pm_getPeers (p2_order E (pk_peers pk)))
                     (replicate (length (pk_peers pk)) [], pk_db pk)) (\<lambda>(peerList, db1).
        go_bind (db_Put (p2_rocks E) ''peer'' (str_bytes ''peerList'') (join_bytes 38 peerList) db1) (\<lambda>(_, db2).
          Ret (pk\<lparr>pk_db := db2\<rparr>))))"

definition load_peer :: "('d, 'c) p2p_env \<Rightarrow> bytes \<Rightarrow> 'd peerManager \<Rightarrow> 'd peerManager go" where
  "load_peer E peerID pk =
     go_bind (db_Get (p2_rocks E) (pk_db pk) ''peer'' peerID) (\<lambda>res.
       Ret (case res of
              Inl _ \<Rightarrow> pk
            | Inr peerAddr \<Rightarrow> pk\<lparr>pk_dialTask := pk_dialTask pk @ [ParsePeer (p2_url_Parse E) (bytes_str peerAddr)]\<rparr>))"

definition pk_init :: "('d, 'c) p2p_env \<Rightarrow> 'd peerManager \<Rightarrow> 'd peerManager go" where
  "pk_init E pk =
     go_bind (db_Get (p2_rocks E) (pk_db pk) ''peer'' (str_bytes ''peerList'')) (\<lambda>res.
       case res of
         Inr (x # xs) \<Rightarrow> go_fold (load_peer E) (split_at 38 (x # xs)) pk
       | _ \<Rightarrow> Ret (pk_getPeers E pk))"

section \<open>The loop of a peer\<close>

definition onPeers :: "('d, 'c) p2p_env \<Rightarrow> Msg \<Rightarrow> 'd peerManager \<Rightarrow> 'd peerManager" where
  "onPeers E msg pk =
     pk\<lparr>pk_dialTask := pk_dialTask pk @
       map (ParsePeer (p2_url_Parse E)) (filter (\<lambda>u. u \<noteq> []) (split_at (CHR ''&'') (bytes_str (ms_Payload msg))))\<rparr>"

definition onGetPeers :: "('d, 'c) p2p_env \<Rightarrow> Msg \<Rightarrow> conn \<Rightarrow> 'd peerManager \<Rightarrow> 'd peerManager" where
  "onGetPeers E msg cn pk =
     send_msg (Some cn) (NewMsg (p2_crypto E) (cmd_code peersMsg) (pm_getPeersData (p2_order E (pk_peers pk)) (ms_Payload msg))) pk"

definition to_proto :: "string \<Rightarrow> Msg \<Rightarrow> Peer \<Rightarrow> Peer" where
  "to_proto name m p =
     (case gm_get (pe_running p) name of
        None \<Rightarrow> p
      | Some rw \<Rightarrow> p\<lparr>pe_running := gm_set name (rw\<lparr>rw_in := rw_in rw @ [m]\<rparr>) (pe_running p)\<rparr>)"

text \<open>One turn of \<^verbatim>\<open>run\<close> on the connection \<open>cn\<close> with what arrives on it: the rest of it, and whether the loop goes
  on. The \<^verbatim>\<open>break\<close> for an unknown peer only leaves the \<^verbatim>\<open>switch\<close>.\<close>

definition peer_turn :: "('d, 'c) p2p_env \<Rightarrow> conn \<Rightarrow> bytes \<Rightarrow> 'd peerManager \<Rightarrow> (bool \<times> bytes) \<times> 'd peerManager" where
  "peer_turn E cn r pk0 =
     (case readMsg (p2_crypto E) r of
        (None, _, r') \<Rightarrow> ((False, r'), pk0\<lparr>pk_delPeer := pk_delPeer pk0 @ [cn]\<rparr>)
      | (Some m, _, r') \<Rightarrow>
          let pk = pk0\<lparr>pk_alivePeer := pk_alivePeer pk0 @ [cn]\<rparr> in
          ((True, r'),
           if ms_Cmd m = cmd_code pingMsg then send_msg (Some cn) (NewMsg (p2_crypto E) (cmd_code pongMsg) []) pk
           else if ms_Cmd m = cmd_code pongMsg then pk
           else if ms_Cmd m = cmd_code peersMsg then onPeers E m pk
           else if ms_Cmd m = cmd_code getPeersMsg then onGetPeers E m cn pk
           else case GetPeer pk cn of
             None \<Rightarrow> pk\<lparr>pk_delPeer := pk_delPeer pk @ [cn]\<rparr>
           | Some p \<Rightarrow>
               (case getProto (p2_protos E (pe_running p)) (ms_Cmd m) of
                  None \<Rightarrow> pk
                | Some name \<Rightarrow> pk\<lparr>pk_peers := gm_set cn (to_proto name m p) (pk_peers pk)\<rparr>)))"

section \<open>The handshake\<close>

definition ph_Serialize :: "ProtoHandshake \<Rightarrow> bytes" where
  "ph_Serialize p = Serialize (VStruct [VString (str_bytes (ph_Name p)), VString (str_bytes (ph_Version p)), VBytes (ph_ID p),
     VString (str_bytes (ph_SrvAddress p))])"

definition ph_Deserialize :: "bytes \<Rightarrow> ProtoHandshake" where
  "ph_Deserialize data =
     (let f = as_fields (fst (Deserialize (TStruct [TString, TString, TBytes, TString]) data))
      in \<lparr>ph_Name = bytes_str (as_bytes (f ! 0)), ph_Version = bytes_str (as_bytes (f ! 1)), ph_ID = as_bytes (f ! 2),
          ph_SrvAddress = bytes_str (as_bytes (f ! 3))\<rparr>)"

definition GetProtoHandshake :: "('d, 'c) p2p_env \<Rightarrow> 'd peerManager \<Rightarrow> ProtoHandshake" where
  "GetProtoHandshake E pk = \<lparr>ph_Name = ''l0-base-protocol'', ph_Version = ''0.0.1'', ph_ID = pe_ID (pk_localPeer pk),
     ph_SrvAddress = p2_SrvAddress E\<rparr>"

definition ph_matchProtocol :: "ProtoHandshake \<Rightarrow> ProtoHandshake \<Rightarrow> bool" where
  "ph_matchProtocol proto p \<longleftrightarrow> ph_Name p = ph_Name proto \<and> ph_Version p = ph_Version proto"

text \<open>The encryption handshake is serialized through its pointer, which may be nil.\<close>

definition eh_val :: "EncHandshake \<Rightarrow> gval" where
  "eh_val e = VStruct [VBytes (eh_ID e), VBytes (eh_Signature e), VArray (eh_Hashed e), VBytes (eh_Cert e)]"

definition eh_ty :: gty where
  "eh_ty = TStruct [TBytes, TBytes, TArray 32, TBytes]"

definition eh_Serialize :: "EncHandshake option \<Rightarrow> bytes" where
  "eh_Serialize e = Serialize (VPtr (map_option eh_val e))"

definition eh_Deserialize :: "bytes \<Rightarrow> EncHandshake" where
  "eh_Deserialize data =
     (let f = as_fields (fst (Deserialize eh_ty data))
      in \<lparr>eh_ID = as_bytes (f ! 0), eh_Signature = as_bytes (f ! 1), eh_Hashed = as_bytes (f ! 2), eh_Cert = as_bytes (f ! 3)\<rparr>)"

text \<open>Data that is not in PEM form gives a nil block, whose bytes are then read.\<close>

definition ParseCrt :: "'c certs \<Rightarrow> bytes \<Rightarrow> 'c option go" where
  "ParseCrt x data = (case pem_Decode x data of None \<Rightarrow> nil_deref | Some b \<Rightarrow> Ret (ParseCertificate x b))"

definition ParseKey :: "'c certs \<Rightarrow> bytes \<Rightarrow> bytes option go" where
  "ParseKey x data = (case pem_Decode x data of None \<Rightarrow> nil_deref | Some b \<Rightarrow> Ret (ParsePKCS1PrivateKey x b))"

definition SignRsa :: "crypto_env \<Rightarrow> 'c certs \<Rightarrow> bytes \<Rightarrow> bytes \<Rightarrow> bytes option" where
  "SignRsa c x privateKey data = SignPKCS1v15 x privateKey (sum256 c data)"

definition VerifySign :: "'c certs \<Rightarrow> bytes \<Rightarrow> bytes \<Rightarrow> 'c \<Rightarrow> bool go" where
  "VerifySign x hashed sign cert =
     (if rsa_PublicKey x cert then Ret (VerifyPKCS1v15 x cert hashed sign) else Panic ''interface conversion'')"

text \<open>The handshake is made once; the nil that a failure returns is not kept.\<close>

definition GetEncHandshake ::
  "('d, 'c) p2p_env \<Rightarrow> bytes \<Rightarrow> bytes \<Rightarrow> 'd peerManager \<Rightarrow> (EncHandshake option \<times> 'd peerManager) go" where
  "GetEncHandshake E cert key pk =
     (case pk_encHandshake pk of
        Some e \<Rightarrow> Ret (Some e, pk)
      | None \<Rightarrow> go_bind (ParseKey (p2_certs E) key) (\<lambda>privateKey.
          case privateKey of
            None \<Rightarrow> Ret (None, pk)
          | Some k \<Rightarrow>
              (case SignRsa (p2_crypto E) (p2_certs E) k (str_bytes ''random string'') of
                 None \<Rightarrow> Ret (None, pk)
               | Some sig \<Rightarrow>
                   let e = \<lparr>eh_ID = pe_ID (pk_localPeer pk), eh_Signature = sig, eh_Hashed = sum256 (p2_crypto E) (str_bytes ''random string''),
                            eh_Cert = cert\<rparr>
                   in Ret (Some e, pk\<lparr>pk_encHandshake := Some e\<rparr>))))"

definition eh_matchProtocol :: "'c certs \<Rightarrow> EncHandshake \<Rightarrow> bytes \<Rightarrow> bool go" where
  "eh_matchProtocol x enc root =
     (if eh_Cert enc = [] then Ret False
      else go_bind (ParseCrt x (eh_Cert enc)) (\<lambda>parsed.
        case parsed of
          None \<Rightarrow> Ret False
        | Some cert \<Rightarrow>
            if IsCA x cert then Ret True
            else go_bind (ParseCrt x root) (\<lambda>parsed_root.
              case parsed_root of
                None \<Rightarrow> Ret False
              | Some rootCert \<Rightarrow>
                  if \<not> CheckSignatureFrom x cert rootCert then Ret False
                  else VerifySign x (eh_Hashed enc) (eh_Signature enc) cert)))"

datatype hs_err = HsWrite | HsRead p2p_err | HsProtocol | HsConnected | HsEncryption | HsNoConnection

definition onPeerClose :: "conn \<Rightarrow> 'd peerManager \<Rightarrow> 'd peerManager" where
  "onPeerClose cn pk = pk\<lparr>pk_delPeer := pk_delPeer pk @ [cn]\<rparr>"

text \<open>Both readers only leave early when there is no message \<^emph>\<open>and\<close> an error. The last result is what is left on the
  connection. The comparison of the new peer's ID with the one it was made from cannot fail.\<close>

definition readProtoHandshake ::
  "('d, 'c) p2p_env \<Rightarrow> conn \<Rightarrow> bytes \<Rightarrow> 'd peerManager \<Rightarrow> ((hs_err option \<times> bytes) \<times> 'd peerManager) go" where
  "readProtoHandshake E cn r pk =
     (case readMsg (p2_crypto E) r of
        (None, Some err, r') \<Rightarrow> Ret ((Some (HsRead err), r'), pk)
      | (None, None, _) \<Rightarrow> nil_deref
      | (Some m, _, r') \<Rightarrow>
          let proto = ph_Deserialize (ms_Payload m) in
          if \<not> ph_matchProtocol proto (GetProtoHandshake E pk) then Ret ((Some HsProtocol, r'), onPeerClose cn pk)
          else if pm_contains (pk_peers pk) (ph_ID proto) then Ret ((Some HsConnected, r'), onPeerClose cn pk)
          else Ret ((None, r'), pk\<lparr>pk_handshakings :=
            gm_set cn (NewPeer (ph_ID proto) (Some cn) (ph_SrvAddress proto) (cf_Protocols (p2_config E))) (pk_handshakings pk)\<rparr>))"

definition doProtoHandshake ::
  "('d, 'c) p2p_env \<Rightarrow> conn \<Rightarrow> bytes \<Rightarrow> 'd peerManager \<Rightarrow> ((hs_err option \<times> bytes) \<times> 'd peerManager) go" where
  "doProtoHandshake E cn r pk =
     (let pk1 = send_msg (Some cn) (NewMsg (p2_crypto E) (cmd_code handshakeMsg) (ph_Serialize (GetProtoHandshake E pk))) pk in
      if \<not> p2_writes E cn then Ret ((Some HsWrite, r), pk1) else readProtoHandshake E cn r pk1)"

definition readEncHandshake ::
  "('d, 'c) p2p_env \<Rightarrow> conn \<Rightarrow> bytes \<Rightarrow> bytes \<Rightarrow> 'd peerManager \<Rightarrow> ((hs_err option \<times> bytes) \<times> 'd peerManager) go" where
  "readEncHandshake E cn cert r pk =
     (case readMsg (p2_crypto E) r of
        (None, Some err, r') \<Rightarrow> Ret ((Some (HsRead err), r'), pk)
      | (None, None, _) \<Rightarrow> nil_deref
      | (Some m, _, r') \<Rightarrow>
          go_bind (eh_matchProtocol (p2_certs E) (eh_Deserialize (ms_Payload m)) (RootCertificate E)) (\<lambda>ok.
            if \<not> ok then Ret ((Some HsEncryption, r'), onPeerClose cn pk)
            else case gm_get (pk_handshakings pk) cn of
              None \<Rightarrow> Ret ((Some HsNoConnection, r'), pk)
            | Some p \<Rightarrow>
                let pk1 = pk\<lparr>pk_handshakings := gm_del cn (pk_handshakings pk), pk_addPeer := pk_addPeer pk @ [p]\<rparr> in
                go_bind (GetEncHandshake E (PrivateKey E) cert pk1) (\<lambda>(e, pk2).
                  Ret ((None, r'), send_msg (Some cn) (NewMsg (p2_crypto E) (cmd_code handshakeAckMsg) (eh_Serialize e)) pk2))))"

definition doEncHandshake ::
  "('d, 'c) p2p_env \<Rightarrow> conn \<Rightarrow> bytes \<Rightarrow> 'd peerManager \<Rightarrow> ((hs_err option \<times> bytes) \<times> 'd peerManager) go" where
  "doEncHandshake E cn r pk =
     (let cert = if CAEnabled E then Certificate E else RootCertificate E in
      go_bind (GetEncHandshake E cert (PrivateKey E) pk) (\<lambda>(e, pk1).
        let pk2 = send_msg (Some cn) (NewMsg (p2_crypto E) (cmd_code handshakeAckMsg) (eh_Serialize e)) pk1 in
        if \<not> p2_writes E cn then Ret ((Some HsWrite, r), pk2) else readEncHandshake E cn cert r pk2))"

definition doHandshake ::
  "('d, 'c) p2p_env \<Rightarrow> conn \<Rightarrow> bytes \<Rightarrow> 'd peerManager \<Rightarrow> ((hs_err option \<times> bytes) \<times> 'd peerManager) go" where
  "doHandshake E cn r pk =
     go_bind (doProtoHandshake E cn r pk) (\<lambda>((err, r1), pk1).
       case err of Some _ \<Rightarrow> Ret ((err, r1), pk1) | None \<Rightarrow> doEncHandshake E cn r1 pk1)"

definition onNewPeer :: "('d, 'c) p2p_env \<Rightarrow> conn \<Rightarrow> bytes \<Rightarrow> 'd peerManager \<Rightarrow> (bytes \<times> 'd peerManager) go" where
  "onNewPeer E cn r pk =
     go_bind (doHandshake E cn r pk) (\<lambda>((err, r1), pk1).
       Ret (r1, case err of Some _ \<Rightarrow> onPeerClose cn pk1 | None \<Rightarrow> pk1))"

end
