(* ===== verification/Merge.thy ===== *)
theory Merge
  imports Merge_Cache Blockchain P2p
begin

text \<open>
  The merge service (\<^verbatim>\<open>core/merge\<close>). \<^verbatim>\<open>merge.go\<close> nets the transactions between chains that the ledger collected and sends the
  result to the parent chain; \<^verbatim>\<open>filter.go\<close> and \<^verbatim>\<open>parser.go\<close> count, on the parent chain, how many nodes of a chain sent the
  same transaction and process it when more than half of them did; \<^verbatim>\<open>helper.go\<close> ties them to the network. What a part
  sends is the list of its events.
\<close>

record MergeConfig =
  mc_MaxPeers :: int
  mc_MergeDuration :: int
  mc_ChainID :: string
  mc_PeerID :: string

definition merge_DefaultConfig :: MergeConfig where
  "merge_DefaultConfig = \<lparr>mc_MaxPeers = 7, mc_MergeDuration = 60 * 1000000000, mc_ChainID = [], mc_PeerID = []\<rparr>"

section \<open>Payloads and events\<close>

record UploadPayload =
  up_PeerNum :: u32
  up_MergeDuration :: u32
  up_RepeatMergeTxs :: "Transaction list"
  up_MergeTxs :: "Transaction list"

definition NewUploadPayload :: "u32 \<Rightarrow> u32 \<Rightarrow> Transaction list \<Rightarrow> Transaction list \<Rightarrow> UploadPayload" where
  "NewUploadPayload peerNum mergeDutation repeatMergeTxs mergeTxs =
     \<lparr>up_PeerNum = peerNum, up_MergeDuration = mergeDutation, up_RepeatMergeTxs = repeatMergeTxs, up_MergeTxs = mergeTxs\<rparr>"

definition up_ty :: gty where
  "up_ty = TStruct [TUint 32, TUint 32, TSlice (TPtr tx_ty), TSlice (TPtr tx_ty)]"

definition up_Serialize :: "UploadPayload \<Rightarrow> bytes" where
  "up_Serialize up = Serialize (VStruct [VUint (ucast (up_PeerNum up)), VUint (ucast (up_MergeDuration up)),
     VSlice (map (\<lambda>tx. VPtr (Some (tx_val tx))) (up_RepeatMergeTxs up)), VSlice (map (\<lambda>tx. VPtr (Some (tx_val tx))) (up_MergeTxs up))])"

text \<open>The objects of the transactions get the addresses from \<open>p\<close> on.\<close>

definition val_txs :: "nat \<Rightarrow> gval \<Rightarrow> Transaction list" where
  "val_txs p v = map2 (\<lambda>i t. val_tx (p + i) (case as_ptr t of Some u \<Rightarrow> u | None \<Rightarrow> zero tx_ty)) [0 ..< length (as_fields v)] (as_fields v)"

definition up_Deserialize :: "nat \<Rightarrow> bytes \<Rightarrow> UploadPayload" where
  "up_Deserialize p data =
     (let f = as_fields (fst (Deserialize up_ty data))
      in \<lparr>up_PeerNum = ucast (as_uint (f ! 0)), up_MergeDuration = ucast (as_uint (f ! 1)), up_RepeatMergeTxs = val_txs p (f ! 2),
          up_MergeTxs = val_txs (p + length (as_fields (f ! 2))) (f ! 3)\<rparr>)"

datatype merge_event =
    TxEvent MnMessage string string
  | AckMergeTxEvent MnMessage string string
  | AckMergedTxEvent MnMessage string string
  | BroadcastAckMergeTxEvent Transaction

section \<open>Netting\<close>

record amountTimeHash =
  at_amount :: "int option"
  at_fee :: "int option"
  at_txTime :: u32
  at_txsHash :: "Hash list"

definition chainCoordinatesToString :: "string \<Rightarrow> string \<Rightarrow> string" where
  "chainCoordinatesToString src dst = src @ ''|'' @ dst"

definition stringToChainCoordinates :: "string \<Rightarrow> ChainCoordinate \<times> ChainCoordinate" where
  "stringToChainCoordinates str =
     (let strs = split_at (CHR ''|'') str in (HexToChainCoordinate (strs ! 0), HexToChainCoordinate (strs ! 1)))"

definition big_op :: "(int \<Rightarrow> int \<Rightarrow> int) \<Rightarrow> int option \<Rightarrow> int option \<Rightarrow> int option go" where
  "big_op f x y = go_bind (big_val x) (\<lambda>a. go_bind (big_val y) (\<lambda>b. Ret (Some (f a b))))"

text \<open>One turn of the first loop of \<^verbatim>\<open>mergerTx\<close>: a transaction adds to the entry of its two chains, or is subtracted from
  the entry of the opposite direction when there is one.\<close>

definition ath_update :: "(int \<Rightarrow> int \<Rightarrow> int) \<Rightarrow> crypto_env \<Rightarrow> Transaction \<Rightarrow> amountTimeHash \<Rightarrow> amountTimeHash go" where
  "ath_update f c tx ath =
     go_bind (big_op f (at_amount ath) (tx_Amount tx)) (\<lambda>amount.
     go_bind (big_op f (at_fee ath) (tx_Fee tx)) (\<lambda>fees.
       Ret \<lparr>at_amount = amount, at_fee = fees, at_txTime = td_CreateTime (tx_Data tx), at_txsHash = at_txsHash ath @ [tx_hash c tx]\<rparr>))"

definition net_tx :: "crypto_env \<Rightarrow> Transaction \<Rightarrow> (string, amountTimeHash) gomap \<Rightarrow> (string, amountTimeHash) gomap go" where
  "net_tx c tx m =
     (let key = chainCoordinatesToString (tx_FromChain tx) (tx_ToChain tx);
          key1 = chainCoordinatesToString (tx_ToChain tx) (tx_FromChain tx)
      in case gm_get m key of
        Some ath \<Rightarrow> go_bind (ath_update (+) c tx ath) (\<lambda>ath'. Ret (gm_set key ath' m))
      | None \<Rightarrow>
          (case gm_get m key1 of
             Some ath \<Rightarrow> go_bind (ath_update (-) c tx ath) (\<lambda>ath'. Ret (gm_set key1 ath' m))
           | None \<Rightarrow> Ret (gm_set key \<lparr>at_amount = tx_Amount tx, at_fee = tx_Fee tx, at_txTime = td_CreateTime (tx_Data tx),
               at_txsHash = [tx_hash c tx]\<rparr> m)))"

text \<open>Who pays whom and how much: the chains are swapped when the entry is negative.\<close>

definition settlement :: "string \<Rightarrow> int \<Rightarrow> ChainCoordinate \<times> ChainCoordinate \<times> int" where
  "settlement k amount =
     (case stringToChainCoordinates k of (from, to) \<Rightarrow> if amount < 0 then (to, from, \<bar>amount\<bar>) else (from, to, \<bar>amount\<bar>))"

definition maketransaction ::
  "nat \<Rightarrow> 'd env \<Rightarrow> ChainCoordinate \<Rightarrow> ChainCoordinate \<Rightarrow> int \<Rightarrow> int option \<Rightarrow> u32 \<Rightarrow> Transaction go" where
  "maketransaction p E fromchain tochain amount fees timeStamp =
     go_bind (ParentCoorinate fromchain) (\<lambda>pfrom. go_bind (ParentCoorinate tochain) (\<lambda>pto.
     go_bind (ChainCoordinateToAddress (e_crypto E) (ChainID (e_params E))) (\<lambda>sender.
     go_bind (ChainCoordinateToAddress (e_crypto E) tochain) (\<lambda>recipient.
     go_bind (ChainCoordinateToAddress (e_crypto E) fromchain) (\<lambda>senderAddress.
       Ret (WithSignature (Some (take SignatureSize (senderAddress @ replicate SignatureSize 0)))
         (NewTransaction p pfrom pto TypeMerged 0 sender recipient (Some amount) fees timeStamp)))))))"

record TxMerge =
  tm_backupTxs :: "(string, Transaction) gomap"

definition deleteBackupTx :: "crypto_env \<Rightarrow> Transaction \<Rightarrow> TxMerge \<Rightarrow> TxMerge" where
  "deleteBackupTx c tx tm = (if tm_backupTxs tm = [] then tm else tm\<lparr>tm_backupTxs := gm_del (hash_String (tx_hash c tx)) (tm_backupTxs tm)\<rparr>)"

text \<open>The second loop, over the entries in the order of the map; the first write that fails ends it.\<close>

fun settle_loop ::
  "nat \<Rightarrow> 'd env \<Rightarrow> (string \<times> amountTimeHash) list \<Rightarrow> Transaction list \<Rightarrow> (gerr, 'd BlockchainDB, Transaction list) exec" where
  "settle_loop p E [] transactions = ex_ret transactions"
| "settle_loop p E ((k, v) # kvs) transactions =
     (\<lambda>db. go_bind (big_val (at_amount v)) (\<lambda>amount.
        case settlement k amount of (from, to, a) \<Rightarrow>
          go_bind (maketransaction p E from to a (at_fee v) (at_txTime v)) (\<lambda>tx0.
            let transaction = snd (tx_Hash (e_crypto E) tx0) in
            ex_bind (ms_PutTxsHashByMergeTxHash (e_rocks E) (tx_hash (e_crypto E) transaction) (at_txsHash v))
              (\<lambda>_. settle_loop (Suc p) E kvs (transactions @ [transaction])) db)))"

text \<open>\<open>ord\<close> and \<open>ord_backup\<close> are the orders of the two maps. The duration is cut to 32 bits.\<close>

definition mergerTx ::
  "nat \<Rightarrow> 'd env \<Rightarrow> MergeConfig \<Rightarrow> ((string, amountTimeHash) gomap \<Rightarrow> (string \<times> amountTimeHash) list)
    \<Rightarrow> ((string, Transaction) gomap \<Rightarrow> (string \<times> Transaction) list) \<Rightarrow> Transaction list
    \<Rightarrow> (gerr, TxMerge \<times> 'd BlockchainDB, merge_event list) exec" where
  "mergerTx p E config ord ord_backup txs s =
     (if txs = [] then Ret (Inr [], s)
      else go_bind (go_fold (net_tx (e_crypto E)) txs gm_empty) (\<lambda>m.
        go_bind (settle_loop p E (ord m) [] (snd s)) (\<lambda>(res, db').
          case res of
            Inl err \<Rightarrow> Ret (Inl err, (fst s, db'))
          | Inr transactions \<Rightarrow>
              go_bind (ParentCoorinate (HexToChainCoordinate (mc_ChainID config))) (\<lambda>dstChainID.
                let upload = NewUploadPayload (word_of_int (mc_MaxPeers config)) (word_of_int (mc_MergeDuration config))
                      (map snd (ord_backup (tm_backupTxs (fst s)))) transactions;
                    event = TxEvent \<lparr>mn_Cmd = mn_code ChainMergeTxsMsg, mn_Payload = up_Serialize upload\<rparr> (cc_String dstChainID) (mc_PeerID config);
                    tm' = (fst s)\<lparr>tm_backupTxs := fold (\<lambda>tx m. gm_set (hash_String (tx_hash (e_crypto E) tx)) tx m) transactions (tm_backupTxs (fst s))\<rparr>
                in Ret (Inr [event], (tm', db'))))))"

text \<open>One tick of \<^verbatim>\<open>eventLoop\<close>.\<close>

definition merge_tick ::
  "nat \<Rightarrow> 'd env \<Rightarrow> MergeConfig \<Rightarrow> ((string, amountTimeHash) gomap \<Rightarrow> (string \<times> amountTimeHash) list)
    \<Rightarrow> ((string, Transaction) gomap \<Rightarrow> (string \<times> Transaction) list) \<Rightarrow> TxMerge \<times> 'd BlockchainDB \<Rightarrow> (merge_event list \<times> TxMerge \<times> 'd BlockchainDB) go" where
  "merge_tick p E config ord ord_backup s =
     go_bind (ms_GetMergedTransaction p (e_rocks E) (word_of_int (mc_MergeDuration config div 1000000000)) (snd s)) (\<lambda>(res, db1).
       case res of
         Inl _ \<Rightarrow> Ret ([], (fst s, db1))
       | Inr txs \<Rightarrow> go_bind (mergerTx (p + length txs) E config ord ord_backup txs (fst s, db1)) (\<lambda>(res, s').
           Ret (case res of Inl _ \<Rightarrow> [] | Inr events \<Rightarrow> events, s')))"

text \<open>An acknowledgement from the message network or from a peer.\<close>

definition tm_recv_net :: "nat \<Rightarrow> crypto_env \<Rightarrow> MnMessage \<Rightarrow> TxMerge \<Rightarrow> merge_event list \<times> TxMerge" where
  "tm_recv_net p c msg tm =
     (let tx = fst (tx_Deserialize p (mn_Payload msg)) in
      (if mn_Cmd msg = mn_code ChainAckMergeTxsMsg then [BroadcastAckMergeTxEvent tx] else [], deleteBackupTx c tx tm))"

definition tm_recv_local :: "nat \<Rightarrow> crypto_env \<Rightarrow> Msg \<Rightarrow> TxMerge \<Rightarrow> TxMerge" where
  "tm_recv_local p c msg tm = deleteBackupTx c (fst (tx_Deserialize p (ms_Payload msg))) tm"

section \<open>Counting the nodes that agree\<close>

record CountDot =
  cd_cnt :: u32
  cd_flag :: bool
  cd_createTime :: u32

definition NewCountDot :: "int \<Rightarrow> CountDot" where
  "NewCountDot now = \<lparr>cd_cnt = 0, cd_flag = False, cd_createTime = word_of_int (now div 1000000000)\<rparr>"

record ChainCacheTable =
  cc_cacheTxsTable :: CacheTable
  cc_countDot :: "(string, CountDot) gomap"

definition NewChainCacheTable :: "string \<Rightarrow> ChainCacheTable" where
  "NewChainCacheTable table = \<lparr>cc_cacheTxsTable = NewCacheTable table, cc_countDot = gm_empty\<rparr>"

record PeerTx =
  pt_chainID :: string
  pt_peerID :: string
  pt_tx :: Transaction
  pt_valid :: bool

text \<open>The orders in which the maps are walked and the current time.\<close>

record merge_env =
  me_now :: int
  me_cache :: "(string, CacheItem) gomap \<Rightarrow> (string \<times> CacheItem) list"
  me_net :: "(string, amountTimeHash) gomap \<Rightarrow> (string \<times> amountTimeHash) list"
  me_backup :: "(string, Transaction) gomap \<Rightarrow> (string \<times> Transaction) list"
  me_config :: MergeConfig

text \<open>\<^verbatim>\<open>strings.Contains\<close>.\<close>

definition has_substring :: "string \<Rightarrow> string \<Rightarrow> bool" where
  "has_substring s sub = list_ex (\<lambda>i. take (length sub) (drop i s) = sub) [0 ..< Suc (length s)]"

definition hasHandledTx :: "crypto_env \<Rightarrow> 'd rocks \<Rightarrow> string \<Rightarrow> Transaction \<Rightarrow> CacheTable \<times> 'd BlockchainDB \<Rightarrow> bool go" where
  "hasHandledTx c r chainID tx s =
     go_bind (cx_Exists c r tx s) (\<lambda>(exist, data). Ret (exist \<and> has_substring (bytes_str data) chainID))"

text \<open>The product of the duration and five seconds wraps at 64 bits.\<close>

definition life_span :: "u32 \<Rightarrow> int" where
  "life_span duration = sint (ucast duration * 5000000000 :: 64 word)"

text \<open>What is handed on through the callback is the first result.\<close>

definition handleTx ::
  "crypto_env \<Rightarrow> merge_env \<Rightarrow> string \<Rightarrow> string \<Rightarrow> u32 \<Rightarrow> u32 \<Rightarrow> Transaction \<Rightarrow> ChainCacheTable \<Rightarrow> (PeerTx list \<times> ChainCacheTable) go" where
  "handleTx c M chainID peerID peerNum duration tx cct =
     (let txHash = hash_String (SignHash c tx);
          dots = (if gm_has (cc_countDot cct) txHash then cc_countDot cct else gm_set txHash (NewCountDot (me_now M)) (cc_countDot cct));
          dot = the (gm_get dots txHash)
      in go_bind (ct_NotFoundAdd (me_now M) (me_cache M) (peerID @ txHash) (life_span duration) [] (cc_cacheTxsTable cct)) (\<lambda>(exist, table).
           if exist then Ret ([], \<lparr>cc_cacheTxsTable = table, cc_countDot = dots\<rparr>)
           else
             let dot1 = dot\<lparr>cd_cnt := cd_cnt dot + 1\<rparr> in
             if cd_cnt dot1 > peerNum div 2 \<and> \<not> cd_flag dot1
             then Ret ([\<lparr>pt_chainID = chainID, pt_peerID = peerID, pt_tx = tx, pt_valid = True\<rparr>],
               \<lparr>cc_cacheTxsTable = table, cc_countDot = gm_del txHash dots\<rparr>)
             else Ret ([], \<lparr>cc_cacheTxsTable = table, cc_countDot = gm_set txHash dot1 dots\<rparr>)))"

definition add_tx ::
  "crypto_env \<Rightarrow> merge_env \<Rightarrow> string \<Rightarrow> string \<Rightarrow> UploadPayload \<Rightarrow> Transaction \<Rightarrow> PeerTx list \<times> ChainCacheTable \<Rightarrow> (PeerTx list \<times> ChainCacheTable) go" where
  "add_tx c M chainID peerID upload tx s =
     go_bind (handleTx c M chainID peerID (up_PeerNum upload) (up_MergeDuration upload) tx (snd s)) (\<lambda>(out, cct). Ret (fst s @ out, cct))"

definition add_repeated ::
  "crypto_env \<Rightarrow> 'd rocks \<Rightarrow> merge_env \<Rightarrow> CacheTable \<times> 'd BlockchainDB \<Rightarrow> string \<Rightarrow> string \<Rightarrow> UploadPayload \<Rightarrow> Transaction
    \<Rightarrow> PeerTx list \<times> ChainCacheTable \<Rightarrow> (PeerTx list \<times> ChainCacheTable) go" where
  "add_repeated c r M cx chainID peerID upload tx s =
     go_bind (hasHandledTx c r chainID tx cx) (\<lambda>handled.
       if \<not> handled then add_tx c M chainID peerID upload tx s
       else Ret (fst s @ [\<lparr>pt_chainID = chainID, pt_peerID = peerID, pt_tx = tx, pt_valid = False\<rparr>], snd s))"

definition AddMergeTxs ::
  "crypto_env \<Rightarrow> 'd rocks \<Rightarrow> merge_env \<Rightarrow> CacheTable \<times> 'd BlockchainDB \<Rightarrow> string \<Rightarrow> string \<Rightarrow> UploadPayload \<Rightarrow> ChainCacheTable
    \<Rightarrow> (PeerTx list \<times> ChainCacheTable) go" where
  "AddMergeTxs c r M cx chainID peerID upload cct =
     go_bind (go_fold (add_repeated c r M cx chainID peerID upload) (up_RepeatMergeTxs upload) ([], cct))
       (go_fold (add_tx c M chainID peerID upload) (up_MergeTxs upload))"

section \<open>The helper\<close>

text \<open>The cache of transactions is one object that all parts share.\<close>

record Helper =
  mh_txMerge :: TxMerge
  mh_allChainCacheTable :: "(string, ChainCacheTable) gomap"
  mh_txCache :: CacheTable
  mh_txMergeChan :: "PeerTx list"

definition NewHelper :: Helper where
  "NewHelper = \<lparr>mh_txMerge = \<lparr>tm_backupTxs = gm_empty\<rparr>, mh_allChainCacheTable = gm_empty, mh_txCache = NewCacheTable ''cacheTxsTable'',
     mh_txMergeChan = []\<rparr>"

definition bc_db :: "'d Blockchain \<Rightarrow> 'd BlockchainDB" where
  "bc_db bc = lg_db (bc_ledger bc)"

definition set_db :: "'d BlockchainDB \<Rightarrow> 'd Blockchain \<Rightarrow> 'd Blockchain" where
  "set_db db bc = bc\<lparr>bc_ledger := (bc_ledger bc)\<lparr>lg_db := db\<rparr>\<rparr>"

definition SetChainTable :: "string \<Rightarrow> Helper \<Rightarrow> ChainCacheTable" where
  "SetChainTable table h = (case gm_get (mh_allChainCacheTable h) table of Some t \<Rightarrow> t | None \<Rightarrow> NewChainCacheTable table)"

definition tp_recvEvent :: "nat \<Rightarrow> 'd bc_env \<Rightarrow> merge_env \<Rightarrow> string \<Rightarrow> string \<Rightarrow> MnMessage \<Rightarrow> 'd Blockchain \<Rightarrow> Helper \<Rightarrow> Helper go" where
  "tp_recvEvent p E M chainID peerID msg bc h =
     go_bind (AddMergeTxs (be_crypto E) (e_rocks (be_env E)) M (mh_txCache h, bc_db bc) chainID peerID (up_Deserialize p (mn_Payload msg))
         (SetChainTable chainID h)) (\<lambda>(out, cct).
       Ret (h\<lparr>mh_allChainCacheTable := gm_set chainID cct (mh_allChainCacheTable h), mh_txMergeChan := mh_txMergeChan h @ out\<rparr>))"

text \<open>One transaction out of the channel of the parser.\<close>

definition handleMergeTx ::
  "'d bc_env \<Rightarrow> merge_env \<Rightarrow> PeerTx \<Rightarrow> Helper \<times> 'd Blockchain \<Rightarrow> (merge_event list \<times> Helper \<times> 'd Blockchain) go" where
  "handleMergeTx E M peerTx s =
     (let tx = pt_tx peerTx; h = fst s; bc = snd s;
          ack = (\<lambda>k. \<lparr>mn_Cmd = mn_code k, mn_Payload = tx_Serialize tx\<rparr>);
          process = (\<lambda>h bc. go_bind (ProcessTransaction E tx bc) (\<lambda>(_, bc').
            Ret ([AckMergeTxEvent (ack ChainAckMergeTxsMsg) (pt_chainID peerTx) (pt_peerID peerTx)], h, bc')))
      in if \<not> pt_valid peerTx then Ret ([AckMergedTxEvent (ack ChainAckedMergeTxsMsg) (pt_chainID peerTx) (pt_peerID peerTx)], s)
         else if tx_FromChain tx = tx_ToChain tx then
           go_bind (cx_Exists (be_crypto E) (e_rocks (be_env E)) tx (mh_txCache h, bc_db bc)) (\<lambda>(exist, value).
           go_bind (cx_Add (be_crypto E) (e_rocks (be_env E)) (me_now M) (me_cache M) tx ((if exist then value else []) @ str_bytes (pt_chainID peerTx))
               (mh_txCache h, bc_db bc)) (\<lambda>(_, table, db).
             let h' = h\<lparr>mh_txCache := table\<rparr>; bc' = set_db db bc in
             if exist then process h' bc'
             else Ret ([AckMergeTxEvent (ack ChainAckMergeTxsMsg) (pt_chainID peerTx) (pt_peerID peerTx)], h', bc')))
         else process h bc)"

definition HandleNetMsg ::
  "nat \<Rightarrow> 'd bc_env \<Rightarrow> merge_env \<Rightarrow> u8 \<Rightarrow> string \<Rightarrow> string \<Rightarrow> MnMessage \<Rightarrow> 'd Blockchain \<Rightarrow> Helper \<Rightarrow> (merge_event list \<times> Helper) go" where
  "HandleNetMsg p E M msgType chainID peerID event bc h =
     (if msgType = mn_code ChainMergeTxsMsg then go_bind (tp_recvEvent p E M chainID peerID event bc h) (\<lambda>h'. Ret ([], h'))
      else if msgType = mn_code ChainAckMergeTxsMsg \<or> msgType = mn_code ChainAckedMergeTxsMsg then
        (case tm_recv_net p (be_crypto E) event (mh_txMerge h) of (out, tm) \<Rightarrow> Ret (out, h\<lparr>mh_txMerge := tm\<rparr>))
      else Ret ([], h))"

definition HandleLocalMsg :: "nat \<Rightarrow> crypto_env \<Rightarrow> Msg \<Rightarrow> Helper \<Rightarrow> Helper" where
  "HandleLocalMsg p c event h = h\<lparr>mh_txMerge := tm_recv_local p c event (mh_txMerge h)\<rparr>"

definition merge_peerAddress :: "string \<Rightarrow> string \<Rightarrow> string" where
  "merge_peerAddress chainID peerID = chainID @ '':'' @ peerID"

end
