(* ===== verification/P2p_Laws.thy ===== *)
theory P2p_Laws
  imports P2p
begin

text \<open>
  What the peer-to-peer layer guarantees and what it does not: in every interleaving of its goroutines no two connected
  peers have the same ID; a handshake that follows the protocol admits the peer under the ID it claims, with any
  certificate that calls itself one of an authority; an empty frame or a certificate that is not in PEM form ends the
  process; and so does starting again after the peers were saved.
\<close>

section \<open>The peers of the manager\<close>

definition peers_ok :: "peerMap \<Rightarrow> bool" where
  "peers_ok peers \<longleftrightarrow> gm_wf peers \<and> (\<forall>cn p. gm_get peers cn = Some p \<longrightarrow> pe_Conn p = Some cn) \<and>
     (\<forall>cn p cn' p'. gm_get peers cn = Some p \<longrightarrow> gm_get peers cn' = Some p' \<longrightarrow> pe_ID p = pe_ID p' \<longrightarrow> cn = cn')"

lemma pm_contains_get: "gm_wf peers \<Longrightarrow> pm_contains peers pid \<longleftrightarrow> (\<exists>cn p. gm_get peers cn = Some p \<and> pe_ID p = pid)"
  by (force simp: pm_contains_def gm_get_in)

lemma peers_ok_empty [simp]: "peers_ok []"
  by (simp add: peers_ok_def gm_wf_def)

lemma peers_ok_new:
  "peers_ok peers \<Longrightarrow> \<not> pm_contains peers (pe_ID p) \<Longrightarrow> pe_Conn p = Some cn \<Longrightarrow> peers_ok (gm_set cn p peers)"
  by (auto simp: peers_ok_def pm_contains_get gm_get_set split: if_splits) metis+

lemma peers_ok_same:
  "peers_ok peers \<Longrightarrow> gm_get peers cn = Some p \<Longrightarrow> pe_ID q = pe_ID p \<Longrightarrow> pe_Conn q = pe_Conn p \<Longrightarrow> peers_ok (gm_set cn q peers)"
  by (auto simp: peers_ok_def gm_get_set split: if_splits)

lemma peers_ok_del: "peers_ok peers \<Longrightarrow> peers_ok (gm_del cn peers)"
  by (auto simp: peers_ok_def gm_get_del split: if_splits)

section \<open>The operations on the peers\<close>

lemma send_msg_peers [simp]: "pk_peers (send_msg w m pk) = pk_peers pk"
  by (simp add: send_msg_def split: option.splits)

lemma close_conn_peers [simp]: "pk_peers (close_conn w pk) = pk_peers pk"
  by (simp add: close_conn_def split: option.splits)

lemma getPeers_peers [simp]: "pk_peers (pk_getPeers E pk) = pk_peers pk"
  by (simp add: pk_getPeers_def)

lemma manage_peers [simp]: "pk_peers (pk_manage E now pk) = pk_peers pk"
proof -
  have "pk_peers (fold (manage_peer E now) ps pk) = pk_peers pk" for ps
    by (induction ps arbitrary: pk) (simp_all add: manage_peer_def Let_def)
  then show ?thesis by (simp add: pk_manage_def Let_def)
qed

lemma broadcast_peers [simp]: "pk_peers (pk_broadcast E m pk) = pk_peers pk"
proof -
  have "pk_peers (fold (\<lambda>peer. send_msg (pe_Conn peer) m) ps pk) = pk_peers pk" for ps
    by (induction ps arbitrary: pk) simp_all
  then show ?thesis by (simp add: pk_broadcast_def)
qed

lemma dial_peers [simp]: "pk_peers (dial_step E j w pk) = pk_peers pk"
  by (simp add: dial_step_def dial_done_def split: prod.splits option.splits)

lemma connect_peers: "pk_connect E p pk = Ret pk' \<Longrightarrow> pk_peers pk' = pk_peers pk"
  by (auto simp: pk_connect_def nil_deref_def split: option.splits if_splits)

lemma add_peers: "peers_ok (pk_peers pk) \<Longrightarrow> pk_add E now p pk = Ret pk' \<Longrightarrow> peers_ok (pk_peers pk')"
  by (auto simp: pk_add_def nil_deref_def peers_ok_new split: option.splits if_splits)

lemma del_peers: "peers_ok (pk_peers pk) \<Longrightarrow> pk_del E cn pk = Ret pk' \<Longrightarrow> peers_ok (pk_peers pk')"
  by (auto simp: pk_del_def peers_ok_del split: option.splits)

lemma alive_peers: "peers_ok (pk_peers pk) \<Longrightarrow> peers_ok (pk_peers (updateActiveTime now cn pk))"
  by (auto simp: updateActiveTime_def intro: peers_ok_same split: option.splits)

lemma to_proto_same [simp]: "pe_ID (to_proto name m p) = pe_ID p" "pe_Conn (to_proto name m p) = pe_Conn p"
  by (simp_all add: to_proto_def split: option.splits)

lemma turn_peers: "peers_ok (pk_peers pk) \<Longrightarrow> peers_ok (pk_peers (snd (peer_turn E cn r pk)))"
  by (auto simp: peer_turn_def Let_def onPeers_def onGetPeers_def GetPeer_def intro: peers_ok_same
      split: prod.splits option.splits)

lemma enc_peers: "GetEncHandshake E cert key pk = Ret (e, pk') \<Longrightarrow> pk_peers pk' = pk_peers pk"
  by (cases "ParseKey (p2_certs E) key") (auto simp: GetEncHandshake_def Let_def split: option.split_asm)

lemma readEnc_peers: "readEncHandshake E cn cert r pk = Ret (res, pk') \<Longrightarrow> pk_peers pk' = pk_peers pk"
  by (auto simp: readEncHandshake_def nil_deref_def Let_def onPeerClose_def dest!: enc_peers
      split: prod.splits option.splits if_splits)

lemma doEnc_peers: "doEncHandshake E cn r pk = Ret (res, pk') \<Longrightarrow> pk_peers pk' = pk_peers pk"
  by (auto simp: doEncHandshake_def Let_def dest!: enc_peers readEnc_peers split: if_splits)

lemma doProto_peers: "doProtoHandshake E cn r pk = Ret (res, pk') \<Longrightarrow> pk_peers pk' = pk_peers pk"
  by (auto simp: doProtoHandshake_def readProtoHandshake_def nil_deref_def Let_def onPeerClose_def
      split: prod.splits option.splits if_splits)

section \<open>The steps of the goroutines\<close>

text \<open>The loop of the manager takes its channels in any order, and so do the loops that dial, broadcast, shake hands and
  read.\<close>

inductive pk_step :: "('d, 'c) p2p_env \<Rightarrow> 'd peerManager \<Rightarrow> 'd peerManager \<Rightarrow> bool" for E where
  Add: "pk_addPeer pk = p # ps \<Longrightarrow> pk_add E now p (pk\<lparr>pk_addPeer := ps\<rparr>) = Ret pk' \<Longrightarrow> pk_step E pk pk'"
| Del: "pk_delPeer pk = cn # cns \<Longrightarrow> pk_del E cn (pk\<lparr>pk_delPeer := cns\<rparr>) = Ret pk' \<Longrightarrow> pk_step E pk pk'"
| Alive: "pk_alivePeer pk = cn # cns \<Longrightarrow> pk_step E pk (updateActiveTime now cn (pk\<lparr>pk_alivePeer := cns\<rparr>))"
| Tick: "pk_step E pk (pk_manage E now pk)"
| Connect: "pk_dialTask pk = p # ps \<Longrightarrow> pk_connect E p (pk\<lparr>pk_dialTask := ps\<rparr>) = Ret pk' \<Longrightarrow> pk_step E pk pk'"
| Dial: "j < length (pk_dialers pk) \<Longrightarrow> pk_step E pk (dial_step E j w pk)"
| Broadcast: "pk_broadcastCh pk = m # ms \<Longrightarrow> pk_step E pk (pk_broadcast E m (pk\<lparr>pk_broadcastCh := ms\<rparr>))"
| Proto: "doProtoHandshake E cn r pk = Ret (res, pk') \<Longrightarrow> pk_step E pk pk'"
| Enc: "doEncHandshake E cn r pk = Ret (res, pk') \<Longrightarrow> pk_step E pk pk'"
| Turn: "pk_step E pk (snd (peer_turn E cn r pk))"

lemma step_peers: "pk_step E pk pk' \<Longrightarrow> peers_ok (pk_peers pk) \<Longrightarrow> peers_ok (pk_peers pk')"
proof (induction rule: pk_step.induct)
  case (Add pk p ps now pk')
  then show ?case using add_peers [of "pk\<lparr>pk_addPeer := ps\<rparr>" E now p pk'] by simp
next
  case (Del pk cn cns pk')
  then show ?case using del_peers [of "pk\<lparr>pk_delPeer := cns\<rparr>" E cn pk'] by simp
qed (simp_all add: alive_peers turn_peers connect_peers doProto_peers doEnc_peers)

definition pk_steps :: "('d, 'c) p2p_env \<Rightarrow> 'd peerManager \<Rightarrow> 'd peerManager \<Rightarrow> bool" where
  "pk_steps E = (pk_step E)\<^sup>*\<^sup>*"

lemma steps_peers: "pk_steps E pk pk' \<Longrightarrow> peers_ok (pk_peers pk) \<Longrightarrow> peers_ok (pk_peers pk')"
  unfolding pk_steps_def by (induction rule: rtranclp_induct) (auto intro: step_peers)

section \<open>The handshake\<close>

lemma ph_Deserialize_Serialize:
  assumes "length (ph_Serialize p) < 2 ^ 64"
  shows "ph_Deserialize (ph_Serialize p) = p"
proof -
  let ?v = "VStruct [VString (str_bytes (ph_Name p)), VString (str_bytes (ph_Version p)), VBytes (ph_ID p),
     VString (str_bytes (ph_SrvAddress p))]"
  have "good ?v (TStruct [TString, TString, TBytes, TString])" using assms by (simp add: ph_Serialize_def Serialize_def)
  then show ?thesis
    using Deserialize_good [of ?v] by (simp add: ph_Deserialize_def ph_Serialize_def as_fields_def as_bytes_def)
qed

lemma eh_Deserialize_Serialize:
  assumes "length (eh_Serialize (Some e)) < 2 ^ 64" and "length (eh_Hashed e) = 32"
  shows "eh_Deserialize (eh_Serialize (Some e)) = e"
proof -
  have h: "eh_Hashed e \<noteq> []" using assms(2) by auto
  have "good (eh_val e) eh_ty" using assms h by (simp add: eh_val_def eh_ty_def eh_Serialize_def Serialize_def)
  then have "Deserialize eh_ty (Serialize (eh_val e)) = (norm (eh_val e), None)"
    by (rule Deserialize_good) (simp add: eh_val_def)
  then show ?thesis
    by (simp add: eh_Deserialize_def eh_Serialize_def Serialize_def eh_val_def as_fields_def as_bytes_def)
qed

lemma fits_payload:
  "length (ms_Serialize (NewMsg c t p)) \<le> unat maxMsgSize \<Longrightarrow> length p < 2 ^ 64"
  by (simp add: ms_Serialize_def Serialize_def ms_val_def NewMsg_def maxMsgSize_def)

lemma readMsg_empty: "readMsg c (0 # r) = (None, None, r)"
proof -
  have "VarInt 0 = [0]" by (simp add: VarInt_def)
  then have "ReadVarInt (0 # r) = (0, None, r)" using ReadVarInt_VarInt [of 0 r] by simp
  then show ?thesis by (simp add: readMsg_def ms_read_def maxMsgSize_def read_full_def)
qed

text \<open>C29: Two frames on which the process ends. Instead of a handshake a remote node sends a single zero byte, a frame
  without content: the reader of the handshake has neither a message nor an error then and follows the nil message. Or
  it sends, as its certificate, any bytes that are not in PEM form: the parser of certificates follows the nil block. In
  neither case has the remote node proved anything, and the panic is not recovered.\<close>

theorem handshake_panics:
  assumes "p2_writes E cn" and "length (ms_Serialize (NewMsg (p2_crypto E) t (eh_Serialize (Some e)))) \<le> unat maxMsgSize"
    and "length (eh_Hashed e) = 32" and "eh_Cert e \<noteq> []" and "pem_Decode (p2_certs E) (eh_Cert e) = None"
  shows "doHandshake E cn (0 # r) pk = nil_deref \<and>
     readEncHandshake E cn cert (ms_write (NewMsg (p2_crypto E) t (eh_Serialize (Some e))) @ r) pk' = nil_deref"
proof
  show "doHandshake E cn (0 # r) pk = nil_deref"
    using assms(1) by (simp add: doHandshake_def doProtoHandshake_def readProtoHandshake_def readMsg_empty Let_def nil_deref_def)
  have "eh_Deserialize (eh_Serialize (Some e)) = e"
    using assms(3) fits_payload [OF assms(2)] by (rule eh_Deserialize_Serialize [rotated])
  then show "readEncHandshake E cn cert (ms_write (NewMsg (p2_crypto E) t (eh_Serialize (Some e))) @ r) pk' = nil_deref"
    using assms(4,5) readMsg_write [OF assms(2)]
    by (simp add: readEncHandshake_def eh_matchProtocol_def ParseCrt_def nil_deref_def NewMsg_def)
qed

lemma GetEnc_cached: "pk_encHandshake pk = Some e \<Longrightarrow> GetEncHandshake E cert key pk = Ret (Some e, pk)"
  by (simp add: GetEncHandshake_def)

lemma send_msg_frame [simp]:
  "pk_encHandshake (send_msg w m pk) = pk_encHandshake pk" "pk_handshakings (send_msg w m pk) = pk_handshakings pk"
  "pk_addPeer (send_msg w m pk) = pk_addPeer pk" "pk_localPeer (send_msg w m pk) = pk_localPeer pk"
  by (simp_all add: send_msg_def split: option.splits)

lemma GetProto_send [simp]: "GetProtoHandshake E (send_msg w m pk) = GetProtoHandshake E pk"
  by (simp add: GetProtoHandshake_def)

definition hs_stream :: "crypto_env \<Rightarrow> u8 \<Rightarrow> u8 \<Rightarrow> ProtoHandshake \<Rightarrow> EncHandshake \<Rightarrow> bytes" where
  "hs_stream c t t' proto e = ms_write (NewMsg c t (ph_Serialize proto)) @ ms_write (NewMsg c t' (eh_Serialize (Some e)))"

lemma doProto_ok:
  assumes "p2_writes E cn" and "length (ms_Serialize (NewMsg (p2_crypto E) t (ph_Serialize proto))) \<le> unat maxMsgSize"
    and "ph_matchProtocol proto (GetProtoHandshake E pk)" and "\<not> pm_contains (pk_peers pk) (ph_ID proto)"
  shows "\<exists>pk1. doProtoHandshake E cn (ms_write (NewMsg (p2_crypto E) t (ph_Serialize proto)) @ r) pk = Ret ((None, r), pk1) \<and>
     gm_get (pk_handshakings pk1) cn = Some (NewPeer (ph_ID proto) (Some cn) (ph_SrvAddress proto) (cf_Protocols (p2_config E))) \<and>
     pk_encHandshake pk1 = pk_encHandshake pk \<and> pk_addPeer pk1 = pk_addPeer pk"
proof -
  have "ph_Deserialize (ph_Serialize proto) = proto"
    using fits_payload [OF assms(2)] by (rule ph_Deserialize_Serialize)
  then show ?thesis
    using assms readMsg_write [OF assms(2)]
    by (simp add: doProtoHandshake_def readProtoHandshake_def Let_def NewMsg_def)
qed

lemma doEnc_ok:
  assumes "p2_writes E cn" and "length (ms_Serialize (NewMsg (p2_crypto E) t (eh_Serialize (Some e)))) \<le> unat maxMsgSize"
    and "length (eh_Hashed e) = 32" and "eh_matchProtocol (p2_certs E) e (RootCertificate E) = Ret True"
    and "pk_encHandshake pk = Some own" and "gm_get (pk_handshakings pk) cn = Some p"
  shows "\<exists>pk1. doEncHandshake E cn (ms_write (NewMsg (p2_crypto E) t (eh_Serialize (Some e))) @ r) pk = Ret ((None, r), pk1) \<and>
     pk_addPeer pk1 = pk_addPeer pk @ [p]"
proof -
  have d: "eh_Deserialize (eh_Serialize (Some e)) = e"
    using assms(3) fits_payload [OF assms(2)] by (rule eh_Deserialize_Serialize [rotated])
  have p: "ms_Payload (NewMsg (p2_crypto E) t (eh_Serialize (Some e))) = eh_Serialize (Some e)" by (simp add: NewMsg_def)
  show ?thesis
    using assms readMsg_write [OF assms(2), of r] d p
    by (simp add: doEncHandshake_def readEncHandshake_def Let_def GetEnc_cached)
qed

text \<open>C20: A remote node that sends the two messages of the handshake, with a certificate that says of itself that it belongs
  to an authority, is admitted under the ID it claims. The certificate is compared with nothing, the signature is not
  looked at, and the text that is signed is constant; who holds no key at all but such a certificate passes.\<close>

theorem handshake_admits:
  assumes "p2_writes E cn" and "pk_encHandshake pk = Some own"
    and "length (ms_Serialize (NewMsg (p2_crypto E) t (ph_Serialize proto))) \<le> unat maxMsgSize"
    and "length (ms_Serialize (NewMsg (p2_crypto E) t' (eh_Serialize (Some e)))) \<le> unat maxMsgSize"
    and "ph_Name proto = ''l0-base-protocol''" and "ph_Version proto = ''0.0.1''" and "\<not> pm_contains (pk_peers pk) (ph_ID proto)"
    and "length (eh_Hashed e) = 32" and "eh_Cert e \<noteq> []" and "pem_Decode (p2_certs E) (eh_Cert e) = Some der"
    and "ParseCertificate (p2_certs E) der = Some crt" and "IsCA (p2_certs E) crt"
  shows "\<exists>pk'. doHandshake E cn (hs_stream (p2_crypto E) t t' proto e) pk = Ret ((None, []), pk') \<and>
     pk_addPeer pk' = pk_addPeer pk @ [NewPeer (ph_ID proto) (Some cn) (ph_SrvAddress proto) (cf_Protocols (p2_config E))]"
proof -
  let ?r = "ms_write (NewMsg (p2_crypto E) t' (eh_Serialize (Some e)))"
  have "ph_matchProtocol proto (GetProtoHandshake E pk)"
    using assms by (simp add: ph_matchProtocol_def GetProtoHandshake_def)
  then obtain pk1 where 1: "doProtoHandshake E cn (ms_write (NewMsg (p2_crypto E) t (ph_Serialize proto)) @ ?r) pk = Ret ((None, ?r), pk1)"
      "gm_get (pk_handshakings pk1) cn = Some (NewPeer (ph_ID proto) (Some cn) (ph_SrvAddress proto) (cf_Protocols (p2_config E)))"
      "pk_encHandshake pk1 = Some own" "pk_addPeer pk1 = pk_addPeer pk"
    using doProto_ok [of E cn t proto pk ?r] assms by auto
  have "eh_matchProtocol (p2_certs E) e (RootCertificate E) = Ret True"
    using assms by (simp add: eh_matchProtocol_def ParseCrt_def)
  with doEnc_ok [of E cn t' e pk1 own _ "[]"] assms 1 show ?thesis
    by (auto simp: doHandshake_def hs_stream_def)
qed

section \<open>Saving and loading\<close>

lemma split_at_not_Nil [simp]: "split_at d s \<noteq> []"
  by (induction s) (simp_all split: list.splits)

lemma split_at_sep: "split_at d (d # s) = [] # split_at d s"
  by (simp split: list.splits)

lemma join_leading: "n \<noteq> 0 \<Longrightarrow> xs \<noteq> [] \<Longrightarrow> \<exists>s. join_bytes d (replicate n [] @ xs) = d # s"
  by (cases n; cases xs; cases "n - 1") simp_all

text \<open>A column family that is there and an engine whose writes succeed.\<close>

definition writable :: "('d, 'c) p2p_env \<Rightarrow> 'd BlockchainDB \<Rightarrow> bool" where
  "writable E db \<longleftrightarrow> ''peer'' \<in> set (cfHandlers db) \<and> rocks_ok (p2_rocks E) \<and>
     (\<forall>cf k v d. fst (PutCF (p2_rocks E) cf k v d) = None)"

lemma put_ok:
  assumes "writable E db"
  shows "\<exists>db'. db_Put (p2_rocks E) ''peer'' k v db = Ret (Inr (), db') \<and> writable E db' \<and>
     (\<forall>k'. GetCF (p2_rocks E) (DB db') ''peer'' k' = (if k' = k then Inr (Some v) else GetCF (p2_rocks E) (DB db) ''peer'' k'))"
  using assms
  by (auto simp: db_Put_def db_result_def checkIfColumnExists_def writable_def rocks_ok_def split: prod.splits)

lemma save_fold:
  assumes "writable E db" and "\<forall>p \<in> set ps. pe_ID p \<noteq> []"
  shows "\<exists>db'. go_fold (save_peer (p2_rocks E)) ps (l, db) = Ret (l @ map pe_ID ps, db') \<and> writable E db' \<and>
     GetCF (p2_rocks E) (DB db') ''peer'' [] = GetCF (p2_rocks E) (DB db) ''peer'' []"
  using assms
proof (induction ps arbitrary: l db)
  case (Cons p ps)
  obtain db1 where 1: "db_Put (p2_rocks E) ''peer'' (pe_ID p) (str_bytes (pe_Address p)) db = Ret (Inr (), db1)" "writable E db1"
      "GetCF (p2_rocks E) (DB db1) ''peer'' [] = GetCF (p2_rocks E) (DB db) ''peer'' []"
    using put_ok [OF Cons.prems(1), of "pe_ID p" "str_bytes (pe_Address p)"] Cons.prems(2) by auto
  then show ?case using Cons.IH [OF 1(2), of "l @ [pe_ID p]"] Cons.prems(2) by (simp add: save_peer_def)
qed simp

lemma load_fold:
  "writable E (pk_db pk) \<Longrightarrow> \<exists>pk' ts. go_fold (load_peer E) ids pk = Ret pk' \<and> pk_dialTask pk' = pk_dialTask pk @ ts"
proof (induction ids arbitrary: pk)
  case (Cons i ids)
  obtain pk1 where 1: "load_peer E i pk = Ret pk1" "pk_db pk1 = pk_db pk" "\<exists>ts. pk_dialTask pk1 = pk_dialTask pk @ ts"
    using Cons.prems by (auto simp: load_peer_def db_Get_def checkIfColumnExists_def writable_def split: sum.split option.split)
  then show ?case using Cons.IH [of pk1] Cons.prems by auto
qed simp

text \<open>A node whose peers were saved does not start again. The saved list begins with as many empty entries as there were
  peers; for an empty entry the start reads no address, from which no peer is parsed, and queues the nil peer that
  came with the ignored error; to connect to it ends the process. The hypothesis on \<open>p2_url_Parse\<close> is what the library
  says of the empty text: a URL without scheme, user and host.\<close>

theorem saved_peers_stop_start:
  assumes "writable E (pk_db pk)" and "pk_peers pk \<noteq> []" and "pm_getPeers (p2_order E (pk_peers pk)) \<noteq> []"
    and "\<forall>p \<in> set (pm_getPeers (p2_order E (pk_peers pk))). pe_ID p \<noteq> []"
    and "GetCF (p2_rocks E) (DB (pk_db pk)) ''peer'' [] = Inr None" and "p2_url_Parse E [] = Some ([], None, [])"
    and "pk_dialTask pk0 = []"
  shows "\<exists>pk' pk'' ts. savePeers E pk = Ret pk' \<and> pk_init E (pk0\<lparr>pk_db := pk_db pk'\<rparr>) = Ret pk'' \<and>
     pk_dialTask pk'' = None # ts \<and> pk_connect E None (pk''\<lparr>pk_dialTask := ts\<rparr>) = nil_deref"
proof -
  let ?ps = "pm_getPeers (p2_order E (pk_peers pk))" and ?n = "length (pk_peers pk)"
  obtain db1 where 1: "go_fold (save_peer (p2_rocks E)) ?ps (replicate ?n [], pk_db pk) = Ret (replicate ?n [] @ map pe_ID ?ps, db1)"
      "writable E db1" "GetCF (p2_rocks E) (DB db1) ''peer'' [] = Inr None"
    using save_fold [OF assms(1,4), of "replicate ?n []"] assms(5) by auto
  obtain s where s: "join_bytes 38 (replicate ?n [] @ map pe_ID ?ps) = 38 # s"
    using join_leading [of ?n "map pe_ID ?ps"] assms(2,3) by auto
  obtain db2 where 2: "db_Put (p2_rocks E) ''peer'' (str_bytes ''peerList'') (38 # s) db1 = Ret (Inr (), db2)" "writable E db2"
      "\<forall>k'. GetCF (p2_rocks E) (DB db2) ''peer'' k' =
         (if k' = str_bytes ''peerList'' then Inr (Some (38 # s)) else GetCF (p2_rocks E) (DB db1) ''peer'' k')"
    using put_ok [OF 1(2)] by blast
  have save: "savePeers E pk = Ret (pk\<lparr>pk_db := db2\<rparr>)" using assms(2) 1 2 s by (simp add: savePeers_def)
  let ?f = "pk0\<lparr>pk_db := db2\<rparr>"
  have e: "str_bytes ''peerList'' \<noteq> []" by (simp add: str_bytes_def)
  have "load_peer E [] ?f = Ret (?f\<lparr>pk_dialTask := [None]\<rparr>)"
    using 1(3) 2 e assms(6,7) by (auto simp: load_peer_def db_Get_def checkIfColumnExists_def writable_def ParsePeer_def bytes_str_def)
  moreover obtain pk'' ts where "go_fold (load_peer E) (split_at 38 s) (?f\<lparr>pk_dialTask := [None]\<rparr>) = Ret pk''"
      "pk_dialTask pk'' = [None] @ ts"
    using load_fold [of E "?f\<lparr>pk_dialTask := [None]\<rparr>" "split_at 38 s"] 2(2) by auto
  moreover have "db_Get (p2_rocks E) db2 ''peer'' (str_bytes ''peerList'') = Ret (Inr (38 # s))"
    using 2 by (simp add: db_Get_def checkIfColumnExists_def writable_def)
  ultimately have "pk_init E ?f = Ret pk'' \<and> pk_dialTask pk'' = None # ts"
    by (simp add: pk_init_def split_at_sep del: split_at.simps)
  with save show ?thesis by (auto simp: pk_connect_def)
qed

section \<open>A node\<close>

definition sample_peer :: "u8 \<Rightarrow> conn \<Rightarrow> Peer" where
  "sample_peer i cn = NewPeer [i] (Some cn) ''h:1'' []"

definition sample_certs :: "bytes certs" where
  "sample_certs = \<lparr>pem_Decode = \<lambda>b. if b = [9] then Some [8] else None, ParseCertificate = \<lambda>b. Some b, IsCA = \<lambda>b. b = [8],
     CheckSignatureFrom = \<lambda>_ _. False, rsa_PublicKey = \<lambda>_. True, VerifyPKCS1v15 = \<lambda>_ _ _. False,
     ParsePKCS1PrivateKey = \<lambda>_. None, SignPKCS1v15 = \<lambda>_ _. None\<rparr>"

definition sample_p2 :: "(mem, bytes) p2p_env" where
  "sample_p2 = \<lparr>p2_crypto = \<lparr>sum256 = \<lambda>b. replicate 32 7, RecoverPubkey = \<lambda>h s. None, curve_N = 5\<rparr>, p2_rocks = mem_rocks,
     p2_certs = sample_certs, p2_config = p2p_DefaultConfig, p2_url_Parse = \<lambda>s. if s = [] then Some ([], None, []) else None,
     p2_order = \<lambda>m. m, p2_protos = \<lambda>m. m, p2_writes = \<lambda>_. True, p2_SrvAddress = ''a:1'', CAEnabled = False, PrivateKey = [],
     RootCertificate = [9], Certificate = []\<rparr>"

definition sample_enc :: "u8 \<Rightarrow> EncHandshake" where
  "sample_enc i = \<lparr>eh_ID = [5], eh_Signature = [], eh_Hashed = replicate 32 7, eh_Cert = [i]\<rparr>"

definition sample_pk :: "mem peerManager" where
  "sample_pk = \<lparr>pk_localPeer = NewPeer [1] None ''a:1'' [], pk_peers = [], pk_handshakings = [], pk_dialings = [], pk_dialers = [],
     pk_addPeer = [sample_peer 5 3, sample_peer 5 4], pk_delPeer = [], pk_alivePeer = [], pk_clientConn = [], pk_dialTask = [],
     pk_broadcastCh = [], pk_sent = [], pk_closed = [], pk_db = mem_db, pk_encHandshake = Some (sample_enc 9)\<rparr>"

lemma length_VarInt_le: "length (VarInt n) \<le> 9"
  by (simp add: VarInt_def Let_def)

lemma message_size: "length p \<le> 1000 \<Longrightarrow> length (ms_Serialize (NewMsg c t p)) \<le> unat maxMsgSize"
  using length_VarInt_le [of "ucast t"] length_VarInt_le [of "len64 p"] length_VarInt_le [of 4]
  by (simp add: ms_Serialize_def Serialize_def ms_val_def NewMsg_def maxMsgSize_def)

lemma sample_size:
  "length (ms_Serialize (NewMsg (p2_crypto sample_p2) t (eh_Serialize (Some (sample_enc i))))) \<le> unat maxMsgSize"
  "length (ms_Serialize (NewMsg (p2_crypto sample_p2) t (ph_Serialize (GetProtoHandshake sample_p2 sample_pk)))) \<le> unat maxMsgSize"
  using length_VarInt_le [of 1] length_VarInt_le [of 0] length_VarInt_le [of 32] length_VarInt_le [of 16] length_VarInt_le [of 5] length_VarInt_le [of 3]
  by (auto intro!: message_size simp: eh_Serialize_def ph_Serialize_def Serialize_def eh_val_def sample_enc_def
      GetProtoHandshake_def sample_p2_def sample_pk_def NewPeer_def str_bytes_def)

theorem handshake_panics_witness:
  "doHandshake sample_p2 3 (0 # []) sample_pk = nil_deref \<and>
   readEncHandshake sample_p2 3 [] (ms_write (NewMsg (p2_crypto sample_p2) 4 (eh_Serialize (Some (sample_enc 2)))) @ []) sample_pk = nil_deref"
  using sample_size(1) [of 4 2]
  by (intro handshake_panics) (simp_all add: sample_p2_def sample_enc_def sample_certs_def)

theorem handshake_admits_witness:
  "\<exists>pk'. doHandshake sample_p2 3 (hs_stream (p2_crypto sample_p2) 3 4 (GetProtoHandshake sample_p2 sample_pk) (sample_enc 9)) sample_pk
      = Ret ((None, []), pk') \<and>
     pk_addPeer pk' = pk_addPeer sample_pk @ [NewPeer [1] (Some 3) ''a:1'' []]"
  using handshake_admits [of sample_p2 3 sample_pk "sample_enc 9" 3 "GetProtoHandshake sample_p2 sample_pk" 4 "sample_enc 9" "[8]" "[8]"]
    sample_size(1) [of 4 9] sample_size(2) [of 3]
  by (simp add: sample_p2_def sample_pk_def sample_enc_def sample_certs_def GetProtoHandshake_def pm_contains_def
      NewPeer_def p2p_DefaultConfig_def)

theorem saved_peers_stop_start_witness:
  "\<exists>pk' pk'' ts. savePeers sample_p2 (sample_pk\<lparr>pk_peers := [(3, sample_peer 5 3)]\<rparr>) = Ret pk' \<and>
     pk_init sample_p2 (sample_pk\<lparr>pk_db := pk_db pk'\<rparr>) = Ret pk'' \<and> pk_dialTask pk'' = None # ts \<and>
     pk_connect sample_p2 None (pk''\<lparr>pk_dialTask := ts\<rparr>) = nil_deref"
  using mem_rocks_ok
  by (intro saved_peers_stop_start)
    (simp_all add: writable_def sample_p2_def sample_pk_def sample_peer_def mem_db_def mem_rocks_def DefaultConfig_def
      pm_getPeers_def reachable_addr_def NewPeer_def)

section \<open>No peer twice\<close>

text \<open>C10: Whatever the order in which the goroutines of the layer take their turns - peers added, dropped, pinged, dialled and
  shaking hands at the same time - a peer is kept under its own connection, and no two connections have a peer with the
  same ID. The check in the handshake is not enough for this, as two handshakes may pass it together; the manager's own
  check when it takes the peer from the channel is.\<close>

theorem connected_peers_distinct:
  assumes "pk_peers pk = []" and "pk_steps E pk pk'" and "GetPeer pk' cn = Some p"
  shows "pe_Conn p = Some cn \<and> (\<forall>cn' p'. GetPeer pk' cn' = Some p' \<and> pe_ID p' = pe_ID p \<longrightarrow> cn' = cn)"
  using steps_peers [OF assms(2)] assms(1,3) unfolding GetPeer_def peers_ok_def by force

lemma sample_steps:
  "\<exists>pk'. pk_steps sample_p2 sample_pk pk' \<and> GetPeer pk' 3 = Some (sample_peer 5 3) \<and> pk_closed pk' = [4]"
proof -
  let ?p = "sample_pk\<lparr>pk_addPeer := [sample_peer 5 4]\<rparr>"
  obtain db' where 1: "pk_add sample_p2 0 (sample_peer 5 3) ?p = Ret (?p\<lparr>pk_peers := gm_set 3 (sample_peer 5 3) [], pk_db := db'\<rparr>)"
    by (simp add: pk_add_def sample_peer_def NewPeer_def pm_contains_def sample_pk_def sample_p2_def db_Put_def
        checkIfColumnExists_def mem_db_def DefaultConfig_def db_result_def mem_rocks_def)
  let ?q = "?p\<lparr>pk_peers := gm_set 3 (sample_peer 5 3) [], pk_db := db'\<rparr>"
  have 2: "pk_add sample_p2 0 (sample_peer 5 4) (?q\<lparr>pk_addPeer := []\<rparr>) = Ret (close_conn (Some 4) (?q\<lparr>pk_addPeer := []\<rparr>))"
    by (simp add: pk_add_def sample_peer_def NewPeer_def pm_contains_def)
  have "pk_step sample_p2 sample_pk ?q" using pk_step.Add [of sample_pk _ _ sample_p2 0, OF _ 1] by (simp add: sample_pk_def)
  moreover have "pk_step sample_p2 ?q (close_conn (Some 4) (?q\<lparr>pk_addPeer := []\<rparr>))"
    using pk_step.Add [of ?q _ _ sample_p2 0, OF _ 2] by simp
  ultimately have "pk_steps sample_p2 sample_pk (close_conn (Some 4) (?q\<lparr>pk_addPeer := []\<rparr>))" unfolding pk_steps_def by auto
  then show ?thesis by (auto simp: GetPeer_def close_conn_def sample_pk_def)
qed

theorem connected_peers_distinct_witness:
  "\<exists>pk'. pk_steps sample_p2 sample_pk pk' \<and> GetPeer pk' 3 = Some (sample_peer 5 3) \<and> pe_Conn (sample_peer 5 3) = Some 3 \<and>
     GetPeer pk' 4 \<noteq> Some (sample_peer 5 4)"
proof -
  obtain pk' where 1: "pk_steps sample_p2 sample_pk pk'" "GetPeer pk' 3 = Some (sample_peer 5 3)" using sample_steps by blast
  have "pk_peers sample_pk = []" by (simp add: sample_pk_def)
  from connected_peers_distinct [OF this 1] 1 show ?thesis by (force simp: sample_peer_def NewPeer_def)
qed

end
