(* ===== verification/Merge_Laws.thy ===== *)
theory Merge_Laws
  imports Merge P2p_Laws
begin

text \<open>
  What the merge service guarantees: netting moves between every two chains exactly what their transactions move; a
  transaction is handed on only when more than half of the nodes sent it, as counted by the number that the last of them
  names; and what goes wrong with expired items and with the life span of an item.
\<close>

section \<open>Keys\<close>

abbreviation pair_key :: "ChainCoordinate \<Rightarrow> ChainCoordinate \<Rightarrow> string" where
  "pair_key a b \<equiv> chainCoordinatesToString (cc_String a) (cc_String b)"

lemma hex_no_bar: "CHR ''|'' \<notin> set (BytesToHex bs)"
proof -
  have d: "hex_digit n \<noteq> CHR ''|''" if "n < 16" for n
  proof
    assume "hex_digit n = CHR ''|''"
    then have "(of_char (hex_digit n) :: nat) = of_char (CHR ''|'')" by simp
    then show False using that by (auto simp: hex_digit_def split: if_splits)
  qed
  have "CHR ''|'' \<notin> set (hex_byte b)" for b
  proof -
    have "unat b div 16 < 16" "unat b mod 16 < 16" using unat_u8_less [of b] by simp_all
    from this [THEN d] show ?thesis by (auto simp: hex_byte_def)
  qed
  then show ?thesis by (auto simp: BytesToHex_def)
qed

lemma split_at_append: "d \<notin> set s \<Longrightarrow> split_at d (s @ d # t) = s # split_at d t"
proof (induction s)
  case Nil
  then show ?case by (simp add: split_at_sep del: split_at.simps)
qed auto

lemma split_at_none: "d \<notin> set s \<Longrightarrow> split_at d s = [s]"
  by (induction s) auto

lemma pair_key_coordinates [simp]: "stringToChainCoordinates (pair_key a b) = (a, b)"
  by (simp add: stringToChainCoordinates_def chainCoordinatesToString_def cc_String_def split_at_append split_at_none hex_no_bar
      HexToChainCoordinate_def NewChainCoordinate_def)

lemma pair_key_inj [simp]: "pair_key a b = pair_key a' b' \<longleftrightarrow> a = a' \<and> b = b'"
  using pair_key_coordinates by (metis Pair_inject)

section \<open>Netting\<close>

definition entry :: "(string, amountTimeHash) gomap \<Rightarrow> ChainCoordinate \<Rightarrow> ChainCoordinate \<Rightarrow> int" where
  "entry m a b = (case gm_get m (pair_key a b) of Some ath \<Rightarrow> the (at_amount ath) | None \<Rightarrow> 0)"

text \<open>Every key is one of two chains, no two chains have entries in both directions, and the amounts are there.\<close>

definition net_ok :: "(string, amountTimeHash) gomap \<Rightarrow> bool" where
  "net_ok m \<longleftrightarrow> gm_wf m \<and> (\<forall>k ath. gm_get m k = Some ath \<longrightarrow> (\<exists>a b. k = pair_key a b) \<and> at_amount ath \<noteq> None) \<and>
     (\<forall>a b. a \<noteq> b \<longrightarrow> \<not> (gm_has m (pair_key a b) \<and> gm_has m (pair_key b a)))"

definition moves :: "Transaction \<Rightarrow> ChainCoordinate \<Rightarrow> ChainCoordinate \<Rightarrow> int" where
  "moves tx a b = (if td_FromChain (tx_Data tx) = a \<and> td_ToChain (tx_Data tx) = b then the (tx_Amount tx) else 0)"

lemma ath_update_amount:
  "ath_update f c tx ath = Ret ath' \<Longrightarrow> at_amount ath' = Some (f (the (at_amount ath)) (the (tx_Amount tx)))"
  by (auto simp: ath_update_def big_op_def big_val_Ret_iff)

lemma entry_set: "entry (gm_set (pair_key x y) ath m) a b = (if a = x \<and> b = y then the (at_amount ath) else entry m a b)"
  by (simp add: entry_def gm_get_set)

lemma entry_get: "gm_get m (pair_key x y) = Some ath \<Longrightarrow> entry m x y = the (at_amount ath)"
  "gm_get m (pair_key x y) = None \<Longrightarrow> entry m x y = 0"
  by (simp_all add: entry_def)

lemma net_set:
  assumes "net_ok m" and "at_amount ath \<noteq> None" and "x = y \<or> \<not> gm_has m (pair_key y x)"
  shows "net_ok (gm_set (pair_key x y) ath m)"
  unfolding net_ok_def
proof (intro conjI allI impI)
  show "gm_wf (gm_set (pair_key x y) ath m)" using assms(1) by (simp add: net_ok_def)
next
  fix k ath' assume "gm_get (gm_set (pair_key x y) ath m) k = Some ath'"
  then have "k = pair_key x y \<and> ath' = ath \<or> gm_get m k = Some ath'" by (simp add: gm_get_set split: if_splits)
  then show "\<exists>a b. k = pair_key a b" "at_amount ath' \<noteq> None" using assms(1,2) unfolding net_ok_def by blast+
next
  fix a b :: ChainCoordinate assume "a \<noteq> b"
  moreover have "\<not> (gm_has m (pair_key a b) \<and> gm_has m (pair_key b a))" using assms(1) \<open>a \<noteq> b\<close> unfolding net_ok_def by blast
  ultimately show "\<not> (gm_has (gm_set (pair_key x y) ath m) (pair_key a b) \<and> gm_has (gm_set (pair_key x y) ath m) (pair_key b a))"
    using assms(3) by auto
qed

lemma net_tx_cases:
  assumes "net_tx c tx m = Ret m'" and "x = td_FromChain (tx_Data tx)" and "y = td_ToChain (tx_Data tx)"
  obtains (add) ath ath' where "gm_get m (pair_key x y) = Some ath" "at_amount ath' = Some (the (at_amount ath) + the (tx_Amount tx))"
      "m' = gm_set (pair_key x y) ath' m"
    | (sub) ath ath' where "gm_get m (pair_key x y) = None" "gm_get m (pair_key y x) = Some ath"
      "at_amount ath' = Some (the (at_amount ath) - the (tx_Amount tx))" "m' = gm_set (pair_key y x) ath' m"
    | (new) ath' where "gm_get m (pair_key x y) = None" "gm_get m (pair_key y x) = None" "at_amount ath' = tx_Amount tx"
      "m' = gm_set (pair_key x y) ath' m"
proof -
  note d = assms(1) [unfolded net_tx_def Let_def tx_FromChain_def tx_ToChain_def, folded assms(2,3)]
  show thesis
  proof (cases "gm_get m (pair_key x y)")
    case (Some ath)
    then obtain ath' where "ath_update (+) c tx ath = Ret ath'" "m' = gm_set (pair_key x y) ath' m" using d by auto
    then show thesis using Some ath_update_amount by (intro add) auto
  next
    case n: None
    show thesis
    proof (cases "gm_get m (pair_key y x)")
      case (Some ath)
      then obtain ath' where "ath_update (-) c tx ath = Ret ath'" "m' = gm_set (pair_key y x) ath' m" using d n by auto
      then show thesis using Some n ath_update_amount by (intro sub) auto
    next
      case None
      then show thesis using d n by (intro new [of "\<lparr>at_amount = tx_Amount tx, at_fee = tx_Fee tx, at_txTime = td_CreateTime (tx_Data tx),
        at_txsHash = [tx_hash c tx]\<rparr>"]) auto
    qed
  qed
qed

lemma net_tx_step:
  assumes m: "net_ok m" and t: "tx_Amount tx \<noteq> None" and s: "net_tx c tx m = Ret m'"
  shows "net_ok m' \<and> (a \<noteq> b \<longrightarrow> entry m' a b - entry m' b a = entry m a b - entry m b a + moves tx a b - moves tx b a)"
proof -
  define x y where xy: "x = td_FromChain (tx_Data tx)" "y = td_ToChain (tx_Data tx)"
  have mv: "moves tx a b = (if x = a \<and> y = b then the (tx_Amount tx) else 0)" for a b by (simp add: moves_def xy)
  from s xy show ?thesis
  proof (cases rule: net_tx_cases)
    case (add ath ath')
    have "x = y \<or> \<not> gm_has m (pair_key y x)" using m add(1) unfolding net_ok_def gm_has_def by (metis option.discI)
    then have "net_ok m'" using net_set [OF m, of ath' x y] add by simp
    moreover have "the (at_amount ath') = entry m x y + the (tx_Amount tx)" using entry_get(1) [OF add(1)] add(2) by simp
    ultimately show ?thesis by (simp add: add(3) entry_set mv)
  next
    case (sub ath ath')
    have "net_ok m'" using net_set [OF m, of ath' y x] sub by (simp add: gm_has_def)
    moreover have "the (at_amount ath') = entry m y x - the (tx_Amount tx)" using entry_get(1) [OF sub(2)] sub(3) by simp
    ultimately show ?thesis by (simp add: sub(4) entry_set mv)
  next
    case (new ath')
    have "net_ok m'" using net_set [OF m, of ath' x y] new t by (simp add: gm_has_def)
    moreover have "the (at_amount ath') = entry m x y + the (tx_Amount tx)" using entry_get(2) [OF new(1)] new(3) by simp
    ultimately show ?thesis by (simp add: new(4) entry_set mv)
  qed
qed

lemma net_fold:
  assumes "net_ok m" and "list_all (\<lambda>tx. tx_Amount tx \<noteq> None) txs" and "go_fold (net_tx c) txs m = Ret m'"
  shows "net_ok m' \<and> (a \<noteq> b \<longrightarrow> entry m' a b - entry m' b a =
    entry m a b - entry m b a + sum_list (map (\<lambda>tx. moves tx a b) txs) - sum_list (map (\<lambda>tx. moves tx b a) txs))"
  using assms
proof (induction txs arbitrary: m)
  case (Cons tx txs)
  then obtain m1 where m1: "net_tx c tx m = Ret m1" "go_fold (net_tx c) txs m1 = Ret m'" by auto
  have t: "tx_Amount tx \<noteq> None" using Cons.prems(2) by simp
  from net_tx_step [OF Cons.prems(1) t m1(1), of a b] Cons.IH [of m1] Cons.prems(2) m1(2) show ?case by auto
qed simp

text \<open>What payments move from \<open>a\<close> to \<open>b\<close>, the payments of the entries, and what transactions sent.\<close>

definition paid :: "(ChainCoordinate \<times> ChainCoordinate \<times> int) list \<Rightarrow> ChainCoordinate \<Rightarrow> ChainCoordinate \<Rightarrow> int" where
  "paid ps a b = sum_list (map (\<lambda>(x, y, n). if x = a \<and> y = b then n else 0) ps)"

definition payments :: "(string \<times> amountTimeHash) list \<Rightarrow> (ChainCoordinate \<times> ChainCoordinate \<times> int) list" where
  "payments kvs = map (\<lambda>(k, v). settlement k (the (at_amount v))) kvs"

definition sent :: "Transaction list \<Rightarrow> ChainCoordinate \<Rightarrow> ChainCoordinate \<Rightarrow> int" where
  "sent txs a b = sum_list (map (\<lambda>tx. if td_FromChain (tx_Data tx) = a \<and> td_ToChain (tx_Data tx) = b then the (tx_Amount tx) else 0) txs)"

lemma sum_two_keys:
  assumes "distinct (map fst m)" and "k1 \<noteq> k2" and "\<forall>(k, v) \<in> set m. k \<noteq> k1 \<longrightarrow> k \<noteq> k2 \<longrightarrow> f (k, v) = (0 :: int)"
  shows "sum_list (map f m) = (case gm_get m k1 of Some v \<Rightarrow> f (k1, v) | None \<Rightarrow> 0) + (case gm_get m k2 of Some v \<Rightarrow> f (k2, v) | None \<Rightarrow> 0)"
  using assms
proof (induction m)
  case (Cons kv m)
  obtain k v where kv: "kv = (k, v)" by fastforce
  have "gm_get m k = None" using Cons.prems(1) kv by (simp add: map_of_eq_None_iff)
  then show ?case using Cons.IH Cons.prems kv by (auto split: option.splits)
qed simp

lemma settlement_pair: "settlement (pair_key x y) n = (if n < 0 then (y, x, - n) else (x, y, n))"
  by (simp add: settlement_def)

lemma paid_entries:
  assumes "net_ok m" and "a \<noteq> b"
  shows "paid (payments m) a b = max 0 (entry m a b) + max 0 (- entry m b a)"
proof -
  let ?f = "\<lambda>(k, v). case settlement k (the (at_amount v)) of (x, y, n) \<Rightarrow> if x = a \<and> y = b then n else 0"
  have d: "distinct (map fst m)" and k: "pair_key a b \<noteq> pair_key b a" using assms by (simp_all add: net_ok_def gm_wf_def)
  have "?f (k, v) = 0" if kv: "(k, v) \<in> set m" "k \<noteq> pair_key a b" "k \<noteq> pair_key b a" for k v
  proof -
    have "gm_get m k = Some v" using kv(1) d by simp
    then obtain x y where k: "k = pair_key x y" using assms(1) unfolding net_ok_def by blast
    have "\<not> (x = a \<and> y = b)" "\<not> (y = a \<and> x = b)" using kv(2,3) by (auto simp only: k)
    then show ?thesis by (cases "the (at_amount v) < 0") (simp_all only: k settlement_pair prod.case if_True if_False)
  qed
  then have "\<forall>(k, v) \<in> set m. k \<noteq> pair_key a b \<longrightarrow> k \<noteq> pair_key b a \<longrightarrow> ?f (k, v) = 0" by auto
  from sum_two_keys [OF d k this] show ?thesis
    using assms(2) by (auto simp: paid_def payments_def comp_def case_prod_unfold entry_def settlement_pair split: option.splits)
qed

lemma netting_entries:
  assumes "list_all (\<lambda>tx. tx_Amount tx \<noteq> None) txs" and "go_fold (net_tx c) txs gm_empty = Ret m" and "a \<noteq> b"
  shows "paid (payments m) a b - paid (payments m) b a = sent txs a b - sent txs b a"
    and "paid (payments m) a b = 0 \<or> paid (payments m) b a = 0"
proof -
  have e: "net_ok gm_empty" by (simp add: net_ok_def gm_wf_def gm_has_def)
  from net_fold [OF e assms(1,2), of a b] assms(3) have n: "net_ok m" and d: "entry m a b - entry m b a = sent txs a b - sent txs b a"
    by (simp_all add: sent_def moves_def entry_def)
  have "\<not> (gm_has m (pair_key a b) \<and> gm_has m (pair_key b a))" using n assms(3) unfolding net_ok_def by blast
  then have z: "entry m a b = 0 \<or> entry m b a = 0" by (auto simp: gm_has_def entry_get(2))
  show "paid (payments m) a b - paid (payments m) b a = sent txs a b - sent txs b a" "paid (payments m) a b = 0 \<or> paid (payments m) b a = 0"
    using paid_entries [OF n assms(3)] paid_entries [OF n, of b a] assms(3) d z by auto
qed

lemma paid_order:
  assumes "range_order es m"
  shows "paid (payments es) a b = paid (payments m) a b"
proof -
  let ?f = "(\<lambda>(x, y, n). if x = a \<and> y = b then n else 0 :: int)"
  have "mset (map ?f (payments es)) = mset (map ?f (payments m))" using assms by (simp add: payments_def range_order_def)
  then have "sum_mset (mset (map ?f (payments es))) = sum_mset (mset (map ?f (payments m)))" by (rule arg_cong)
  then show ?thesis by (simp only: sum_mset_sum_list paid_def)
qed

text \<open>A transaction that was made for a payment.\<close>

definition made_for :: "'d env \<Rightarrow> ChainCoordinate \<times> ChainCoordinate \<times> int \<Rightarrow> Transaction \<Rightarrow> bool" where
  "made_for E pay tx \<longleftrightarrow> (case pay of (x, y, n) \<Rightarrow>
     \<exists>q f t tx0. maketransaction q E x y n f t = Ret tx0 \<and> tx = snd (tx_Hash (e_crypto E) tx0))"

lemma settle_loop_made:
  "settle_loop p E es ts db = Ret (Inr ts', db') \<Longrightarrow> \<exists>new. ts' = ts @ new \<and> list_all2 (made_for E) (payments es) new"
proof (induction es arbitrary: p ts db)
  case Nil
  then show ?case by (auto simp: ex_ret_def payments_def)
next
  case (Cons kv es)
  obtain k v where kv: "kv = (k, v)" by fastforce
  obtain amount where am: "at_amount v = Some amount" using Cons.prems by (auto simp: kv big_val_Ret_iff)
  obtain x y n where st: "settlement k amount = (x, y, n)" by (rule prod_cases3)
  obtain tx0 and res :: "gerr + unit" and db1 where "maketransaction p E x y n (at_fee v) (at_txTime v) = Ret tx0"
    "(case res of Inl e \<Rightarrow> Ret (Inl e, db1) | Inr _ \<Rightarrow> settle_loop (Suc p) E es (ts @ [snd (tx_Hash (e_crypto E) tx0)]) db1) = Ret (Inr ts', db')"
    using Cons.prems by (auto simp: kv am st ex_bind_def Let_def)
  then have o: "maketransaction p E x y n (at_fee v) (at_txTime v) = Ret tx0"
    "settle_loop (Suc p) E es (ts @ [snd (tx_Hash (e_crypto E) tx0)]) db1 = Ret (Inr ts', db')" by (cases res; simp)+
  obtain new where "ts' = (ts @ [snd (tx_Hash (e_crypto E) tx0)]) @ new" "list_all2 (made_for E) (payments es) new"
    using Cons.IH [OF o(2)] by blast
  moreover have "made_for E (x, y, n) (snd (tx_Hash (e_crypto E) tx0))" using o(1) by (auto simp: made_for_def)
  ultimately show ?case by (intro exI [of _ "snd (tx_Hash (e_crypto E) tx0) # new"]) (simp add: payments_def kv am st)
qed

text \<open>C8: Netting keeps the balance between every two chains. The merged transactions are made for payments, one for each,
  such that for any two chains what is paid from the first to the second less what is paid back is what the
  transactions sent less what they sent back; and at most one of the two directions is paid.\<close>

theorem netting_balanced:
  assumes "list_all (\<lambda>tx. tx_Amount tx \<noteq> None) txs" and "go_fold (net_tx (e_crypto E)) txs gm_empty = Ret m"
    and "range_order es m" and "settle_loop p E es [] db = Ret (Inr ts, db')"
  shows "\<exists>ps. list_all2 (made_for E) ps ts \<and>
    (\<forall>a b. a \<noteq> b \<longrightarrow> paid ps a b - paid ps b a = sent txs a b - sent txs b a \<and> (paid ps a b = 0 \<or> paid ps b a = 0))"
  using settle_loop_made [OF assms(4)] netting_entries [OF assms(1,2)] paid_order [OF assms(3)] by (intro exI [of _ "payments es"]) auto

definition sample_move :: "ChainCoordinate \<Rightarrow> ChainCoordinate \<Rightarrow> int \<Rightarrow> Transaction" where
  "sample_move a b n = NewTransaction 0 a b TypeAcrossChain 1 zero_addr zero_addr (Some n) (Some 1) 3"

abbreviation sample_moves :: "Transaction list" where
  "sample_moves \<equiv> [sample_move [0, 1] [0, 2] 5, sample_move [0, 2] [0, 1] 3]"

abbreviation sample_net :: "(string, amountTimeHash) gomap" where
  "sample_net \<equiv> [(pair_key [0, 1] [0, 2], \<lparr>at_amount = Some 2, at_fee = Some 0, at_txTime = 3, at_txsHash = [replicate 32 7, replicate 32 7]\<rparr>)]"

lemma sample_net_made: "go_fold (net_tx sample_c) sample_moves gm_empty = Ret sample_net"
proof -
  have k: "pair_key [0, 1] [0, 2] \<noteq> pair_key [0, 2] [0, 1]" by (subst pair_key_inj) simp
  have t: "tx_FromChain (sample_move a b n) = cc_String a" "tx_ToChain (sample_move a b n) = cc_String b" "tx_Amount (sample_move a b n) = Some n"
    "tx_Fee (sample_move a b n) = Some 1" "td_CreateTime (tx_Data (sample_move a b n)) = 3" "tx_hash sample_c (sample_move a b n) = replicate 32 7" for a b n
    by (simp_all add: sample_move_def NewTransaction_def tx_FromChain_def tx_ToChain_def tx_Hash_def sample_c_def Let_def DoubleSha256_def NewHash_id)
  show ?thesis by (simp add: net_tx_def ath_update_def big_op_def big_val_def t Let_def k [symmetric])
qed

lemma sample_settled: "\<exists>tx db'. settle_loop 0 sample_E sample_net [] mem_db = Ret (Inr [tx], db')"
proof -
  have st: "settlement (pair_key [0, 1] [0, 2]) 2 = ([0, 1], [0, 2], 2)" unfolding settlement_def pair_key_coordinates by simp
  obtain tx0 where m: "maketransaction 0 sample_E [0, 1] [0, 2] 2 (Some 0) 3 = Ret tx0"
    by (simp add: maketransaction_def ParentCoorinate_def NewChainCoordinate_def ChainCoordinateToAddress_def sample_E_def)
  obtain db' where "ms_PutTxsHashByMergeTxHash (e_rocks sample_E) (tx_hash (e_crypto sample_E) (snd (tx_Hash (e_crypto sample_E) tx0)))
      [replicate 32 7, replicate 32 7] mem_db = Ret (Inr (), db')"
    using db_Put_live [OF mem_rocks_ok mem_rocks_live mem_db_ready0, of "''storage''"] unfolding ms_PutTxsHashByMergeTxHash_def
    by (fastforce simp: sample_E_def)
  then show ?thesis by (simp add: st m big_val_def ex_bind_def ex_ret_def Let_def)
qed

theorem netting_balanced_witness:
  "\<exists>tx db' ps. settle_loop 0 sample_E sample_net [] mem_db = Ret (Inr [tx], db') \<and> list_all2 (made_for sample_E) ps [tx] \<and>
     paid ps [0, 1] [0, 2] - paid ps [0, 2] [0, 1] = 2"
proof -
  obtain tx db' where s: "settle_loop 0 sample_E sample_net [] mem_db = Ret (Inr [tx], db')" using sample_settled by blast
  have a: "list_all (\<lambda>tx. tx_Amount tx \<noteq> None) sample_moves" by (simp add: sample_move_def NewTransaction_def)
  have f: "go_fold (net_tx (e_crypto sample_E)) sample_moves gm_empty = Ret sample_net" using sample_net_made by (simp add: sample_E_def)
  have r: "range_order sample_net sample_net" by (simp add: range_order_def)
  have v: "sent sample_moves [0, 1] [0, 2] = 5" "sent sample_moves [0, 2] [0, 1] = 3"
    by (simp_all add: sent_def moves_def sample_move_def NewTransaction_def)
  obtain ps where "list_all2 (made_for sample_E) ps [tx]" and "\<forall>a b. a \<noteq> b \<longrightarrow> paid ps a b - paid ps b a = sent sample_moves a b - sent sample_moves b a"
    using netting_balanced [OF a f r s] by blast
  then show ?thesis using s v by (intro exI [of _ tx] exI [of _ db'] exI [of _ ps]) simp
qed

section \<open>Counting\<close>

type_synonym report = "merge_env \<times> string \<times> string \<times> u32 \<times> u32 \<times> Transaction"

definition report_step :: "crypto_env \<Rightarrow> report \<Rightarrow> ChainCacheTable \<Rightarrow> ChainCacheTable go" where
  "report_step c r cct = (case r of (M, chainID, peerID, peerNum, duration, tx) \<Rightarrow>
     go_bind (handleTx c M chainID peerID peerNum duration tx cct) (\<lambda>(_, cct'). Ret cct'))"

definition reporters :: "crypto_env \<Rightarrow> report list \<Rightarrow> string \<Rightarrow> string set" where
  "reporters c rs h = set (concat (map (\<lambda>(M, chainID, peerID, peerNum, duration, tx).
     if hash_String (SignHash c tx) = h then [peerID] else []) rs))"

definition counted :: "ChainCacheTable \<Rightarrow> string \<Rightarrow> string set" where
  "counted cct h = {q. gm_has (ct_items (cc_cacheTxsTable cct)) (q @ h)}"

definition votes_ok :: "crypto_env \<Rightarrow> report list \<Rightarrow> ChainCacheTable \<Rightarrow> bool" where
  "votes_ok c rs cct \<longleftrightarrow> (\<forall>h. length h = 64 \<longrightarrow> counted cct h \<subseteq> reporters c rs h) \<and>
     (\<forall>h dot. gm_get (cc_countDot cct) h = Some dot \<longrightarrow> length h = 64 \<and> unat (cd_cnt dot) \<le> card (counted cct h))"

lemma length_hash_String: "length (hash_String (SignHash c tx)) = 64"
  by (simp add: hash_String_def SignHash_def Let_def tx_Hash_def NewTransaction_def)

lemma expirationCheck_items [simp]: "ct_items (snd (expirationCheck now es t)) = ct_items t"
  by (simp add: expirationCheck_def split: option.splits)

lemma Add_items:
  assumes "ct_Add now ord key life data t = Ret t1"
  shows "\<exists>item. ct_items t1 = gm_set key item (ct_items t)"
proof -
  let ?item = "NewCacheItem now key life data"
  let ?t = "t\<lparr>ct_items := gm_set key ?item (ct_items t), ct_cleanupInterval := 10\<rparr>"
  obtain ok t2 where e: "expirationCheck now (ord (ct_items ?t)) ?t = (ok, t2)" by fastforce
  have k: "ci_key ?item = key" by (simp add: NewCacheItem_def)
  have "ct_items t2 = ct_items ?t" using expirationCheck_items [of now "ord (ct_items ?t)" ?t] unfolding e by simp
  moreover have "t1 = t2 \<or> t1 = ?t" using assms e
    unfolding ct_Add_def addInternal_def Let_def k blocked_def by (auto split: if_splits)
  ultimately show ?thesis by auto
qed

lemma NotFoundAdd_items:
  assumes "ct_NotFoundAdd now ord key life data t = Ret (ex, t')"
  shows "ex \<and> t' = t \<or> \<not> ex \<and> \<not> gm_has (ct_items t) key \<and> (\<exists>item. ct_items t' = gm_set key item (ct_items t))"
  using assms Add_items [of now ord key life data t]
  by (auto simp: ct_NotFoundAdd_def ct_Exists_def blocked_def gm_has_def split: if_splits option.splits)

lemma reporters_snoc: "reporters c (rs @ [(M, ch, p, n, d, tx)]) h =
    (if hash_String (SignHash c tx) = h then insert p (reporters c rs h) else reporters c rs h)"
  by (simp add: reporters_def)

lemma finite_reporters [simp]: "finite (reporters c rs h)"
  unfolding reporters_def by (rule finite_set)

lemma suffix_eq: "length h = length h' \<Longrightarrow> q @ h = p @ h' \<longleftrightarrow> q = p \<and> h = h'"
  by auto

lemma counted_set:
  assumes "ct_items t' = gm_set (p @ h) item (ct_items (cc_cacheTxsTable cct))" and "length h = 64" and "length h' = 64"
  shows "counted \<lparr>cc_cacheTxsTable = t', cc_countDot = d\<rparr> h' = (if h' = h then insert p (counted cct h) else counted cct h')"
  using assms by (auto simp: counted_def suffix_eq)

text \<open>One report keeps the counts below the number of the peers that reported, and hands on only what a majority has reported.\<close>

lemma handleTx_votes:
  assumes v: "votes_ok c rs cct" and r: "handleTx c M ch p n d tx cct = Ret (out, cct')"
  defines "h \<equiv> hash_String (SignHash c tx)"
  shows "votes_ok c (rs @ [(M, ch, p, n, d, tx)]) cct' \<and> (out \<noteq> [] \<longrightarrow> unat n div 2 < card (insert p (reporters c rs h)))"
proof -
  have h: "length h = 64" by (simp add: h_def length_hash_String)
  define dots where "dots = (if gm_has (cc_countDot cct) h then cc_countDot cct else gm_set h (NewCountDot (me_now M)) (cc_countDot cct))"
  define dot where "dot = the (gm_get dots h)"
  have sub: "\<And>h'. length h' = 64 \<Longrightarrow> counted cct h' \<subseteq> reporters c rs h'" using v by (simp add: votes_ok_def)
  have dots: "unat (cd_cnt e) \<le> card (counted cct k) \<and> length k = 64" if "gm_get dots k = Some e" for k e
    using that v h by (auto simp: dots_def votes_ok_def NewCountDot_def gm_get_set split: if_splits)
  have hd: "gm_get dots h = Some dot" by (auto simp: dots_def dot_def gm_has_def)
  obtain ex t where n: "ct_NotFoundAdd (me_now M) (me_cache M) (p @ h) (life_span d) [] (cc_cacheTxsTable cct) = Ret (ex, t)"
    using r by (auto simp: handleTx_def h_def Let_def)
  show ?thesis
  proof (cases ex)
    case True
    then have "out = []" "cct' = \<lparr>cc_cacheTxsTable = cc_cacheTxsTable cct, cc_countDot = dots\<rparr>"
      using r n NotFoundAdd_items [OF n] by (auto simp: handleTx_def h_def [symmetric] Let_def dots_def)
    then show ?thesis using dots sub by (auto simp: votes_ok_def counted_def reporters_snoc)
  next
    case False
    then obtain item where i: "\<not> gm_has (ct_items (cc_cacheTxsTable cct)) (p @ h)" "ct_items t = gm_set (p @ h) item (ct_items (cc_cacheTxsTable cct))"
      using NotFoundAdd_items [OF n] by auto
    note cs = counted_set [OF i(2) h]
    have fin: "finite (counted cct h)" using sub [OF h] finite_reporters by (rule finite_subset)
    have new: "p \<notin> counted cct h" using i(1) by (simp add: counted_def)
    have "unat (cd_cnt dot + 1) \<le> Suc (unat (cd_cnt dot))" by (simp add: unat_word_ariths)
    then have up: "unat (cd_cnt dot + 1) \<le> card (insert p (counted cct h))" using dots [OF hd] fin new by simp
    have le: "card (insert p (counted cct h)) \<le> card (insert p (reporters c rs h))"
      by (rule card_mono) (use sub [OF h] in auto)
    have keep: "votes_ok c (rs @ [(M, ch, p, n, d, tx)]) \<lparr>cc_cacheTxsTable = t, cc_countDot = dd\<rparr>"
      if dd: "\<And>k e. gm_get dd k = Some e \<Longrightarrow> k = h \<and> cd_cnt e = cd_cnt dot + 1 \<or> k \<noteq> h \<and> gm_get dots k = Some e" for dd
      unfolding votes_ok_def
    proof (intro conjI allI impI)
      show "counted \<lparr>cc_cacheTxsTable = t, cc_countDot = dd\<rparr> k \<subseteq> reporters c (rs @ [(M, ch, p, n, d, tx)]) k" if "length k = 64" for k
        using sub [OF that] by (auto simp: cs [OF that] reporters_snoc h_def [symmetric])
      fix k e assume "gm_get (cc_countDot \<lparr>cc_cacheTxsTable = t, cc_countDot = dd\<rparr>) k = Some e"
      then have g: "gm_get dd k = Some e" by simp
      show k: "length k = 64" using dd [OF g] dots [of k e] h by auto
      show "unat (cd_cnt e) \<le> card (counted \<lparr>cc_cacheTxsTable = t, cc_countDot = dd\<rparr> k)"
        using dd [OF g] dots [of k e] up by (auto simp: cs [OF k])
    qed
    show ?thesis
    proof (cases "cd_cnt dot + 1 > n div 2 \<and> \<not> cd_flag dot")
      case True
      then have c': "cct' = \<lparr>cc_cacheTxsTable = t, cc_countDot = gm_del h dots\<rparr>"
        using r n \<open>\<not> ex\<close> by (simp add: handleTx_def h_def [symmetric] Let_def dots_def [symmetric] dot_def [symmetric])
      have "unat n div 2 < unat (cd_cnt dot + 1)" using True by (simp add: word_less_nat_alt unat_div)
      then have "unat n div 2 < card (insert p (reporters c rs h))" using up le by linarith
      moreover have "votes_ok c (rs @ [(M, ch, p, n, d, tx)]) cct'"
        unfolding c' by (rule keep) (simp add: gm_get_del split: if_splits)
      ultimately show ?thesis by blast
    next
      case False
      then have c': "out = []" "cct' = \<lparr>cc_cacheTxsTable = t, cc_countDot = gm_set h (dot\<lparr>cd_cnt := cd_cnt dot + 1\<rparr>) dots\<rparr>"
        using r n \<open>\<not> ex\<close> by (auto simp: handleTx_def h_def [symmetric] Let_def dots_def [symmetric] dot_def [symmetric])
      have "votes_ok c (rs @ [(M, ch, p, n, d, tx)]) cct'"
        unfolding c' by (rule keep) (auto simp: gm_get_set split: if_splits)
      then show ?thesis by (simp add: c'(1))
    qed
  qed
qed

lemma report_step_eq:
  "report_step c (M, ch, p, n, d, tx) cct = go_bind (handleTx c M ch p n d tx cct) (\<lambda>(_, cct'). Ret cct')"
  by (simp add: report_step_def)

lemma reports_votes:
  "go_fold (report_step c) rs cct = Ret cct' \<Longrightarrow> votes_ok c rs0 cct \<Longrightarrow> votes_ok c (rs0 @ rs) cct'"
proof (induction rs arbitrary: rs0 cct)
  case Nil
  then show ?case by simp
next
  case (Cons r rs)
  obtain M ch p n d tx where r: "r = (M, ch, p, n, d, tx)" by (cases r)
  obtain out cct1 where "handleTx c M ch p n d tx cct = Ret (out, cct1)" and rest: "go_fold (report_step c) rs cct1 = Ret cct'"
    using Cons.prems(1) by (auto simp: r report_step_eq)
  then have "votes_ok c (rs0 @ [r]) cct1" using handleTx_votes [OF Cons.prems(2)] by (simp add: r)
  from Cons.IH [OF rest this] show ?case by simp
qed

text \<open>C9: A transaction is handed on only when a majority has reported it. Whatever reports a chain has sent, in which order and at
  which times, a report hands its transaction on only if the peers that have reported a transaction with this hash, each
  counted once, are more than half of the number of peers that the report gives.\<close>

theorem agreement_needs_majority:
  assumes "go_fold (report_step c) rs (NewChainCacheTable name) = Ret cct"
    and "handleTx c M chainID peerID peerNum duration tx cct = Ret (out, cct')" and "out \<noteq> []"
  shows "unat peerNum div 2 < card (insert peerID (reporters c rs (hash_String (SignHash c tx))))"
proof -
  have "votes_ok c [] (NewChainCacheTable name)"
    by (simp add: votes_ok_def NewChainCacheTable_def NewCacheTable_def counted_def gm_has_def)
  then have "votes_ok c rs cct" using reports_votes [OF assms(1)] by fastforce
  from handleTx_votes [OF this assms(2)] show ?thesis using assms(3) by simp
qed

definition sample_me :: "int \<Rightarrow> merge_env" where
  "sample_me now = \<lparr>me_now = now, me_cache = id, me_net = id, me_backup = id, me_config = merge_DefaultConfig\<rparr>"

abbreviation sample_report :: "string \<Rightarrow> report" where
  "sample_report peer \<equiv> (sample_me 0, ''0001'', peer, 3, 60, sample_move [0, 1] [0, 2] 5)"

theorem agreement_needs_majority_witness:
  "\<exists>cct out cct'. go_fold (report_step sample_c) [sample_report ''a''] (NewChainCacheTable []) = Ret cct \<and>
     handleTx sample_c (sample_me 1) ''0001'' ''b'' 3 60 (sample_move [0, 1] [0, 2] 5) cct = Ret (out, cct') \<and> length out = 1 \<and>
     1 < card (insert ''b'' (reporters sample_c [sample_report ''a''] (hash_String (SignHash sample_c (sample_move [0, 1] [0, 2] 5)))))"
proof -
  let ?tx = "sample_move [0, 1] [0, 2] 5"
  define h where "h = hash_String (SignHash sample_c ?tx)"
  obtain cct where a: "go_fold (report_step sample_c) [sample_report ''a''] (NewChainCacheTable []) = Ret cct" and
    c: "ct_items (cc_cacheTxsTable cct) = [(''a'' @ h, NewCacheItem 0 (''a'' @ h) (life_span 60) [])]"
    "\<not> ct_stuck (cc_cacheTxsTable cct)" "ct_cleanupInterval (cc_cacheTxsTable cct) = 300000000000" "cc_countDot cct = [(h, \<lparr>cd_cnt = 1, cd_flag = False, cd_createTime = 0\<rparr>)]"
    by (simp add: report_step_def handleTx_def sample_me_def NewChainCacheTable_def NewCacheTable_def ct_NotFoundAdd_def ct_Exists_def
        ct_Add_def addInternal_def expirationCheck_def NewCacheItem_def life_span_def Let_def NewCountDot_def h_def gm_has_def)
  obtain out cct' where o: "handleTx sample_c (sample_me 1) ''0001'' ''b'' 3 60 ?tx cct = Ret (out, cct')" and l: "length out = 1"
    by (simp add: handleTx_def sample_me_def h_def [symmetric] Let_def ct_NotFoundAdd_def ct_Exists_def ct_Add_def addInternal_def c gm_has_def)
  have "unat (3 :: u32) div 2 < card (insert ''b'' (reporters sample_c [sample_report ''a''] (hash_String (SignHash sample_c ?tx))))"
    by (rule agreement_needs_majority [OF a o]) (use l in auto)
  then show ?thesis using a o l by (intro exI [of _ cct] exI [of _ out] exI [of _ cct']) simp
qed

section \<open>Expired items\<close>

lemma expiration_walk_expired:
  "(k, item) \<in> set es \<Longrightarrow> now - ci_createdOn item > ci_lifeSpan item \<Longrightarrow> expiration_walk now es d = None"
  by (induction now es d rule: expiration_walk.induct) (auto simp: Let_def)


definition sample_table :: CacheTable where
  "sample_table = (NewCacheTable [])\<lparr>ct_items := [(''a'', NewCacheItem 0 ''a'' 300 [])], ct_cleanupTimer := Some 300, ct_cleanupInterval := 300\<rparr>"


lemma span_fits: "0 \<le> i \<Longrightarrow> (- (2 ^ 63) \<le> 5000000000 * i \<and> 5000000000 * i < 2 ^ 63) \<longleftrightarrow> i \<le> (1844674407 :: int)"
  by auto

text \<open>The life span of a reported transaction is five seconds for each unit of the duration only up to the duration 1844674407;
  beyond it the product wraps. The duration that a node sends by default is beyond it: the minute that is meant, counted in
  nanoseconds and cut to 32 bits, gives a life span of some 75 years.\<close>

theorem life_span_wraps:
  "(life_span d = 5000000000 * uint d \<longleftrightarrow> uint d \<le> 1844674407) \<and>
   life_span (word_of_int (mc_MergeDuration merge_DefaultConfig)) = 2380381686290448384"
proof
  have "ucast d * 5000000000 = (word_of_int (5000000000 * uint d) :: 64 word)"
    by (simp only: of_int_mult of_int_numeral ucast_eq mult.commute)
  then have l: "life_span d = signed_take_bit 63 (5000000000 * uint d)"
    unfolding life_span_def by (simp only: sint_sbintrunc') simp
  show "life_span d = 5000000000 * uint d \<longleftrightarrow> uint d \<le> 1844674407"
    unfolding l signed_take_bit_int_eq_self_iff by (rule span_fits) simp
  show "life_span (word_of_int (mc_MergeDuration merge_DefaultConfig)) = 2380381686290448384"
    by (simp add: life_span_def merge_DefaultConfig_def)
qed

end
