(* ===== verification/Node.thy ===== *)
theory Node
  imports Blockchain_Laws Consenter Merge_Laws
begin

text \<open>
  The node (\<^verbatim>\<open>node/handler.go\<close>, \<^verbatim>\<open>message.go\<close>, \<^verbatim>\<open>protocol.go\<close>): the protocol manager, which joins the blockchain, the
  consensus plugin, the merge service and the network. It relays what the node makes, answers the messages of its peers and
  those of the message network, sends what the merge service asks for, and keeps a node that is behind in step. A peer is its
  connection; what is sent to one is recorded in \<open>pm_sent\<close>, what is sent over the message network in \<open>pm_msgnet\<close>, and what is
  handed to the RPC server in \<open>pm_rpc\<close>. New objects get the address \<open>p\<close>.
\<close>

section \<open>Messages\<close>

definition baseMsg :: u8 where "baseMsg = 0x10"

datatype node_cmd = statusMsg | getBlocksMsg | blockMsg | txMsg | invMsg | getdataMsg | consensusMsg | broadcastAckMergeTxsMsg

definition node_code :: "node_cmd \<Rightarrow> u8" where
  "node_code k = baseMsg + (case k of statusMsg \<Rightarrow> 1 | getBlocksMsg \<Rightarrow> 2 | blockMsg \<Rightarrow> 3 | txMsg \<Rightarrow> 4 | invMsg \<Rightarrow> 5 | getdataMsg \<Rightarrow> 6
     | consensusMsg \<Rightarrow> 7 | broadcastAckMergeTxsMsg \<Rightarrow> 8)"

definition InvTypeTx :: u8 where "InvTypeTx = 0"
definition InvTypeBlock :: u8 where "InvTypeBlock = 1"

record StatusData =
  sd_Version :: u32
  sd_StartHeight :: u32

record GetBlocks =
  gb_Version :: u32
  gb_LocatorHashes :: "Hash list"
  gb_HashStop :: Hash

record InvVect =
  iv_Type :: u8
  iv_Hashes :: "Hash list"

record GetData =
  gd_InvList :: "InvVect list"

definition sd_val :: "StatusData \<Rightarrow> gval" where
  "sd_val s = VStruct [VUint (ucast (sd_Version s)), VUint (ucast (sd_StartHeight s))]"

definition val_sd :: "gval \<Rightarrow> StatusData" where
  "val_sd v = (let f = as_fields v in \<lparr>sd_Version = ucast (as_uint (f ! 0)), sd_StartHeight = ucast (as_uint (f ! 1))\<rparr>)"

definition sd_ty :: gty where "sd_ty = TStruct [TUint 32, TUint 32]"

definition gb_val :: "GetBlocks \<Rightarrow> gval" where
  "gb_val g = VStruct [VUint (ucast (gb_Version g)), VSlice (map VArray (gb_LocatorHashes g)), VArray (gb_HashStop g)]"

definition val_gb :: "gval \<Rightarrow> GetBlocks" where
  "val_gb v = (let f = as_fields v in
     \<lparr>gb_Version = ucast (as_uint (f ! 0)), gb_LocatorHashes = map as_bytes (as_fields (f ! 1)), gb_HashStop = as_bytes (f ! 2)\<rparr>)"

definition gb_ty :: gty where "gb_ty = TStruct [TUint 32, TSlice (TArray 32), TArray 32]"

definition iv_val :: "InvVect \<Rightarrow> gval" where
  "iv_val i = VStruct [VUint (ucast (iv_Type i)), VSlice (map VArray (iv_Hashes i))]"

definition val_iv :: "gval \<Rightarrow> InvVect" where
  "val_iv v = (let f = as_fields v in \<lparr>iv_Type = ucast (as_uint (f ! 0)), iv_Hashes = map as_bytes (as_fields (f ! 1))\<rparr>)"

definition iv_ty :: gty where "iv_ty = TStruct [TUint 8, TSlice (TArray 32)]"

definition gd_val :: "GetData \<Rightarrow> gval" where
  "gd_val g = VStruct [VSlice (map iv_val (gd_InvList g))]"

definition val_gd :: "gval \<Rightarrow> GetData" where
  "val_gd v = \<lparr>gd_InvList = map val_iv (as_fields (as_fields v ! 0))\<rparr>"

definition gd_ty :: gty where "gd_ty = TStruct [TSlice iv_ty]"

section \<open>The protocol manager\<close>

record ('d, 'k) ProtocolManager =
  pm_bc :: "'d Blockchain"
  pm_consenter :: "'k Consenter"
  pm_msgCh :: "Msg list"
  pm_isStarted :: bool
  pm_highest :: u32
  pm_filter :: "bytes list"
  pm_sent :: "(conn \<times> Msg) list"
  pm_msgnet :: "(string \<times> bytes \<times> bytes) list"
  pm_merger :: Helper
  pm_rpc :: "(string \<times> bytes) list"

text \<open>The Bloom filter is a library: \<open>nd_Test\<close> tells what it answers after some elements were added. The node's key is a
  parameter as well, \<open>nd_Sign\<close>.\<close>

record 'd node_env =
  nd_be :: "'d bc_env"
  nd_Test :: "bytes list \<Rightarrow> bytes \<Rightarrow> bool"
  nd_Sign :: "bytes \<Rightarrow> bytes option"
  nd_localID :: bytes
  nd_me :: merge_env

abbreviation nd_crypto :: "'d node_env \<Rightarrow> crypto_env" where
  "nd_crypto E \<equiv> be_crypto (nd_be E)"

definition VersionMajor :: u32 where "VersionMajor = 0"
definition VersionMinor :: u32 where "VersionMinor = 8"

definition NewProtocolManager :: "'d Blockchain \<Rightarrow> 'k Consenter \<Rightarrow> ('d, 'k) ProtocolManager" where
  "NewProtocolManager blockchain consenter = \<lparr>pm_bc = blockchain, pm_consenter = consenter, pm_msgCh = [], pm_isStarted = False,
     pm_highest = 0, pm_filter = [], pm_sent = [], pm_msgnet = [], pm_merger = NewHelper, pm_rpc = []\<rparr>"

definition node_send :: "'d node_env \<Rightarrow> conn \<Rightarrow> node_cmd \<Rightarrow> bytes \<Rightarrow> ('d, 'k) ProtocolManager \<Rightarrow> ('d, 'k) ProtocolManager" where
  "node_send E cn k payload pm = pm\<lparr>pm_sent := pm_sent pm @ [(cn, NewMsg (nd_crypto E) (node_code k) payload)]\<rparr>"

definition getblocks_from_head :: "'d node_env \<Rightarrow> ('d, 'k) ProtocolManager \<Rightarrow> bytes" where
  "getblocks_from_head E pm = Serialize (gb_val
     \<lparr>gb_Version = VersionMajor, gb_LocatorHashes = [CurrentBlockHash (nd_be E) (pm_bc pm)], gb_HashStop = zero_hash\<rparr>)"

definition handleShake :: "'d node_env \<Rightarrow> conn \<Rightarrow> ('d, 'k) ProtocolManager \<Rightarrow> ('d, 'k) ProtocolManager" where
  "handleShake E cn pm = node_send E cn statusMsg
     (Serialize (sd_val \<lparr>sd_Version = VersionMinor, sd_StartHeight = CurrentHeight (pm_bc pm)\<rparr>)) pm"

section \<open>Relaying\<close>

text \<open>A transaction is copied through its serialized form before it is processed.\<close>

definition Relay_tx :: "nat \<Rightarrow> 'd node_env \<Rightarrow> Transaction \<Rightarrow> ('d, 'k) ProtocolManager \<Rightarrow> ('d, 'k) ProtocolManager go" where
  "Relay_tx p E inventory pm =
     (let tx = fst (tx_Deserialize p (tx_Serialize inventory)) in
      if tx_Type tx = TypeMerged
      then Ret (pm\<lparr>pm_msgCh := pm_msgCh pm @ [NewMsg (nd_crypto E) (node_code broadcastAckMergeTxsMsg) (tx_Serialize inventory)]\<rparr>)
      else go_bind (ProcessTransaction (nd_be E) tx (pm_bc pm)) (\<lambda>(ok, bc').
        Ret (pm\<lparr>pm_bc := bc', pm_msgCh := pm_msgCh pm @ (if ok then [NewMsg (nd_crypto E) (node_code txMsg) (tx_Serialize inventory)] else [])\<rparr>)))"

definition block_inv :: "'d node_env \<Rightarrow> Block \<Rightarrow> Msg" where
  "block_inv E b = NewMsg (nd_crypto E) (node_code invMsg)
     (Serialize (iv_val \<lparr>iv_Type = InvTypeBlock, iv_Hashes = [fst (bk_Hash (nd_crypto E) b)]\<rparr>))"

definition note_block :: "'d node_env \<Rightarrow> bool \<Rightarrow> Block \<Rightarrow> Msg list \<Rightarrow> Msg list" where
  "note_block E ok b ch = ch @ (if ok then [block_inv E b] else [])"

definition Relay_block :: "'d node_env \<Rightarrow> ('d, Msg list) relay" where
  "Relay_block E inventory s =
     go_bind (ProcessBlock (nd_be E) inventory True (fst s)) (\<lambda>((ok, b), bc'). Ret (bc', note_block E ok b (snd s)))"

text \<open>An output of the consensus on the node: the blockchain handles it and relays the block through the manager.\<close>

definition pm_output :: "'d node_env \<Rightarrow> OutputTxs \<Rightarrow> ('d, 'k) ProtocolManager \<Rightarrow> ('d, 'k) ProtocolManager go" where
  "pm_output E out pm =
     go_bind (on_output (nd_be E) (Relay_block E) out (pm_bc pm, pm_msgCh pm)) (\<lambda>(bc', ch). Ret (pm\<lparr>pm_bc := bc', pm_msgCh := ch\<rparr>))"

section \<open>Messages of peers\<close>

definition OnStatus :: "'d node_env \<Rightarrow> Msg \<Rightarrow> conn \<Rightarrow> ('d, 'k) ProtocolManager \<Rightarrow> ('d, 'k) ProtocolManager" where
  "OnStatus E m cn pm =
     (case Deserialize sd_ty (ms_Payload m) of
        (_, Some _) \<Rightarrow> pm
      | (v, None) \<Rightarrow>
          let remote = val_sd v in
          if CurrentHeight (pm_bc pm) < sd_StartHeight remote then
            let pm1 = (if sd_StartHeight remote > pm_highest pm then pm\<lparr>pm_highest := sd_StartHeight remote\<rparr> else pm)
            in node_send E cn getBlocksMsg (getblocks_from_head E pm1) pm1
          else if \<not> pm_isStarted pm then pm\<lparr>pm_isStarted := True, pm_bc := bc_Start (nd_be E) (pm_bc pm)\<rparr>
          else pm)"

definition OnTx :: "nat \<Rightarrow> 'd node_env \<Rightarrow> Msg \<Rightarrow> ('d, 'k) ProtocolManager \<Rightarrow> ('d, 'k) ProtocolManager go" where
  "OnTx p E m pm0 =
     (let pm = pm0\<lparr>pm_filter := pm_filter pm0 @ [ms_Payload m]\<rparr> in
      if nd_Test E (pm_filter pm0) (ms_Payload m) then Ret pm
      else case tx_Deserialize p (ms_Payload m) of
        (_, Some _) \<Rightarrow> Ret pm
      | (tx, None) \<Rightarrow> go_bind (ProcessTransaction (nd_be E) tx (pm_bc pm)) (\<lambda>(ok, bc').
          Ret (pm\<lparr>pm_bc := bc', pm_msgCh := pm_msgCh pm @ (if ok then [m] else [])\<rparr>)))"

text \<open>The loop over the chain, which has no bound of its own: \<open>None\<close> is a loop that does not end.\<close>

partial_function (option) next_hashes :: "'d bc_env \<Rightarrow> 'd Blockchain \<Rightarrow> Hash \<Rightarrow> Hash list \<Rightarrow> Hash list go option" where
  "next_hashes E bc hash hashes =
     (case GetNextBlockHash E bc hash of
        Panic s \<Rightarrow> Some (Panic s)
      | Ret (h, err) \<Rightarrow> if err \<noteq> None \<or> h = zero_hash then Some (Ret hashes) else next_hashes E bc h (hashes @ [h]))"

definition OnGetBlocks :: "'d node_env \<Rightarrow> Msg \<Rightarrow> conn \<Rightarrow> ('d, 'k) ProtocolManager \<Rightarrow> ('d, 'k) ProtocolManager go option" where
  "OnGetBlocks E m cn pm =
     (case Deserialize gb_ty (ms_Payload m) of
        (_, Some _) \<Rightarrow> Some (Ret pm)
      | (v, None) \<Rightarrow>
          let hash = fold (\<lambda>h _. h) (gb_LocatorHashes (val_gb v)) zero_hash in
          map_option (\<lambda>res. go_bind res (\<lambda>hashes.
            Ret (if length hashes > 0
                 then node_send E cn invMsg (Serialize (iv_val \<lparr>iv_Type = InvTypeBlock, iv_Hashes = hashes\<rparr>)) pm else pm)))
            (next_hashes (nd_be E) (pm_bc pm) hash []))"

text \<open>Writing the log entry computes the hash of the block as it arrived, which caches it.\<close>

definition OnBlock :: "nat \<Rightarrow> 'd node_env \<Rightarrow> Msg \<Rightarrow> conn \<Rightarrow> ('d, 'k) ProtocolManager \<Rightarrow> ('d, 'k) ProtocolManager go" where
  "OnBlock p E m cn pm =
     (case bk_Deserialize p (ms_Payload m) of
        (_, Some _) \<Rightarrow> Ret pm
      | (blk0, None) \<Rightarrow>
          let blk = snd (bk_Hash (nd_crypto E) blk0) in
          if CurrentHeight (pm_bc pm) + 1 < bh_Height (bk_Header blk)
          then Ret (node_send E cn getBlocksMsg (getblocks_from_head E pm) pm)
          else go_bind (ProcessBlock (nd_be E) blk False (pm_bc pm)) (\<lambda>((ok, _), bc').
            let pm1 = pm\<lparr>pm_bc := bc'\<rparr> in
            Ret (if ok \<and> \<not> pm_isStarted pm \<and> CurrentHeight bc' = pm_highest pm
                 then pm1\<lparr>pm_isStarted := True, pm_bc := bc_Start (nd_be E) bc'\<rparr> else pm1)))"

definition keep_unknown :: "(Hash \<Rightarrow> bool go) \<Rightarrow> Hash \<Rightarrow> Hash list \<Rightarrow> Hash list go" where
  "keep_unknown known h hashes = go_bind (known h) (\<lambda>k. Ret (if k then hashes else hashes @ [h]))"

definition has_tx :: "nat \<Rightarrow> 'd node_env \<Rightarrow> ('d, 'k) ProtocolManager \<Rightarrow> Hash \<Rightarrow> bool go" where
  "has_tx p E pm h = go_bind (bc_GetTransaction p (nd_be E) (pm_bc pm) h) (\<lambda>res. Ret (case res of Inl _ \<Rightarrow> False | Inr _ \<Rightarrow> True))"

definition has_block :: "'d node_env \<Rightarrow> ('d, 'k) ProtocolManager \<Rightarrow> Hash \<Rightarrow> bool go" where
  "has_block E pm h = go_bind (bs_GetBlockByHash (e_rocks (be_env (nd_be E))) (lg_db (bc_ledger (pm_bc pm))) h)
     (\<lambda>res. Ret (case res of Inl _ \<Rightarrow> False | Inr _ \<Rightarrow> True))"

definition OnInv :: "nat \<Rightarrow> 'd node_env \<Rightarrow> Msg \<Rightarrow> conn \<Rightarrow> ('d, 'k) ProtocolManager \<Rightarrow> ('d, 'k) ProtocolManager go" where
  "OnInv p E m cn pm =
     (if bc_synced (pm_bc pm) then Ret pm
      else case Deserialize iv_ty (ms_Payload m) of
        (_, Some _) \<Rightarrow> Ret pm
      | (v, None) \<Rightarrow>
          let inventory = val_iv v in
          go_bind
            (if iv_Type inventory = InvTypeTx then go_fold (keep_unknown (has_tx p E pm)) (iv_Hashes inventory) []
             else if iv_Type inventory = InvTypeBlock then go_fold (keep_unknown (has_block E pm)) (iv_Hashes inventory) []
             else Ret [])
            (\<lambda>hashes. Ret (if length hashes > 0
               then node_send E cn getdataMsg (Serialize (gd_val \<lparr>gd_InvList = [\<lparr>iv_Type = iv_Type inventory, iv_Hashes = hashes\<rparr>]\<rparr>)) pm
               else pm)))"

text \<open>The first block that cannot be read ends the loop over the blocks.\<close>

fun send_blocks :: "nat \<Rightarrow> 'd node_env \<Rightarrow> conn \<Rightarrow> Hash list \<Rightarrow> ('d, 'k) ProtocolManager \<Rightarrow> ('d, 'k) ProtocolManager go" where
  "send_blocks p E cn [] pm = Ret pm"
| "send_blocks p E cn (h # hs) pm =
     (let r = e_rocks (be_env (nd_be E)); db = lg_db (bc_ledger (pm_bc pm)) in
      go_bind (bs_GetBlockByHash r db h) (\<lambda>res.
        case res of
          Inl _ \<Rightarrow> Ret pm
        | Inr header \<Rightarrow>
            go_bind (bs_GetTransactionsByHash p r db h 100) (\<lambda>res.
              case res of
                Inl _ \<Rightarrow> Ret pm
              | Inr txs \<Rightarrow>
                  send_blocks p E cn hs
                    (node_send E cn blockMsg (bk_Serialize \<lparr>bk_Header = header, bk_Transactions = txs, bk_hash_cache = None\<rparr>) pm))))"

definition send_tx :: "nat \<Rightarrow> 'd node_env \<Rightarrow> conn \<Rightarrow> Hash \<Rightarrow> ('d, 'k) ProtocolManager \<Rightarrow> ('d, 'k) ProtocolManager go" where
  "send_tx p E cn h pm = go_bind (bc_GetTransaction p (nd_be E) (pm_bc pm) h) (\<lambda>res.
     Ret (case res of Inl _ \<Rightarrow> pm | Inr tx \<Rightarrow> node_send E cn txMsg (tx_Serialize tx) pm))"

definition OnGetData :: "nat \<Rightarrow> 'd node_env \<Rightarrow> Msg \<Rightarrow> conn \<Rightarrow> ('d, 'k) ProtocolManager \<Rightarrow> ('d, 'k) ProtocolManager go" where
  "OnGetData p E m cn pm =
     (case Deserialize gd_ty (ms_Payload m) of
        (_, Some _) \<Rightarrow> Ret pm
      | (v, None) \<Rightarrow>
          go_fold (\<lambda>inventory.
              if iv_Type inventory = InvTypeBlock then send_blocks p E cn (iv_Hashes inventory)
              else if iv_Type inventory = InvTypeTx then go_fold (send_tx p E cn) (iv_Hashes inventory)
              else Ret)
            (gd_InvList (val_gd v)) pm)"

definition OnConsensus :: "Msg \<Rightarrow> ('d, 'k) ProtocolManager \<Rightarrow> ('d, 'k) ProtocolManager" where
  "OnConsensus m pm = pm\<lparr>pm_consenter := cs_RecvConsensus (ms_Payload m) (pm_consenter pm)\<rparr>"

text \<open>One turn of \<^verbatim>\<open>handleMsg\<close> with a message, and whether the loop goes on.\<close>

definition handleMsg :: "nat \<Rightarrow> 'd node_env \<Rightarrow> Msg \<Rightarrow> conn \<Rightarrow> ('d, 'k) ProtocolManager \<Rightarrow> (bool \<times> ('d, 'k) ProtocolManager) go option" where
  "handleMsg p E m cn pm =
     (let on = (\<lambda>k. ms_Cmd m = node_code k); next = (\<lambda>res. go_bind res (\<lambda>pm'. Ret (True, pm'))) in
      if on statusMsg then Some (Ret (False, pm))
      else if on getBlocksMsg then map_option next (OnGetBlocks E m cn pm)
      else if on invMsg then Some (next (OnInv p E m cn pm))
      else if on txMsg then Some (next (if pm_isStarted pm then OnTx p E m pm else Ret pm))
      else if on blockMsg then Some (next (OnBlock p E m cn pm))
      else if on getdataMsg then Some (next (OnGetData p E m cn pm))
      else if on consensusMsg then Some (Ret (True, if pm_isStarted pm then OnConsensus m pm else pm))
      else if on broadcastAckMergeTxsMsg then Some (Ret (True, pm\<lparr>pm_merger := HandleLocalMsg p (nd_crypto E) m (pm_merger pm)\<rparr>))
      else Some (Ret (True, pm)))"

text \<open>The beginning of \<^verbatim>\<open>handle\<close>: the node tells its height and expects that of the other side.\<close>

definition handle_first :: "'d node_env \<Rightarrow> Msg \<Rightarrow> conn \<Rightarrow> ('d, 'k) ProtocolManager \<Rightarrow> bool \<times> ('d, 'k) ProtocolManager" where
  "handle_first E msg cn pm =
     (let pm1 = handleShake E cn pm in
      if ms_Cmd msg = node_code statusMsg then (True, OnStatus E msg cn pm1) else (False, pm1))"

section \<open>The message network\<close>

definition peerAddress :: "'d node_env \<Rightarrow> string" where
  "peerAddress E = cc_String (NewChainCoordinate (ChainID (e_params (be_env (nd_be E))))) @ '':'' @ BytesToHex (nd_localID E)"

definition SendMsgnetMessage :: "'d node_env \<Rightarrow> string \<Rightarrow> string \<Rightarrow> MnMessage \<Rightarrow> ('d, 'k) ProtocolManager \<Rightarrow> bool \<times> ('d, 'k) ProtocolManager" where
  "SendMsgnetMessage E src dst msg pm =
     (let h = Sha256 (nd_crypto E) (mn_Serialize msg @ str_bytes (src @ dst)) in
      case nd_Sign E (Sha256 (nd_crypto E) h) of
        None \<Rightarrow> (False, pm)
      | Some sig \<Rightarrow> (True, pm\<lparr>pm_msgnet := pm_msgnet pm @ [(dst, mn_Serialize msg, sig)]\<rparr>))"

text \<open>What the merge service asks the node to send.\<close>

fun ProcessEvent :: "nat \<Rightarrow> 'd node_env \<Rightarrow> merge_event \<Rightarrow> ('d, 'k) ProtocolManager \<Rightarrow> ('d, 'k) ProtocolManager go" where
  "ProcessEvent p E (TxEvent msg dstChainID peerID) pm = Ret (snd (SendMsgnetMessage E peerID dstChainID msg pm))"
| "ProcessEvent p E (AckMergeTxEvent msg chainID peerID) pm =
     Ret (snd (SendMsgnetMessage E (mc_PeerID (me_config (nd_me E))) (merge_peerAddress chainID peerID) msg pm))"
| "ProcessEvent p E (AckMergedTxEvent msg chainID peerID) pm =
     Ret (snd (SendMsgnetMessage E (mc_PeerID (me_config (nd_me E))) (merge_peerAddress chainID peerID) msg pm))"
| "ProcessEvent p E (BroadcastAckMergeTxEvent tx) pm = Relay_tx p E tx pm"

text \<open>The two goroutines of the merge service on the node: the ticker that merges, and the loop that takes transactions out of
  the channel of the parser.\<close>

definition pm_merge_tick :: "nat \<Rightarrow> 'd node_env \<Rightarrow> ('d, 'k) ProtocolManager \<Rightarrow> ('d, 'k) ProtocolManager go" where
  "pm_merge_tick p E pm =
     (let M = nd_me E in
      go_bind (merge_tick p (be_env (nd_be E)) (me_config M) (me_net M) (me_backup M) (mh_txMerge (pm_merger pm), bc_db (pm_bc pm))) (\<lambda>(events, tm, db).
        go_fold (ProcessEvent p E) events (pm\<lparr>pm_merger := (pm_merger pm)\<lparr>mh_txMerge := tm\<rparr>, pm_bc := set_db db (pm_bc pm)\<rparr>)))"

definition pm_merge_take :: "nat \<Rightarrow> 'd node_env \<Rightarrow> ('d, 'k) ProtocolManager \<Rightarrow> ('d, 'k) ProtocolManager go" where
  "pm_merge_take p E pm =
     (case mh_txMergeChan (pm_merger pm) of
        [] \<Rightarrow> Ret pm
      | peerTx # rest \<Rightarrow>
          go_bind (handleMergeTx (nd_be E) (nd_me E) peerTx ((pm_merger pm)\<lparr>mh_txMergeChan := rest\<rparr>, pm_bc pm)) (\<lambda>(events, h, bc).
            go_fold (ProcessEvent p E) events (pm\<lparr>pm_merger := h, pm_bc := bc\<rparr>)))"

text \<open>One turn of \<^verbatim>\<open>consensusReadLoop\<close>.\<close>

definition consensus_read :: "'d node_env \<Rightarrow> ('d, 'k) ProtocolManager \<Rightarrow> ('d, 'k) ProtocolManager" where
  "consensus_read E pm =
     (case cs_BroadcastConsensus (pm_consenter pm) of
        None \<Rightarrow> pm
      | Some (consensusData, cs) \<Rightarrow>
          let pm1 = pm\<lparr>pm_consenter := cs\<rparr> in
          if HexToChainCoordinate (bc_To consensusData) = ChainID (e_params (be_env (nd_be E)))
          then pm1\<lparr>pm_msgCh := pm_msgCh pm1 @ [NewMsg (nd_crypto E) (node_code consensusMsg) (bc_Payload consensusData)]\<rparr>
          else snd (SendMsgnetMessage E (peerAddress E) (bc_To consensusData)
            \<lparr>mn_Cmd = mn_code ChainConsensusMsg, mn_Payload = bc_Payload consensusData\<rparr> pm1))"

definition parseID :: "string \<Rightarrow> ChainCoordinate \<times> bytes" where
  "parseID address =
     (let ids = split_at (CHR '':'') address in
      (HexToChainCoordinate (ids ! 0), if length ids = 2 then HexToBytes (ids ! 1) else []))"

text \<open>\<^verbatim>\<open>strconv.Atoi\<close> with its error dropped: 0 for a text that is no number, the nearest value for one out of range.\<close>

definition digit :: "char \<Rightarrow> nat option" where
  "digit ch = (let n = of_char ch :: nat in if 48 \<le> n \<and> n \<le> 57 then Some (n - 48) else None)"

definition read_digits :: "string \<Rightarrow> nat option" where
  "read_digits s = (if s = [] then None else fold (\<lambda>ch acc. case (acc, digit ch) of (Some a, Some d) \<Rightarrow> Some (10 * a + d) | _ \<Rightarrow> None) s (Some 0))"

definition Atoi :: "string \<Rightarrow> int" where
  "Atoi s =
     (let (neg, ds) = (case s of [] \<Rightarrow> (False, []) | ch # rest \<Rightarrow>
            if ch = CHR ''-'' then (True, rest) else if ch = CHR ''+'' then (False, rest) else (False, s))
      in case read_digits ds of None \<Rightarrow> 0 | Some n \<Rightarrow> if neg then max (- (2 ^ 63)) (- int n) else min (2 ^ 63 - 1) (int n))"

text \<open>A signature that is nil is not checked at all, and of one that is there only that some key can be recovered from it;
  whose key it is, is not looked at.\<close>

definition msgnet_signed :: "'d node_env \<Rightarrow> string \<Rightarrow> string \<Rightarrow> bytes \<Rightarrow> bytes option \<Rightarrow> string option" where
  "msgnet_signed E src dst payload signature =
     (case signature of
        None \<Rightarrow> None
      | Some s \<Rightarrow>
          let sig = take SignatureSize (s @ replicate SignatureSize 0) in
          if \<not> sig_Validate (nd_crypto E) sig then Some ''msg-net signature error''
          else case sig_RecoverPublicKey (nd_crypto E) sig (Sha256 (nd_crypto E) (payload @ str_bytes (src @ dst))) of
            Some (Some pub) \<Rightarrow> None
          | _ \<Rightarrow> Some ''PubilcKey verify error'')"

definition handleMsgnetMessage ::
  "nat \<Rightarrow> 'd node_env \<Rightarrow> string \<Rightarrow> string \<Rightarrow> bytes \<Rightarrow> bytes option \<Rightarrow> ('d, 'k) ProtocolManager \<Rightarrow> (string option \<times> ('d, 'k) ProtocolManager) go" where
  "handleMsgnetMessage p E src dst payload signature pm =
     (case msgnet_signed E src dst payload signature of
        Some err \<Rightarrow> Ret (Some err, pm)
      | None \<Rightarrow>
          let msg = mn_Deserialize payload; on = (\<lambda>k. mn_Cmd msg = mn_code k) in
          if on ChainConsensusMsg then Ret (None, pm\<lparr>pm_consenter := cs_RecvConsensus (mn_Payload msg) (pm_consenter pm)\<rparr>)
          else if on ChainTxMsg then
            go_bind (ProcessTransaction (nd_be E) (fst (tx_Deserialize p (mn_Payload msg))) (pm_bc pm)) (\<lambda>(_, bc'). Ret (None, pm\<lparr>pm_bc := bc'\<rparr>))
          else if on ChainMergeTxsMsg \<or> on ChainAckMergeTxsMsg \<or> on ChainAckedMergeTxsMsg then
            (case parseID src of (chainID, peerID) \<Rightarrow>
               go_bind (HandleNetMsg p (nd_be E) (nd_me E) (mn_Cmd msg) (cc_String chainID) (BytesToHex peerID) msg (pm_bc pm) (pm_merger pm)) (\<lambda>(events, h').
               go_bind (go_fold (ProcessEvent p E) events (pm\<lparr>pm_merger := h'\<rparr>)) (\<lambda>pm'. Ret (None, pm'))))
          else if on ChainRpcMsg then Ret (None, pm\<lparr>pm_rpc := pm_rpc pm @ [(src, mn_Payload msg)]\<rparr>)
          else if on ChainChangeCfgMsg then
            let pm1 = pm\<lparr>pm_consenter := cs_ChangeBlockSize (Atoi (bytes_str (mn_Payload msg))) (pm_consenter pm)\<rparr> in
            if length (split_at (CHR '':'') src) < 2 then Panic ''index out of range'' else Ret (None, pm1)
          else Ret (None, pm))"

end
