(* ===== verification/Spec2Isabelle.thy ===== *)
theory Spec2Isabelle
  imports Tx_Pool Lbft_Exec Lbft_Votes Lbft_Checkpoint Node_Laws
begin

text \<open>
  A model of the L0 ledger node.

  \<^bold>\<open>The program.\<close> A node keeps a chain of blocks. Clients and peers send it transactions; the \<^emph>\<open>validator\<close> checks them
  against the accounts it has cached and keeps them in the order of their nonces per sender. The \<^emph>\<open>consensus\<close>, either
  LBFT, which votes with the other nodes, or a plugin without votes, asks the validator for groups of transactions and
  hands out what was agreed on. The \<^emph>\<open>blockchain\<close> service makes a block of each output, in the order of their heights, and
  the \<^emph>\<open>ledger\<close> executes it: payments move balances in the \<^emph>\<open>account state\<close>, contracts run in a \<^emph>\<open>machine\<close> of their own
  process and change the \<^emph>\<open>contract context\<close>, and everything is written with the block itself in one atomic batch of the
  \<^emph>\<open>database\<close>. Transactions between chains are collected in the \<^emph>\<open>merge store\<close>; the \<^emph>\<open>merge service\<close> nets them, sends the
  result to the chain above and, there, counts how many nodes reported it. The \<^emph>\<open>protocol manager\<close> joins all of this to the
  peers, which the \<^emph>\<open>peer manager\<close> connects, and to the message network.

  \<^bold>\<open>Conventions\<close> (\<open>Prelude\<close>). A Go function that may panic returns \<open>'a go\<close>; one that also changes state and
  may return an error is an \<open>('e, 's, 'a) exec\<close>, a function from the state to the result and the new state. Fixed-width
  integers are words, \<^verbatim>\<open>*big.Int\<close> is \<open>int option\<close> with \<open>None\<close> for nil, a Go map is an association list with
  distinct keys, and a \<^verbatim>\<open>range\<close> loop over a map takes any order that \<open>range_order\<close> admits. Names are those of the
  source, with a prefix where two packages use the same name.

  \<^bold>\<open>Goroutines.\<close> An operation that holds its lock is one step. Where goroutines wait for each other, the model has their
  steps: a channel is a list, a timer an option, a \<^verbatim>\<open>select\<close> loop a function of its events. \<open>Async_Seq\<close> and \<open>Lbft_Core\<close> split a
  function where it blocks and let the pieces interleave; \<open>Lbft_Run\<close> gives the events of a replica, \<open>P2p\<close> those of the peer
  manager, \<open>Blockchain\<close> a step per output of the consensus, \<open>Consenter\<close> the events of the plugin without votes, \<open>Node\<close> the steps
  of the merge service on a node. A goroutine that waits for a lock for ever is the result \<open>blocked\<close> (\<open>Merge_Cache\<close>).

  \<^bold>\<open>Theories.\<close>

  \<^item> \<open>Encoding\<close>, \<open>Encoding_Laws\<close>: \<^verbatim>\<open>components/utils\<close> (\<^verbatim>\<open>varlen.go\<close>, \<^verbatim>\<open>data_convert.go\<close>, \<^verbatim>\<open>json.go\<close>,
    \<^verbatim>\<open>encoding.go\<close>). The reflective encoder works on a datatype of Go values, its decoder on a datatype of Go types. Laws:
    decoding inverts encoding up to what the wire loses; which texts a fixed-size value accepts.
  \<^item> \<open>Go_List\<close>: \<^verbatim>\<open>container/list\<close> of the Go library on an explicit store. \<open>Pool_Spec\<close>: the abstract pool, a list
    without duplicate keys, with the locale of its laws. \<open>Linked_List\<close>, \<open>Sorted_List\<close>, \<open>Tx_Pool\<close>:
    \<^verbatim>\<open>linkedlist.go\<close>, \<^verbatim>\<open>sortedlinkedlist.go\<close>, \<^verbatim>\<open>txpool.go\<close>, each proved to implement the abstract pool.
  \<^item> \<open>Vote\<close>, \<open>Map_Set\<close>: \<^verbatim>\<open>components/utils/vote/vote.go\<close>, \<^verbatim>\<open>core/blockchain/mapset.go\<close>.
  \<^item> \<open>Crypto\<close>, \<open>Types\<close>: \<^verbatim>\<open>components/crypto\<close> (digest and curve are parameters), \<^verbatim>\<open>core/coordinate\<close>,
    \<^verbatim>\<open>core/accounts/address.go\<close>, \<^verbatim>\<open>core/types\<close>. Laws: the Merkle root commits to its list, transactions and blocks
    survive the wire, caches of hash and sender are right.
  \<^item> \<open>Validator_Account\<close>, \<open>Validator\<close>: \<^verbatim>\<open>core/blockchain/validator.go\<close>, the account of one sender and the
    validator over all of them. Laws: what is accepted, which orphans are released, what grouping returns; and the
    cases in which replacing, committing or rolling back a transaction goes wrong.
  \<^item> \<open>Db\<close>: \<^verbatim>\<open>components/db/db.go\<close> over RocksDB, a parameter with its documented behaviour (\<open>rocks_ok\<close>); \<open>mem_rocks\<close>
    is an instance. \<open>db_val\<close> is what reads return; all laws of the ledger are stated over it.
  \<^item> \<open>State\<close>: \<^verbatim>\<open>core/ledger/state\<close>, refining an abstract bank (a map from addresses to amount and nonce).
  \<^item> \<open>Block_Storage\<close>, \<open>Merge_Storage\<close>: \<^verbatim>\<open>core/ledger/block_storage\<close>, \<^verbatim>\<open>core/ledger/merge\<close>. Laws: a block that
    was written is read back; what the merge store accumulates and hands out.
  \<^item> \<open>Contract\<close>, \<open>Vm\<close>: \<^verbatim>\<open>core/ledger/contract\<close>, \<^verbatim>\<open>vm\<close>. A script is the tree of the calls that the engine makes; the
    engines are a parameter. Laws: a script cannot change the ledger before its commit, a commit carries over exactly its
    queued changes, the batches of a block carry the contract cache to the database.
  \<^item> \<open>Ledger\<close>, \<open>Ledger_Laws\<close>: \<^verbatim>\<open>core/ledger/ledger.go\<close>. Laws: appending a block of payments refines the bank; a chain
    grown from an empty database passes \<^verbatim>\<open>VerifyChain\<close>; a contract that fails still moves funds in the cache.
  \<^item> \<open>Lbft_Message\<close>, \<open>Async_Seq\<close>, \<open>Lbft_State\<close>, \<open>Lbft_Core\<close>, \<open>Lbft\<close>, \<open>Lbft_Run\<close>: \<^verbatim>\<open>core/consensus/lbft\<close>. The messages with their wire
    form, the order of goroutines by sequence number, the replica and its instances, and the events of a run. \<open>Lbft_Laws\<close>,
    \<open>Lbft_Exec\<close>, \<open>Lbft_Votes\<close>, \<open>Lbft_Checkpoint\<close>: two replicas execute the same batches, in order, without gaps and only with the
    announcements of a quorum; what a phase and an election need; which batches a checkpoint passes on.
  \<^item> \<open>Blockchain\<close>, \<open>Blockchain_Laws\<close>: \<^verbatim>\<open>core/blockchain/blockchain.go\<close>, \<^verbatim>\<open>stack.go\<close>, \<^verbatim>\<open>validator_filter.go\<close>. The network behind
    it is the locale \<open>network_stack\<close>. Laws: the head in memory and the stored chain stay together, a restarted node resumes at
    the stored head, and what follows a block that could not be written.
  \<^item> \<open>Consenter\<close>: \<^verbatim>\<open>core/consensus/noops\<close>, \<^verbatim>\<open>consenter\<close>, \<^verbatim>\<open>helper\<close>. Law: the plugin never writes a block unless its block size is 1.
  \<^item> \<open>P2p_Message\<close>, \<open>P2p\<close>, \<open>P2p_Laws\<close>: \<^verbatim>\<open>core/p2p\<close> (\<^verbatim>\<open>message.go\<close>, \<^verbatim>\<open>peer.go\<close>, \<^verbatim>\<open>peer_manager.go\<close>, \<^verbatim>\<open>protocol.go\<close>, \<^verbatim>\<open>server.go\<close>), with
    \<^verbatim>\<open>components/crypto/ca.go\<close> and the messages of \<^verbatim>\<open>msgnet\<close>. Laws: no two connected peers have the same ID; what the handshake
    admits; which messages end the process.
  \<^item> \<open>Merge_Cache\<close>, \<open>Merge\<close>, \<open>Merge_Laws\<close>: \<^verbatim>\<open>core/merge\<close>. Laws: netting keeps the balance between every two chains; a transaction is
    handed on only when a majority reported it; an item that expires blocks its table.
  \<^item> \<open>Node\<close>, \<open>Node_Laws\<close>: \<^verbatim>\<open>node\<close>. Laws: an output of the consensus becomes the next block and is announced; a request for blocks
    is answered, in finitely many turns, with the rest of the chain; an acknowledgement ends the repetition of a merged
    transaction on all nodes of a chain.

  \<^bold>\<open>Bounds and fuel.\<close> No definition uses fuel: loops over lists recurse on the list, the queues of a commit and the orphans
  of the blockchain are emptied by functions whose termination is proved, the decoder recurses on the type. The one loop
  without a bound of its own, over the hashes that answer a request for blocks, is a \<open>partial_function\<close> whose value \<open>None\<close> is a
  loop that does not end; it is proved to return on every stored chain. Hypotheses bound sizes where the code writes a
  length in 64 bits: amounts with fewer than \<open>2^64\<close> bytes (\<open>amount_fits\<close>), lists with fewer than \<open>2^64\<close> elements. Heights stay
  below \<open>2^32\<close> and sequence numbers below \<open>2^63\<close>, where the counters of the code do not wrap.

  \<^bold>\<open>Parameters.\<close> Code outside the repository is an argument of the definitions: RocksDB (\<open>rocks\<close>), the digest and the curve
  (\<open>crypto_env\<close>), the script engines, certificates, RSA and the parser of URLs (\<open>certs\<close>, \<open>p2p_env\<close>), the Bloom filter and the
  key of a node (\<open>node_env\<close>), times of day and the orders of map loops.

  \<^bold>\<open>Not modelled.\<close> Sockets (\<^verbatim>\<open>core/p2p/tcp.go\<close>), the construction of the server from files and keys, and the peer of the message
  network, which is third-party code: input and output. Key files, ciphers and the generation of certificates. The RPC
  services, which pass requests on to the parts above. Configuration, logging, the command line and the reports of a node's
  status. The pipes between node and machine, the conversion of values in the engines, and \<^verbatim>\<open>PreExecute\<close>, which has no caller.
  \<^verbatim>\<open>GetByPrefix\<close> of the database, which iterates into a channel.
\<close>

end
